(* ===== verification/Prelude.thy ===== *)
theory Prelude
  imports Main "HOL-Library.Word"
begin

text \<open>
  Shared vocabulary of the development: the machine integers of the Rust code as words,
  byte arrays, the saturating and little/big-endian operations of the Rust standard
  library, results with an explicit panic, and the two generic interfaces the components
  use (fixed-width codecs and state machines that keep an invariant).

  \<^item> \<open>u8\<close>, \<open>u32\<close>, \<open>u64\<close> are words: \<open>+\<close>, \<open>-\<close>, \<open>*\<close> wrap, as they do in the release
    build of the code.
  \<^item> \<open>i32\<close> is the word whose signed value (\<open>sint\<close>) is the number.
  \<^item> a Rust array \<open>[u8; 32]\<close> is a 256-bit word whose big-endian bytes are the array
    (\<open>bytes32\<close> lists them, \<open>arr32\<close> reads them back), so every value of the type is a
    value of the array type and the other way round; \<open>[u8; 64]\<close> is a 512-bit word.
  \<^item> a \<open>Vec<u8>\<close> or \<open>&[u8]\<close> is a list of \<open>u8\<close>.
  \<^item> collection sizes and indices (\<open>usize\<close>) are \<open>nat\<close> where they count elements of a list.
\<close>

section \<open>Types\<close>

type_synonym u8 = "8 word"
type_synonym u16 = "16 word"
type_synonym u32 = "32 word"
type_synonym u64 = "64 word"
type_synonym i32 = "32 word"
type_synonym bytes = "u8 list"
type_synonym hash32 = "256 word"
type_synonym sig64 = "512 word"

named_theorems codec_simps "length and injectivity of the fixed-width encoders"

section \<open>Saturating arithmetic of the standard library\<close>

definition saturating_add :: "'a::len word \<Rightarrow> 'a word \<Rightarrow> 'a word" where
  "saturating_add a b = (if unat a + unat b < 2 ^ LENGTH('a) then a + b else - 1)"

definition saturating_sub :: "'a::len word \<Rightarrow> 'a word \<Rightarrow> 'a word" where
  "saturating_sub a b = (if b \<le> a then a - b else 0)"

lemma unat_max_word: "unat (- 1 :: 'a::len word) = 2 ^ LENGTH('a) - 1"
  by (simp add: unsigned_minus_1_eq_mask mask_eq_exp_minus_1)

lemma unat_less_exp: "unat (w :: 'a::len word) < 2 ^ LENGTH('a)"
  by (rule unsigned_less)

lemma unat_saturating_add:
  "unat (saturating_add a b) = min (unat a + unat b) (2 ^ LENGTH('a) - 1)"
  for a b :: "'a::len word"
  by (auto simp: saturating_add_def unat_max_word unat_word_ariths)

lemma unat_saturating_sub: "unat (saturating_sub a b) = unat a - unat b"
  by (auto simp: saturating_sub_def word_le_nat_alt unat_sub)

lemma unat_eqI: "unat a = unat b \<Longrightarrow> a = b" for a b :: "'a::len word"
  by (metis unsigned_word_eqI)

lemma unat_min: "unat (min a b) = min (unat a) (unat b)" for a b :: "'a::len word"
  by (simp add: min_def word_le_nat_alt)

lemma unat_of_nat_small: "n < 2 ^ LENGTH('a) \<Longrightarrow> unat (of_nat n :: 'a::len word) = n"
  by (simp add: unat_of_nat take_bit_nat_eq_self)

lemma unat_add_no_overflow:
  "unat a + unat b < 2 ^ LENGTH('a) \<Longrightarrow> unat (a + b) = unat a + unat b"
  for a b :: "'a::len word"
  by (simp add: unat_word_ariths)

lemma unat_sub_no_underflow: "b \<le> a \<Longrightarrow> unat (a - b) = unat a - unat b"
  for a b :: "'a::len word"
  by (simp add: unat_sub)

section \<open>Byte encodings of integers\<close>

text \<open>\<open>le_bytes n v\<close> is the little-endian encoding of \<open>v\<close> in \<open>n\<close> bytes, \<open>le_val\<close> reads one.\<close>

fun le_bytes :: "nat \<Rightarrow> nat \<Rightarrow> bytes" where
  "le_bytes 0 v = []"
| "le_bytes (Suc n) v = of_nat v # le_bytes n (v div 256)"

fun le_val :: "bytes \<Rightarrow> nat" where
  "le_val [] = 0"
| "le_val (b # bs) = unat b + 256 * le_val bs"

lemma length_le_bytes [simp]: "length (le_bytes n v) = n"
  by (induction n arbitrary: v) auto

lemma le_val_le_bytes: "le_val (le_bytes n v) = v mod 256 ^ n"
proof (induction n arbitrary: v)
  case 0
  then show ?case by simp
next
  case (Suc n)
  have "le_val (le_bytes (Suc n) v) = v mod 256 + 256 * (v div 256 mod 256 ^ n)"
    using Suc.IH by (simp add: unat_of_nat)
  also have "\<dots> = v mod 256 ^ Suc n"
    by (simp add: mod_mult2_eq)
  finally show ?case .
qed

lemma le_val_less: "le_val bs < 256 ^ length bs"
proof (induction bs)
  case Nil
  then show ?case by simp
next
  case (Cons b bs)
  have "unat b < 256" using unat_less_exp [of b] by simp
  then have "unat b + 256 * le_val bs < 256 * Suc (le_val bs)" by simp
  also have "\<dots> \<le> 256 * 256 ^ length bs"
    using Cons.IH by (intro mult_le_mono2) simp
  finally show ?case by simp
qed

lemma le_bytes_le_val [simp]: "le_bytes (length bs) (le_val bs) = bs"
proof (induction bs)
  case Nil
  then show ?case by simp
next
  case (Cons b bs)
  have b: "unat b < 256" using unat_less_exp [of b] by simp
  then have "(unat b + 256 * le_val bs) div 256 = le_val bs" by simp
  moreover have "(256 :: u8) * of_nat (le_val bs) = 0"
  proof -
    have "(256 :: u8) = 0" by (simp add: word_eq_iff_unsigned)
    then show ?thesis by (metis mult_zero_left)
  qed
  then have "of_nat (unat b + 256 * le_val bs) = b" by simp
  ultimately show ?case using Cons.IH by simp
qed

lemma le_val_append: "le_val (xs @ ys) = le_val xs + 256 ^ length xs * le_val ys"
  by (induction xs) (auto simp: algebra_simps)

text \<open>\<open>to_le_bytes\<close>, \<open>to_be_bytes\<close> and \<open>from_le_bytes\<close> of the integer types.\<close>

definition le64 :: "u64 \<Rightarrow> bytes" where "le64 w = le_bytes 8 (unat w)"
definition le32 :: "u32 \<Rightarrow> bytes" where "le32 w = le_bytes 4 (unat w)"
definition be32 :: "u32 \<Rightarrow> bytes" where "be32 w = rev (le_bytes 4 (unat w))"
definition from_le64 :: "bytes \<Rightarrow> u64" where "from_le64 bs = of_nat (le_val bs)"
definition from_le32 :: "bytes \<Rightarrow> u32" where "from_le32 bs = of_nat (le_val bs)"
definition from_be32 :: "bytes \<Rightarrow> u32" where "from_be32 bs = of_nat (le_val (rev bs))"

text \<open>The bytes of a \<open>[u8; 32]\<close> and of a \<open>[u8; 64]\<close>, index 0 first.\<close>

definition bytes32 :: "hash32 \<Rightarrow> bytes" where "bytes32 h = rev (le_bytes 32 (unat h))"
definition arr32 :: "bytes \<Rightarrow> hash32" where "arr32 bs = of_nat (le_val (rev bs))"
definition bytes64 :: "sig64 \<Rightarrow> bytes" where "bytes64 s = rev (le_bytes 64 (unat s))"
definition arr64 :: "bytes \<Rightarrow> sig64" where "arr64 bs = of_nat (le_val (rev bs))"

definition byte1 :: "u8 \<Rightarrow> bytes" where "byte1 b = [b]"
definition from_byte1 :: "bytes \<Rightarrow> u8" where "from_byte1 bs = (case bs of [] \<Rightarrow> 0 | b # _ \<Rightarrow> b)"

section \<open>The fixed-width codec interface\<close>

text \<open>
  Every serialised field of fixed width comes with an encoder that always writes the same
  number of bytes and a decoder that inverts it. Concatenations of such fields can be split
  again, which is what makes the canonical encodings of transactions, headers and
  acknowledgements injective.
\<close>

locale fixed_codec =
  fixes enc :: "'a \<Rightarrow> bytes"
    and dec :: "bytes \<Rightarrow> 'a"
    and width :: nat
  assumes enc_length: "length (enc x) = width"
    and dec_enc: "dec (enc x) = x"
begin

lemma enc_inj: "enc x = enc y \<longleftrightarrow> x = y"
  by (metis dec_enc)

lemma append_inj: "enc x @ r = enc y @ s \<longleftrightarrow> x = y \<and> r = s"
  by (auto simp: enc_length enc_inj)

lemma snoc_inj: "r @ enc x = s @ enc y \<longleftrightarrow> r = s \<and> x = y"
  by (auto simp: enc_length enc_inj)

lemma take_enc: "take width (enc x @ r) = enc x"
  by (simp add: enc_length)

lemma dec_take: "dec (take width (enc x @ r)) = x"
  by (simp only: take_enc dec_enc)

end

lemma unat_less_64: "unat (w :: u64) < 18446744073709551616"
  using unat_less_exp [of w] by simp

lemma unat_less_32: "unat (w :: u32) < 4294967296"
  using unat_less_exp [of w] by simp

lemma of_nat_mod_unat: "unat w < n \<Longrightarrow> of_nat (unat w mod n) = w"
  for w :: "'a::len word"
  by simp

interpretation c64: fixed_codec le64 from_le64 8
  by unfold_locales (simp_all add: le64_def from_le64_def le_val_le_bytes unat_less_64)

interpretation c32: fixed_codec le32 from_le32 4
  by unfold_locales (simp_all add: le32_def from_le32_def le_val_le_bytes unat_less_32)

interpretation cb32: fixed_codec be32 from_be32 4
  by unfold_locales (simp_all add: be32_def from_be32_def le_val_le_bytes unat_less_32)

interpretation ch: fixed_codec bytes32 arr32 32
proof unfold_locales
  fix x :: hash32
  have "unat x < 256 ^ 32" using unat_less_exp [of x] by simp
  then show "arr32 (bytes32 x) = x"
    by (simp add: bytes32_def arr32_def le_val_le_bytes)
qed (simp add: bytes32_def)

interpretation csig: fixed_codec bytes64 arr64 64
proof unfold_locales
  fix x :: sig64
  have "unat x < 256 ^ 64" using unat_less_exp [of x] by simp
  then show "arr64 (bytes64 x) = x"
    by (simp add: bytes64_def arr64_def le_val_le_bytes)
qed (simp add: bytes64_def)

interpretation c8: fixed_codec byte1 from_byte1 1
  by unfold_locales (simp_all add: byte1_def from_byte1_def)

lemmas enc_lengths [simp, codec_simps] =
  c64.enc_length c32.enc_length cb32.enc_length ch.enc_length csig.enc_length c8.enc_length

lemmas dec_encs [simp, codec_simps] =
  c64.dec_enc c32.dec_enc cb32.dec_enc ch.dec_enc csig.dec_enc c8.dec_enc

lemmas append_injs [codec_simps] =
  c64.append_inj c32.append_inj cb32.append_inj ch.append_inj csig.append_inj c8.append_inj

lemmas enc_injs [codec_simps] =
  c64.enc_inj c32.enc_inj cb32.enc_inj ch.enc_inj csig.enc_inj c8.enc_inj

lemma bytes32_arr32: "length bs = 32 \<Longrightarrow> bytes32 (arr32 bs) = bs"
proof -
  assume len: "length bs = 32"
  have "le_val (rev bs) < 2 ^ 256" using le_val_less [of "rev bs"] len by simp
  then have "unat (arr32 bs) = le_val (rev bs)"
    by (simp add: arr32_def unat_of_nat take_bit_nat_eq_self)
  then show ?thesis
    using len le_bytes_le_val [of "rev bs"] by (simp add: bytes32_def)
qed

lemma le32_from_le32: "length bs = 4 \<Longrightarrow> le32 (from_le32 bs) = bs"
proof -
  assume len: "length bs = 4"
  have "le_val bs < 2 ^ 32" using le_val_less [of bs] len by simp
  then have "unat (from_le32 bs) = le_val bs"
    by (simp add: from_le32_def unat_of_nat take_bit_nat_eq_self)
  then show ?thesis using le_bytes_le_val [of bs] len by (simp add: le32_def)
qed

section \<open>State machines that keep an invariant\<close>

text \<open>
  A component whose operations are described by a step function over events: what holds at
  the start and is kept by every step holds after every run.
\<close>

locale invariant_machine =
  fixes step :: "'s \<Rightarrow> 'e \<Rightarrow> 's"
    and inv :: "'s \<Rightarrow> bool"
  assumes step_inv: "inv s \<Longrightarrow> inv (step s e)"
begin

lemma run_inv: "inv s \<Longrightarrow> inv (foldl step s es)"
  by (induction es arbitrary: s) (auto intro: step_inv)

lemma run_prefix_inv: "inv s \<Longrightarrow> inv (foldl step s (take n es))"
  by (rule run_inv)

end

text \<open>
  The same where a step may use up part of a budget (the room left in the chain, say): a run
  keeps the invariant as long as the whole cost is within the budget. A machine that keeps an
  invariant outright is the case of no cost.
\<close>

locale budget_machine =
  fixes step :: "'s \<Rightarrow> 'e \<Rightarrow> 's"
    and cost :: "'e \<Rightarrow> nat"
    and inv :: "nat \<Rightarrow> 's \<Rightarrow> bool"
  assumes step_budget: "inv (cost e + n) s \<Longrightarrow> inv n (step s e)"
begin

lemma run_budget: "inv (sum_list (map cost es) + n) s \<Longrightarrow> inv n (foldl step s es)"
  by (induction es arbitrary: s) (auto simp: add.assoc intro: step_budget)

end

sublocale invariant_machine \<subseteq> free: budget_machine step "\<lambda>_. 0" "\<lambda>_. inv"
  by unfold_locales (simp add: step_inv)

section \<open>Small facts on maps and lists\<close>

lemma map_upd_dom_absorb: "k \<in> dom m \<Longrightarrow> dom (m(k \<mapsto> v)) = dom m"
  by auto

lemma sum_map_upd:
  fixes f :: "'v \<Rightarrow> nat"
  assumes "finite (dom m)"
  shows "(\<Sum>x\<in>dom (m(k \<mapsto> v)). f (the ((m(k \<mapsto> v)) x)))
         + (case m k of None \<Rightarrow> 0 | Some w \<Rightarrow> f w)
       = (\<Sum>x\<in>dom m. f (the (m x))) + f v"
proof -
  have "(\<Sum>x\<in>dom m - {k}. f (the ((m(k \<mapsto> v)) x))) = (\<Sum>x\<in>dom m - {k}. f (the (m x)))"
    by (rule sum.cong) auto
  moreover have "(\<Sum>x\<in>dom (m(k \<mapsto> v)). f (the ((m(k \<mapsto> v)) x)))
      = f v + (\<Sum>x\<in>dom m - {k}. f (the ((m(k \<mapsto> v)) x)))"
    using assms by (simp add: sum.insert_remove)
  moreover have "(\<Sum>x\<in>dom m. f (the (m x)))
      = (case m k of None \<Rightarrow> 0 | Some w \<Rightarrow> f w) + (\<Sum>x\<in>dom m - {k}. f (the (m x)))"
  proof (cases "m k")
    case None
    then have "dom m - {k} = dom m" by auto
    then show ?thesis using None by simp
  next
    case (Some w)
    then have "k \<in> dom m" by auto
    then show ?thesis using assms Some by (simp add: sum.remove)
  qed
  ultimately show ?thesis by simp
qed

end
