(* ===== verification/Extern.thy ===== *)
theory Extern
  imports Prelude
begin

text \<open>
  The third-party crates the code calls, as one record of functions: SHA3-256 (\<open>sha3\<close>),
  Ed25519 (\<open>ed25519_dalek\<close>) and hexadecimal text (\<open>hex\<close>). Nothing is defined about them
  here; \<open>crypto_ok\<close> states the documented behaviour that the code relies on and is a named
  hypothesis of the properties that need it. Also the error type of the core crate and the
  result type with an explicit panic.
\<close>

section \<open>Third-party functions\<close>

record crypto =
  sha3_digest :: "bytes \<Rightarrow> hash32"
  vk_from_bytes_ok :: "hash32 \<Rightarrow> bool"
  ed_verify :: "hash32 \<Rightarrow> bytes \<Rightarrow> sig64 \<Rightarrow> bool"
  ed_public :: "hash32 \<Rightarrow> hash32"
  ed_sign :: "hash32 \<Rightarrow> bytes \<Rightarrow> sig64"
  hex_encode :: "bytes \<Rightarrow> string"
  hex_decode :: "string \<Rightarrow> bytes option"

text \<open>
  \<open>hex_ok\<close>: \<open>hex::encode\<close> writes two digits per byte and \<open>hex::decode\<close> inverts it and
  accepts only texts of twice as many digits as bytes. \<open>ed_ok\<close>: the public key of a
  signing key is a valid point, and a signature made with a key verifies under its public
  key.
\<close>

definition hex_ok :: "crypto \<Rightarrow> bool" where
  "hex_ok C \<longleftrightarrow>
     (\<forall>bs. hex_decode C (hex_encode C bs) = Some bs \<and> length (hex_encode C bs) = 2 * length bs) \<and>
     (\<forall>s bs. hex_decode C s = Some bs \<longrightarrow> length s = 2 * length bs) \<and>
     (\<forall>bs c. c \<in> set (hex_encode C bs) \<longrightarrow> c \<in> set ''0123456789abcdef'')"

definition ed_ok :: "crypto \<Rightarrow> bool" where
  "ed_ok C \<longleftrightarrow>
     (\<forall>k. vk_from_bytes_ok C (ed_public C k)) \<and>
     (\<forall>k m. ed_verify C (ed_public C k) m (ed_sign C k m))"

section \<open>Errors and results\<close>

text \<open>
  \<open>TaronError\<close> (core/src/error.rs). The texts given to \<open>Serialization\<close>, \<open>KeyError\<close> and
  \<open>Validation\<close> are kept where the code writes them; the text of an error of a third-party
  crate (\<open>e.to_string()\<close>) is left out, as \<open>None\<close>.
\<close>

datatype taron_error =
    InvalidSignature
  | InvalidPosc
  | InsufficientBalance (ib_have: u64) (ib_need: u64)
  | InvalidSequence (is_expected: u64) (is_got: u64)
  | InvalidTimestamp
  | TransactionTooLarge (tl_size: nat)
  | UnknownSender (us_address: string)
  | Serialization string
  | KeyError "string option"
  | Validation string
  | InvalidBlock

text \<open>A panic (\<open>expect\<close>, \<open>unwrap\<close>, an index out of range) is a value of its own.\<close>

datatype fault = Err taron_error | Panic

type_synonym 'a result = "taron_error + 'a"
type_synonym 'a partial = "fault + 'a"

fun is_ok :: "'e + 'a \<Rightarrow> bool" where
  "is_ok (Inr _) = True"
| "is_ok (Inl _) = False"

lemma is_ok_iff: "is_ok r \<longleftrightarrow> (\<exists>x. r = Inr x)"
  by (cases r) auto

section \<open>A concrete instance for witnesses\<close>

text \<open>
  A small instance of \<open>crypto\<close> that satisfies both laws: the digest reads eight bytes of its
  input past the first 32 (so a SEQUAL hash reads the first eight bytes of its seed), text has
  two hexadecimal digits per byte, and a signature repeats the key. It only shows that the
  hypotheses can hold together.
\<close>

definition hex_digit :: "nat \<Rightarrow> char" where
  "hex_digit n = ''0123456789abcdef'' ! (n mod 16)"

fun hex_index :: "char \<Rightarrow> string \<Rightarrow> nat option" where
  "hex_index c [] = None"
| "hex_index c (d # ds) = (if c = d then Some 0 else map_option Suc (hex_index c ds))"

definition hex_value :: "char \<Rightarrow> nat option" where
  "hex_value c = hex_index c ''0123456789abcdef''"

fun toy_hex_encode :: "bytes \<Rightarrow> string" where
  "toy_hex_encode [] = []"
| "toy_hex_encode (b # bs) = hex_digit (unat b div 16) # hex_digit (unat b) # toy_hex_encode bs"

fun toy_hex_decode :: "string \<Rightarrow> bytes option" where
  "toy_hex_decode [] = Some []"
| "toy_hex_decode [c] = None"
| "toy_hex_decode (c # d # s) =
     (case (hex_value c, hex_value d, toy_hex_decode s) of
        (Some h, Some l, Some bs) \<Rightarrow> Some (of_nat (16 * h + l) # bs)
      | _ \<Rightarrow> None)"

definition toy_crypto :: crypto where
  "toy_crypto = \<lparr>sha3_digest = (\<lambda>bs. of_nat (le_val (take 8 (drop 32 bs)))),
     vk_from_bytes_ok = (\<lambda>_. True),
     ed_verify = (\<lambda>k m s. s = of_nat (unat k)),
     ed_public = (\<lambda>k. k),
     ed_sign = (\<lambda>k m. of_nat (unat k)),
     hex_encode = toy_hex_encode,
     hex_decode = toy_hex_decode\<rparr>"

lemma hex_value_digit: "n < 16 \<Longrightarrow> hex_value (hex_digit n) = Some n"
proof -
  assume "n < 16"
  then have "n \<in> set [0..<16]" by simp
  moreover have "\<forall>n \<in> set [0..<16]. hex_value (hex_digit n) = Some n" by code_simp
  ultimately show ?thesis by blast
qed

lemma hex_digit_mod: "hex_digit (n mod 16) = hex_digit n"
  by (simp add: hex_digit_def)

lemma hex_digit_in: "hex_digit n \<in> set ''0123456789abcdef''"
  by (simp only: hex_digit_def, rule nth_mem) simp

lemma toy_hex_round: "toy_hex_decode (toy_hex_encode bs) = Some bs"
proof (induction bs)
  case Nil
  then show ?case by simp
next
  case (Cons b bs)
  have b: "unat b < 256" using unat_less_exp [of b] by simp
  have hi: "hex_value (hex_digit (unat b div 16)) = Some (unat b div 16)"
    by (rule hex_value_digit) (use b in simp)
  have lo: "hex_value (hex_digit (unat b)) = Some (unat b mod 16)"
    using hex_value_digit [of "unat b mod 16"] by (simp add: hex_digit_mod)
  show ?case using Cons.IH hi lo by (simp del: of_nat_add of_nat_mult)
qed

lemma toy_hex_length: "length (toy_hex_encode bs) = 2 * length bs"
  by (induction bs) auto

lemma toy_hex_digits: "c \<in> set (toy_hex_encode bs) \<Longrightarrow> c \<in> set ''0123456789abcdef''"
proof (induction bs)
  case (Cons b bs)
  then show ?case
    using hex_digit_in [of "unat b div 16"] hex_digit_in [of "unat b"]
    by (metis set_ConsD toy_hex_encode.simps(2))
qed simp

lemma toy_hex_decode_length: "toy_hex_decode s = Some bs \<Longrightarrow> length s = 2 * length bs"
  by (induction s arbitrary: bs rule: toy_hex_decode.induct) (auto split: option.splits)

lemma toy_hex_ok: "hex_ok toy_crypto"
  using toy_hex_digits
  by (auto simp only: hex_ok_def toy_crypto_def crypto.simps toy_hex_round toy_hex_length
      toy_hex_decode_length)

lemma toy_ed_ok: "ed_ok toy_crypto"
  by (simp add: ed_ok_def toy_crypto_def)

end
