(* ===== verification/Hash.thy ===== *)
theory Hash
  imports Extern
begin

unbundle bit_operations_syntax

text \<open>
  SEQUAL-256 (core/src/hash.rs): scratchpad expansion, the sequential mixing chain, the
  transaction-proof hash with its 4 MiB scratchpad, the mining hash with its 256 KiB one,
  and the difficulty test. An index out of the scratchpad would be a panic and is the value
  \<open>None\<close>; that it never happens is proved, for every scratchpad that is not empty.
\<close>

section \<open>Constants\<close>

definition SCRATCHPAD_U64S :: nat where "SCRATCHPAD_U64S = 4 * 1024 * 1024 div 8"
definition MINING_SCRATCHPAD_U64S :: nat where "MINING_SCRATCHPAD_U64S = 256 * 1024 div 8"
definition GOLDEN_RATIO :: u64 where "GOLDEN_RATIO = 0x9e3779b97f4a7c15"
definition POSC_STEPS :: u32 where "POSC_STEPS = 2000"
definition MINING_STEPS :: u32 where "MINING_STEPS = 1000"

definition sha3_256 :: "crypto \<Rightarrow> bytes \<Rightarrow> hash32" where
  "sha3_256 C data = sha3_digest C data"

section \<open>Expansion of the seed\<close>

text \<open>
  \<open>fill_chunks\<close> is the inner \<open>for chunk in current.chunks(8)\<close>: it stops when the index
  reaches the end. \<open>expand_loop\<close> is the outer \<open>while idx < len\<close>; four words are written
  in every round that does not finish.
\<close>

fun fill_chunks :: "bytes list \<Rightarrow> nat \<Rightarrow> u64 list \<Rightarrow> nat \<times> u64 list" where
  "fill_chunks [] idx pad = (idx, pad)"
| "fill_chunks (chunk # chunks) idx pad =
     (if idx \<ge> length pad then (idx, pad)
      else fill_chunks chunks (Suc idx) (pad[idx := from_le64 chunk]))"

fun chunks8 :: "bytes \<Rightarrow> bytes list" where
  "chunks8 [] = []"
| "chunks8 (b # bs) = take 8 (b # bs) # chunks8 (drop 7 bs)"

lemma fill_chunks_length: "length (snd (fill_chunks cs idx pad)) = length pad"
  by (induction cs idx pad rule: fill_chunks.induct) auto

lemma fill_chunks_idx: "idx \<le> fst (fill_chunks cs idx pad)"
  by (induction cs idx pad rule: fill_chunks.induct) auto

lemma fill_chunks_progress:
  "cs \<noteq> [] \<Longrightarrow> idx < length pad \<Longrightarrow> idx < fst (fill_chunks cs idx pad)"
  by (cases cs) (auto intro: less_le_trans [OF _ fill_chunks_idx])

lemma chunks8_nonempty: "bs \<noteq> [] \<Longrightarrow> chunks8 bs \<noteq> []"
  by (cases bs) auto

lemma bytes32_nonempty: "bytes32 h \<noteq> []"
  using ch.enc_length [of h] by fastforce

function expand_loop :: "crypto \<Rightarrow> hash32 \<Rightarrow> nat \<Rightarrow> u64 list \<Rightarrow> u64 list" where
  "expand_loop C current idx pad =
     (if idx < length pad
      then let (idx', pad') = fill_chunks (chunks8 (bytes32 current)) idx pad
           in expand_loop C (sha3_256 C (bytes32 current @ le64 (of_nat idx'))) idx' pad'
      else pad)"
  by pat_completeness auto

termination
proof (relation "measure (\<lambda>(C, current, idx, pad). length pad - idx)", goal_cases)
  case (2 C current idx pad x idx' pad')
  have x: "x = (idx', pad')" using 2 by simp
  have "idx < fst x"
    using 2 fill_chunks_progress [OF chunks8_nonempty [OF bytes32_nonempty]] by simp
  moreover have "length (snd x) = length pad" using 2 fill_chunks_length by simp
  ultimately show ?case using 2(1) x by simp
qed simp

declare expand_loop.simps [simp del]

definition expand_scratchpad :: "crypto \<Rightarrow> bytes \<Rightarrow> u64 list \<Rightarrow> u64 list" where
  "expand_scratchpad C seed pad = expand_loop C (sha3_256 C seed) 0 pad"

section \<open>The mixing chain\<close>

type_synonym mix_state = "u64 \<times> u64 \<times> u64 \<times> u64"

definition init_state :: "hash32 \<Rightarrow> mix_state" where
  "init_state h = (let bs = bytes32 h in
     (from_le64 (take 8 bs), from_le64 (take 8 (drop 8 bs)),
      from_le64 (take 8 (drop 16 bs)), from_le64 (take 8 (drop 24 bs))))"

text \<open>
  One step of the chain; \<open>N\<close> is the modulus of the address, the number of words of the
  scratchpad.
\<close>

definition mix_step :: "nat \<Rightarrow> u64 \<Rightarrow> mix_state \<times> u64 list \<Rightarrow> (mix_state \<times> u64 list) option" where
  "mix_step N i sp = (case sp of ((s0, s1, s2, s3), pad) \<Rightarrow>
     (let s0 = s0 + GOLDEN_RATIO; s0 = s0 XOR word_rotl 13 s0;
          s1 = s1 * (GOLDEN_RATIO OR 1); s1 = s1 XOR word_rotr 27 s1;
          s2 = s2 + (s0 XOR s1); s2 = s2 XOR word_rotl 37 s2;
          s3 = s3 * (s2 OR 1); s3 = s3 XOR word_rotr 19 s3;
          addr = unat (s0 + i) mod N
      in if addr \<ge> length pad then None else
         (let s1 = s1 XOR pad ! addr;
              pad = pad[addr := word_rotl (unat (i mod 64)) (s1 + s2)]
          in if i mod 4 = 3
             then (let s0 = s0 XOR s3; s1 = s1 XOR s0; s2 = s2 XOR s1; s3 = s3 XOR s2
                   in Some ((s0, s1, s2, s3), pad))
             else Some ((s0, s1, s2, s3), pad))))"

primrec mix_loop :: "nat \<Rightarrow> nat \<Rightarrow> nat \<Rightarrow> mix_state \<times> u64 list \<Rightarrow> (mix_state \<times> u64 list) option" where
  "mix_loop N i 0 sp = Some sp"
| "mix_loop N i (Suc n) sp =
     (case mix_step N (of_nat i) sp of None \<Rightarrow> None | Some sp' \<Rightarrow> mix_loop N (Suc i) n sp')"

definition finalize_state :: "crypto \<Rightarrow> bytes \<Rightarrow> mix_state \<Rightarrow> hash32" where
  "finalize_state C seed s = (case s of (s0, s1, s2, s3) \<Rightarrow>
     sha3_256 C (le64 s0 @ le64 s1 @ le64 s2 @ le64 s3 @ seed))"

text \<open>
  \<open>Sequal256::hash\<close>: a fresh zeroed scratchpad of 4 MiB. \<open>hash_fast_with_scratchpad\<close>
  works on the caller's scratchpad and leaves it changed; \<open>hash_fast\<close> uses the
  thread-local one, which keeps what the previous hash left in it.
\<close>

definition sequal_hash :: "crypto \<Rightarrow> bytes \<Rightarrow> u32 \<Rightarrow> hash32 option" where
  "sequal_hash C seed steps =
     (let pad = expand_scratchpad C seed (replicate SCRATCHPAD_U64S 0);
          state = init_state (sha3_256 C seed)
      in map_option (\<lambda>(s, _). finalize_state C seed s)
           (mix_loop SCRATCHPAD_U64S 0 (unat steps) (state, pad)))"

definition hash_fast_with_scratchpad ::
    "crypto \<Rightarrow> bytes \<Rightarrow> u32 \<Rightarrow> u64 list \<Rightarrow> (hash32 \<times> u64 list) option" where
  "hash_fast_with_scratchpad C seed steps pad =
     (let pad = expand_scratchpad C seed pad;
          state = init_state (sha3_256 C seed)
      in map_option (\<lambda>(s, pad'). (finalize_state C seed s, pad'))
           (mix_loop MINING_SCRATCHPAD_U64S 0 (unat steps) (state, pad)))"

definition scratchpad_init :: "u64 list" where
  "scratchpad_init = replicate MINING_SCRATCHPAD_U64S 0"

text \<open>\<open>hash_fast\<close> with the thread's scratchpad as explicit state.\<close>

definition hash_fast :: "crypto \<Rightarrow> bytes \<Rightarrow> u32 \<Rightarrow> u64 list \<Rightarrow> (hash32 \<times> u64 list) option" where
  "hash_fast C seed steps pad = hash_fast_with_scratchpad C seed steps pad"

text \<open>
  The two hashes as total functions. The \<open>None\<close> branches are never taken
  (\<open>mix_loop_total\<close> below), and \<open>seq_hash_fast\<close> is what \<open>hash_fast\<close> returns whatever the
  thread's scratchpad held before (proved at the end).
\<close>

definition seq_hash :: "crypto \<Rightarrow> bytes \<Rightarrow> u32 \<Rightarrow> hash32" where
  "seq_hash C seed steps = (case sequal_hash C seed steps of Some h \<Rightarrow> h | None \<Rightarrow> 0)"

definition seq_hash_fast :: "crypto \<Rightarrow> bytes \<Rightarrow> u32 \<Rightarrow> hash32" where
  "seq_hash_fast C seed steps =
     (case hash_fast C seed steps scratchpad_init of Some (h, _) \<Rightarrow> h | None \<Rightarrow> 0)"

definition posc_proof_hash :: "crypto \<Rightarrow> bytes \<Rightarrow> hash32 option" where
  "posc_proof_hash C tx_bytes = sequal_hash C tx_bytes POSC_STEPS"

definition mine_step :: "crypto \<Rightarrow> bytes \<Rightarrow> u64 \<Rightarrow> u32 \<Rightarrow> hash32 option" where
  "mine_step C header nonce steps = sequal_hash C (header @ le64 nonce) steps"

definition mine_step_fast ::
    "crypto \<Rightarrow> bytes \<Rightarrow> u64 \<Rightarrow> u32 \<Rightarrow> u64 list \<Rightarrow> (hash32 \<times> u64 list) option" where
  "mine_step_fast C header nonce steps pad = hash_fast C (header @ le64 nonce) steps pad"

section \<open>The difficulty test\<close>

definition seq_meets_difficulty :: "hash32 \<Rightarrow> u32 \<Rightarrow> bool" where
  "seq_meets_difficulty h bits =
     (let full_bytes = unat (bits div 8); remaining_bits = unat (bits mod 8); hash = bytes32 h in
      if list_ex (\<lambda>i. i \<ge> length hash \<or> hash ! i \<noteq> 0) [0..<full_bytes] then False
      else if remaining_bits > 0 \<and> full_bytes < length hash
              \<and> hash ! full_bytes AND push_bit (8 - remaining_bits) 0xFF \<noteq> 0 then False
      else True)"

definition meets_difficulty :: "hash32 \<Rightarrow> u32 \<Rightarrow> bool" where
  "meets_difficulty h bits = seq_meets_difficulty h bits"

section \<open>The chain never leaves its scratchpad\<close>

lemma mix_step_total:
  assumes "0 < N" "length pad = N"
  shows "\<exists>s' pad'. mix_step N i (s, pad) = Some (s', pad') \<and> length pad' = N"
proof -
  obtain s0 s1 s2 s3 where s: "s = (s0, s1, s2, s3)" by (cases s) auto
  have "\<not> N \<le> m mod N" for m using assms by (simp add: not_le)
  then show ?thesis using assms by (simp add: s mix_step_def Let_def)
qed

lemma mix_loop_total:
  assumes "0 < N" "length pad = N"
  shows "\<exists>s' pad'. mix_loop N i n (s, pad) = Some (s', pad') \<and> length pad' = N"
  using assms(2)
proof (induction n arbitrary: i s pad)
  case (Suc n)
  obtain s' pad' where "mix_step N (of_nat i) (s, pad) = Some (s', pad')" "length pad' = N"
    using mix_step_total assms(1) Suc.prems by blast
  then show ?case using Suc.IH by simp
next
  case 0
  then show ?case by (cases s) auto
qed

lemma expand_loop_length: "length (expand_loop C cur idx pad) = length pad"
proof (induction C cur idx pad rule: expand_loop.induct)
  case (1 C current idx pad)
  show ?case
  proof (cases "idx < length pad")
    case True
    obtain idx' pad' where f: "fill_chunks (chunks8 (bytes32 current)) idx pad = (idx', pad')"
      by fastforce
    then have "length pad' = length pad" using fill_chunks_length by (metis snd_conv)
    then show ?thesis using 1 [OF True f [symmetric] refl] True f
      by (subst expand_loop.simps) simp
  qed (subst expand_loop.simps, simp)
qed

lemma expand_scratchpad_length [simp]: "length (expand_scratchpad C seed pad) = length pad"
  by (simp add: expand_scratchpad_def expand_loop_length)

text \<open>What the expansion writes does not depend on what the scratchpad held before.\<close>

lemma fill_chunks_stale:
  assumes "length p = length q" "take idx p = take idx q" "idx \<le> length p"
  shows "fst (fill_chunks cs idx p) = fst (fill_chunks cs idx q)
    \<and> fst (fill_chunks cs idx p) \<le> length p
    \<and> take (fst (fill_chunks cs idx p)) (snd (fill_chunks cs idx p))
      = take (fst (fill_chunks cs idx q)) (snd (fill_chunks cs idx q))"
  using assms
proof (induction cs idx p arbitrary: q rule: fill_chunks.induct)
  case (2 c cs idx p)
  show ?case
  proof (cases "idx < length p")
    case True
    have "take (Suc idx) (p[idx := from_le64 c]) = take (Suc idx) (q[idx := from_le64 c])"
      using 2(2,3) True by (simp add: take_Suc_conv_app_nth take_update_swap
          list_update_append min_def)
    then have "fst (fill_chunks cs (Suc idx) (p[idx := from_le64 c]))
          = fst (fill_chunks cs (Suc idx) (q[idx := from_le64 c]))
        \<and> fst (fill_chunks cs (Suc idx) (p[idx := from_le64 c])) \<le> length p
        \<and> take (fst (fill_chunks cs (Suc idx) (p[idx := from_le64 c])))
              (snd (fill_chunks cs (Suc idx) (p[idx := from_le64 c])))
          = take (fst (fill_chunks cs (Suc idx) (q[idx := from_le64 c])))
              (snd (fill_chunks cs (Suc idx) (q[idx := from_le64 c])))"
      using 2(1) [of "q[idx := from_le64 c]"] 2(2) True by auto
    moreover have "fill_chunks (c # cs) idx p = fill_chunks cs (Suc idx) (p[idx := from_le64 c])"
      "fill_chunks (c # cs) idx q = fill_chunks cs (Suc idx) (q[idx := from_le64 c])"
      using True 2(2) by auto
    ultimately show ?thesis by metis
  qed (use 2 in simp)
qed simp

lemma expand_loop_stale:
  assumes "length p = length q" "take idx p = take idx q" "idx \<le> length p"
  shows "expand_loop C cur idx p = expand_loop C cur idx q"
  using assms
proof (induction C cur idx p arbitrary: q rule: expand_loop.induct)
  case (1 C current idx p)
  show ?case
  proof (cases "idx < length p")
    case True
    let ?cs = "chunks8 (bytes32 current)"
    obtain i1 p1 where f: "fill_chunks ?cs idx p = (i1, p1)" by fastforce
    obtain i2 q1 where g: "fill_chunks ?cs idx q = (i2, q1)" by fastforce
    have st: "i1 = i2" "i1 \<le> length p" "take i1 p1 = take i1 q1"
      using fill_chunks_stale [OF 1(2-4), of ?cs] f g by auto
    have len: "length p1 = length p" "length q1 = length q"
      using fill_chunks_length f g by (metis snd_conv)+
    let ?next = "sha3_256 C (bytes32 current @ le64 (of_nat i1))"
    have "expand_loop C current idx p = expand_loop C ?next i1 p1"
      using True f by (subst expand_loop.simps) simp
    moreover have "expand_loop C current idx q = expand_loop C ?next i1 q1"
      using True 1(2) g st(1) by (subst expand_loop.simps) simp
    moreover have "expand_loop C ?next i1 p1 = expand_loop C ?next i1 q1"
      by (rule 1(1) [OF True f [symmetric] refl]) (use st len 1(2) in auto)
    ultimately show ?thesis by simp
  next
    case False
    then have "p = q" using 1(2-4) by simp
    then show ?thesis by simp
  qed
qed

lemma expand_scratchpad_stale:
  "length p = length q \<Longrightarrow> expand_scratchpad C seed p = expand_scratchpad C seed q"
  unfolding expand_scratchpad_def by (rule expand_loop_stale) auto

lemma sequal_hash_form:
  "\<exists>s. sequal_hash C seed steps = Some (finalize_state C seed s)"
proof -
  have N: "0 < SCRATCHPAD_U64S" by (simp add: SCRATCHPAD_U64S_def)
  show ?thesis
    using mix_loop_total [OF N, of "expand_scratchpad C seed (replicate SCRATCHPAD_U64S 0)" 0
        "unat steps" "init_state (sha3_256 C seed)"]
    by (auto simp: sequal_hash_def Let_def simp del: split_paired_Ex)
qed

lemma hash_fast_form:
  assumes "length pad = MINING_SCRATCHPAD_U64S"
  shows "\<exists>s pad'. hash_fast C seed steps pad = Some (finalize_state C seed s, pad')
    \<and> length pad' = MINING_SCRATCHPAD_U64S"
proof -
  have N: "0 < MINING_SCRATCHPAD_U64S" by (simp add: MINING_SCRATCHPAD_U64S_def)
  show ?thesis
    using mix_loop_total [OF N, of "expand_scratchpad C seed pad" 0
        "unat steps" "init_state (sha3_256 C seed)"] assms
    by (auto simp: hash_fast_def hash_fast_with_scratchpad_def Let_def simp del: split_paired_Ex)
qed

lemma hash_fast_stale:
  assumes "length p = length q"
  shows "hash_fast C seed steps p = hash_fast C seed steps q"
  using expand_scratchpad_stale [OF assms, of C seed]
  by (simp add: hash_fast_def hash_fast_with_scratchpad_def)

lemma scratchpad_init_length [simp]: "length scratchpad_init = MINING_SCRATCHPAD_U64S"
  by (simp add: scratchpad_init_def)

lemma seq_hash_form: "\<exists>s. seq_hash C seed steps = finalize_state C seed s"
  using sequal_hash_form [of C seed steps] by (auto simp: seq_hash_def simp del: split_paired_Ex)

lemma seq_hash_fast_form: "\<exists>s. seq_hash_fast C seed steps = finalize_state C seed s"
  using hash_fast_form [OF scratchpad_init_length, of C seed steps]
  by (auto simp: seq_hash_fast_def simp del: split_paired_Ex)

section \<open>The difficulty test reads the hash as a big-endian number\<close>

lemma unat_bytes32: "le_val (rev (bytes32 h)) = unat h"
proof -
  have "unat h < 256 ^ 32" using unat_less_exp [of h] by simp
  then show ?thesis by (simp add: bytes32_def le_val_le_bytes)
qed

lemma leading_bytes:
  assumes "k < length bs" "c \<le> 256"
  shows "le_val (rev bs) < c * 256 ^ (length bs - k - 1)
     \<longleftrightarrow> (\<forall>i<k. bs ! i = 0) \<and> unat (bs ! k) < c"
  using assms
proof (induction bs arbitrary: k)
  case Nil
  then show ?case by simp
next
  case (Cons b bs)
  let ?v = "le_val (rev bs)" and ?P = "256 ^ length bs :: nat"
  have v: "?v < ?P" using le_val_less [of "rev bs"] by simp
  have val: "le_val (rev (b # bs)) = ?v + ?P * unat b" by (simp add: le_val_append)
  show ?case
  proof (cases k)
    case 0
    have "?v + ?P * unat b < c * ?P \<longleftrightarrow> unat b < c"
    proof
      assume "?v + ?P * unat b < c * ?P"
      then have "?v + ?P * unat b < ?P * c" by (simp only: mult.commute)
      then have "?P * unat b < ?P * c" by linarith
      then show "unat b < c" by simp
    next
      assume "unat b < c"
      then have "?P * Suc (unat b) \<le> ?P * c" by (intro mult_le_mono2) simp
      then show "?v + ?P * unat b < c * ?P" using v by (simp add: mult.commute)
    qed
    then show ?thesis using 0 val by simp
  next
    case (Suc j)
    show ?thesis
    proof (cases "b = 0")
      case True
      have "(\<forall>i<Suc j. (b # bs) ! i = 0) \<longleftrightarrow> (\<forall>i<j. bs ! i = 0)"
        using True by (auto simp: less_Suc_eq_0_disj)
      then show ?thesis using Cons.IH [of j] Cons.prems Suc True val by simp
    next
      case False
      have "c * 256 ^ (length (b # bs) - k - 1) \<le> 256 * 256 ^ (length bs - k)"
        using Cons.prems Suc by (intro mult_le_mono) auto
      also have "\<dots> = 256 ^ (Suc (length bs - k))" by simp
      also have "\<dots> \<le> 256 ^ length bs"
        using Cons.prems Suc by (intro power_increasing) auto
      also have "\<dots> \<le> ?P * unat b" using False by (simp add: unat_gt_0 Suc_le_eq)
      finally have "\<not> le_val (rev (b # bs)) < c * 256 ^ (length (b # bs) - k - 1)"
        using val by simp
      moreover have "(b # bs) ! 0 \<noteq> 0" using False by simp
      ultimately show ?thesis using Suc by blast
    qed
  qed
qed

lemma mask_byte:
  assumes "r < 8"
  shows "(b :: u8) AND push_bit (8 - r) 0xFF = 0 \<longleftrightarrow> unat b < 2 ^ (8 - r)"
proof -
  have ff: "(0xFF :: u8) = - 1" by simp
  have "b AND push_bit (8 - r) (- 1) = 0 \<longleftrightarrow> drop_bit (8 - r) b = 0"
  proof
    assume a: "b AND push_bit (8 - r) (- 1) = 0"
    show "drop_bit (8 - r) b = 0"
    proof (rule bit_word_eqI)
      fix n
      have "\<not> bit (b AND push_bit (8 - r) (- 1)) (8 - r + n)" unfolding a by simp
      then show "bit (drop_bit (8 - r) b) n = bit (0 :: u8) n"
        by (auto simp: bit_simps dest: bit_imp_le_length)
    qed
  next
    assume a: "drop_bit (8 - r) b = 0"
    show "b AND push_bit (8 - r) (- 1) = 0"
    proof (rule bit_word_eqI)
      fix n
      have "\<not> bit (drop_bit (8 - r) b) (n - (8 - r))" unfolding a by simp
      then show "bit (b AND push_bit (8 - r) (- 1)) n = bit (0 :: u8) n"
        by (cases "8 - r \<le> n") (auto simp: bit_simps)
    qed
  qed
  also have "\<dots> \<longleftrightarrow> unat (drop_bit (8 - r) b) = 0" by (simp add: unat_eq_0)
  also have "\<dots> \<longleftrightarrow> unat b div 2 ^ (8 - r) = 0"
    by (simp only: unat_drop_bit_eq) (simp only: drop_bit_eq_div)
  also have "\<dots> \<longleftrightarrow> unat b < 2 ^ (8 - r)"
    by (simp add: div_eq_0_iff)
  finally show ?thesis unfolding ff .
qed

lemma seq_meets_difficulty_value:
  "seq_meets_difficulty h d \<longleftrightarrow> unat d < 264 \<and> unat h < 2 ^ (256 - unat d)"
proof -
  let ?f = "unat d div 8" and ?r = "unat d mod 8" and ?bs = "bytes32 h"
  have len: "length ?bs = 32" by simp
  have def: "seq_meets_difficulty h d \<longleftrightarrow>
      (\<forall>i<?f. i < 32 \<and> ?bs ! i = 0) \<and>
      (0 < ?r \<and> ?f < 32 \<longrightarrow> ?bs ! ?f AND push_bit (8 - ?r) 0xFF = 0)"
    unfolding seq_meets_difficulty_def Let_def len
    by (auto simp: list_ex_iff unat_div unat_mod not_le)
  have d: "unat d = 8 * ?f + ?r" by simp
  consider "32 < ?f" | "?f = 32" | "?f < 32" by linarith
  then show ?thesis
  proof cases
    case 1
    then have "\<not> (\<forall>i<?f. i < 32 \<and> ?bs ! i = 0)" by (meson less_irrefl)
    moreover have "\<not> unat d < 264" using 1 by linarith
    ultimately show ?thesis using def by blast
  next
    case 2
    have "unat d < 264" using 2 by linarith
    moreover have "256 - unat d = 0" using 2 by linarith
    moreover have "(\<forall>i<32. ?bs ! i = 0) \<longleftrightarrow> unat h < 1"
    proof -
      have "(\<forall>i<32. ?bs ! i = 0) \<longleftrightarrow> (\<forall>i<31. ?bs ! i = 0) \<and> ?bs ! 31 = 0"
      proof -
        have "i < 32 \<longleftrightarrow> i < 31 \<or> i = 31" for i :: nat by linarith
        then show ?thesis by auto
      qed
      then show ?thesis
        using leading_bytes [of 31 ?bs 1] unat_bytes32 [of h] by (simp add: unat_eq_0)
    qed
    ultimately show ?thesis using def 2 by auto
  next
    case 3
    have "(2::nat) ^ (256 - unat d) = 2 ^ (8 - ?r + 8 * (31 - ?f))"
      using 3 d by (intro arg_cong [of _ _ "power 2"]) linarith
    also have "\<dots> = 2 ^ (8 - ?r) * 256 ^ (31 - ?f)"
      unfolding power_add power_mult by simp
    finally have p: "(2::nat) ^ (256 - unat d) = 2 ^ (8 - ?r) * 256 ^ (31 - ?f)" .
    have c: "(2::nat) ^ (8 - ?r) \<le> 256"
      using power_increasing [of "8 - ?r" 8 "2::nat"] by simp
    have "unat h < 2 ^ (256 - unat d)
        \<longleftrightarrow> (\<forall>i<?f. ?bs ! i = 0) \<and> unat (?bs ! ?f) < 2 ^ (8 - ?r)"
      unfolding p using leading_bytes [of ?f ?bs, OF _ c] 3 unat_bytes32 [of h] by simp
    moreover have "unat (?bs ! ?f) < 2 ^ (8 - ?r) \<longleftrightarrow>
        (0 < ?r \<longrightarrow> ?bs ! ?f AND push_bit (8 - ?r) 0xFF = 0)"
      using mask_byte [of ?r "?bs ! ?f"] unat_less_exp [of "?bs ! ?f"] by auto
    moreover have "unat d < 264" using 3 by linarith
    ultimately show ?thesis using def 3 by auto
  qed
qed

section \<open>Properties\<close>

text \<open>
  C40: the transaction-proof hash always returns: no address of the chain of any number of
  steps is outside the 4 MiB scratchpad, and the result is the SHA3 finalisation of the last
  mixing state and the seed; so \<open>seq_hash\<close> is exactly what \<open>Sequal256::hash\<close> computes.
\<close>
theorem sequal_hash_total:
  "\<exists>s. sequal_hash C seed steps = Some (seq_hash C seed steps)
     \<and> seq_hash C seed steps = finalize_state C seed s"
  using sequal_hash_form [of C seed steps] by (auto simp: seq_hash_def simp del: split_paired_Ex)

text \<open>
  the mining hash reuses the scratchpad of its thread. Whatever an earlier hash left in
  it, the result is the same, nothing panics, and the scratchpad keeps its size for the next
  hash.
\<close>
theorem hash_fast_any_scratchpad:
  assumes "length pad = MINING_SCRATCHPAD_U64S"
  shows "\<exists>pad'. hash_fast C seed steps pad = Some (seq_hash_fast C seed steps, pad')
    \<and> length pad' = MINING_SCRATCHPAD_U64S"
  using hash_fast_form [OF assms, of C seed steps]
    hash_fast_stale [of pad scratchpad_init C seed steps] assms
  by (auto simp: seq_hash_fast_def simp del: split_paired_Ex)

theorem hash_fast_any_scratchpad_witness:
  "\<exists>pad'. hash_fast toy_crypto [1, 2] 3 (replicate MINING_SCRATCHPAD_U64S 7)
       = Some (seq_hash_fast toy_crypto [1, 2] 3, pad') \<and> length pad' = MINING_SCRATCHPAD_U64S"
  by (rule hash_fast_any_scratchpad) simp

text \<open>
  the difficulty test reads the hash as a 256-bit big-endian number and compares it with
  a power of two, for every difficulty of the type: up to 256 bits it asks for that many
  leading zeros, from 257 to 263 bits it still accepts the all-zero hash, and from 264 bits on
  it accepts nothing.
\<close>
theorem meets_difficulty_value:
  "meets_difficulty h d \<longleftrightarrow> unat d < 264 \<and> unat h < 2 ^ (256 - unat d)"
  by (simp add: meets_difficulty_def seq_meets_difficulty_value)

text \<open>
  The test is monotone: a hash that meets a difficulty meets every lower one, so work done
  for a block is also work for an easier share.
\<close>
lemma meets_difficulty_mono:
  assumes "meets_difficulty h d" "e \<le> d"
  shows "meets_difficulty h e"
proof -
  have "unat e \<le> unat d" using assms(2) by (simp add: word_le_nat_alt)
  then have le: "(2::nat) ^ (256 - unat d) \<le> 2 ^ (256 - unat e)"
    by (intro power_increasing) auto
  show ?thesis
    using assms(1) \<open>unat e \<le> unat d\<close> less_le_trans [OF _ le]
    unfolding meets_difficulty_def seq_meets_difficulty_value by auto
qed

end
