(* ===== verification/Wallet.thy ===== *)
theory Wallet
  imports Extern
begin

text \<open>
  Keys, signatures and addresses (core/src/wallet.rs). A wallet is its 32-byte signing key;
  texts are ASCII. \<open>pubkey_from_address\<close> copies the decoded bytes into an array of 32, which
  panics on any other length: the panic is a value of the model.
\<close>

record wallet =
  wl_signing_key :: hash32

record wallet_file =
  wf_private_key_hex :: string

definition is_ascii_space :: "char \<Rightarrow> bool" where
  "is_ascii_space c \<longleftrightarrow> of_char c \<in> {9, 10, 11, 12, 13, 32 :: nat}"

definition str_trim :: "string \<Rightarrow> string" where
  "str_trim s = rev (dropWhile is_ascii_space (rev (dropWhile is_ascii_space s)))"

definition wallet_from_bytes :: "hash32 \<Rightarrow> wallet result" where
  "wallet_from_bytes bs = Inr \<lparr>wl_signing_key = bs\<rparr>"

definition wallet_from_hex :: "crypto \<Rightarrow> string \<Rightarrow> wallet result" where
  "wallet_from_hex C hex_str = (case hex_decode C (str_trim hex_str) of
     None \<Rightarrow> Inl (KeyError None)
   | Some bs \<Rightarrow>
       if length bs \<noteq> 32 then Inl (KeyError (Some ''private key must be 32 bytes''))
       else wallet_from_bytes (arr32 bs))"

definition public_key :: "crypto \<Rightarrow> wallet \<Rightarrow> hash32" where
  "public_key C w = ed_public C (wl_signing_key w)"

definition address_from_pubkey :: "crypto \<Rightarrow> hash32 \<Rightarrow> string" where
  "address_from_pubkey C pubkey = ''tar1'' @ hex_encode C (bytes32 pubkey)"

definition wallet_address :: "crypto \<Rightarrow> wallet \<Rightarrow> string" where
  "wallet_address C w = address_from_pubkey C (public_key C w)"

definition wallet_sign :: "crypto \<Rightarrow> wallet \<Rightarrow> bytes \<Rightarrow> sig64" where
  "wallet_sign C w message = ed_sign C (wl_signing_key w) message"

definition private_key_hex :: "crypto \<Rightarrow> wallet \<Rightarrow> string" where
  "private_key_hex C w = hex_encode C (bytes32 (wl_signing_key w))"

definition wallet_to_file :: "crypto \<Rightarrow> wallet \<Rightarrow> wallet_file" where
  "wallet_to_file C w = \<lparr>wf_private_key_hex = private_key_hex C w\<rparr>"

definition verify_signature :: "crypto \<Rightarrow> hash32 \<Rightarrow> bytes \<Rightarrow> sig64 \<Rightarrow> unit result" where
  "verify_signature C pk message sig =
     (if \<not> vk_from_bytes_ok C pk then Inl (KeyError None)
      else if ed_verify C pk message sig then Inr () else Inl InvalidSignature)"

definition strip_prefix :: "string \<Rightarrow> string \<Rightarrow> string option" where
  "strip_prefix p s =
     (if take (length p) s = p then Some (drop (length p) s) else None)"

definition pubkey_from_address :: "crypto \<Rightarrow> string \<Rightarrow> hash32 option partial" where
  "pubkey_from_address C address = (case strip_prefix ''tar1'' address of
     None \<Rightarrow> Inr None
   | Some hex_part \<Rightarrow>
       if length hex_part \<noteq> 64 then Inr None
       else (case hex_decode C hex_part of
               None \<Rightarrow> Inr None
             | Some bs \<Rightarrow> if length bs \<noteq> 32 then Inl Panic else Inr (Some (arr32 bs))))"

section \<open>Lemmas\<close>

lemma strip_prefix_append [simp]: "strip_prefix p (p @ s) = Some s"
  by (simp add: strip_prefix_def)

lemma strip_prefix_Some: "strip_prefix p s = Some r \<longleftrightarrow> s = p @ r"
  using append_take_drop_id [of "length p" s] by (auto simp: strip_prefix_def simp del: append_take_drop_id)

lemma hex_decode_encode [simp]: "hex_ok C \<Longrightarrow> hex_decode C (hex_encode C bs) = Some bs"
  by (simp add: hex_ok_def)

lemma hex_encode_length [simp]: "hex_ok C \<Longrightarrow> length (hex_encode C bs) = 2 * length bs"
  by (simp add: hex_ok_def)

lemma hex_decode_length: "hex_ok C \<Longrightarrow> hex_decode C s = Some bs \<Longrightarrow> length s = 2 * length bs"
  unfolding hex_ok_def by blast

lemma hex_encode_inj: "hex_ok C \<Longrightarrow> hex_encode C a = hex_encode C b \<longleftrightarrow> a = b"
  by (metis hex_decode_encode option.inject)

lemma str_trim_id: "(\<And>c. c \<in> set s \<Longrightarrow> \<not> is_ascii_space c) \<Longrightarrow> str_trim s = s"
proof -
  assume a: "\<And>c. c \<in> set s \<Longrightarrow> \<not> is_ascii_space c"
  have "dropWhile is_ascii_space t = t" if "set t = set s" for t
    using a that by (cases t) auto
  then show ?thesis by (simp add: str_trim_def)
qed

lemma hex_digits_no_space: "c \<in> set ''0123456789abcdef'' \<Longrightarrow> \<not> is_ascii_space c"
  by (auto simp: is_ascii_space_def)

lemma hex_encode_trim: "hex_ok C \<Longrightarrow> str_trim (hex_encode C bs) = hex_encode C bs"
  by (rule str_trim_id) (use hex_digits_no_space hex_ok_def in blast)

lemma address_from_pubkey_inj:
  "hex_ok C \<Longrightarrow> address_from_pubkey C p = address_from_pubkey C q \<longleftrightarrow> p = q"
  by (simp add: address_from_pubkey_def hex_encode_inj ch.enc_inj)

lemma verify_own_signature:
  "ed_ok C \<Longrightarrow> verify_signature C (public_key C w) m (wallet_sign C w m) = Inr ()"
  by (simp add: verify_signature_def public_key_def wallet_sign_def ed_ok_def)

section \<open>Properties\<close>

text \<open>
  addresses are reversible: decoding the address of a public key gives the key back, and
  an address that decodes is \<open>tar1\<close> followed by 64 characters that are the hexadecimal form of
  the key; no text makes the decoder panic.
\<close>
theorem address_roundtrip:
  assumes "hex_ok C"
  shows "pubkey_from_address C (address_from_pubkey C pk) = Inr (Some pk)
    \<and> length (address_from_pubkey C pk) = 68
    \<and> pubkey_from_address C a \<noteq> Inl f
    \<and> (pubkey_from_address C a = Inr (Some k) \<longrightarrow>
         (\<exists>h. a = ''tar1'' @ h \<and> length h = 64 \<and> hex_decode C h = Some (bytes32 k)))"
  using assms hex_decode_length [OF assms]
  by (auto simp: pubkey_from_address_def address_from_pubkey_def strip_prefix_Some
      bytes32_arr32 split: option.splits if_splits)

theorem address_roundtrip_witness:
  "pubkey_from_address toy_crypto (address_from_pubkey toy_crypto 5) = Inr (Some 5)"
  using address_roundtrip [OF toy_hex_ok, of 5 "[]" Panic 0] by blast

text \<open>
  The wallet file restores the wallet: reading back the exported private key gives the same
  signing key, hence the same public key, address and signatures.
\<close>
lemma wallet_file_roundtrip:
  assumes "hex_ok C"
  shows "wallet_from_hex C (wf_private_key_hex (wallet_to_file C w)) = Inr w"
  using assms by (simp add: wallet_from_hex_def wallet_to_file_def private_key_hex_def
      hex_encode_trim wallet_from_bytes_def)

end
