(* ===== verification/Transaction.thy ===== *)
theory Transaction
  imports Hash Wallet
begin

text \<open>
  Transactions (core/src/transaction.rs) and their proof of sequential chain
  (core/src/posc.rs): the three canonical encodings, the structural check, the builder, and the
  proof verifier. The clock is an argument (\<open>now_ms\<close>). The length of the memo is written as
  one byte (\<open>self.data.len() as u8\<close>), so a memo of 256 bytes is written with length 0. The micro sign
  of the fee message is written \<open>u\<close>.
\<close>

definition MAX_TX_DATA_BYTES :: nat where "MAX_TX_DATA_BYTES = 256"
definition TIMESTAMP_TOLERANCE_MS :: u64 where "TIMESTAMP_TOLERANCE_MS = 30000"
definition TX_VERSION :: u8 where "TX_VERSION = 1"

record transaction =
  tx_version :: u8
  tx_sender :: hash32
  tx_recipient :: hash32
  tx_amount :: u64
  tx_fee :: u64
  tx_sequence :: u64
  tx_timestamp_ms :: u64
  tx_prev_tx_hash :: hash32
  tx_data :: bytes
  tx_posc_proof :: hash32
  tx_posc_steps :: u32
  tx_signature :: sig64

section \<open>Encodings\<close>

definition to_bytes_for_posc :: "transaction \<Rightarrow> bytes" where
  "to_bytes_for_posc t =
     byte1 (tx_version t) @ bytes32 (tx_sender t) @ bytes32 (tx_recipient t) @
     le64 (tx_amount t) @ le64 (tx_fee t) @ le64 (tx_sequence t) @ le64 (tx_timestamp_ms t) @
     bytes32 (tx_prev_tx_hash t) @ byte1 (of_nat (length (tx_data t))) @ tx_data t"

definition to_bytes_for_signing :: "transaction \<Rightarrow> bytes" where
  "to_bytes_for_signing t =
     to_bytes_for_posc t @ bytes32 (tx_posc_proof t) @ le32 (tx_posc_steps t)"

definition to_bytes_for_hash :: "transaction \<Rightarrow> bytes" where
  "to_bytes_for_hash t = to_bytes_for_signing t @ bytes64 (tx_signature t)"

definition tx_hash :: "crypto \<Rightarrow> transaction \<Rightarrow> hash32" where
  "tx_hash C t = sha3_256 C (to_bytes_for_hash t)"

definition tx_hash_hex :: "crypto \<Rightarrow> transaction \<Rightarrow> string" where
  "tx_hash_hex C t = hex_encode C (bytes32 (tx_hash C t))"

definition sender_address :: "crypto \<Rightarrow> transaction \<Rightarrow> string" where
  "sender_address C t = address_from_pubkey C (tx_sender t)"

definition recipient_address :: "crypto \<Rightarrow> transaction \<Rightarrow> string" where
  "recipient_address C t = address_from_pubkey C (tx_recipient t)"

definition total_cost :: "transaction \<Rightarrow> u64" where
  "total_cost t = saturating_add (tx_amount t) (tx_fee t)"

section \<open>Checks\<close>

definition tx_verify_signature :: "crypto \<Rightarrow> transaction \<Rightarrow> unit result" where
  "tx_verify_signature C t =
     verify_signature C (tx_sender t) (to_bytes_for_signing t) (tx_signature t)"

definition validate_structure :: "u64 \<Rightarrow> transaction \<Rightarrow> unit result" where
  "validate_structure now_ms t =
     (if length (tx_data t) > MAX_TX_DATA_BYTES
      then Inl (TransactionTooLarge (length (tx_data t)))
      else if tx_fee t = 0 then Inl (Serialization ''fee must be at least 1 uTAR'')
      else
        let delta = (if tx_timestamp_ms t > now_ms then tx_timestamp_ms t - now_ms
                     else now_ms - tx_timestamp_ms t)
        in if delta > TIMESTAMP_TOLERANCE_MS then Inl InvalidTimestamp else Inr ())"

definition posc_compute_with_steps :: "crypto \<Rightarrow> bytes \<Rightarrow> u32 \<Rightarrow> hash32" where
  "posc_compute_with_steps C tx_bytes steps = seq_hash C tx_bytes steps"

definition posc_compute :: "crypto \<Rightarrow> bytes \<Rightarrow> hash32" where
  "posc_compute C tx_bytes = seq_hash C tx_bytes POSC_STEPS"

definition posc_to_hex :: "crypto \<Rightarrow> hash32 \<Rightarrow> string" where
  "posc_to_hex C proof_bytes = hex_encode C (bytes32 proof_bytes)"

definition posc_verify :: "crypto \<Rightarrow> transaction \<Rightarrow> unit result" where
  "posc_verify C t =
     (let expected = seq_hash C (to_bytes_for_posc t) (tx_posc_steps t)
      in if expected \<noteq> tx_posc_proof t then Inl InvalidPosc else Inr ())"

definition posc_is_non_trivial :: "transaction \<Rightarrow> bool" where
  "posc_is_non_trivial t \<longleftrightarrow> tx_posc_proof t \<noteq> 0 \<and> tx_posc_steps t \<ge> 100"

section \<open>The builder\<close>

record tx_builder =
  tb_wallet :: wallet
  tb_recipient :: hash32
  tb_amount :: u64
  tb_fee :: u64
  tb_sequence :: u64
  tb_prev_tx_hash :: hash32
  tb_data :: bytes

definition tb_new :: "wallet \<Rightarrow> tx_builder" where
  "tb_new w = \<lparr>tb_wallet = w, tb_recipient = 0, tb_amount = 0, tb_fee = 1, tb_sequence = 1,
     tb_prev_tx_hash = 0, tb_data = []\<rparr>"

definition tb_set_recipient :: "hash32 \<Rightarrow> tx_builder \<Rightarrow> tx_builder" where
  "tb_set_recipient pubkey b = b\<lparr>tb_recipient := pubkey\<rparr>"

definition tb_set_amount :: "u64 \<Rightarrow> tx_builder \<Rightarrow> tx_builder" where
  "tb_set_amount utar b = b\<lparr>tb_amount := utar\<rparr>"

definition tb_set_fee :: "u64 \<Rightarrow> tx_builder \<Rightarrow> tx_builder" where
  "tb_set_fee utar b = b\<lparr>tb_fee := max utar 1\<rparr>"

definition tb_set_sequence :: "u64 \<Rightarrow> tx_builder \<Rightarrow> tx_builder" where
  "tb_set_sequence seq b = b\<lparr>tb_sequence := seq\<rparr>"

definition tb_set_prev_tx_hash :: "hash32 \<Rightarrow> tx_builder \<Rightarrow> tx_builder" where
  "tb_set_prev_tx_hash h b = b\<lparr>tb_prev_tx_hash := h\<rparr>"

definition tb_memo :: "bytes \<Rightarrow> tx_builder \<Rightarrow> tx_builder" where
  "tb_memo data b = b\<lparr>tb_data := data\<rparr>"

text \<open>The transaction before its proof and signature.\<close>

definition tb_draft :: "crypto \<Rightarrow> u64 \<Rightarrow> tx_builder \<Rightarrow> transaction" where
  "tb_draft C now_ms b =
     \<lparr>tx_version = TX_VERSION, tx_sender = public_key C (tb_wallet b),
      tx_recipient = tb_recipient b, tx_amount = tb_amount b, tx_fee = tb_fee b,
      tx_sequence = tb_sequence b, tx_timestamp_ms = now_ms,
      tx_prev_tx_hash = tb_prev_tx_hash b, tx_data = tb_data b,
      tx_posc_proof = 0, tx_posc_steps = POSC_STEPS, tx_signature = 0\<rparr>"

definition build_and_prove :: "crypto \<Rightarrow> u64 \<Rightarrow> tx_builder \<Rightarrow> transaction result" where
  "build_and_prove C now_ms b =
     (if length (tb_data b) > MAX_TX_DATA_BYTES
      then Inl (TransactionTooLarge (length (tb_data b)))
      else
        let tx = tb_draft C now_ms b;
            tx = tx\<lparr>tx_posc_proof := seq_hash C (to_bytes_for_posc tx) POSC_STEPS\<rparr>;
            tx = tx\<lparr>tx_signature := wallet_sign C (tb_wallet b) (to_bytes_for_signing tx)\<rparr>
        in Inr tx)"

section \<open>Lemmas\<close>

lemma to_bytes_for_posc_inj:
  "to_bytes_for_posc t = to_bytes_for_posc u \<longleftrightarrow>
     tx_version t = tx_version u \<and> tx_sender t = tx_sender u \<and> tx_recipient t = tx_recipient u \<and>
     tx_amount t = tx_amount u \<and> tx_fee t = tx_fee u \<and> tx_sequence t = tx_sequence u \<and>
     tx_timestamp_ms t = tx_timestamp_ms u \<and> tx_prev_tx_hash t = tx_prev_tx_hash u \<and>
     tx_data t = tx_data u"
  by (auto simp only: to_bytes_for_posc_def append_injs)

lemma to_bytes_for_signing_inj:
  "to_bytes_for_signing t = to_bytes_for_signing u \<longleftrightarrow>
     to_bytes_for_posc t = to_bytes_for_posc u \<and> tx_posc_proof t = tx_posc_proof u \<and>
     tx_posc_steps t = tx_posc_steps u"
  by (auto simp only: to_bytes_for_signing_def append_assoc [symmetric] c32.snoc_inj ch.snoc_inj)

lemma to_bytes_for_posc_upd [simp]:
  "to_bytes_for_posc (t\<lparr>tx_posc_proof := p\<rparr>) = to_bytes_for_posc t"
  "to_bytes_for_posc (t\<lparr>tx_posc_steps := n\<rparr>) = to_bytes_for_posc t"
  "to_bytes_for_posc (t\<lparr>tx_signature := s\<rparr>) = to_bytes_for_posc t"
  by (simp_all add: to_bytes_for_posc_def)

lemma to_bytes_for_signing_upd [simp]:
  "to_bytes_for_signing (t\<lparr>tx_signature := s\<rparr>) = to_bytes_for_signing t"
  by (simp add: to_bytes_for_signing_def)

lemma to_bytes_for_posc_length: "length (to_bytes_for_posc t) = 130 + length (tx_data t)"
  by (simp add: to_bytes_for_posc_def)

text \<open>The fee of a builder never falls below one.\<close>

definition tb_wf :: "tx_builder \<Rightarrow> bool" where "tb_wf b \<longleftrightarrow> tb_fee b \<noteq> 0"

lemma tb_wf_setters [simp]:
  "tb_wf (tb_new w)" "tb_wf (tb_set_fee f b)"
  "tb_wf b \<Longrightarrow> tb_wf (tb_set_recipient r b)" "tb_wf b \<Longrightarrow> tb_wf (tb_set_amount a b)"
  "tb_wf b \<Longrightarrow> tb_wf (tb_set_sequence s b)" "tb_wf b \<Longrightarrow> tb_wf (tb_set_prev_tx_hash h b)"
  "tb_wf b \<Longrightarrow> tb_wf (tb_memo d b)"
  by (auto simp: tb_wf_def tb_new_def tb_set_fee_def tb_set_recipient_def tb_set_amount_def
      tb_set_sequence_def tb_set_prev_tx_hash_def tb_memo_def max_def split: if_splits)

lemma unat_total_cost: "unat (total_cost t) = min (unat (tx_amount t) + unat (tx_fee t)) (2 ^ 64 - 1)"
  by (simp add: total_cost_def unat_saturating_add)

lemma amount_le_total_cost: "tx_amount t \<le> total_cost t"
  using unat_less_64 [of "tx_amount t"] by (simp add: word_le_nat_alt unat_total_cost)

lemma tb_draft_fields [simp]:
  "tx_sender (tb_draft C now b) = public_key C (tb_wallet b)"
  "tx_recipient (tb_draft C now b) = tb_recipient b" "tx_amount (tb_draft C now b) = tb_amount b"
  "tx_fee (tb_draft C now b) = tb_fee b" "tx_sequence (tb_draft C now b) = tb_sequence b"
  "tx_prev_tx_hash (tb_draft C now b) = tb_prev_tx_hash b" "tx_data (tb_draft C now b) = tb_data b"
  "tx_posc_steps (tb_draft C now b) = POSC_STEPS" "tx_timestamp_ms (tb_draft C now b) = now"
  by (simp_all add: tb_draft_def)

lemma build_and_prove_form:
  assumes "build_and_prove C now b = Inr t"
  shows "length (tb_data b) \<le> 256"
    and "tx_posc_proof t = seq_hash C (to_bytes_for_posc t) POSC_STEPS"
    and "tx_signature t = wallet_sign C (tb_wallet b) (to_bytes_for_signing t)"
    and "\<exists>p s. t = (tb_draft C now b)\<lparr>tx_posc_proof := p, tx_signature := s\<rparr>"
  using assms
  by (auto simp: build_and_prove_def Let_def MAX_TX_DATA_BYTES_def split: if_splits)

lemma build_and_prove_good:
  assumes "ed_ok C" "build_and_prove C now b = Inr t"
  shows "tx_verify_signature C t = Inr ()" "posc_verify C t = Inr ()"
    "tx_sender t = public_key C (tb_wallet b)" "tx_recipient t = tb_recipient b" "tx_amount t = tb_amount b"
    "tx_fee t = tb_fee b" "tx_sequence t = tb_sequence b" "tx_prev_tx_hash t = tb_prev_tx_hash b"
    "tx_posc_steps t = POSC_STEPS" "tx_data t = tb_data b" "tx_timestamp_ms t = now"
proof -
  note form = build_and_prove_form [OF assms(2)]
  obtain p s where t: "t = (tb_draft C now b)\<lparr>tx_posc_proof := p, tx_signature := s\<rparr>"
    using form(4) by blast
  then show fields: "tx_sender t = public_key C (tb_wallet b)" "tx_recipient t = tb_recipient b"
    "tx_amount t = tb_amount b" "tx_fee t = tb_fee b" "tx_sequence t = tb_sequence b"
    "tx_prev_tx_hash t = tb_prev_tx_hash b" "tx_posc_steps t = POSC_STEPS" "tx_data t = tb_data b"
    "tx_timestamp_ms t = now"
    by simp_all
  show "tx_verify_signature C t = Inr ()"
    using form(3) fields(1) verify_own_signature [OF assms(1)] by (simp add: tx_verify_signature_def)
  show "posc_verify C t = Inr ()" using form(2) fields(7) by (simp add: posc_verify_def)
qed

section \<open>Properties\<close>

text \<open>
  C31: the canonical encoding that is hashed is injective: two transactions that differ in any
  field, memo and signature included, have different encodings. The length byte, which wraps at
  256, does not make two memos collide, because every field around the memo has a fixed width.
\<close>
theorem to_bytes_for_hash_inj: "to_bytes_for_hash t = to_bytes_for_hash u \<longleftrightarrow> t = u"
proof -
  have "to_bytes_for_hash t = to_bytes_for_hash u \<longleftrightarrow>
      to_bytes_for_signing t = to_bytes_for_signing u \<and> tx_signature t = tx_signature u"
    by (simp only: to_bytes_for_hash_def csig.snoc_inj)
  then show ?thesis
    by (cases t; cases u) (auto simp: to_bytes_for_signing_inj to_bytes_for_posc_inj)
qed

text \<open>
  what the builder returns passes every check a node makes: the signature verifies under
  the sender's key, the proof verifier recomputes the same proof, and the structure is valid on
  any clock within 30 seconds of the builder's; the fields are the ones asked for.
\<close>
theorem build_and_prove_valid:
  assumes "ed_ok C" "tb_wf b" "build_and_prove C now b = Inr t"
    "unat now \<le> unat clock + 30000" "unat clock \<le> unat now + 30000"
  shows "tx_verify_signature C t = Inr () \<and> posc_verify C t = Inr ()
    \<and> validate_structure clock t = Inr () \<and> tx_sender t = public_key C (tb_wallet b)
    \<and> tx_recipient t = tb_recipient b \<and> tx_amount t = tb_amount b \<and> tx_fee t = tb_fee b
    \<and> tx_sequence t = tb_sequence b \<and> tx_prev_tx_hash t = tb_prev_tx_hash b
    \<and> tx_posc_steps t = POSC_STEPS"
proof -
  note form = build_and_prove_form [OF assms(3)] and good = build_and_prove_good [OF assms(1,3)]
  have "validate_structure clock t = Inr ()"
  proof -
    have "\<not> now - clock > 30000" if "now > clock"
      using that assms(4) by (simp add: word_le_nat_alt word_less_nat_alt unat_sub)
    moreover have "\<not> clock - now > 30000" if "\<not> now > clock"
      using that assms(5) by (simp add: word_le_nat_alt word_less_nat_alt unat_sub not_less)
    ultimately show ?thesis
      using form(1) assms(2) good
      by (auto simp: validate_structure_def tb_wf_def TIMESTAMP_TOLERANCE_MS_def
          MAX_TX_DATA_BYTES_def)
  qed
  then show ?thesis using good by simp
qed

theorem build_and_prove_valid_witness:
  "\<exists>t. build_and_prove toy_crypto 1000 (tb_set_amount 7 (tb_new \<lparr>wl_signing_key = 3\<rparr>)) = Inr t
     \<and> tx_verify_signature toy_crypto t = Inr () \<and> posc_verify toy_crypto t = Inr ()
     \<and> validate_structure 2000 t = Inr () \<and> tx_amount t = 7"
proof -
  let ?b = "tb_set_amount 7 (tb_new \<lparr>wl_signing_key = 3\<rparr>)"
  have "\<exists>t. build_and_prove toy_crypto 1000 ?b = Inr t"
    by (simp add: build_and_prove_def tb_set_amount_def tb_new_def MAX_TX_DATA_BYTES_def
        Let_def)
  then obtain t where t: "build_and_prove toy_crypto 1000 ?b = Inr t" ..
  have "tb_amount ?b = 7" by (simp add: tb_set_amount_def)
  then show ?thesis
    using t build_and_prove_valid [OF toy_ed_ok _ t, of 2000] by auto
qed

text \<open>
  The structural check, read over the numbers: a memo over 256 bytes, then a zero fee, then
  a timestamp more than 30 seconds away from the clock in either direction are rejected, each
  with its own error and in that order, and everything else is accepted; the subtraction of
  the two times never wraps.
\<close>
lemma validate_structure_cases:
  "validate_structure now t =
     (if 256 < length (tx_data t) then Inl (TransactionTooLarge (length (tx_data t)))
      else if unat (tx_fee t) = 0 then Inl (Serialization ''fee must be at least 1 uTAR'')
      else if unat (tx_timestamp_ms t) \<le> unat now + 30000
              \<and> unat now \<le> unat (tx_timestamp_ms t) + 30000
      then Inr () else Inl InvalidTimestamp)"
proof -
  have "(if tx_timestamp_ms t > now then tx_timestamp_ms t - now else now - tx_timestamp_ms t)
        > TIMESTAMP_TOLERANCE_MS
      \<longleftrightarrow> \<not> (unat (tx_timestamp_ms t) \<le> unat now + 30000
              \<and> unat now \<le> unat (tx_timestamp_ms t) + 30000)"
    by (auto simp: TIMESTAMP_TOLERANCE_MS_def word_less_nat_alt unat_sub word_le_nat_alt not_less)
  then show ?thesis
    by (simp add: validate_structure_def MAX_TX_DATA_BYTES_def Let_def unat_eq_0 not_less)
qed

end
