(* ===== verification/Ledger.thy ===== *)
theory Ledger
  imports Transaction
begin

text \<open>
  The genesis state (core/src/genesis.rs) and the account ledger (core/src/ledger.rs): the
  operations on one account, applying, replaying and reverting transactions and coinbase
  rewards, and the total supply. The ledger is its map of accounts. A call that fails may have
  changed the ledger before it failed, so the operations return the result and the ledger.
\<close>

section \<open>Accounts and genesis\<close>

definition TESTNET_DIFFICULTY :: u32 where "TESTNET_DIFFICULTY = 14"
definition TESTNET_REWARD :: u64 where "TESTNET_REWARD = 15850000"
definition PREMINE_BALANCE :: u64 where "PREMINE_BALANCE = 20000000000000"

definition PREMINE_PUBKEY :: hash32 where
  "PREMINE_PUBKEY = arr32 [
     0x0c, 0x27, 0x5d, 0xcf, 0xdd, 0x97, 0x76, 0xdc,
     0xb8, 0x47, 0x58, 0x4a, 0xfe, 0x31, 0x7e, 0x1e,
     0x68, 0x58, 0xf7, 0x64, 0xd4, 0xed, 0xeb, 0xfa,
     0x4a, 0x1b, 0x8c, 0xb8, 0xdd, 0xea, 0xf8, 0xe8]"

record account_state =
  acc_balance :: u64
  acc_sequence :: u64
  acc_last_tx_hash :: hash32

definition acc_new :: "u64 \<Rightarrow> account_state" where
  "acc_new balance = \<lparr>acc_balance = balance, acc_sequence = 0, acc_last_tx_hash = 0\<rparr>"

definition can_spend :: "account_state \<Rightarrow> u64 \<Rightarrow> bool" where
  "can_spend a amount \<longleftrightarrow> acc_balance a \<ge> amount"

definition acc_spend :: "account_state \<Rightarrow> u64 \<Rightarrow> hash32 \<Rightarrow> string + account_state" where
  "acc_spend a amount h =
     (if \<not> can_spend a amount then Inl ''Insufficient balance''
      else Inr (a\<lparr>acc_balance := acc_balance a - amount, acc_sequence := acc_sequence a + 1,
                  acc_last_tx_hash := h\<rparr>))"

definition acc_credit :: "account_state \<Rightarrow> u64 \<Rightarrow> account_state" where
  "acc_credit a amount = a\<lparr>acc_balance := acc_balance a + amount\<rparr>"

type_synonym ledger = "hash32 \<rightharpoonup> account_state"

definition genesis_testnet :: ledger where
  "genesis_testnet = Map.empty(PREMINE_PUBKEY \<mapsto> acc_new PREMINE_BALANCE)"

definition genesis_get_account :: "ledger \<Rightarrow> hash32 \<Rightarrow> account_state option" where
  "genesis_get_account G pubkey = G pubkey"

definition ensure_account :: "ledger \<Rightarrow> hash32 \<Rightarrow> ledger" where
  "ensure_account G pubkey = (case G pubkey of Some _ \<Rightarrow> G | None \<Rightarrow> G(pubkey \<mapsto> acc_new 0))"

definition premine_address :: "crypto \<Rightarrow> string" where
  "premine_address C = ''tar1'' @ hex_encode C (bytes32 PREMINE_PUBKEY)"

record testnet_config =
  tc_difficulty :: u32
  tc_reward :: u64
  tc_premine_balance :: u64

definition testnet_config_default :: testnet_config where
  "testnet_config_default = \<lparr>tc_difficulty = TESTNET_DIFFICULTY, tc_reward = TESTNET_REWARD,
     tc_premine_balance = PREMINE_BALANCE\<rparr>"

section \<open>Ledger operations\<close>

definition ledger_new :: ledger where "ledger_new = Map.empty"

definition new_testnet :: ledger where "new_testnet = genesis_testnet"

definition ledger_balance :: "ledger \<Rightarrow> hash32 \<Rightarrow> u64" where
  "ledger_balance L pubkey = (case L pubkey of None \<Rightarrow> 0 | Some a \<Rightarrow> acc_balance a)"

definition get_account :: "ledger \<Rightarrow> hash32 \<Rightarrow> account_state option" where
  "get_account L pubkey = L pubkey"

text \<open>\<open>get_account_mut\<close>: the account the caller then modifies, a new one if there is none.\<close>

definition account_mut :: "ledger \<Rightarrow> hash32 \<Rightarrow> account_state" where
  "account_mut L pubkey = (case L pubkey of None \<Rightarrow> acc_new 0 | Some a \<Rightarrow> a)"

text \<open>The last step of both ways of applying a transaction: credit the recipient.\<close>

definition credit_recipient :: "ledger \<Rightarrow> transaction \<Rightarrow> hash32 \<Rightarrow> ledger" where
  "credit_recipient L t h =
     L(tx_recipient t \<mapsto>
        (acc_credit (account_mut L (tx_recipient t)) (tx_amount t))\<lparr>acc_last_tx_hash := h\<rparr>)"

definition apply_tx :: "crypto \<Rightarrow> ledger \<Rightarrow> transaction \<Rightarrow> unit result \<times> ledger" where
  "apply_tx C L t =
     (let h = tx_hash C t; cost = total_cost t in
      case get_account L (tx_sender t) of
        None \<Rightarrow> (Inl (InsufficientBalance 0 cost), L)
      | Some sender \<Rightarrow>
          if acc_balance sender < cost
          then (Inl (InsufficientBalance (acc_balance sender) cost), L)
          else
            let expected = acc_sequence sender + 1 in
            if tx_sequence t \<noteq> expected
            then (Inl (InvalidSequence expected (tx_sequence t)), L)
            else
              let sender = account_mut L (tx_sender t) in
              case acc_spend sender cost h of
                Inl _ \<Rightarrow> (Inl (InsufficientBalance (acc_balance sender) cost),
                          L(tx_sender t \<mapsto> sender))
              | Inr sender' \<Rightarrow> (Inr (), credit_recipient (L(tx_sender t \<mapsto> sender')) t h))"

definition apply_tx_ibd :: "crypto \<Rightarrow> ledger \<Rightarrow> transaction \<Rightarrow> unit result \<times> ledger" where
  "apply_tx_ibd C L t =
     (let h = tx_hash C t; cost = total_cost t; sender_balance = ledger_balance L (tx_sender t) in
      if sender_balance < cost then (Inl (InsufficientBalance sender_balance cost), L)
      else
        let sender = account_mut L (tx_sender t) in
        case acc_spend sender cost h of
          Inl _ \<Rightarrow> (Inl (InsufficientBalance (acc_balance sender) cost), L(tx_sender t \<mapsto> sender))
        | Inr sender' \<Rightarrow>
            (Inr (), credit_recipient
               (L(tx_sender t \<mapsto> sender'\<lparr>acc_sequence := tx_sequence t\<rparr>)) t h))"

definition revert_tx :: "ledger \<Rightarrow> transaction \<Rightarrow> ledger" where
  "revert_tx L t =
     (let cost = total_cost t;
          r = account_mut L (tx_recipient t);
          L1 = L(tx_recipient t \<mapsto> r\<lparr>acc_balance := saturating_sub (acc_balance r) (tx_amount t)\<rparr>);
          s = account_mut L1 (tx_sender t)
      in L1(tx_sender t \<mapsto> s\<lparr>acc_balance := acc_balance s + cost,
                             acc_sequence := saturating_sub (acc_sequence s) 1\<rparr>))"

definition revert_coinbase :: "ledger \<Rightarrow> hash32 \<Rightarrow> u64 \<Rightarrow> ledger" where
  "revert_coinbase L pubkey amount =
     (let a = account_mut L pubkey
      in L(pubkey \<mapsto> a\<lparr>acc_balance := saturating_sub (acc_balance a) amount\<rparr>))"

definition string_bytes :: "string \<Rightarrow> bytes" where
  "string_bytes s = map (\<lambda>c. of_nat (of_char c)) s"

definition apply_coinbase :: "crypto \<Rightarrow> ledger \<Rightarrow> hash32 \<Rightarrow> u64 \<Rightarrow> ledger" where
  "apply_coinbase C L pubkey amount =
     (let coinbase_hash = sha3_256 C (bytes32 pubkey @ le64 amount @ string_bytes ''coinbase'')
      in L(pubkey \<mapsto> (acc_credit (account_mut L pubkey) amount)\<lparr>acc_last_tx_hash := coinbase_hash\<rparr>))"

definition account_count :: "ledger \<Rightarrow> nat" where
  "account_count L = card (dom L)"

text \<open>The sum of all balances, in wrapping 64-bit arithmetic.\<close>

definition total_supply :: "ledger \<Rightarrow> u64" where
  "total_supply L = (\<Sum>k\<in>dom L. acc_balance (the (L k)))"

text \<open>The loop of a block over its transactions, stopping at the first error.\<close>

primrec apply_txs ::
    "(ledger \<Rightarrow> transaction \<Rightarrow> unit result \<times> ledger) \<Rightarrow> transaction list \<Rightarrow> ledger
       \<Rightarrow> unit result \<times> ledger" where
  "apply_txs f [] L = (Inr (), L)"
| "apply_txs f (t # ts) L = (case f L t of
     (Inl e, L') \<Rightarrow> (Inl e, L')
   | (Inr _, L') \<Rightarrow> apply_txs f ts L')"

section \<open>The supply as a number\<close>

definition supply_of :: "ledger \<Rightarrow> nat" where
  "supply_of L = (\<Sum>k\<in>dom L. unat (acc_balance (the (L k))))"

definition ledger_fits :: "ledger \<Rightarrow> bool" where
  "ledger_fits L \<longleftrightarrow> finite (dom L) \<and> supply_of L < 2 ^ 64"

lemma supply_upd:
  assumes "finite (dom L)"
  shows "supply_of (L(k \<mapsto> a)) + unat (ledger_balance L k) = supply_of L + unat (acc_balance a)"
  using sum_map_upd [OF assms, where k = k and v = a and f = "\<lambda>a. unat (acc_balance a)"]
  by (cases "L k") (simp_all add: supply_of_def ledger_balance_def)

lemma balance_le_supply: "finite (dom L) \<Longrightarrow> unat (ledger_balance L k) \<le> supply_of L"
  using member_le_sum [of k "dom L" "\<lambda>k. unat (acc_balance (the (L k)))"]
  by (cases "L k") (auto simp: supply_of_def ledger_balance_def)

lemma account_mut_balance [simp]: "acc_balance (account_mut L k) = ledger_balance L k"
  by (simp add: account_mut_def ledger_balance_def acc_new_def split: option.split)

lemma ledger_balance_upd [simp]:
  "ledger_balance (L(k \<mapsto> a)) j = (if j = k then acc_balance a else ledger_balance L j)"
  by (simp add: ledger_balance_def)

lemma unat_sum_word: "unat (sum f A :: u64) = (\<Sum>x\<in>A. unat (f x)) mod 2 ^ 64"
proof (induction A rule: infinite_finite_induct)
  case (insert x A)
  then have "unat (sum f (insert x A)) = (unat (f x) + (\<Sum>x\<in>A. unat (f x)) mod 2 ^ 64) mod 2 ^ 64"
    by (simp add: unat_word_ariths)
  then show ?case using insert by (simp add: mod_add_right_eq)
qed auto

lemma total_supply_exact: "ledger_fits L \<Longrightarrow> unat (total_supply L) = supply_of L"
  by (simp add: total_supply_def unat_sum_word ledger_fits_def supply_of_def)

section \<open>What an observer of the ledger sees\<close>

definition ledger_sequence :: "ledger \<Rightarrow> hash32 \<Rightarrow> u64" where
  "ledger_sequence L k = acc_sequence (account_mut L k)"

lemma ledger_sequence_upd [simp]:
  "ledger_sequence (L(k \<mapsto> a)) j = (if j = k then acc_sequence a else ledger_sequence L j)"
  by (simp add: ledger_sequence_def account_mut_def)

lemma account_mut_sequence [simp]: "acc_sequence (account_mut L k) = ledger_sequence L k"
  by (simp add: ledger_sequence_def)

text \<open>Two ledgers with the same balances and sequence numbers.\<close>

definition ledger_equiv :: "ledger \<Rightarrow> ledger \<Rightarrow> bool" where
  "ledger_equiv L M \<longleftrightarrow> ledger_balance L = ledger_balance M \<and> ledger_sequence L = ledger_sequence M"

lemma ledger_equiv_refl [simp]: "ledger_equiv L L"
  by (simp add: ledger_equiv_def)

lemma ledger_equiv_trans: "ledger_equiv L M \<Longrightarrow> ledger_equiv M N \<Longrightarrow> ledger_equiv L N"
  by (simp add: ledger_equiv_def)

lemma revert_tx_obs:
  "ledger_balance (revert_tx L t) = (\<lambda>k.
     (if k = tx_recipient t then saturating_sub (ledger_balance L k) (tx_amount t)
      else ledger_balance L k) + (if k = tx_sender t then total_cost t else 0))"
  "ledger_sequence (revert_tx L t) = (\<lambda>k.
     if k = tx_sender t then saturating_sub (ledger_sequence L k) 1 else ledger_sequence L k)"
  by (auto simp: revert_tx_def Let_def fun_eq_iff)

lemma revert_tx_equiv: "ledger_equiv L M \<Longrightarrow> ledger_equiv (revert_tx L t) (revert_tx M t)"
  by (simp add: ledger_equiv_def revert_tx_obs fun_eq_iff)

lemma revert_coinbase_obs:
  "ledger_balance (revert_coinbase L k r) =
     (ledger_balance L)(k := saturating_sub (ledger_balance L k) r)"
  "ledger_sequence (revert_coinbase L k r) = ledger_sequence L"
  by (auto simp: revert_coinbase_def Let_def fun_eq_iff)

lemma revert_coinbase_equiv:
  "ledger_equiv L M \<Longrightarrow> ledger_equiv (revert_coinbase L k r) (revert_coinbase M k r)"
  by (simp add: ledger_equiv_def revert_coinbase_obs fun_eq_iff)

lemma apply_coinbase_obs:
  "ledger_balance (apply_coinbase C L k r) = (ledger_balance L)(k := ledger_balance L k + r)"
  "ledger_sequence (apply_coinbase C L k r) = ledger_sequence L"
  by (auto simp: apply_coinbase_def acc_credit_def Let_def fun_eq_iff)

lemma saturating_sub_add: "saturating_sub (a + b) b = a"
  if "unat a + unat b < 2 ^ 64" for a b :: u64
proof -
  have "b \<le> a + b" using that by (simp add: word_le_nat_alt unat_add_no_overflow)
  then show ?thesis by (simp add: saturating_sub_def)
qed

section \<open>Applying a transaction\<close>

text \<open>What a successful application does to the accounts: the same for both variants.\<close>

definition tx_debited :: "crypto \<Rightarrow> ledger \<Rightarrow> transaction \<Rightarrow> account_state" where
  "tx_debited C L t =
     \<lparr>acc_balance = ledger_balance L (tx_sender t) - total_cost t,
      acc_sequence = tx_sequence t, acc_last_tx_hash = tx_hash C t\<rparr>"

lemma account_set_all [simp]:
  "a\<lparr>acc_balance := b, acc_sequence := q, acc_last_tx_hash := h\<rparr>
     = \<lparr>acc_balance = b, acc_sequence = q, acc_last_tx_hash = h\<rparr>"
  "a\<lparr>acc_balance := b, acc_last_tx_hash := h, acc_sequence := q\<rparr>
     = \<lparr>acc_balance = b, acc_sequence = q, acc_last_tx_hash = h\<rparr>"
  by (cases a, simp)+

definition tx_effect :: "crypto \<Rightarrow> ledger \<Rightarrow> transaction \<Rightarrow> ledger" where
  "tx_effect C L t = credit_recipient (L(tx_sender t \<mapsto> tx_debited C L t)) t (tx_hash C t)"

lemma tx_debited_simps [simp]:
  "acc_balance (tx_debited C L t) = ledger_balance L (tx_sender t) - total_cost t"
  "acc_sequence (tx_debited C L t) = tx_sequence t"
  by (simp_all add: tx_debited_def)

lemma apply_tx_cases:
  "apply_tx C L t =
     (if tx_sender t \<notin> dom L then (Inl (InsufficientBalance 0 (total_cost t)), L)
      else if ledger_balance L (tx_sender t) < total_cost t
      then (Inl (InsufficientBalance (ledger_balance L (tx_sender t)) (total_cost t)), L)
      else if tx_sequence t \<noteq> ledger_sequence L (tx_sender t) + 1
      then (Inl (InvalidSequence (ledger_sequence L (tx_sender t) + 1) (tx_sequence t)), L)
      else (Inr (), tx_effect C L t))"
  by (cases "L (tx_sender t)")
    (auto simp: apply_tx_def Let_def get_account_def acc_spend_def can_spend_def tx_effect_def
      tx_debited_def ledger_balance_def ledger_sequence_def account_mut_def not_less)

lemma apply_tx_Inr:
  assumes "apply_tx C L t = (Inr u, L')"
  shows "total_cost t \<le> ledger_balance L (tx_sender t)"
    and "tx_sequence t = ledger_sequence L (tx_sender t) + 1"
    and "tx_sender t \<in> dom L"
    and "L' = tx_effect C L t"
  using assms
  by (auto simp: apply_tx_def Let_def get_account_def acc_spend_def can_spend_def tx_effect_def
      tx_debited_def ledger_balance_def ledger_sequence_def account_mut_def not_less
      split: option.splits if_splits)

lemma apply_tx_ibd_Inr:
  assumes "apply_tx_ibd C L t = (Inr u, L')"
  shows "total_cost t \<le> ledger_balance L (tx_sender t)"
    and "L' = tx_effect C L t"
  using assms
  by (auto simp: apply_tx_ibd_def Let_def acc_spend_def can_spend_def not_less tx_effect_def
      tx_debited_def split: option.splits if_splits)

lemma apply_tx_ibd_cases:
  "apply_tx_ibd C L t =
     (if ledger_balance L (tx_sender t) < total_cost t
      then (Inl (InsufficientBalance (ledger_balance L (tx_sender t)) (total_cost t)), L)
      else (Inr (), tx_effect C L t))"
  by (auto simp: apply_tx_ibd_def Let_def acc_spend_def can_spend_def tx_effect_def tx_debited_def not_less)

lemma apply_tx_Inl: "apply_tx C L t = (Inl e, L') \<Longrightarrow> L' = L"
  by (auto simp: apply_tx_def Let_def get_account_def acc_spend_def can_spend_def
      account_mut_def not_less split: option.splits if_splits)

lemma apply_tx_ibd_Inl: "apply_tx_ibd C L t = (Inl e, L') \<Longrightarrow> L' = L"
  by (auto simp: apply_tx_ibd_def Let_def acc_spend_def can_spend_def
      split: option.splits if_splits)

lemma transfer_supply:
  assumes "ledger_fits L" "total_cost t \<le> ledger_balance L (tx_sender t)"
    "acc_balance s = ledger_balance L (tx_sender t) - total_cost t"
  defines "L1 \<equiv> L(tx_sender t \<mapsto> s)"
  shows "unat (ledger_balance L1 (tx_recipient t)) + unat (tx_amount t) < 2 ^ 64"
    and "ledger_fits (credit_recipient L1 t h)"
    and "supply_of (credit_recipient L1 t h) + unat (total_cost t) = supply_of L + unat (tx_amount t)"
proof -
  have fin: "finite (dom L)" "finite (dom L1)" and lt: "supply_of L < 2 ^ 64"
    using assms(1) by (auto simp: ledger_fits_def L1_def)
  have am: "unat (tx_amount t) \<le> unat (total_cost t)"
    using amount_le_total_cost by (simp add: word_le_nat_alt)
  have c: "unat (total_cost t) \<le> unat (ledger_balance L (tx_sender t))"
    using assms(2) by (simp add: word_le_nat_alt)
  have b: "unat (acc_balance s) = unat (ledger_balance L (tx_sender t)) - unat (total_cost t)"
    using assms(2,3) by (simp add: unat_sub)
  have s1: "supply_of L1 + unat (total_cost t) = supply_of L"
    using supply_upd [OF fin(1), of "tx_sender t" s] b c unfolding L1_def by linarith
  show nw: "unat (ledger_balance L1 (tx_recipient t)) + unat (tx_amount t) < 2 ^ 64"
    using balance_le_supply [OF fin(2), of "tx_recipient t"] s1 am lt by linarith
  let ?r = "(acc_credit (account_mut L1 (tx_recipient t)) (tx_amount t))\<lparr>acc_last_tx_hash := h\<rparr>"
  have r: "unat (acc_balance ?r) = unat (ledger_balance L1 (tx_recipient t)) + unat (tx_amount t)"
    using nw by (simp add: acc_credit_def unat_add_no_overflow)
  have s2: "supply_of (credit_recipient L1 t h) = supply_of L1 + unat (tx_amount t)"
    using supply_upd [OF fin(2), of "tx_recipient t" ?r] r unfolding credit_recipient_def by linarith
  then show eq: "supply_of (credit_recipient L1 t h) + unat (total_cost t)
      = supply_of L + unat (tx_amount t)"
    using s1 by linarith
  show "ledger_fits (credit_recipient L1 t h)"
    using eq am lt fin(2) by (auto simp: ledger_fits_def credit_recipient_def)
qed

text \<open>The observable effect of a transaction, and that reverting it undoes it.\<close>

lemma tx_effect_obs:
  "ledger_balance (tx_effect C L t) = (\<lambda>k.
     (if k = tx_sender t then ledger_balance L k - total_cost t else ledger_balance L k)
     + (if k = tx_recipient t then tx_amount t else 0))"
  "ledger_sequence (tx_effect C L t) = (ledger_sequence L)(tx_sender t := tx_sequence t)"
  by (auto simp: tx_effect_def credit_recipient_def acc_credit_def fun_eq_iff)

lemma dom_tx_effect: "dom (tx_effect C L t) = insert (tx_recipient t) (insert (tx_sender t) (dom L))"
  by (simp add: tx_effect_def credit_recipient_def)

lemma tx_effect_supply:
  assumes "ledger_fits L" "total_cost t \<le> ledger_balance L (tx_sender t)"
  shows "ledger_fits (tx_effect C L t)"
    and "supply_of (tx_effect C L t) + unat (total_cost t) = supply_of L + unat (tx_amount t)"
    and "unat (ledger_balance (L(tx_sender t \<mapsto> tx_debited C L t)) (tx_recipient t))
      + unat (tx_amount t) < 2 ^ 64"
  using transfer_supply [OF assms, of "tx_debited C L t"] by (simp_all add: tx_effect_def)

lemma revert_tx_effect:
  assumes "ledger_fits L" "total_cost t \<le> ledger_balance L (tx_sender t)"
    "tx_sequence t = ledger_sequence L (tx_sender t) + 1" "tx_sequence t \<noteq> 0"
  shows "ledger_equiv (revert_tx (tx_effect C L t) t) L"
proof -
  have nw: "saturating_sub (ledger_balance (L(tx_sender t \<mapsto> tx_debited C L t)) (tx_recipient t)
      + tx_amount t) (tx_amount t)
    = ledger_balance (L(tx_sender t \<mapsto> tx_debited C L t)) (tx_recipient t)"
    by (rule saturating_sub_add) (rule tx_effect_supply(3) [OF assms(1,2)])
  have "1 \<le> ledger_sequence L (tx_sender t) + 1"
    using assms(3,4) by (simp add: word_le_nat_alt unat_gt_0 Suc_le_eq)
  then have "saturating_sub (tx_sequence t) 1 = ledger_sequence L (tx_sender t)"
    using assms(3) by (simp add: saturating_sub_def)
  then show ?thesis
    using nw by (auto simp: ledger_equiv_def revert_tx_obs tx_effect_obs fun_eq_iff
        split: if_splits)
qed

lemma apply_coinbase_supply:
  assumes "finite (dom L)" "supply_of L + unat r < 2 ^ 64"
  shows "supply_of (apply_coinbase C L k r) = supply_of L + unat r"
    and "ledger_fits (apply_coinbase C L k r)"
proof -
  let ?a = "(acc_credit (account_mut L k) r)\<lparr>acc_last_tx_hash :=
    sha3_256 C (bytes32 k @ le64 r @ string_bytes ''coinbase'')\<rparr>"
  have "unat (ledger_balance L k) + unat r < 2 ^ 64"
    using balance_le_supply [OF assms(1), of k] assms(2) by linarith
  then have "unat (acc_balance ?a) = unat (ledger_balance L k) + unat r"
    by (simp add: acc_credit_def unat_add_no_overflow)
  then show eq: "supply_of (apply_coinbase C L k r) = supply_of L + unat r"
    using supply_upd [OF assms(1), of k ?a] unfolding apply_coinbase_def Let_def by linarith
  show "ledger_fits (apply_coinbase C L k r)"
    using eq assms by (simp add: ledger_fits_def apply_coinbase_def Let_def)
qed

lemma revert_coinbase_apply:
  assumes "finite (dom L)" "supply_of L + unat r < 2 ^ 64"
  shows "ledger_equiv (revert_coinbase (apply_coinbase C L k r) k r) L"
proof -
  have "unat (ledger_balance L k) + unat r < 2 ^ 64"
    using balance_le_supply [OF assms(1), of k] assms(2) by linarith
  then show ?thesis
    by (auto simp: ledger_equiv_def revert_coinbase_obs apply_coinbase_obs saturating_sub_add
        fun_eq_iff)
qed

section \<open>The interface of a way of applying transactions\<close>

text \<open>
  Blocks apply their transactions with \<open>apply_tx\<close> at the tip and with \<open>apply_tx_ibd\<close> during the
  initial download. What both promise: a transaction that fails leaves the ledger as it was, and
  one that succeeds burns the difference between its cost and its amount.
\<close>

definition burned :: "transaction list \<Rightarrow> nat" where
  "burned ts = (\<Sum>t\<leftarrow>ts. unat (total_cost t) - unat (tx_amount t))"

locale tx_applier =
  fixes apply_one :: "ledger \<Rightarrow> transaction \<Rightarrow> unit result \<times> ledger"
  assumes err_same: "apply_one L t = (Inl e, L') \<Longrightarrow> L' = L"
    and ok_effect: "apply_one L t = (Inr u, L') \<Longrightarrow> ledger_fits L \<Longrightarrow>
      ledger_fits L' \<and> supply_of L' + unat (total_cost t) = supply_of L + unat (tx_amount t)"
begin

lemma one_fits: "ledger_fits L \<Longrightarrow> apply_one L t = (r, L') \<Longrightarrow> ledger_fits L'"
  by (cases r) (auto dest: err_same ok_effect)

lemma one_le: "ledger_fits L \<Longrightarrow> apply_one L t = (r, L') \<Longrightarrow> supply_of L' \<le> supply_of L"
proof (cases r)
  case (Inr u)
  assume "ledger_fits L" "apply_one L t = (r, L')"
  then have "supply_of L' + unat (total_cost t) = supply_of L + unat (tx_amount t)"
    using ok_effect Inr by blast
  moreover have "unat (tx_amount t) \<le> unat (total_cost t)"
    using amount_le_total_cost by (simp add: word_le_nat_alt)
  ultimately show ?thesis by linarith
qed (auto dest: err_same)

lemma txs_fits: "ledger_fits L \<Longrightarrow> apply_txs apply_one ts L = (r, L') \<Longrightarrow> ledger_fits L'"
  by (induction ts arbitrary: L) (auto split: prod.splits sum.splits dest: one_fits)

lemma txs_le: "ledger_fits L \<Longrightarrow> apply_txs apply_one ts L = (r, L') \<Longrightarrow> supply_of L' \<le> supply_of L"
proof (induction ts arbitrary: L)
  case (Cons t ts)
  obtain r1 L1 where 1: "apply_one L t = (r1, L1)" by fastforce
  then have "supply_of L1 \<le> supply_of L" "ledger_fits L1"
    using one_le one_fits Cons.prems(1) by blast+
  then show ?case using Cons.IH [of L1] Cons.prems(2) 1 by (cases r1) auto
qed simp

lemma txs_supply:
  "ledger_fits L \<Longrightarrow> apply_txs apply_one ts L = (Inr u, L') \<Longrightarrow> supply_of L' + burned ts = supply_of L"
proof (induction ts arbitrary: L)
  case (Cons t ts)
  obtain u1 L1 where 1: "apply_one L t = (Inr u1, L1)"
      and rest: "apply_txs apply_one ts L1 = (Inr u, L')"
    using Cons.prems(2) by (auto split: prod.splits sum.splits)
  have "ledger_fits L1" "supply_of L1 + unat (total_cost t) = supply_of L + unat (tx_amount t)"
    using ok_effect [OF 1] Cons.prems(1) by auto
  moreover have "unat (tx_amount t) \<le> unat (total_cost t)"
    using amount_le_total_cost by (simp add: word_le_nat_alt)
  ultimately show ?case using Cons.IH [OF _ rest] by (simp add: burned_def)
qed (simp add: burned_def)

end

interpretation tip_apply: tx_applier "apply_tx C" for C
proof unfold_locales
  fix L t e L'
  assume "apply_tx C L t = (Inl e, L')"
  then show "L' = L" by (rule apply_tx_Inl)
next
  fix L t u L'
  assume a: "apply_tx C L t = (Inr u, L')" and f: "ledger_fits L"
  show "ledger_fits L' \<and> supply_of L' + unat (total_cost t) = supply_of L + unat (tx_amount t)"
    using tx_effect_supply(1,2) [OF f apply_tx_Inr(1) [OF a]] apply_tx_Inr(4) [OF a] by simp
qed

interpretation ibd_apply: tx_applier "apply_tx_ibd C" for C
proof unfold_locales
  fix L t e L'
  assume "apply_tx_ibd C L t = (Inl e, L')"
  then show "L' = L" by (rule apply_tx_ibd_Inl)
next
  fix L t u L'
  assume a: "apply_tx_ibd C L t = (Inr u, L')" and f: "ledger_fits L"
  show "ledger_fits L' \<and> supply_of L' + unat (total_cost t) = supply_of L + unat (tx_amount t)"
    using tx_effect_supply(1,2) [OF f apply_tx_ibd_Inr(1) [OF a]] apply_tx_ibd_Inr(2) [OF a] by simp
qed

section \<open>Sequence numbers\<close>

lemma apply_tx_sequence:
  assumes "apply_tx C L t = (r, L')"
  shows "ledger_sequence L' k = ledger_sequence L k
    \<or> ledger_sequence L' k = ledger_sequence L k + 1"
proof (cases r)
  case (Inl e)
  then show ?thesis using apply_tx_Inl assms by blast
next
  case (Inr u)
  then show ?thesis using apply_tx_Inr [of C L t u L'] assms by (auto simp: tx_effect_obs)
qed

lemma apply_txs_sequence:
  "apply_txs (apply_tx C) ts L = (r, L') \<Longrightarrow>
     \<exists>m \<le> length ts. ledger_sequence L' k = ledger_sequence L k + of_nat m"
proof (induction ts arbitrary: L)
  case (Cons t ts)
  obtain r1 L1 where 1: "apply_tx C L t = (r1, L1)" by fastforce
  show ?case
  proof (cases r1)
    case (Inl e)
    then show ?thesis
      using 1 Cons.prems apply_tx_Inl [of C L t e L'] by (intro exI [of _ 0]) auto
  next
    case (Inr u)
    then obtain m where m: "m \<le> length ts" "ledger_sequence L' k = ledger_sequence L1 k + of_nat m"
      using 1 Cons.IH [of L1] Cons.prems by auto
    show ?thesis
      using apply_tx_sequence [OF 1, of k]
    proof
      assume "ledger_sequence L1 k = ledger_sequence L k"
      then show ?thesis using m by (intro exI [of _ m]) auto
    next
      assume "ledger_sequence L1 k = ledger_sequence L k + 1"
      then show ?thesis using m by (intro exI [of _ "Suc m"]) (auto simp: ac_simps)
    qed
  qed
qed simp

text \<open>
  Everything that changes a ledger. An operation leaves the sequence number of an account to
  \<open>apply_tx\<close> unless it reverts or downloads a transaction of that account.
\<close>

datatype ledger_op =
    Op_Tx transaction
  | Op_Tx_Ibd transaction
  | Op_Revert transaction
  | Op_Coinbase hash32 u64
  | Op_Revert_Coinbase hash32 u64

fun run_ledger_op :: "crypto \<Rightarrow> ledger \<Rightarrow> ledger_op \<Rightarrow> ledger" where
  "run_ledger_op C L (Op_Tx t) = snd (apply_tx C L t)"
| "run_ledger_op C L (Op_Tx_Ibd t) = snd (apply_tx_ibd C L t)"
| "run_ledger_op C L (Op_Revert t) = revert_tx L t"
| "run_ledger_op C L (Op_Coinbase k r) = apply_coinbase C L k r"
| "run_ledger_op C L (Op_Revert_Coinbase k r) = revert_coinbase L k r"

fun op_rewrites :: "hash32 \<Rightarrow> ledger_op \<Rightarrow> bool" where
  "op_rewrites k (Op_Tx_Ibd t) = (tx_sender t = k)"
| "op_rewrites k (Op_Revert t) = (tx_sender t = k)"
| "op_rewrites k _ = False"

lemma apply_tx_ibd_sequence:
  "tx_sender t \<noteq> k \<Longrightarrow> ledger_sequence (snd (apply_tx_ibd C L t)) k = ledger_sequence L k"
proof -
  assume k: "tx_sender t \<noteq> k"
  obtain r L' where run: "apply_tx_ibd C L t = (r, L')" by fastforce
  then show ?thesis
    using k apply_tx_ibd_Inl [of C L t _ L'] apply_tx_ibd_Inr(2) [of C L t _ L']
    by (cases r) (auto simp: tx_effect_obs)
qed

lemma run_ledger_op_sequence:
  assumes "\<not> op_rewrites k p"
  shows "ledger_sequence (run_ledger_op C L p) k = ledger_sequence L k
    \<or> ledger_sequence (run_ledger_op C L p) k = ledger_sequence L k + 1"
proof (cases p)
  case (Op_Tx t)
  then show ?thesis using apply_tx_sequence [of C L t _ _ k] by (metis prod.collapse run_ledger_op.simps(1))
qed (use assms in \<open>auto simp: apply_tx_ibd_sequence revert_tx_obs apply_coinbase_obs revert_coinbase_obs\<close>)

lemma ledger_ops_sequence:
  "list_all (\<lambda>p. \<not> op_rewrites k p) ops \<Longrightarrow>
     \<exists>m \<le> length ops. ledger_sequence (foldl (run_ledger_op C) L ops) k = ledger_sequence L k + of_nat m"
proof (induction ops arbitrary: L)
  case (Cons p ops)
  then obtain m where m: "m \<le> length ops" "ledger_sequence (foldl (run_ledger_op C) L (p # ops)) k
      = ledger_sequence (run_ledger_op C L p) k + of_nat m"
    by auto
  moreover have "ledger_sequence (run_ledger_op C L p) k = ledger_sequence L k
      \<or> ledger_sequence (run_ledger_op C L p) k = ledger_sequence L k + 1"
    using run_ledger_op_sequence Cons.prems by simp
  ultimately show ?case
    by (elim disjE) (auto simp: ac_simps intro: exI [of _ m] exI [of _ "Suc m"])
qed simp

section \<open>Reverting a block\<close>

lemma revert_block_equiv:
  assumes "finite (dom L)" "supply_of L + unat reward < 2 ^ 64"
    "apply_txs (apply_tx C) ts (apply_coinbase C L miner reward) = (Inr u, L')"
    "\<forall>t \<in> set ts. tx_sequence t \<noteq> 0"
  shows "ledger_equiv (revert_coinbase (foldl revert_tx L' (rev ts)) miner reward) L"
proof -
  have txs: "ledger_fits M \<Longrightarrow> apply_txs (apply_tx C) ts M = (Inr v, M') \<Longrightarrow>
      \<forall>t \<in> set ts. tx_sequence t \<noteq> 0 \<Longrightarrow> ledger_equiv (foldl revert_tx M' (rev ts)) M" for ts M v M'
  proof (induction ts arbitrary: M)
    case (Cons t ts)
    obtain w M1 where 1: "apply_tx C M t = (Inr w, M1)"
        and rest: "apply_txs (apply_tx C) ts M1 = (Inr v, M')"
      using Cons.prems(2) by (auto split: prod.splits sum.splits)
    have "ledger_equiv (foldl revert_tx M' (rev ts)) M1"
      using Cons.IH [OF tip_apply.one_fits [OF Cons.prems(1) 1] rest] Cons.prems(3) by simp
    then have "ledger_equiv (revert_tx (foldl revert_tx M' (rev ts)) t) (revert_tx M1 t)"
      by (rule revert_tx_equiv)
    moreover have "ledger_equiv (revert_tx M1 t) M"
      using revert_tx_effect [OF Cons.prems(1) apply_tx_Inr(1,2) [OF 1]] apply_tx_Inr(4) [OF 1]
        Cons.prems(3) by simp
    ultimately show ?case using ledger_equiv_trans by simp
  qed simp
  have "ledger_equiv (foldl revert_tx L' (rev ts)) (apply_coinbase C L miner reward)"
    by (rule txs [OF apply_coinbase_supply(2) [OF assms(1,2)] assms(3,4)])
  then show ?thesis
    using revert_coinbase_equiv revert_coinbase_apply [OF assms(1,2)] ledger_equiv_trans by blast
qed

section \<open>Concrete ledgers and transactions for witnesses\<close>

definition toy_tx :: "hash32 \<Rightarrow> hash32 \<Rightarrow> u64 \<Rightarrow> u64 \<Rightarrow> u64 \<Rightarrow> transaction" where
  "toy_tx s r a f q = \<lparr>tx_version = 1, tx_sender = s, tx_recipient = r, tx_amount = a, tx_fee = f,
     tx_sequence = q, tx_timestamp_ms = 0, tx_prev_tx_hash = 0, tx_data = [],
     tx_posc_proof = 0, tx_posc_steps = 0, tx_signature = of_nat (unat s)\<rparr>"

definition toy_ledger :: ledger where
  "toy_ledger = Map.empty(1 \<mapsto> acc_new 100)"

lemma toy_tx_simps [simp]:
  "tx_sender (toy_tx s r a f q) = s" "tx_recipient (toy_tx s r a f q) = r"
  "tx_amount (toy_tx s r a f q) = a" "tx_fee (toy_tx s r a f q) = f"
  "tx_sequence (toy_tx s r a f q) = q" "total_cost (toy_tx s r a f q) = saturating_add a f"
  by (simp_all add: toy_tx_def total_cost_def)

lemma toy_ledger_facts [simp]:
  "ledger_fits toy_ledger" "supply_of toy_ledger = 100"
  "ledger_balance toy_ledger 1 = 100" "ledger_balance toy_ledger 2 = 0" "ledger_sequence toy_ledger 1 = 0" "1 \<in> dom toy_ledger"
  by (simp_all add: ledger_fits_def supply_of_def toy_ledger_def acc_new_def ledger_balance_def
      ledger_sequence_def account_mut_def)

lemma toy_apply [simp]:
  "apply_tx toy_crypto toy_ledger (toy_tx 1 2 30 5 1)
     = (Inr (), tx_effect toy_crypto toy_ledger (toy_tx 1 2 30 5 1))"
  by (simp add: apply_tx_def get_account_def toy_ledger_def acc_new_def acc_spend_def can_spend_def
      tx_effect_def tx_debited_def account_mut_def ledger_balance_def saturating_add_def Let_def)

section \<open>Properties\<close>

text \<open>
  when a transaction is accepted, and on which error it is refused: the sender must have an
  account, hold the amount and the fee, and use the next sequence number, checked in that
  order; a refused transaction changes nothing, and both errors carry the values that caused
  them.
\<close>
theorem apply_tx_decision:
  "apply_tx C L t =
     (if tx_sender t \<notin> dom L then (Inl (InsufficientBalance 0 (total_cost t)), L)
      else if unat (ledger_balance L (tx_sender t)) < min (unat (tx_amount t) + unat (tx_fee t)) (2 ^ 64 - 1)
      then (Inl (InsufficientBalance (ledger_balance L (tx_sender t)) (total_cost t)), L)
      else if tx_sequence t \<noteq> ledger_sequence L (tx_sender t) + 1
      then (Inl (InvalidSequence (ledger_sequence L (tx_sender t) + 1) (tx_sequence t)), L)
      else (Inr (), tx_effect C L t))"
proof -
  have lt: "unat (ledger_balance L (tx_sender t))
        < min (unat (tx_amount t) + unat (tx_fee t)) (2 ^ 64 - 1)
      \<longleftrightarrow> ledger_balance L (tx_sender t) < total_cost t"
    by (simp only: word_less_nat_alt unat_total_cost)
  show ?thesis
    unfolding lt by (rule apply_tx_cases)
qed

text \<open>
  C17: an accepted transaction moves exactly its amount from the sender to the recipient and
  burns exactly its fee, on every balance and on the total supply, and moves only the
  sender's sequence number, by one; nothing wraps while the supply is below the top of the
  64-bit range.
\<close>
theorem apply_tx_transfer:
  assumes "ledger_fits L" "supply_of L < 2 ^ 64 - 1" "apply_tx C L t = (Inr u, L')"
  shows "unat (ledger_balance L' k)
      + (if k = tx_sender t then unat (tx_amount t) + unat (tx_fee t) else 0)
      = unat (ledger_balance L k) + (if k = tx_recipient t then unat (tx_amount t) else 0)
    \<and> ledger_sequence L' k = ledger_sequence L k + (if k = tx_sender t then 1 else 0)
    \<and> unat (total_supply L') + unat (tx_fee t) = unat (total_supply L)
    \<and> ledger_fits L'"
proof -
  note ok = apply_tx_Inr [OF assms(3)]
  have fin: "finite (dom L)" using assms(1) by (simp add: ledger_fits_def)
  have le: "unat (total_cost t) \<le> unat (ledger_balance L (tx_sender t))"
    using ok(1) by (simp add: word_le_nat_alt)
  have cost: "unat (total_cost t) = unat (tx_amount t) + unat (tx_fee t)"
    using le balance_le_supply [OF fin, of "tx_sender t"] assms(2) unat_total_cost [of t] by linarith
  note eff = tx_effect_supply [OF assms(1) ok(1)]
  have sup: "supply_of L' + unat (tx_fee t) = supply_of L"
    using eff(2) cost ok(4) by simp
  let ?b = "if k = tx_sender t then ledger_balance L k - total_cost t else ledger_balance L k"
  have b: "unat ?b + (if k = tx_sender t then unat (tx_amount t) + unat (tx_fee t) else 0)
      = unat (ledger_balance L k)"
    using ok(1) cost le by (simp add: unat_sub)
  have nw: "unat ?b + unat (tx_amount t) < 2 ^ 64" if "k = tx_recipient t"
    using eff(3) that by (auto split: if_splits)
  have "unat (?b + (if k = tx_recipient t then tx_amount t else 0))
      = unat ?b + (if k = tx_recipient t then unat (tx_amount t) else 0)"
    using nw unat_add_no_overflow [of ?b "tx_amount t"] by auto
  then have "unat (ledger_balance L' k) = unat ?b
      + (if k = tx_recipient t then unat (tx_amount t) else 0)"
    unfolding ok(4) tx_effect_obs .
  then show ?thesis
    using b sup eff(1) ok(2,4) total_supply_exact [OF eff(1)] total_supply_exact [OF assms(1)]
    by (simp add: tx_effect_obs(2))
qed

theorem apply_tx_transfer_witness:
  "unat (ledger_balance (tx_effect toy_crypto toy_ledger (toy_tx 1 2 30 5 1)) 2) = 30
   \<and> unat (ledger_balance (tx_effect toy_crypto toy_ledger (toy_tx 1 2 30 5 1)) 1) = 65"
  using apply_tx_transfer [of toy_ledger toy_crypto "toy_tx 1 2 30 5 1" "()" _ 2]
    apply_tx_transfer [of toy_ledger toy_crypto "toy_tx 1 2 30 5 1" "()" _ 1]
  by simp

text \<open>
  C18: what the sequence number protects from: once a transaction is accepted at the tip, \<open>apply_tx\<close>
  refuses it in every later ledger reached by fewer than two to the 64 operations, failed ones
  included, none of which reverts or downloads a transaction of its sender; it is the sequence number
  that is refused while the sender could still pay. The protection is that of \<open>apply_tx\<close> alone:
  \<open>apply_tx_ibd\<close>, which applies the transactions of every downloaded block, makes the same transfer
  a second time whenever the sender can pay for it.
\<close>
theorem apply_tx_no_replay:
  assumes "apply_tx C L t = (Inr u, L1)" "list_all (\<lambda>p. \<not> op_rewrites (tx_sender t) p) ops"
    and "Suc (length ops) < 2 ^ 64" "L2 = foldl (run_ledger_op C) L1 ops"
  shows "(\<exists>e. apply_tx C L2 t = (Inl e, L2))
    \<and> (tx_sender t \<in> dom L2 \<and> total_cost t \<le> ledger_balance L2 (tx_sender t) \<longrightarrow>
         apply_tx C L2 t = (Inl (InvalidSequence (ledger_sequence L2 (tx_sender t) + 1) (tx_sequence t)), L2)
         \<and> apply_tx_ibd C L2 t = (Inr (), tx_effect C L2 t))"
proof -
  obtain m where m: "m \<le> length ops"
      "ledger_sequence L2 (tx_sender t) = ledger_sequence L1 (tx_sender t) + of_nat m"
    using ledger_ops_sequence [OF assms(2)] assms(4) by blast
  have seq: "ledger_sequence L1 (tx_sender t) = tx_sequence t"
    using apply_tx_Inr(4) [OF assms(1)] by (simp add: tx_effect_obs)
  have "tx_sequence t \<noteq> ledger_sequence L2 (tx_sender t) + 1"
  proof
    assume "tx_sequence t = ledger_sequence L2 (tx_sender t) + 1"
    then have "of_nat (Suc m) = (0 :: u64)" using m(2) seq by (simp add: ac_simps)
    then have "2 ^ 64 dvd Suc m" using word_of_nat_eq_0_iff [where ?'a = 64, of "Suc m"] by simp
    then have "2 ^ 64 \<le> Suc m" by (rule dvd_imp_le) simp
    then show False using m(1) assms(3) by linarith
  qed
  then show ?thesis
    by (auto simp: apply_tx_cases apply_tx_ibd_cases not_less)
qed

theorem apply_tx_no_replay_witness:
  "apply_tx toy_crypto (apply_coinbase toy_crypto (tx_effect toy_crypto toy_ledger (toy_tx 1 2 30 5 1)) 4 9)
      (toy_tx 1 2 30 5 1)
    = (Inl (InvalidSequence 2 1), apply_coinbase toy_crypto (tx_effect toy_crypto toy_ledger (toy_tx 1 2 30 5 1)) 4 9)"
proof -
  let ?M = "apply_coinbase toy_crypto (tx_effect toy_crypto toy_ledger (toy_tx 1 2 30 5 1)) 4 9"
  have "1 \<in> dom ?M" "ledger_balance ?M 1 = 65" "ledger_sequence ?M 1 = 1"
    by (simp_all add: apply_coinbase_obs tx_effect_obs saturating_add_def,
      simp add: apply_coinbase_def Let_def dom_tx_effect)
  moreover have "total_cost (toy_tx 1 2 30 5 1) = 35" by (simp add: saturating_add_def)
  ultimately show ?thesis
    using apply_tx_no_replay [OF toy_apply, of "[Op_Coinbase 4 9]" ?M] by simp
qed

end
