(* ===== verification/Block.thy ===== *)
theory Block
  imports Ledger
begin

text \<open>
  Blocks (core/src/block.rs): the header encoding and hash, the genesis block, and the
  validation against the predecessor with its reasons. The reason texts of the code become
  constructors that carry the values the text shows (hashes by their first eight bytes).
\<close>

definition BLOCK_TIMESTAMP_TOLERANCE_MS :: u64 where "BLOCK_TIMESTAMP_TOLERANCE_MS = 120000"

record block =
  blk_index :: u64
  blk_prev_hash :: hash32
  blk_timestamp :: u64
  blk_miner :: hash32
  blk_nonce :: u64
  blk_hash :: hash32
  blk_reward :: u64
  blk_transactions :: "transaction list"

definition header_bytes :: "block \<Rightarrow> bytes" where
  "header_bytes b =
     le64 (blk_index b) @ bytes32 (blk_prev_hash b) @ le64 (blk_timestamp b) @
     bytes32 (blk_miner b) @ le64 (blk_nonce b) @ le64 (blk_reward b)"

definition hash_header :: "crypto \<Rightarrow> block \<Rightarrow> hash32" where
  "hash_header C b = seq_hash_fast C (header_bytes b) MINING_STEPS"

definition genesis_block :: "crypto \<Rightarrow> block" where
  "genesis_block C =
     (let genesis_hash = sha3_256 C (string_bytes ''TARON_GENESIS_V2_2026_PREMINE'')
      in \<lparr>blk_index = 0, blk_prev_hash = 0, blk_timestamp = 1772975700000, blk_miner = 0,
          blk_nonce = 0, blk_hash = genesis_hash, blk_reward = 0, blk_transactions = []\<rparr>)"

datatype reject_reason =
    BadIndex (br_got: u64) (br_expected: u64)
  | BadPrevHash bytes bytes
  | BadHash bytes bytes
  | InsufficientDifficulty bytes u32
  | TimestampTooFar u64 u64 u64 u64

definition validate_inner ::
    "crypto \<Rightarrow> u64 \<Rightarrow> block \<Rightarrow> block \<Rightarrow> u32 \<Rightarrow> bool \<Rightarrow> reject_reason option" where
  "validate_inner C now_ms b prev difficulty check_timestamp =
     (if blk_index b \<noteq> blk_index prev + 1 then Some (BadIndex (blk_index b) (blk_index prev + 1))
      else if blk_prev_hash b \<noteq> blk_hash prev
      then Some (BadPrevHash (take 8 (bytes32 (blk_prev_hash b))) (take 8 (bytes32 (blk_hash prev))))
      else
        let computed = hash_header C b in
        if blk_hash b \<noteq> computed
        then Some (BadHash (take 8 (bytes32 (blk_hash b))) (take 8 (bytes32 computed)))
        else if \<not> meets_difficulty (blk_hash b) difficulty
        then Some (InsufficientDifficulty (take 8 (bytes32 (blk_hash b))) difficulty)
        else if check_timestamp then
          (let delta = (if blk_timestamp b > now_ms then blk_timestamp b - now_ms
                        else now_ms - blk_timestamp b)
           in if delta > BLOCK_TIMESTAMP_TOLERANCE_MS
              then Some (TimestampTooFar (blk_timestamp b) now_ms delta BLOCK_TIMESTAMP_TOLERANCE_MS)
              else None)
        else None)"

definition is_valid_inner :: "crypto \<Rightarrow> u64 \<Rightarrow> block \<Rightarrow> block \<Rightarrow> u32 \<Rightarrow> bool \<Rightarrow> bool" where
  "is_valid_inner C now_ms b prev difficulty check_timestamp \<longleftrightarrow>
     validate_inner C now_ms b prev difficulty check_timestamp = None"

definition block_is_valid :: "crypto \<Rightarrow> u64 \<Rightarrow> block \<Rightarrow> block \<Rightarrow> u32 \<Rightarrow> bool" where
  "block_is_valid C now_ms b prev difficulty = is_valid_inner C now_ms b prev difficulty True"

definition block_is_valid_ibd :: "crypto \<Rightarrow> u64 \<Rightarrow> block \<Rightarrow> block \<Rightarrow> u32 \<Rightarrow> bool" where
  "block_is_valid_ibd C now_ms b prev difficulty = is_valid_inner C now_ms b prev difficulty False"

section \<open>Lemmas\<close>

lemma header_bytes_inj:
  "header_bytes b = header_bytes c \<longleftrightarrow>
     blk_index b = blk_index c \<and> blk_prev_hash b = blk_prev_hash c \<and>
     blk_timestamp b = blk_timestamp c \<and> blk_miner b = blk_miner c \<and>
     blk_nonce b = blk_nonce c \<and> blk_reward b = blk_reward c"
  by (auto simp only: header_bytes_def append_injs enc_injs)

lemma header_bytes_length: "length (header_bytes b) = 96"
  by (simp add: header_bytes_def)

lemma hash_header_transactions [simp]:
  "hash_header C (b\<lparr>blk_transactions := ts\<rparr>) = hash_header C b"
  by (simp add: hash_header_def header_bytes_def)

lemma hash_header_hash [simp]: "hash_header C (b\<lparr>blk_hash := h\<rparr>) = hash_header C b"
  by (simp add: hash_header_def header_bytes_def)

text \<open>What a valid block satisfies, whether or not its timestamp is checked.\<close>

definition links_to :: "crypto \<Rightarrow> block \<Rightarrow> block \<Rightarrow> u32 \<Rightarrow> bool" where
  "links_to C b prev difficulty \<longleftrightarrow>
     blk_index b = blk_index prev + 1 \<and> blk_prev_hash b = blk_hash prev \<and>
     blk_hash b = hash_header C b \<and> meets_difficulty (blk_hash b) difficulty"

lemma validate_inner_None:
  "validate_inner C now b prev d chk = None \<longleftrightarrow> links_to C b prev d
     \<and> (chk \<longrightarrow> unat (blk_timestamp b) \<le> unat now + 120000 \<and> unat now \<le> unat (blk_timestamp b) + 120000)"
proof -
  have "(if blk_timestamp b > now then blk_timestamp b - now else now - blk_timestamp b)
        > BLOCK_TIMESTAMP_TOLERANCE_MS
      \<longleftrightarrow> \<not> (unat (blk_timestamp b) \<le> unat now + 120000 \<and> unat now \<le> unat (blk_timestamp b) + 120000)"
    by (auto simp: BLOCK_TIMESTAMP_TOLERANCE_MS_def word_less_nat_alt unat_sub word_le_nat_alt not_less)
  then show ?thesis
    unfolding validate_inner_def links_to_def Let_def by auto
qed

section \<open>Concrete blocks for witnesses\<close>

text \<open>
  With \<open>toy_crypto\<close> the hash of a header is its index, so the toy block of height \<open>i\<close> has
  hash \<open>i\<close> and links to the one below it.
\<close>

definition toy_block :: "u64 \<Rightarrow> u64 \<Rightarrow> transaction list \<Rightarrow> block" where
  "toy_block i time ts = \<lparr>blk_index = i, blk_prev_hash = of_nat (unat i - 1), blk_timestamp = time,
     blk_miner = 7, blk_nonce = 0, blk_hash = of_nat (unat i), blk_reward = TESTNET_REWARD,
     blk_transactions = ts\<rparr>"

lemma toy_block_simps [simp]:
  "blk_index (toy_block i time ts) = i" "blk_prev_hash (toy_block i time ts) = of_nat (unat i - 1)"
  "blk_timestamp (toy_block i time ts) = time" "blk_hash (toy_block i time ts) = of_nat (unat i)"
  "blk_reward (toy_block i time ts) = TESTNET_REWARD" "blk_miner (toy_block i time ts) = 7"
  "blk_transactions (toy_block i time ts) = ts"
  by (simp_all add: toy_block_def)

lemma le_val_le64: "le_val (le64 w) = unat w"
  using unat_less_64 [of w] by (simp add: le64_def le_val_le_bytes)

lemma toy_hash_header [simp]: "hash_header toy_crypto b = of_nat (unat (blk_index b))"
proof -
  obtain s where "hash_header toy_crypto b = finalize_state toy_crypto (header_bytes b) s"
    using seq_hash_fast_form unfolding hash_header_def by blast
  then show ?thesis
    by (cases s) (simp add: finalize_state_def sha3_256_def toy_crypto_def header_bytes_def le_val_le64)
qed

lemma toy_genesis [simp]:
  "blk_index (genesis_block C) = 0" "blk_hash (genesis_block toy_crypto) = 0"
  "blk_timestamp (genesis_block C) = 1772975700000" "blk_transactions (genesis_block C) = []"
  by (simp_all add: genesis_block_def Let_def sha3_256_def toy_crypto_def string_bytes_def)

section \<open>Properties\<close>

text \<open>
  C30: a block is accepted exactly when its index follows its predecessor's, it names the
  predecessor's hash, its own hash is the SEQUAL hash of its header and, read as a number, is
  below the target, and (at the tip only) its timestamp is within two minutes of the clock.
\<close>
theorem block_is_valid_iff:
  "(block_is_valid_ibd C now b prev d \<longleftrightarrow>
     blk_index b = blk_index prev + 1 \<and> blk_prev_hash b = blk_hash prev \<and>
     blk_hash b = hash_header C b \<and> unat d < 264 \<and> unat (blk_hash b) < 2 ^ (256 - unat d))
   \<and> (block_is_valid C now b prev d \<longleftrightarrow> block_is_valid_ibd C now b prev d
     \<and> \<bar>int (unat (blk_timestamp b)) - int (unat now)\<bar> \<le> 120000)"
  by (auto simp: block_is_valid_ibd_def block_is_valid_def is_valid_inner_def validate_inner_None
      links_to_def meets_difficulty_def seq_meets_difficulty_value simp del: of_nat_unat)

text \<open>
  the header does not commit to the transactions: replacing the transactions of a block by
  any others leaves its hash and the outcome of its validation unchanged, so proof of work does
  not protect the contents of a block. Every other field is bound: two headers with the same
  encoding agree on all of them.
\<close>
theorem header_ignores_transactions:
  "hash_header C (b\<lparr>blk_transactions := ts\<rparr>) = hash_header C b
   \<and> validate_inner C now (b\<lparr>blk_transactions := ts\<rparr>) prev d chk = validate_inner C now b prev d chk
   \<and> (header_bytes b = header_bytes c \<longleftrightarrow>
        (\<exists>us h. c = b\<lparr>blk_transactions := us, blk_hash := h\<rparr>))"
proof -
  have "(header_bytes b = header_bytes c) = (\<exists>us h. c = b\<lparr>blk_transactions := us, blk_hash := h\<rparr>)"
    by (cases b; cases c) (auto simp: header_bytes_inj)
  then show ?thesis by (simp add: validate_inner_def Let_def)
qed

end
