(* ===== verification/Chain.thy ===== *)
theory Chain
  imports Block
begin

text \<open>
  The block store (core/src/blockchain.rs): key layout, queries, applying and reverting blocks,
  reorganisations, the difficulty adjustment and loading. The key-value store (RocksDB) and the
  binary codec of blocks (bincode) are parameters: a record \<open>storage\<close> over a state of the
  store \<open>'d\<close> and stored values \<open>'v\<close>. Failures of the disk are not modelled (the code panics on
  them); \<open>storage_ok\<close> states what the code relies on: a \<open>get\<close> returns the last \<open>put\<close>, a
  \<open>delete\<close> removes, and decoding inverts encoding.
\<close>

section \<open>The store\<close>

record ('d, 'v) storage =
  db_get :: "'d \<Rightarrow> bytes \<Rightarrow> 'v option"
  db_put :: "'d \<Rightarrow> bytes \<Rightarrow> 'v \<Rightarrow> 'd"
  db_delete :: "'d \<Rightarrow> bytes \<Rightarrow> 'd"
  val_of_bytes :: "bytes \<Rightarrow> 'v"
  bytes_of_val :: "'v \<Rightarrow> bytes"
  bin_block :: "block \<Rightarrow> 'v"
  unbin_block :: "'v \<Rightarrow> block option"

definition storage_ok :: "('d, 'v) storage \<Rightarrow> bool" where
  "storage_ok S \<longleftrightarrow>
     (\<forall>d k v j. db_get S (db_put S d k v) j = (if j = k then Some v else db_get S d j)) \<and>
     (\<forall>d k j. db_get S (db_delete S d k) j = (if j = k then None else db_get S d j)) \<and>
     (\<forall>bs. bytes_of_val S (val_of_bytes S bs) = bs) \<and>
     (\<forall>b. unbin_block S (bin_block S b) = Some b)"

definition DAA_WINDOW :: u64 where "DAA_WINDOW = 10"
definition TARGET_BLOCK_MS :: u64 where "TARGET_BLOCK_MS = 30000"

definition CHECKPOINTS :: "(u64 \<times> string) list" where
  "CHECKPOINTS =
    [(500,  ''000004828f46af7c3c3052bac3ef571fc5b805031c66dcb009c427a51da92066''),
     (1000, ''000002972377958419f026f52436738aaa63be77143e711da89d1fb8f0742acb''),
     (1500, ''0000004b4c622a9f708071b52013e0f7844ec972e0582e0c9a46a30a84477f2c''),
     (2000, ''000016349cc475ac88095d4a720b63c9e3972bd7fcb8388ddb45265ebfbb2f67''),
     (2500, ''0000020bdb99172bb4dcb259a8eeb2e1211ec2ae8568a5e1e31eb9854a19018c''),
     (3000, ''0000016ef4c1110ffc985192a6a0769d540a5b71bb5885b0ff250a021bfbeb46''),
     (3500, ''0000058896f4201e9809feae8bdf990889997c533ee6937e556ecbe9a36077c8''),
     (4000, ''000000a46de28179b3c2b0a438a3828bda276fa390f08dd3e703e0fa7f3c9125''),
     (4500, ''00000d5b9bf012e94151c4256c258401dc592cb2b27d2119445f74a9fec654eb''),
     (5000, ''000006737ab2a41d65938e6c2b5b9556eec9bea25907ae4e14903950b00f1309''),
     (5500, ''000001d111bd6436d4a32e0ea6bc6c2d5359d06c7cd0af0dcaa619e255594a45''),
     (6000, ''00000465333670900ed90e49a10897aebc4a8a45d0c6eb68d2e14d4b0ffcec68''),
     (6500, ''00001bc7de79a5fec2b857e72345410c89aeb2e675d32776ad77a5e6b857e386''),
     (7000, ''00001cc75eddfc930b3c4994715803bd93460b7ac9f5d70abe8bbdfe86dbb637''),
     (7500, ''0000000f97070e40af63fc6055b82644813e37e3a24d425c5e0b79594d7b6371''),
     (7937, ''00002d675599959f39f33cbb7224bfdedd2780355f227ec7cc33a04d8e65f80e'')]"

definition block_key :: "u64 \<Rightarrow> bytes" where
  "block_key index = string_bytes ''b:'' @ le64 index"

definition prev_diff_key :: "u64 \<Rightarrow> bytes" where
  "prev_diff_key boundary_height = string_bytes ''meta:pd:'' @ le64 boundary_height"

definition KEY_HEIGHT :: bytes where "KEY_HEIGHT = string_bytes ''meta:h''"
definition KEY_DIFF :: bytes where "KEY_DIFF = string_bytes ''meta:d''"

record 'd blockchain =
  bc_db :: 'd
  bc_height :: u64
  bc_difficulty :: u32

section \<open>Queries\<close>

definition block_at :: "('d, 'v) storage \<Rightarrow> 'd blockchain \<Rightarrow> u64 \<Rightarrow> block option" where
  "block_at S ch index = (case db_get S (bc_db ch) (block_key index) of
     None \<Rightarrow> None | Some v \<Rightarrow> unbin_block S v)"

text \<open>\<open>tip\<close> panics when the tip block is not in the store: \<open>None\<close>.\<close>

definition chain_tip :: "('d, 'v) storage \<Rightarrow> 'd blockchain \<Rightarrow> block option" where
  "chain_tip S ch = block_at S ch (bc_height ch)"

definition total_blocks :: "'d blockchain \<Rightarrow> nat" where
  "total_blocks ch = unat (bc_height ch + 1)"

definition u64_range :: "u64 \<Rightarrow> u64 \<Rightarrow> u64 list" where
  "u64_range a b = map of_nat [unat a..<Suc (unat b)]"

definition blocks_paginated :: "('d, 'v) storage \<Rightarrow> 'd blockchain \<Rightarrow> u64 \<Rightarrow> u64 \<Rightarrow> block list" where
  "blocks_paginated S ch offset limit =
     (if bc_height ch = 0 \<and> offset > 0 then []
      else
        let start = saturating_sub (bc_height ch) offset;
            end_idx = saturating_sub start (saturating_sub limit 1)
        in List.map_filter (block_at S ch) (rev (u64_range end_idx start)))"

definition blocks_range :: "('d, 'v) storage \<Rightarrow> 'd blockchain \<Rightarrow> u64 \<Rightarrow> u64 \<Rightarrow> block list" where
  "blocks_range S ch from_idx to_idx =
     (let to_idx = min to_idx (bc_height ch)
      in List.map_filter (block_at S ch) (u64_range from_idx to_idx))"

definition blocks_by_miner :: "('d, 'v) storage \<Rightarrow> 'd blockchain \<Rightarrow> hash32 \<Rightarrow> block list" where
  "blocks_by_miner S ch pubkey =
     filter (\<lambda>b. blk_miner b = pubkey)
       (List.map_filter (block_at S ch) (u64_range 0 (bc_height ch)))"

definition checkpoint_anchor_at_or_below :: "u64 \<Rightarrow> u64" where
  "checkpoint_anchor_at_or_below height =
     (let hs = map fst (filter (\<lambda>(h, _). h \<le> height) CHECKPOINTS)
      in case hs of [] \<Rightarrow> 0 | h # hs' \<Rightarrow> foldl max h hs')"

section \<open>Difficulty\<close>

definition adjust_difficulty_step :: "u32 \<Rightarrow> u64 \<Rightarrow> u64 \<Rightarrow> u32" where
  "adjust_difficulty_step current_diff actual_ms target_ms =
     (if actual_ms = 0 then min (current_diff + 1) 30
      else
        let new_diff =
          (if actual_ms < target_ms div 4 then saturating_add current_diff 2
           else if actual_ms < target_ms then saturating_add current_diff 1
           else if actual_ms > target_ms * 4 then saturating_sub current_diff 2
           else if actual_ms > target_ms then saturating_sub current_diff 1
           else current_diff)
        in min (max new_diff 1) 30)"

text \<open>\<open>compute_next_difficulty\<close> unwraps the two blocks of the window: \<open>None\<close> is that panic.\<close>

definition compute_next_difficulty :: "('d, 'v) storage \<Rightarrow> 'd blockchain \<Rightarrow> u32 option" where
  "compute_next_difficulty S ch =
     (if bc_height ch < DAA_WINDOW then Some TESTNET_DIFFICULTY
      else case (block_at S ch (bc_height ch), block_at S ch (bc_height ch - DAA_WINDOW)) of
        (Some window_end, Some window_start) \<Rightarrow>
          (let actual_ms = saturating_sub (blk_timestamp window_end) (blk_timestamp window_start);
               target_ms = TARGET_BLOCK_MS * DAA_WINDOW
           in if actual_ms = 0 then Some (min (bc_difficulty ch + 1) 30)
              else
                let new_diff =
                  (if actual_ms < target_ms div 4 then saturating_add (bc_difficulty ch) 2
                   else if actual_ms < target_ms then saturating_add (bc_difficulty ch) 1
                   else if actual_ms > target_ms * 4 then saturating_sub (bc_difficulty ch) 2
                   else if actual_ms > target_ms then saturating_sub (bc_difficulty ch) 1
                   else bc_difficulty ch)
                in Some (min (max new_diff 1) 30))
      | _ \<Rightarrow> None)"

text \<open>
  The loop over the boundaries. The boundary is a number here: the counter of the code wraps
  only on a chain of almost two to the 64 blocks.
\<close>

function recompute_loop ::
    "('d, 'v) storage \<Rightarrow> 'd blockchain \<Rightarrow> nat \<Rightarrow> u32 \<Rightarrow> u32" where
  "recompute_loop S ch boundary diff =
     (if boundary \<le> unat (bc_height ch)
      then case block_at S ch (of_nat boundary) of
             None \<Rightarrow> diff
           | Some window_end \<Rightarrow>
               (case block_at S ch (of_nat boundary - DAA_WINDOW) of
                  None \<Rightarrow> diff
                | Some window_start \<Rightarrow>
                    recompute_loop S ch (boundary + unat DAA_WINDOW)
                      (adjust_difficulty_step diff
                        (saturating_sub (blk_timestamp window_end) (blk_timestamp window_start))
                        (TARGET_BLOCK_MS * DAA_WINDOW)))
      else diff)"
  by pat_completeness auto

termination
  by (relation "measure (\<lambda>(S, ch, boundary, diff). Suc (unat (bc_height ch)) - boundary)")
    (auto simp: DAA_WINDOW_def)

declare recompute_loop.simps [simp del]

definition recompute_difficulty_from_chain :: "('d, 'v) storage \<Rightarrow> 'd blockchain \<Rightarrow> u32" where
  "recompute_difficulty_from_chain S ch =
     (if bc_height ch < DAA_WINDOW then TESTNET_DIFFICULTY
      else recompute_loop S ch (unat DAA_WINDOW) TESTNET_DIFFICULTY)"

section \<open>Reverting\<close>

text \<open>
  The operations that change the chain return their result, the chain and the ledger, because a
  call that fails may already have changed the ledger.
\<close>

type_synonym ('d, 'a) chain_result = "'a partial \<times> 'd blockchain \<times> ledger"

definition revert_tip ::
    "('d, 'v) storage \<Rightarrow> 'd blockchain \<Rightarrow> ledger \<Rightarrow> ('d, block) chain_result" where
  "revert_tip S ch L =
     (if bc_height ch = 0 then (Inl (Err InvalidBlock), ch, L)
      else case chain_tip S ch of
        None \<Rightarrow> (Inl Panic, ch, L)
      | Some tip \<Rightarrow>
          let L = foldl revert_tx L (rev (blk_transactions tip));
              L = revert_coinbase L (blk_miner tip) (blk_reward tip);
              ch = ch\<lparr>bc_db := db_delete S (bc_db ch) (block_key (bc_height ch))\<rparr>;
              ch = ch\<lparr>bc_height := bc_height ch - 1\<rparr>;
              ch = ch\<lparr>bc_db := db_put S (bc_db ch) KEY_HEIGHT (val_of_bytes S (le64 (bc_height ch)))\<rparr>
          in if (bc_height ch + 1) mod DAA_WINDOW = 0
             then
               let boundary = bc_height ch + 1;
                   new_diff =
                     (case db_get S (bc_db ch) (prev_diff_key boundary) of
                        Some v \<Rightarrow>
                          (let bs = bytes_of_val S v
                           in Some (if length bs = 4 then from_le32 bs else 0))
                      | None \<Rightarrow> compute_next_difficulty S ch)
               in case new_diff of
                    None \<Rightarrow> (Inl Panic, ch, L)
                  | Some d \<Rightarrow>
                      (Inr tip,
                       ch\<lparr>bc_difficulty := d,
                          bc_db := db_put S (bc_db ch) KEY_DIFF (val_of_bytes S (le32 d))\<rparr>, L)
             else (Inr tip, ch, L))"

lemma revert_tip_height:
  "revert_tip S ch L = (Inr b, ch', L') \<Longrightarrow>
     bc_height ch \<noteq> 0 \<and> bc_height ch' = bc_height ch - 1"
  by (auto simp: revert_tip_def Let_def split: if_splits option.splits)

lemma revert_tip_decreases:
  "revert_tip S ch L = (Inr b, ch', L') \<Longrightarrow> unat (bc_height ch') < unat (bc_height ch)"
  using revert_tip_height [of S ch L b ch' L']
  by (simp add: unat_sub word_le_nat_alt unat_gt_0 Suc_le_eq unat_minus_one)

function revert_loop ::
    "('d, 'v) storage \<Rightarrow> u64 \<Rightarrow> 'd blockchain \<Rightarrow> ledger \<Rightarrow> block list \<Rightarrow> ('d, block list) chain_result" where
  "revert_loop S target_height ch L reverted =
     (if bc_height ch > target_height
      then case revert_tip S ch L of
             (Inl e, ch', L') \<Rightarrow> (Inl e, ch', L')
           | (Inr b, ch', L') \<Rightarrow> revert_loop S target_height ch' L' (reverted @ [b])
      else (Inr reverted, ch, L))"
  by pat_completeness auto

termination
  by (relation "measure (\<lambda>(S, target, ch, L, reverted). unat (bc_height ch))")
    (auto dest!: sym [where t = "revert_tip _ _ _"] revert_tip_decreases)

declare revert_loop.simps [simp del]

definition revert_to_height ::
    "('d, 'v) storage \<Rightarrow> 'd blockchain \<Rightarrow> u64 \<Rightarrow> ledger \<Rightarrow> ('d, block list) chain_result" where
  "revert_to_height S ch target_height L =
     (let min_safe = checkpoint_anchor_at_or_below (bc_height ch) in
      if target_height < min_safe then (Inl (Err InvalidBlock), ch, L)
      else case revert_loop S target_height ch L [] of
        (Inl e, ch', L') \<Rightarrow> (Inl e, ch', L')
      | (Inr reverted, ch', L') \<Rightarrow>
          if bc_height ch' = 0
          then (Inr reverted,
                ch'\<lparr>bc_difficulty := TESTNET_DIFFICULTY,
                   bc_db := db_put S (bc_db ch') KEY_DIFF (val_of_bytes S (le32 TESTNET_DIFFICULTY))\<rparr>, L')
          else (Inr reverted, ch', L'))"

section \<open>The fork point\<close>

text \<open>The direct check of every block of the batch; \<open>None\<close> goes on to the slow path.\<close>

fun fork_fast :: "('d, 'v) storage \<Rightarrow> 'd blockchain \<Rightarrow> block list \<Rightarrow> u64 option" where
  "fork_fast S ch [] = None"
| "fork_fast S ch (b # bs) =
     (if blk_index b = 0 then Some 0
      else
        let parent_height = blk_index b - 1
        in case block_at S ch parent_height of
             Some our_block \<Rightarrow>
               if blk_hash our_block = blk_prev_hash b then Some parent_height
               else fork_fast S ch bs
           | None \<Rightarrow> fork_fast S ch bs)"

text \<open>The walk backward through the batch; the first argument counts the iterations left.\<close>

fun fork_slow ::
    "nat \<Rightarrow> ('d, 'v) storage \<Rightarrow> 'd blockchain \<Rightarrow> block list \<Rightarrow> u64 \<Rightarrow> hash32 \<Rightarrow> u64 option" where
  "fork_slow 0 S ch incoming probe_height probe_hash = None"
| "fork_slow (Suc n) S ch incoming probe_height probe_hash =
     (let continue_walk =
        (if probe_height = 0 then None
         else case find (\<lambda>b. blk_index b = probe_height) incoming of
                None \<Rightarrow> None
              | Some prev_block \<Rightarrow>
                  fork_slow n S ch incoming (saturating_sub probe_height 1) (blk_prev_hash prev_block))
      in case block_at S ch probe_height of
           Some our_block \<Rightarrow>
             if blk_hash our_block = probe_hash then Some probe_height else continue_walk
         | None \<Rightarrow> continue_walk)"

definition find_fork_point ::
    "('d, 'v) storage \<Rightarrow> 'd blockchain \<Rightarrow> block list \<Rightarrow> u64 option" where
  "find_fork_point S ch incoming =
     (case incoming of
        [] \<Rightarrow> None
      | first # _ \<Rightarrow>
          (case fork_fast S ch incoming of
             Some h \<Rightarrow> Some h
           | None \<Rightarrow> fork_slow (length incoming) S ch incoming
                       (saturating_sub (blk_index first) 1) (blk_prev_hash first)))"

section \<open>Applying blocks\<close>

text \<open>The checkpoint test both variants start with; \<open>True\<close> is a mismatch.\<close>

definition checkpoint_mismatch :: "crypto \<Rightarrow> block \<Rightarrow> bool" where
  "checkpoint_mismatch C b =
     (case find (\<lambda>(h, _). h = blk_index b) CHECKPOINTS of
        None \<Rightarrow> False
      | Some (_, expected) \<Rightarrow> hex_encode C (bytes32 (blk_hash b)) \<noteq> expected)"

text \<open>
  Writing the block, the height and, at a boundary of the adjustment window, the difficulty and
  the snapshot of the difficulty before it: the end of both variants.
\<close>

definition store_block ::
    "('d, 'v) storage \<Rightarrow> 'd blockchain \<Rightarrow> block \<Rightarrow> unit partial \<times> 'd blockchain" where
  "store_block S ch b =
     (let ch = ch\<lparr>bc_db := db_put S (bc_db ch) (block_key (blk_index b)) (bin_block S b)\<rparr>;
          ch = ch\<lparr>bc_height := blk_index b\<rparr>;
          ch = ch\<lparr>bc_db := db_put S (bc_db ch) KEY_HEIGHT (val_of_bytes S (le64 (bc_height ch)))\<rparr>
      in if bc_height ch > 0 \<and> bc_height ch mod DAA_WINDOW = 0
         then
           let old_diff = bc_difficulty ch
           in case compute_next_difficulty S ch of
                None \<Rightarrow> (Inl Panic, ch)
              | Some d \<Rightarrow>
                  let ch = ch\<lparr>bc_difficulty := d\<rparr>;
                      ch = ch\<lparr>bc_db := db_put S (bc_db ch) (prev_diff_key (bc_height ch))
                                        (val_of_bytes S (le32 old_diff))\<rparr>;
                      ch = ch\<lparr>bc_db := db_put S (bc_db ch) KEY_DIFF
                                        (val_of_bytes S (le32 (bc_difficulty ch)))\<rparr>
                  in (Inr (), ch)
         else (Inr (), ch))"

definition apply_block ::
    "crypto \<Rightarrow> ('d, 'v) storage \<Rightarrow> u64 \<Rightarrow> 'd blockchain \<Rightarrow> block \<Rightarrow> ledger \<Rightarrow> ('d, unit) chain_result" where
  "apply_block C S now_ms ch b L =
     (if checkpoint_mismatch C b then (Inl (Err InvalidBlock), ch, L)
      else case chain_tip S ch of
        None \<Rightarrow> (Inl Panic, ch, L)
      | Some prev \<Rightarrow>
          if validate_inner C now_ms b prev (bc_difficulty ch) True \<noteq> None
          then (Inl (Err InvalidBlock), ch, L)
          else if blk_reward b \<noteq> TESTNET_REWARD then (Inl (Err InvalidBlock), ch, L)
          else if list_ex (\<lambda>t. \<not> is_ok (tx_verify_signature C t)) (blk_transactions b)
          then (Inl (Err InvalidBlock), ch, L)
          else
            let L = apply_coinbase C L (blk_miner b) (blk_reward b)
            in case apply_txs (apply_tx C) (blk_transactions b) L of
                 (Inl _, L) \<Rightarrow> (Inl (Err InvalidBlock), ch, L)
               | (Inr _, L) \<Rightarrow>
                   (case store_block S ch b of (r, ch) \<Rightarrow> (r, ch, L)))"

definition apply_block_ibd ::
    "crypto \<Rightarrow> ('d, 'v) storage \<Rightarrow> u64 \<Rightarrow> 'd blockchain \<Rightarrow> block \<Rightarrow> ledger \<Rightarrow> ('d, unit) chain_result" where
  "apply_block_ibd C S now_ms ch b L =
     (if checkpoint_mismatch C b then (Inl (Err InvalidBlock), ch, L)
      else case chain_tip S ch of
        None \<Rightarrow> (Inl Panic, ch, L)
      | Some prev \<Rightarrow>
          if validate_inner C now_ms b prev (bc_difficulty ch) False \<noteq> None
          then (Inl (Err InvalidBlock), ch, L)
          else if blk_reward b \<noteq> TESTNET_REWARD then (Inl (Err InvalidBlock), ch, L)
          else if list_ex (\<lambda>t. \<not> is_ok (tx_verify_signature C t)) (blk_transactions b)
          then (Inl (Err InvalidBlock), ch, L)
          else
            let L = apply_coinbase C L (blk_miner b) (blk_reward b)
            in case apply_txs (apply_tx_ibd C) (blk_transactions b) L of
                 (Inl _, L) \<Rightarrow> (Inl (Err InvalidBlock), ch, L)
               | (Inr _, L) \<Rightarrow>
                   (case store_block S ch b of (r, ch) \<Rightarrow> (r, ch, L)))"

section \<open>Loading\<close>

text \<open>
  \<open>repair_difficulty\<close> is the correction of a stale persisted difficulty that follows both
  loading and migration. \<open>load_or_create\<close> takes the store as the call opened it and the legacy
  file as it was read and parsed (\<open>None\<close> when there is none).
\<close>

definition repair_difficulty :: "('d, 'v) storage \<Rightarrow> 'd blockchain \<Rightarrow> 'd blockchain" where
  "repair_difficulty S ch =
     (let canonical_diff = recompute_difficulty_from_chain S ch
      in if canonical_diff \<noteq> bc_difficulty ch
         then ch\<lparr>bc_difficulty := canonical_diff,
                 bc_db := db_put S (bc_db ch) KEY_DIFF (val_of_bytes S (le32 canonical_diff))\<rparr>
         else ch)"

record legacy_chain =
  lc_blocks :: "block list"
  lc_difficulty :: u32

definition load_or_create ::
    "crypto \<Rightarrow> ('d, 'v) storage \<Rightarrow> 'd \<Rightarrow> legacy_chain option \<Rightarrow> u32 \<Rightarrow> 'd blockchain" where
  "load_or_create C S db legacy difficulty =
     (case db_get S db KEY_HEIGHT of
        Some v \<Rightarrow>
          (let h_bytes = bytes_of_val S v;
               height = (if length h_bytes = 8 then from_le64 h_bytes else 0);
               (db, diff) =
                 (if height = 0
                  then (db_put S db KEY_DIFF (val_of_bytes S (le32 TESTNET_DIFFICULTY)), TESTNET_DIFFICULTY)
                  else case db_get S db KEY_DIFF of
                         Some w \<Rightarrow>
                           (let d_bytes = bytes_of_val S w
                            in (db, if length d_bytes = 4 then from_le32 d_bytes else 0))
                       | None \<Rightarrow> (db, difficulty))
           in repair_difficulty S \<lparr>bc_db = db, bc_height = height, bc_difficulty = diff\<rparr>)
      | None \<Rightarrow>
          (case legacy of
             Some lc \<Rightarrow>
               (let height = (if lc_blocks lc = [] then 0 else blk_index (last (lc_blocks lc)));
                    db = foldl (\<lambda>db b. db_put S db (block_key (blk_index b)) (bin_block S b)) db (lc_blocks lc);
                    db = db_put S db KEY_HEIGHT (val_of_bytes S (le64 height));
                    db = db_put S db KEY_DIFF (val_of_bytes S (le32 (lc_difficulty lc)))
                in repair_difficulty S
                     \<lparr>bc_db = db, bc_height = height, bc_difficulty = lc_difficulty lc\<rparr>)
           | None \<Rightarrow>
               (let db = db_put S db (block_key 0) (bin_block S (genesis_block C));
                    db = db_put S db KEY_HEIGHT (val_of_bytes S (le64 0));
                    db = db_put S db KEY_DIFF (val_of_bytes S (le32 difficulty))
                in \<lparr>bc_db = db, bc_height = 0, bc_difficulty = difficulty\<rparr>)))"

section \<open>The ledger of a chain\<close>

definition rebuild_from_chain :: "crypto \<Rightarrow> ('d, 'v) storage \<Rightarrow> 'd blockchain \<Rightarrow> ledger" where
  "rebuild_from_chain C S ch =
     foldl (\<lambda>L i. case block_at S ch i of
                    Some b \<Rightarrow> apply_coinbase C L (blk_miner b) (blk_reward b)
                  | None \<Rightarrow> L)
       new_testnet (u64_range 1 (bc_height ch))"

text \<open>
  \<open>load_or_create_testnet\<close>: the ledger file as read and decoded, and the entries of the legacy
  file in the order of its map. The second component says whether the ledger is written back.
\<close>

definition load_or_create_testnet ::
    "crypto \<Rightarrow> ('d, 'v) storage \<Rightarrow> ledger option \<Rightarrow> (string \<times> account_state) list option
       \<Rightarrow> 'd blockchain \<Rightarrow> ledger \<times> bool" where
  "load_or_create_testnet C S bin_file json_file ch =
     (case bin_file of
        Some L \<Rightarrow> (L, False)
      | None \<Rightarrow>
          (case json_file of
             Some raw \<Rightarrow>
               (foldl (\<lambda>L (k, v). case hex_decode C k of
                          None \<Rightarrow> L
                        | Some bs \<Rightarrow> if length bs = 32 then L(arr32 bs \<mapsto> v) else L)
                  Map.empty raw, True)
           | None \<Rightarrow>
               if bc_height ch > 0 then (rebuild_from_chain C S ch, True)
               else (new_testnet, True)))"

end
