(* ===== verification/Chain_Inv.thy ===== *)
theory Chain_Inv
  imports Chain
begin

text \<open>
  The invariant of the block store and what rests on it: the store represents a list of blocks
  (\<open>chain_rep\<close>), applying a block appends to the list, reverting the tip drops its last block
  and restores the difficulty, loading gives the same chain back. The abstract difficulty
  (\<open>diff_of\<close>) is a fold over the windows of the list.
\<close>

section \<open>Keys\<close>

lemma string_bytes_length [simp]: "length (string_bytes s) = length s"
  by (simp add: string_bytes_def)

lemma block_key_inj [simp]: "block_key i = block_key j \<longleftrightarrow> i = j"
  by (simp add: block_key_def c64.enc_inj)

lemma prev_diff_key_inj [simp]: "prev_diff_key i = prev_diff_key j \<longleftrightarrow> i = j"
  by (simp add: prev_diff_key_def c64.enc_inj)

lemma key_lengths:
  "length (block_key i) = 10" "length (prev_diff_key i) = 16"
  "length KEY_HEIGHT = 6" "length KEY_DIFF = 6"
  by (simp_all add: block_key_def prev_diff_key_def KEY_HEIGHT_def KEY_DIFF_def)

lemma keys_distinct [simp]:
  "block_key i \<noteq> prev_diff_key j" "prev_diff_key j \<noteq> block_key i"
  "block_key i \<noteq> KEY_HEIGHT" "KEY_HEIGHT \<noteq> block_key i"
  "block_key i \<noteq> KEY_DIFF" "KEY_DIFF \<noteq> block_key i"
  "prev_diff_key i \<noteq> KEY_HEIGHT" "KEY_HEIGHT \<noteq> prev_diff_key i"
  "prev_diff_key i \<noteq> KEY_DIFF" "KEY_DIFF \<noteq> prev_diff_key i"
  by (rule notI, drule arg_cong [of _ _ length], simp add: key_lengths)+

lemma key_height_diff [simp]: "KEY_HEIGHT \<noteq> KEY_DIFF" "KEY_DIFF \<noteq> KEY_HEIGHT"
  by (simp_all add: KEY_HEIGHT_def KEY_DIFF_def string_bytes_def)

lemma storage_get_put [simp]:
  "storage_ok S \<Longrightarrow> db_get S (db_put S d k v) j = (if j = k then Some v else db_get S d j)"
  unfolding storage_ok_def by blast

lemma storage_get_delete [simp]:
  "storage_ok S \<Longrightarrow> db_get S (db_delete S d k) j = (if j = k then None else db_get S d j)"
  unfolding storage_ok_def by blast

lemma storage_bytes [simp]: "storage_ok S \<Longrightarrow> bytes_of_val S (val_of_bytes S bs) = bs"
  unfolding storage_ok_def by blast

lemma storage_block [simp]: "storage_ok S \<Longrightarrow> unbin_block S (bin_block S b) = Some b"
  unfolding storage_ok_def by blast

section \<open>The abstract difficulty\<close>

definition window_ms :: "block list \<Rightarrow> nat \<Rightarrow> u64" where
  "window_ms bs k = saturating_sub (blk_timestamp (bs ! (10 * k + 10))) (blk_timestamp (bs ! (10 * k)))"

primrec diff_upto :: "block list \<Rightarrow> nat \<Rightarrow> u32" where
  "diff_upto bs 0 = TESTNET_DIFFICULTY"
| "diff_upto bs (Suc k) =
     adjust_difficulty_step (diff_upto bs k) (window_ms bs k) (TARGET_BLOCK_MS * DAA_WINDOW)"

text \<open>The difficulty that the block after \<open>bs\<close> has to meet.\<close>

definition diff_of :: "block list \<Rightarrow> u32" where
  "diff_of bs = diff_upto bs ((length bs - 1) div 10)"

lemma diff_upto_take:
  "10 * k < n \<Longrightarrow> n \<le> length bs \<Longrightarrow> diff_upto (take n bs) k = diff_upto bs k"
  by (induction k) (auto simp: window_ms_def)

lemma diff_upto_append: "10 * k < length bs \<Longrightarrow> diff_upto (bs @ cs) k = diff_upto bs k"
  using diff_upto_take [of k "length bs" "bs @ cs"] by simp

lemma diff_of_snoc:
  assumes "bs \<noteq> []"
  shows "diff_of (bs @ [b]) =
    (if length bs mod 10 = 0
     then adjust_difficulty_step (diff_of bs)
       (saturating_sub (blk_timestamp b) (blk_timestamp (bs ! (length bs - 10))))
       (TARGET_BLOCK_MS * DAA_WINDOW)
     else diff_of bs)"
proof (cases "length bs mod 10 = 0")
  case True
  then obtain k where k: "length bs = 10 * Suc k"
    using assms by (metis length_0_conv mod_eq_0_iff_dvd dvd_def mult_0_right not0_implies_Suc)
  then have d: "length bs div 10 = Suc k" "(length bs - 1) div 10 = k" by auto
  have "diff_upto (bs @ [b]) k = diff_of bs"
    using k d(2) diff_upto_append [of k bs "[b]"] by (simp add: diff_of_def)
  moreover have "window_ms (bs @ [b]) k
      = saturating_sub (blk_timestamp b) (blk_timestamp (bs ! (length bs - 10)))"
    using k by (simp add: window_ms_def nth_append)
  ultimately show ?thesis using True d(1) by (simp add: diff_of_def)
next
  case False
  have "length bs div 10 = (length bs - 1) div 10"
    using False by (metis assms div_Suc length_0_conv not0_implies_Suc diff_Suc_1 old.nat.exhaust)
  moreover have "10 * (length bs div 10) < length bs"
    using False by (metis dvd_imp_mod_0 dvd_triv_left mult_div_mod_eq nat_less_le le_add1)
  ultimately show ?thesis using False diff_upto_append [of "length bs div 10" bs "[b]"]
    by (simp add: diff_of_def)
qed

lemma adjust_bounds:
  assumes "unat d \<le> 30"
  shows "1 \<le> unat (adjust_difficulty_step d a t) \<and> unat (adjust_difficulty_step d a t) \<le> 30"
proof -
  have m: "unat (min x y) = min (unat x) (unat y)" "unat (max x y) = max (unat x) (unat y)" for x y :: u32
    by (auto simp: min_def max_def word_le_nat_alt)
  have "unat (d + 1) = unat d + 1" using assms by (simp add: unat_add_no_overflow)
  then show ?thesis
    by (auto simp: adjust_difficulty_step_def Let_def m)
qed

lemma diff_upto_bounds: "1 \<le> unat (diff_upto bs k) \<and> unat (diff_upto bs k) \<le> 30"
  by (induction k) (use adjust_bounds in \<open>auto simp: TESTNET_DIFFICULTY_def\<close>)

lemma diff_of_bounds: "1 \<le> unat (diff_of bs)" "unat (diff_of bs) \<le> 30"
  using diff_upto_bounds by (auto simp: diff_of_def)

section \<open>The representation\<close>

definition diff_stored :: "('d, 'v) storage \<Rightarrow> 'd \<Rightarrow> u32 \<Rightarrow> bool" where
  "diff_stored S db d \<longleftrightarrow> (\<exists>v. db_get S db KEY_DIFF = Some v \<and> bytes_of_val S v = le32 d)"

lemma diff_stored_put [simp]:
  "storage_ok S \<Longrightarrow> diff_stored S (db_put S db k v) d \<longleftrightarrow>
     (if k = KEY_DIFF then bytes_of_val S v = le32 d else diff_stored S db d)"
  "storage_ok S \<Longrightarrow> k \<noteq> KEY_DIFF \<Longrightarrow> diff_stored S (db_delete S db k) d \<longleftrightarrow> diff_stored S db d"
  by (auto simp: diff_stored_def)

definition chain_rep :: "('d, 'v) storage \<Rightarrow> 'd blockchain \<Rightarrow> block list \<Rightarrow> bool" where
  "chain_rep S ch bs \<longleftrightarrow>
     bs \<noteq> [] \<and> length bs < 2 ^ 64 \<and> unat (bc_height ch) = length bs - 1 \<and>
     (\<forall>i. block_at S ch i = (if unat i < length bs then Some (bs ! unat i) else None)) \<and>
     (\<forall>i < length bs. unat (blk_index (bs ! i)) = i) \<and>
     bc_difficulty ch = diff_of bs \<and>
     (\<forall>k. 0 < k \<and> k < length bs \<and> k mod 10 = 0 \<longrightarrow>
        db_get S (bc_db ch) (prev_diff_key (of_nat k)) = Some (val_of_bytes S (le32 (diff_of (take k bs))))) \<and>
     db_get S (bc_db ch) KEY_HEIGHT = Some (val_of_bytes S (le64 (bc_height ch))) \<and>
     diff_stored S (bc_db ch) (bc_difficulty ch)"

lemma chain_repD:
  assumes "chain_rep S ch bs"
  shows "bs \<noteq> []" "length bs < 2 ^ 64" "unat (bc_height ch) = length bs - 1"
    "block_at S ch i = (if unat i < length bs then Some (bs ! unat i) else None)"
    "j < length bs \<Longrightarrow> unat (blk_index (bs ! j)) = j"
    "bc_difficulty ch = diff_of bs"
  using assms by (simp_all add: chain_rep_def)

lemma chain_rep_tip: "chain_rep S ch bs \<Longrightarrow> chain_tip S ch = Some (last bs)"
  using chain_repD [of S ch bs] by (simp add: chain_tip_def last_conv_nth)

lemma blocks_between:
  assumes "chain_rep S ch bs" "unat t < length bs"
  shows "List.map_filter (block_at S ch) (u64_range f t) = take (Suc (unat t) - unat f) (drop (unat f) bs)"
proof -
  note R = chain_repD [OF assms(1)]
  have one: "block_at S ch (of_nat i) = Some (bs ! i)" if "i < Suc (unat t)" for i
  proof -
    have "unat (of_nat i :: u64) = i" by (rule unat_of_nat_small) (use R(2) that assms(2) in simp)
    then show ?thesis using R(4) [of "of_nat i"] that assms(2) by simp
  qed
  have "List.map_filter (block_at S ch) (u64_range f t)
      = List.map_filter (\<lambda>i. block_at S ch (of_nat i)) [unat f..<Suc (unat t)]"
    unfolding u64_range_def List.map_filter_def by (simp add: filter_map comp_def del: upt_Suc)
  also have "\<dots> = List.map_filter (\<lambda>i. Some (bs ! i)) [unat f..<Suc (unat t)]"
    unfolding List.map_filter_def
    by (intro arg_cong2 [of _ _ _ _ map] ext filter_cong map_cong) (auto simp: one simp del: upt_Suc)
  also have "\<dots> = map (\<lambda>i. bs ! i) [unat f..<Suc (unat t)]" by (simp add: List.map_filter_def del: upt_Suc)
  also have "\<dots> = take (Suc (unat t) - unat f) (drop (unat f) bs)"
    using assms(2) by (intro nth_equalityI) (auto simp: min_def simp del: upt_Suc split: if_split_asm)
  finally show ?thesis .
qed

section \<open>Writing a block\<close>

lemma block_at_db: "block_at S ch i =
    (case db_get S (bc_db ch) (block_key i) of None \<Rightarrow> None | Some v \<Rightarrow> unbin_block S v)"
  by (simp add: block_at_def)

lemma unat_mod_window: "w mod DAA_WINDOW = 0 \<longleftrightarrow> unat w mod 10 = 0" for w :: u64
proof -
  have "unat (w mod DAA_WINDOW) = unat w mod 10" by (simp add: DAA_WINDOW_def unat_mod)
  then show ?thesis by (metis unat_eq_0)
qed

lemma compute_next_difficulty_list:
  assumes "\<And>i. block_at S ch i = (if unat i < length bs then Some (bs ! unat i) else None)"
    "unat (bc_height ch) = length bs - 1" "10 < length bs"
  shows "compute_next_difficulty S ch = Some (adjust_difficulty_step (bc_difficulty ch)
     (saturating_sub (blk_timestamp (last bs)) (blk_timestamp (bs ! (length bs - 11))))
     (TARGET_BLOCK_MS * DAA_WINDOW))"
proof -
  have ge: "\<not> bc_height ch < DAA_WINDOW"
    using assms(2,3) by (simp add: word_less_nat_alt DAA_WINDOW_def)
  then have u: "unat (bc_height ch - DAA_WINDOW) = length bs - 11"
    using assms(2) by (simp add: not_less unat_sub DAA_WINDOW_def)
  have "bs \<noteq> []" using assms(3) by auto
  then have "block_at S ch (bc_height ch) = Some (last bs)"
    using assms(1) [of "bc_height ch"] assms(2) by (simp add: last_conv_nth)
  moreover have "block_at S ch (bc_height ch - DAA_WINDOW) = Some (bs ! (length bs - 11))"
    using assms(1) [of "bc_height ch - DAA_WINDOW"] assms(3) u by simp
  ultimately show ?thesis
    using ge by (simp add: compute_next_difficulty_def adjust_difficulty_step_def Let_def)
qed

lemma store_block_rep:
  assumes S: "storage_ok S" and rep: "chain_rep S ch bs" and room: "length bs + 1 < 2 ^ 64"
    and idx: "unat (blk_index b) = length bs"
  shows "\<exists>ch'. store_block S ch b = (Inr (), ch') \<and> chain_rep S ch' (bs @ [b])"
proof -
  note R = chain_repD [OF rep]
  define db3 where "db3 = db_put S (db_put S (bc_db ch) (block_key (blk_index b)) (bin_block S b))
      KEY_HEIGHT (val_of_bytes S (le64 (blk_index b)))"
  define ch3 where
    "ch3 = \<lparr>bc_db = db3, bc_height = blk_index b, bc_difficulty = bc_difficulty ch\<rparr>"
  have at3: "block_at S ch' i = (if unat i < length (bs @ [b]) then Some ((bs @ [b]) ! unat i) else None)"
    if "\<And>j. db_get S (bc_db ch') (block_key j) = db_get S db3 (block_key j)" for ch' i
  proof (cases "i = blk_index b")
    case True
    then show ?thesis using S idx that by (simp add: block_at_db db3_def)
  next
    case False
    then have "unat i \<noteq> length bs" using idx by (metis unsigned_word_eqI)
    then show ?thesis
      using S that False R(4) [of i] by (auto simp: block_at_db db3_def nth_append)
  qed
  have snap: "db_get S db3 (prev_diff_key j) = db_get S (bc_db ch) (prev_diff_key j)" for j
    using S by (simp add: db3_def)
  have pd: "db_get S (bc_db ch) (prev_diff_key (of_nat k)) = Some (val_of_bytes S (le32 (diff_of (take k bs))))"
    if "0 < k" "k < length bs" "k mod 10 = 0" for k
    using rep that by (simp add: chain_rep_def)
  have kd: "diff_stored S (bc_db ch) (bc_difficulty ch)"
    using rep unfolding chain_rep_def by blast
  have index: "unat (blk_index ((bs @ [b]) ! i)) = i" if "i < length (bs @ [b])" for i
    using R(5) idx that by (auto simp: nth_append less_Suc_eq)
  have pos: "blk_index b > 0" using idx R(1) by (simp add: word_less_nat_alt)
  show ?thesis
  proof (cases "length bs mod 10 = 0")
    case False
    have "store_block S ch b = (Inr (), ch3)"
      using False idx
      by (cases ch) (simp add: store_block_def Let_def ch3_def db3_def unat_mod_window)
    moreover have "chain_rep S ch3 (bs @ [b])"
      using at3 [of ch3] room idx R(6) kd index pd snap S diff_of_snoc [OF R(1), of b] False
      unfolding chain_rep_def by (auto simp: ch3_def less_Suc_eq) (auto simp: db3_def)
    ultimately show ?thesis by blast
  next
    case True
    let ?d = "diff_of (bs @ [b])"
    define db5 where "db5 = db_put S (db_put S db3 (prev_diff_key (blk_index b))
        (val_of_bytes S (le32 (diff_of bs)))) KEY_DIFF (val_of_bytes S (le32 ?d))"
    define ch5 where "ch5 = \<lparr>bc_db = db5, bc_height = blk_index b, bc_difficulty = ?d\<rparr>"
    have len: "10 \<le> length bs" using True R(1) by (cases "length bs < 10") auto
    then have lt: "length bs - 10 < length bs" by simp
    have "compute_next_difficulty S ch3 = Some ?d"
      using compute_next_difficulty_list [OF at3, of ch3] idx len lt R(6) True
        diff_of_snoc [OF R(1), of b]
      by (simp add: ch3_def nth_append)
    then have "store_block S ch b = (Inr (), ch5)"
      using True idx pos R(6)
      by (cases ch) (simp add: store_block_def Let_def ch3_def ch5_def db3_def db5_def unat_mod_window)
    moreover have "chain_rep S ch5 (bs @ [b])"
    proof -
      have g: "db_get S db5 (block_key j) = db_get S db3 (block_key j)" for j
        using S by (simp add: db5_def)
      have p: "db_get S db5 (prev_diff_key (of_nat k))
          = Some (val_of_bytes S (le32 (diff_of (take k (bs @ [b])))))"
        if k: "0 < k" "k < length (bs @ [b])" "k mod 10 = 0" for k
      proof (cases "k = length bs")
        case True
        then have "of_nat k = blk_index b" using idx [symmetric] by simp
        then show ?thesis using S True by (simp add: db5_def)
      next
        case False
        then have lt: "k < length bs" using k(2) by simp
        then have "unat (of_nat k :: u64) = k" using R(2) by (simp add: unat_of_nat take_bit_nat_eq_self)
        then have "of_nat k \<noteq> blk_index b" using lt idx by auto
        then show ?thesis using S lt k pd snap by (simp add: db5_def)
      qed
      show ?thesis
        using at3 [of ch5] g room idx index p S
        unfolding chain_rep_def by (auto simp: ch5_def) (auto simp: db5_def db3_def)
    qed
    ultimately show ?thesis by blast
  qed
qed

section \<open>Applying a block\<close>

definition admissible :: "crypto \<Rightarrow> block \<Rightarrow> u32 \<Rightarrow> block \<Rightarrow> bool" where
  "admissible C prev d b \<longleftrightarrow> \<not> checkpoint_mismatch C b \<and> links_to C b prev d
     \<and> blk_reward b = TESTNET_REWARD \<and> list_all (\<lambda>t. is_ok (tx_verify_signature C t)) (blk_transactions b)"

definition timely :: "u64 \<Rightarrow> block \<Rightarrow> bool" where
  "timely now b \<longleftrightarrow>
     unat (blk_timestamp b) \<le> unat now + 120000 \<and> unat now \<le> unat (blk_timestamp b) + 120000"

text \<open>
  The specification of applying a block: the chain is a list of blocks with a ledger, a block
  that is admissible for the last block and the current difficulty is appended, the miner is
  credited and the transactions are applied; anything else is refused.
\<close>

definition chain_append ::
    "crypto \<Rightarrow> (ledger \<Rightarrow> transaction \<Rightarrow> unit result \<times> ledger) \<Rightarrow> (block \<Rightarrow> bool)
       \<Rightarrow> block list \<times> ledger \<Rightarrow> block \<Rightarrow> (block list \<times> ledger) option" where
  "chain_append C f extra st b = (case st of (bs, L) \<Rightarrow>
     if admissible C (last bs) (diff_of bs) b \<and> extra b
     then (case apply_txs f (blk_transactions b) (apply_coinbase C L (blk_miner b) (blk_reward b)) of
             (Inr _, L') \<Rightarrow> Some (bs @ [b], L')
           | (Inl _, _) \<Rightarrow> None)
     else None)"

lemma chain_append_shape: "chain_append C f extra (bs, L) b = Some (bs', M) \<Longrightarrow> bs' = bs @ [b]"
  by (auto simp: chain_append_def split: if_splits prod.splits sum.splits)

lemma is_ok_list: "list_ex (\<lambda>t. \<not> is_ok (tx_verify_signature C t)) ts
    \<longleftrightarrow> \<not> list_all (\<lambda>t. is_ok (tx_verify_signature C t)) ts"
  by (induction ts) auto

lemma links_to_index:
  assumes "links_to C b (last bs) d" "chain_rep S ch bs" "length bs + 1 < 2 ^ 64"
  shows "unat (blk_index b) = length bs"
proof -
  have "unat (blk_index (last bs)) = length bs - 1" "bs \<noteq> []"
    using chain_repD(1,5) [OF assms(2)] by (auto simp: last_conv_nth)
  then show ?thesis using assms(1,3) unat_add_no_overflow [of "blk_index (last bs)" 1]
    by (cases bs) (auto simp: links_to_def)
qed

lemma apply_block_refines:
  assumes S: "storage_ok S" and rep: "chain_rep S ch bs" and room: "length bs + 1 < 2 ^ 64"
    and run: "apply_block C S now ch b L = (r, ch', L')"
  shows "case chain_append C (apply_tx C) (timely now) (bs, L) b of
           Some (bs', M) \<Rightarrow> r = Inr () \<and> chain_rep S ch' bs' \<and> L' = M
         | None \<Rightarrow> r = Inl (Err InvalidBlock) \<and> ch' = ch"
proof (cases "admissible C (last bs) (diff_of bs) b \<and> timely now b")
  case True
  have "unat (blk_index b) = length bs"
    using True links_to_index [OF _ rep room] by (auto simp: admissible_def)
  then obtain ch1 where st: "store_block S ch b = (Inr (), ch1)" "chain_rep S ch1 (bs @ [b])"
    using store_block_rep [OF S rep room] by blast
  have "validate_inner C now b (last bs) (diff_of bs) True = None"
    using True by (simp add: validate_inner_None admissible_def timely_def)
  then show ?thesis
    using True run st chain_rep_tip [OF rep] chain_repD(6) [OF rep]
    by (auto simp: apply_block_def chain_append_def admissible_def is_ok_list
        split: prod.splits sum.splits)
next
  case False
  then show ?thesis
    using run chain_rep_tip [OF rep] chain_repD(6) [OF rep]
    by (auto simp: apply_block_def chain_append_def admissible_def timely_def is_ok_list
        validate_inner_None split: if_splits)
qed

lemma apply_block_ibd_refines:
  assumes S: "storage_ok S" and rep: "chain_rep S ch bs" and room: "length bs + 1 < 2 ^ 64"
    and run: "apply_block_ibd C S now ch b L = (r, ch', L')"
  shows "case chain_append C (apply_tx_ibd C) (\<lambda>_. True) (bs, L) b of
           Some (bs', M) \<Rightarrow> r = Inr () \<and> chain_rep S ch' bs' \<and> L' = M
         | None \<Rightarrow> r = Inl (Err InvalidBlock) \<and> ch' = ch"
proof (cases "admissible C (last bs) (diff_of bs) b")
  case True
  have "unat (blk_index b) = length bs"
    using True links_to_index [OF _ rep room] by (auto simp: admissible_def)
  then obtain ch1 where st: "store_block S ch b = (Inr (), ch1)" "chain_rep S ch1 (bs @ [b])"
    using store_block_rep [OF S rep room] by blast
  have "validate_inner C now b (last bs) (diff_of bs) False = None"
    using True by (simp add: validate_inner_None admissible_def)
  then show ?thesis
    using True run st chain_rep_tip [OF rep] chain_repD(6) [OF rep]
    by (auto simp: apply_block_ibd_def chain_append_def admissible_def is_ok_list
        split: prod.splits sum.splits)
next
  case False
  then show ?thesis
    using run chain_rep_tip [OF rep] chain_repD(6) [OF rep]
    by (auto simp: apply_block_ibd_def chain_append_def admissible_def is_ok_list
        validate_inner_None split: if_splits)
qed

lemma apply_block_Inr:
  assumes "storage_ok S" "chain_rep S ch bs" "length bs + 1 < 2 ^ 64"
    "apply_block C S now ch b L = (Inr u, ch', L')"
  shows "chain_append C (apply_tx C) (timely now) (bs, L) b = Some (bs @ [b], L')"
    and "chain_rep S ch' (bs @ [b])"
  using apply_block_refines [OF assms] chain_append_shape [of C "apply_tx C" "timely now" bs L b]
  by (auto split: option.splits)

lemma apply_block_ibd_Inr:
  assumes "storage_ok S" "chain_rep S ch bs" "length bs + 1 < 2 ^ 64"
    "apply_block_ibd C S now ch b L = (Inr u, ch', L')"
  shows "chain_append C (apply_tx_ibd C) (\<lambda>_. True) (bs, L) b = Some (bs @ [b], L')"
    and "chain_rep S ch' (bs @ [b])"
  using apply_block_ibd_refines [OF assms] chain_append_shape [of C "apply_tx_ibd C" "\<lambda>_. True" bs L b]
  by (auto split: option.splits)

section \<open>Reverting the tip\<close>

lemma diff_of_butlast:
  assumes "1 < length bs" "(length bs - 1) mod 10 \<noteq> 0"
  shows "diff_of (butlast bs) = diff_of bs"
proof -
  have "butlast bs \<noteq> []" "bs = butlast bs @ [last bs]" using assms(1) by (cases bs rule: rev_cases; auto)+
  then show ?thesis using diff_of_snoc [of "butlast bs" "last bs"] assms(2) by simp
qed

lemma revert_tip_rep:
  assumes S: "storage_ok S" and rep: "chain_rep S ch bs" and len: "1 < length bs"
  shows "\<exists>ch'. revert_tip S ch L = (Inr (last bs), ch',
      revert_coinbase (foldl revert_tx L (rev (blk_transactions (last bs))))
        (blk_miner (last bs)) (blk_reward (last bs)))
    \<and> chain_rep S ch' (butlast bs)"
proof -
  note R = chain_repD [OF rep]
  have nz: "bc_height ch \<noteq> 0" using R(3) len by auto
  have h1: "unat (bc_height ch - 1) = length bs - 2"
    using nz R(3) len by (simp add: unat_minus_one)
  define db2 where "db2 = db_put S (db_delete S (bc_db ch) (block_key (bc_height ch)))
      KEY_HEIGHT (val_of_bytes S (le64 (bc_height ch - 1)))"
  have at2: "block_at S ch' i
      = (if unat i < length (butlast bs) then Some (butlast bs ! unat i) else None)"
    if "\<And>j. db_get S (bc_db ch') (block_key j) = db_get S db2 (block_key j)" for ch' i
  proof (cases "i = bc_height ch")
    case True
    then show ?thesis using S R(3) that by (simp add: block_at_db db2_def)
  next
    case False
    then have "unat i \<noteq> length bs - 1" using R(3) by (metis unsigned_word_eqI)
    then show ?thesis
      using S that False R(4) [of i] by (auto simp: block_at_db db2_def nth_butlast)
  qed
  have snap: "db_get S (bc_db ch) (prev_diff_key (of_nat k)) = Some (val_of_bytes S (le32 (diff_of (take k bs))))"
    if "0 < k" "k < length bs" "k mod 10 = 0" for k
    using rep that by (simp add: chain_rep_def)
  have kd: "diff_stored S (bc_db ch) (bc_difficulty ch)"
    using rep unfolding chain_rep_def by blast
  have index: "unat (blk_index (butlast bs ! i)) = i" if "i < length (butlast bs)" for i
    using R(5) that by (auto simp: nth_butlast)
  have tk: "take k (butlast bs) = take k bs" if "k < length (butlast bs)" for k
    using that by (simp add: take_butlast)
  have ne: "butlast bs \<noteq> []" using len by (cases bs) auto
  show ?thesis
  proof (cases "(length bs - 1) mod 10 = 0")
    case False
    define ch2 where "ch2 = \<lparr>bc_db = db2, bc_height = bc_height ch - 1, bc_difficulty = bc_difficulty ch\<rparr>"
    have "chain_rep S ch2 (butlast bs)"
      using at2 [of ch2] R(2) h1 R(6) diff_of_butlast [OF len False] index snap tk kd ne S
      unfolding chain_rep_def by (auto simp: ch2_def) (auto simp: db2_def)
    moreover have "revert_tip S ch L = (Inr (last bs), ch2,
      revert_coinbase (foldl revert_tx L (rev (blk_transactions (last bs))))
        (blk_miner (last bs)) (blk_reward (last bs)))"
      using nz False R(3) chain_rep_tip [OF rep]
      by (cases ch) (simp add: revert_tip_def Let_def ch2_def db2_def unat_mod_window)
    ultimately show ?thesis by blast
  next
    case True
    let ?d = "diff_of (butlast bs)"
    define db3 where "db3 = db_put S db2 KEY_DIFF (val_of_bytes S (le32 ?d))"
    define ch3 where "ch3 = \<lparr>bc_db = db3, bc_height = bc_height ch - 1, bc_difficulty = ?d\<rparr>"
    have hk: "of_nat (length bs - 1) = bc_height ch" by (simp only: R(3) [symmetric]) simp
    have "db_get S (bc_db ch) (prev_diff_key (bc_height ch)) = Some (val_of_bytes S (le32 ?d))"
      using snap [of "length bs - 1"] len True hk by (simp add: butlast_conv_take)
    then have "db_get S db2 (prev_diff_key (bc_height ch)) = Some (val_of_bytes S (le32 ?d))"
      using S by (simp add: db2_def)
    then have "revert_tip S ch L = (Inr (last bs), ch3,
      revert_coinbase (foldl revert_tx L (rev (blk_transactions (last bs))))
        (blk_miner (last bs)) (blk_reward (last bs)))"
      using nz True R(3) chain_rep_tip [OF rep] S
      by (cases ch) (simp add: revert_tip_def Let_def ch3_def db2_def db3_def unat_mod_window)
    moreover have "chain_rep S ch3 (butlast bs)"
      using at2 [of ch3] R(2) h1 index snap tk kd ne S
      unfolding chain_rep_def by (auto simp: ch3_def db3_def) (auto simp: db2_def)
    ultimately show ?thesis by blast
  qed
qed

section \<open>Reverting to a height\<close>

text \<open>The ledger after a block is undone, and after several, newest first.\<close>

definition undo_block :: "ledger \<Rightarrow> block \<Rightarrow> ledger" where
  "undo_block L b =
     revert_coinbase (foldl revert_tx L (rev (blk_transactions b))) (blk_miner b) (blk_reward b)"

lemma revert_loop_rep:
  assumes S: "storage_ok S" and rep: "chain_rep S ch bs"
  shows "\<exists>ch'. revert_loop S target ch L acc
      = (Inr (acc @ rev (drop (Suc (unat target)) bs)), ch', foldl undo_block L (rev (drop (Suc (unat target)) bs)))
    \<and> chain_rep S ch' (take (Suc (unat target)) bs)"
  using rep
proof (induction "length bs" arbitrary: bs ch L acc)
  case 0
  then show ?case by (simp add: chain_rep_def)
next
  case (Suc n)
  note R = chain_repD [OF Suc.prems]
  show ?case
  proof (cases "target < bc_height ch")
    case False
    then have le: "length bs \<le> Suc (unat target)" using R(1,3) by (simp add: word_less_nat_alt)
    then have "revert_loop S target ch L acc = (Inr acc, ch, L)"
      using False by (subst revert_loop.simps) simp
    then show ?thesis using le Suc.prems by simp
  next
    case True
    then have lt: "Suc (unat target) < length bs" using R(1,3) by (simp add: word_less_nat_alt)
    obtain ch1 where 1: "revert_tip S ch L = (Inr (last bs), ch1, undo_block L (last bs))"
        "chain_rep S ch1 (butlast bs)"
      using revert_tip_rep [OF S Suc.prems, of L] lt unfolding undo_block_def by auto
    have n: "n = length (butlast bs)" using Suc.hyps(2) by simp
    obtain ch2 where 2: "revert_loop S target ch1 (undo_block L (last bs)) (acc @ [last bs])
        = (Inr ((acc @ [last bs]) @ rev (drop (Suc (unat target)) (butlast bs))), ch2,
           foldl undo_block (undo_block L (last bs)) (rev (drop (Suc (unat target)) (butlast bs))))"
        "chain_rep S ch2 (take (Suc (unat target)) (butlast bs))"
      using Suc.hyps(1) [OF n 1(2)] by blast
    have "bs = butlast bs @ [last bs]" using R(1) by simp
    then have d: "drop (Suc (unat target)) bs = drop (Suc (unat target)) (butlast bs) @ [last bs]"
        "take (Suc (unat target)) (butlast bs) = take (Suc (unat target)) bs"
      using lt by (metis drop_append length_append_singleton less_Suc_eq_le diff_is_0_eq drop0 length_butlast
          diff_Suc_1, simp add: take_butlast)
    have "revert_loop S target ch L acc
        = revert_loop S target ch1 (undo_block L (last bs)) (acc @ [last bs])"
      using True 1(1) by (subst revert_loop.simps) simp
    then show ?thesis using 2 d by simp
  qed
qed

lemma revert_to_height_rep:
  assumes "storage_ok S" "chain_rep S ch bs"
  shows "if target < checkpoint_anchor_at_or_below (bc_height ch)
    then revert_to_height S ch target L = (Inl (Err InvalidBlock), ch, L)
    else \<exists>ch'. revert_to_height S ch target L
        = (Inr (rev (drop (Suc (unat target)) bs)), ch', foldl undo_block L (rev (drop (Suc (unat target)) bs)))
      \<and> chain_rep S ch' (take (Suc (unat target)) bs)"
proof (cases "target < checkpoint_anchor_at_or_below (bc_height ch)")
  case True
  then show ?thesis by (simp add: revert_to_height_def)
next
  case False
  obtain ch1 where 1: "revert_loop S target ch L []
      = (Inr (rev (drop (Suc (unat target)) bs)), ch1, foldl undo_block L (rev (drop (Suc (unat target)) bs)))"
      "chain_rep S ch1 (take (Suc (unat target)) bs)"
    using revert_loop_rep [OF assms, of target L "[]"] by auto
  show ?thesis
  proof (cases "bc_height ch1 = 0")
    case F: False
    then show ?thesis using False 1 by (simp add: revert_to_height_def)
  next
    case True
    let ?ch2 = "ch1\<lparr>bc_difficulty := TESTNET_DIFFICULTY,
        bc_db := db_put S (bc_db ch1) KEY_DIFF (val_of_bytes S (le32 TESTNET_DIFFICULTY))\<rparr>"
    have "length (take (Suc (unat target)) bs) - 1 = 0"
      using chain_repD(3) [OF 1(2)] True by simp
    then have "diff_of (take (Suc (unat target)) bs) = TESTNET_DIFFICULTY"
      unfolding diff_of_def by (simp only:) simp
    then have "chain_rep S ?ch2 (take (Suc (unat target)) bs)"
      using 1(2) assms(1) unfolding chain_rep_def block_at_def by auto
    then show ?thesis using False True 1(1) by (simp add: revert_to_height_def)
  qed
qed

end
