(* ===== verification/Chain_Props.thy ===== *)
theory Chain_Props
  imports Chain_Inv
begin

text \<open>
  The properties of the block store: refinement of the list specification by both ways of
  applying a block, reverting and reorganising, fork points, the difficulty, loading, rebuilding
  the ledger, and the supply. The instance at the start shows that the laws of the
  store can hold.
\<close>

section \<open>A store of maps\<close>

datatype stored = BlockVal block | RawVal bytes

definition toy_storage :: "(bytes \<rightharpoonup> stored, stored) storage" where
  "toy_storage = \<lparr>db_get = (\<lambda>d k. d k), db_put = (\<lambda>d k v. d(k \<mapsto> v)),
     db_delete = (\<lambda>d k. d(k := None)), val_of_bytes = RawVal,
     bytes_of_val = (\<lambda>v. case v of RawVal bs \<Rightarrow> bs | BlockVal _ \<Rightarrow> []), bin_block = BlockVal,
     unbin_block = (\<lambda>v. case v of BlockVal b \<Rightarrow> Some b | RawVal _ \<Rightarrow> None)\<rparr>"

lemma toy_storage_ok [simp]: "storage_ok toy_storage"
  unfolding storage_ok_def by (intro conjI) (simp_all add: toy_storage_def)

lemma load_fresh_rep:
  assumes S: "storage_ok S" and empty: "\<And>k. db_get S db k = None"
  shows "chain_rep S (load_or_create C S db None TESTNET_DIFFICULTY) [genesis_block C]"
proof -
  have "unat i < 1 \<longleftrightarrow> i = 0" for i :: u64 by (simp add: unat_eq_0)
  then show ?thesis
    using assms by (auto simp: load_or_create_def chain_rep_def block_at_def Let_def diff_of_def)
qed

definition toy_chain :: "(bytes \<rightharpoonup> stored) blockchain" where
  "toy_chain = load_or_create toy_crypto toy_storage Map.empty None TESTNET_DIFFICULTY"

lemma toy_chain_rep: "chain_rep toy_storage toy_chain [genesis_block toy_crypto]"
  unfolding toy_chain_def
  by (rule load_fresh_rep [OF toy_storage_ok]) (simp add: toy_storage_def)

lemma toy_diff [simp]: "diff_of [b] = 14"
  by (simp add: diff_of_def TESTNET_DIFFICULTY_def)

lemma toy_links: "links_to toy_crypto (toy_block 1 t ts) (genesis_block toy_crypto) 14"
  by (simp add: links_to_def meets_difficulty_def seq_meets_difficulty_value)

lemma toy_no_checkpoint: "\<not> checkpoint_mismatch C (toy_block 1 t ts)"
  by (simp add: checkpoint_mismatch_def CHECKPOINTS_def)

lemma toy_sig [simp]: "is_ok (tx_verify_signature toy_crypto (toy_tx s r a f q))"
  by (simp add: tx_verify_signature_def Wallet.verify_signature_def toy_crypto_def toy_tx_def)

lemma toy_admissible:
  "list_all (\<lambda>t. is_ok (tx_verify_signature toy_crypto t)) ts \<Longrightarrow>
     admissible toy_crypto (genesis_block toy_crypto) 14 (toy_block 1 t ts)"
  by (simp add: admissible_def toy_links toy_no_checkpoint)

text \<open>One block with one transaction on the toy chain.\<close>

definition toy_b1 :: block where "toy_b1 = toy_block 1 1772975700000 [toy_tx 1 2 30 5 1]"

lemma toy_append_b1:
  "chain_append toy_crypto (apply_tx toy_crypto) (timely 1772975700000) ([genesis_block toy_crypto], toy_ledger) toy_b1
     = Some ([genesis_block toy_crypto, toy_b1],
         tx_effect toy_crypto (apply_coinbase toy_crypto toy_ledger 7 TESTNET_REWARD) (toy_tx 1 2 30 5 1))"
proof -
  have adm: "admissible toy_crypto (genesis_block toy_crypto) 14 toy_b1"
    unfolding toy_b1_def by (rule toy_admissible) simp
  have app: "apply_tx toy_crypto (apply_coinbase toy_crypto toy_ledger 7 TESTNET_REWARD) (toy_tx 1 2 30 5 1)
      = (Inr (), tx_effect toy_crypto (apply_coinbase toy_crypto toy_ledger 7 TESTNET_REWARD) (toy_tx 1 2 30 5 1))"
    unfolding apply_tx_cases
    by (simp add: apply_coinbase_obs, simp add: apply_coinbase_def saturating_add_def Let_def toy_ledger_def)
  show ?thesis using adm app by (simp add: chain_append_def timely_def toy_b1_def)
qed

lemma toy_run_b1:
  obtains ch1 L1 where
    "apply_block toy_crypto toy_storage 1772975700000 toy_chain toy_b1 toy_ledger = (Inr (), ch1, L1)"
    "chain_rep toy_storage ch1 [genesis_block toy_crypto, toy_b1]"
proof -
  obtain r ch' L' where run: "apply_block toy_crypto toy_storage 1772975700000 toy_chain toy_b1 toy_ledger = (r, ch', L')"
    by (metis prod_cases3)
  have len: "length [genesis_block toy_crypto] + 1 < 2 ^ 64" by simp
  show ?thesis
    using apply_block_refines [OF toy_storage_ok toy_chain_rep len run] run that
    by (simp add: toy_append_b1)
qed

section \<open>Lemmas on the supply\<close>

lemma chain_append_supply:
  assumes app: "tx_applier f" and fits: "ledger_fits L" "supply_of L + unat TESTNET_REWARD < 2 ^ 64"
    and ok: "chain_append C f extra (bs, L) b = Some (bs', M)"
  shows "bs' = bs @ [b] \<and> ledger_fits M
    \<and> supply_of M + burned (blk_transactions b) = supply_of L + unat TESTNET_REWARD"
proof -
  have r: "blk_reward b = TESTNET_REWARD" "bs' = bs @ [b]"
    and run: "\<exists>u. apply_txs f (blk_transactions b) (apply_coinbase C L (blk_miner b) (blk_reward b)) = (Inr u, M)"
    using ok by (auto simp: chain_append_def admissible_def split: if_splits prod.splits sum.splits)
  have fin: "finite (dom L)" using fits(1) by (simp add: ledger_fits_def)
  have cb: "supply_of (apply_coinbase C L (blk_miner b) (blk_reward b)) = supply_of L + unat TESTNET_REWARD"
      "ledger_fits (apply_coinbase C L (blk_miner b) (blk_reward b))"
    using apply_coinbase_supply [OF fin, of "blk_reward b"] fits(2) r(1) by simp_all
  show ?thesis
    using run tx_applier.txs_supply [OF app cb(2)] tx_applier.txs_fits [OF app cb(2)] cb(1) r(2)
    by auto
qed

section \<open>Properties\<close>

text \<open>
  C1: applying a block at the tip refines the list specification: on a store that represents a
  list of blocks, \<open>apply_block\<close> succeeds exactly when the block is admissible for the last block
  and the current difficulty, is timely, and all its transactions apply in order; it then
  represents the list with the block appended, with the ledger of the specification; in every
  other case it returns \<open>InvalidBlock\<close> (never a panic) and leaves the chain as it was.
\<close>
theorem apply_block_correct:
  assumes "storage_ok S" "chain_rep S ch bs" "length bs + 1 < 2 ^ 64"
    "apply_block C S now ch b L = (r, ch', L')"
  shows "(r = Inr () \<longleftrightarrow> chain_append C (apply_tx C) (timely now) (bs, L) b = Some (bs @ [b], L'))
    \<and> (r = Inr () \<longrightarrow> chain_rep S ch' (bs @ [b]))
    \<and> (r \<noteq> Inr () \<longrightarrow> r = Inl (Err InvalidBlock) \<and> ch' = ch)"
  using apply_block_refines [OF assms] chain_append_shape [of C "apply_tx C" "timely now" bs L b]
  by (auto split: option.splits)

theorem apply_block_correct_witness:
  "\<exists>ch1 L1. apply_block toy_crypto toy_storage 1772975700000 toy_chain toy_b1 toy_ledger = (Inr (), ch1, L1)
     \<and> chain_rep toy_storage ch1 [genesis_block toy_crypto, toy_b1]"
proof -
  obtain ch1 L1 where run:
    "apply_block toy_crypto toy_storage 1772975700000 toy_chain toy_b1 toy_ledger = (Inr (), ch1, L1)"
    by (rule toy_run_b1)
  have "length [genesis_block toy_crypto] + 1 < 2 ^ 64" by simp
  then show ?thesis
    using apply_block_correct [OF toy_storage_ok toy_chain_rep _ run] run by auto
qed

text \<open>
  during the initial download the same specification is refined, with the sequence numbers
  of the transactions and the timestamp of the block unchecked and every other check kept
  (checkpoint, link, proof of work, reward, signatures).
\<close>
theorem apply_block_ibd_correct:
  assumes "storage_ok S" "chain_rep S ch bs" "length bs + 1 < 2 ^ 64"
    "apply_block_ibd C S now ch b L = (r, ch', L')"
  shows "(r = Inr () \<longleftrightarrow> chain_append C (apply_tx_ibd C) (\<lambda>_. True) (bs, L) b = Some (bs @ [b], L'))
    \<and> (r = Inr () \<longrightarrow> chain_rep S ch' (bs @ [b]))
    \<and> (r \<noteq> Inr () \<longrightarrow> r = Inl (Err InvalidBlock) \<and> ch' = ch)"
  using apply_block_ibd_refines [OF assms] chain_append_shape [of C "apply_tx_ibd C" "\<lambda>_. True" bs L b]
  by (auto split: option.splits)

text \<open>A download step on the toy chain, for the witness and the later ones.\<close>

lemma toy_append_ibd:
  "chain_append toy_crypto (apply_tx_ibd toy_crypto) (\<lambda>_. True) ([genesis_block toy_crypto], L) (toy_block 1 t [])
     = Some ([genesis_block toy_crypto, toy_block 1 t []], apply_coinbase toy_crypto L 7 TESTNET_REWARD)"
  using toy_admissible [of "[]" t] by (simp add: chain_append_def)

theorem apply_block_ibd_correct_witness:
  "\<exists>ch' L'. apply_block_ibd toy_crypto toy_storage 0 toy_chain (toy_block 1 5 []) toy_ledger = (Inr (), ch', L')
     \<and> chain_rep toy_storage ch' [genesis_block toy_crypto, toy_block 1 5 []]"
proof -
  obtain r ch' L' where run: "apply_block_ibd toy_crypto toy_storage 0 toy_chain (toy_block 1 5 []) toy_ledger = (r, ch', L')"
    by (metis prod_cases3)
  have len: "length [genesis_block toy_crypto] + 1 < 2 ^ 64" by simp
  have "r = Inr ()"
    using apply_block_ibd_refines [OF toy_storage_ok toy_chain_rep len run] by (simp add: toy_append_ibd)
  then show ?thesis
    using apply_block_ibd_correct [OF toy_storage_ok toy_chain_rep len run] run by auto
qed

lemma apply_txs_stop:
  "apply_txs (apply_tx C) ts M = (Inl e, M') \<Longrightarrow>
     \<exists>pre t post. ts = pre @ t # post \<and> apply_txs (apply_tx C) pre M = (Inr (), M')
       \<and> apply_tx C M' t = (Inl e, M')"
proof (induction ts arbitrary: M)
  case (Cons t ts)
  obtain r1 M1 where 1: "apply_tx C M t = (r1, M1)" by fastforce
  show ?case
  proof (cases r1)
    case (Inl e1)
    then show ?thesis using 1 Cons.prems apply_tx_Inl [of C M t e1 M1]
      by (intro exI [of _ "[]"] exI [of _ t] exI [of _ ts]) auto
  next
    case (Inr u)
    then obtain pre t' post where "ts = pre @ t' # post" "apply_txs (apply_tx C) pre M1 = (Inr (), M')"
        "apply_tx C M' t' = (Inl e, M')"
      using Cons.IH [of M1] Cons.prems 1 by auto
    then show ?thesis using 1 Inr by (intro exI [of _ "t # pre"] exI [of _ t'] exI [of _ post]) auto
  qed
qed simp

text \<open>
  C27: a block is not applied atomically, and this is what is left: a block that is not admissible or
  not timely leaves the ledger as it was. Any other block has its reward credited, whatever becomes of
  it: either all its transactions apply in order, or a first one fails, and then the result is
  \<open>InvalidBlock\<close> and the chain stays, but the ledger is the one with the reward and with all the
  transactions before the failing one applied.
\<close>
theorem apply_block_failure_ledger:
  assumes "storage_ok S" "chain_rep S ch bs" "length bs + 1 < 2 ^ 64"
    and "apply_block C S now ch b L = (r, ch', L')"
  shows "if admissible C (last bs) (diff_of bs) b \<and> timely now b
    then if r = Inr ()
      then apply_txs (apply_tx C) (blk_transactions b) (apply_coinbase C L (blk_miner b) TESTNET_REWARD) = (Inr (), L')
      else r = Inl (Err InvalidBlock) \<and> ch' = ch \<and> (\<exists>ts t us e. blk_transactions b = ts @ t # us
        \<and> apply_txs (apply_tx C) ts (apply_coinbase C L (blk_miner b) TESTNET_REWARD) = (Inr (), L')
        \<and> apply_tx C L' t = (Inl e, L'))
    else r = Inl (Err InvalidBlock) \<and> ch' = ch \<and> L' = L"
proof (cases "admissible C (last bs) (diff_of bs) b \<and> timely now b")
  case False
  then show ?thesis
    using assms(4) chain_rep_tip [OF assms(2)] chain_repD(6) [OF assms(2)]
    by (auto simp: apply_block_def admissible_def timely_def is_ok_list validate_inner_None split: if_splits)
next
  case True
  then have "blk_reward b = TESTNET_REWARD" by (simp add: admissible_def)
  moreover have "validate_inner C now b (last bs) (diff_of bs) True = None"
    using True by (simp add: validate_inner_None admissible_def timely_def)
  moreover obtain r1 M where run: "apply_txs (apply_tx C) (blk_transactions b)
      (apply_coinbase C L (blk_miner b) TESTNET_REWARD) = (r1, M)" by fastforce
  ultimately have res: "(case r1 of Inl _ \<Rightarrow> (Inl (Err InvalidBlock), ch, M)
      | Inr _ \<Rightarrow> (case store_block S ch b of (r, c) \<Rightarrow> (r, c, M))) = (r, ch', L')"
    using True assms(4) chain_rep_tip [OF assms(2)] chain_repD(6) [OF assms(2)]
    by (auto simp: apply_block_def admissible_def is_ok_list split: sum.splits prod.splits)
  show ?thesis
  proof (cases r1)
    case (Inl e)
    then show ?thesis using True res apply_txs_stop [OF run [unfolded Inl]] by auto
  next
    case (Inr u)
    have "unat (blk_index b) = length bs"
      using True links_to_index [OF _ assms(2,3)] by (auto simp: admissible_def)
    then obtain c where "store_block S ch b = (Inr (), c)" using store_block_rep [OF assms(1-3)] by blast
    then show ?thesis using True res run Inr by auto
  qed
qed

theorem apply_block_failure_ledger_witness:
  "apply_block toy_crypto toy_storage 1772975700000 toy_chain
       (toy_block 1 1772975700000 [toy_tx 3 4 1 1 1]) toy_ledger
       = (Inl (Err InvalidBlock), toy_chain, apply_coinbase toy_crypto toy_ledger 7 TESTNET_REWARD)
     \<and> ledger_balance (apply_coinbase toy_crypto toy_ledger 7 TESTNET_REWARD) 7 = TESTNET_REWARD"
proof -
  let ?b = "toy_block 1 1772975700000 [toy_tx 3 4 1 1 1]"
  have adm: "admissible toy_crypto (genesis_block toy_crypto) 14 ?b"
    by (rule toy_admissible) simp
  have val: "validate_inner toy_crypto 1772975700000 ?b (genesis_block toy_crypto) 14 True = None"
    using adm by (simp add: validate_inner_None admissible_def)
  have tip: "chain_tip toy_storage toy_chain = Some (genesis_block toy_crypto)" "bc_difficulty toy_chain = 14"
    using chain_rep_tip [OF toy_chain_rep] chain_repD(6) [OF toy_chain_rep] by simp_all
  have fail: "apply_tx toy_crypto (apply_coinbase toy_crypto toy_ledger 7 TESTNET_REWARD) (toy_tx 3 4 1 1 1)
      = (Inl (InsufficientBalance 0 (saturating_add 1 1)), apply_coinbase toy_crypto toy_ledger 7 TESTNET_REWARD)"
    by (simp add: apply_tx_def get_account_def apply_coinbase_def toy_ledger_def Let_def)
  have run: "apply_block toy_crypto toy_storage 1772975700000 toy_chain ?b toy_ledger
      = (Inl (Err InvalidBlock), toy_chain, apply_coinbase toy_crypto toy_ledger 7 TESTNET_REWARD)"
    using adm val tip fail by (simp add: apply_block_def admissible_def is_ok_list)
  have "ledger_balance toy_ledger 7 = 0" by (simp add: ledger_balance_def toy_ledger_def)
  then show ?thesis
    using run apply_block_failure_ledger [OF toy_storage_ok toy_chain_rep _ run] by (simp add: apply_coinbase_obs)
qed

section \<open>Properties of reorganisations\<close>

text \<open>
  C3: reverting the tip undoes applying it: the block comes back, the store represents the
  list it represented before, with the same height and the same difficulty (also across a
  boundary of the adjustment window, where the snapshot is read back), and every account has its
  balance and its sequence number back.
\<close>
theorem revert_tip_undoes_apply:
  assumes "storage_ok S" "chain_rep S ch bs" "length bs + 1 < 2 ^ 64"
    "apply_block C S now ch b L = (Inr (), ch1, L1)"
    "finite (dom L)" "supply_of L + unat TESTNET_REWARD < 2 ^ 64"
    "\<forall>t \<in> set (blk_transactions b). tx_sequence t \<noteq> 0"
  shows "\<exists>ch2 L2. revert_tip S ch1 L1 = (Inr b, ch2, L2) \<and> chain_rep S ch2 bs
    \<and> bc_height ch2 = bc_height ch \<and> bc_difficulty ch2 = bc_difficulty ch \<and> ledger_equiv L2 L"
proof -
  have app: "chain_append C (apply_tx C) (timely now) (bs, L) b = Some (bs @ [b], L1)"
      and rep1: "chain_rep S ch1 (bs @ [b])"
    using apply_block_Inr [OF assms(1-4)] .
  have r: "blk_reward b = TESTNET_REWARD"
      "apply_txs (apply_tx C) (blk_transactions b) (apply_coinbase C L (blk_miner b) (blk_reward b)) = (Inr (), L1)"
    using app by (auto simp: chain_append_def admissible_def split: if_splits prod.splits sum.splits)
  have "1 < length (bs @ [b])" using chain_repD(1) [OF assms(2)] by (cases bs) auto
  then obtain ch2 where 2: "revert_tip S ch1 L1 = (Inr b, ch2, undo_block L1 b)" "chain_rep S ch2 bs"
    using revert_tip_rep [OF assms(1) rep1, of L1] unfolding undo_block_def by auto
  have "ledger_equiv (undo_block L1 b) L"
    unfolding undo_block_def
    using revert_block_equiv [OF assms(5) _ r(2) assms(7)] assms(6) r(1) by simp
  moreover have "bc_height ch2 = bc_height ch"
    using chain_repD(3) [OF 2(2)] chain_repD(3) [OF assms(2)] by (metis unsigned_word_eqI)
  moreover have "bc_difficulty ch2 = bc_difficulty ch"
    using chain_repD(6) [OF 2(2)] chain_repD(6) [OF assms(2)] by simp
  ultimately show ?thesis using 2 by blast
qed

theorem revert_tip_undoes_apply_witness:
  "\<exists>ch1 L1 ch2 L2.
     apply_block toy_crypto toy_storage 1772975700000 toy_chain toy_b1 toy_ledger = (Inr (), ch1, L1)
     \<and> revert_tip toy_storage ch1 L1 = (Inr toy_b1, ch2, L2) \<and> ledger_equiv L2 toy_ledger"
proof -
  obtain ch1 L1 where run:
    "apply_block toy_crypto toy_storage 1772975700000 toy_chain toy_b1 toy_ledger = (Inr (), ch1, L1)"
    by (rule toy_run_b1)
  have "\<exists>ch2 L2. revert_tip toy_storage ch1 L1 = (Inr toy_b1, ch2, L2)
      \<and> chain_rep toy_storage ch2 [genesis_block toy_crypto]
      \<and> bc_height ch2 = bc_height toy_chain \<and> bc_difficulty ch2 = bc_difficulty toy_chain
      \<and> ledger_equiv L2 toy_ledger"
    by (rule revert_tip_undoes_apply [OF toy_storage_ok toy_chain_rep _ run])
      (use toy_ledger_facts in \<open>auto simp: toy_b1_def TESTNET_REWARD_def ledger_fits_def\<close>)
  then show ?thesis using run by blast
qed

text \<open>
  C4: a reorganisation: from a store that represents a list of blocks, reverting to a height at
  or above the last checkpoint passed always succeeds; it returns the blocks above that height,
  newest first, leaves a store that represents the list up to that height, and undoes exactly
  those blocks in the ledger. Below the checkpoint it refuses and changes nothing.
\<close>
theorem revert_to_height_correct:
  assumes "storage_ok S" "chain_rep S ch bs"
  shows "if target < checkpoint_anchor_at_or_below (bc_height ch)
    then revert_to_height S ch target L = (Inl (Err InvalidBlock), ch, L)
    else \<exists>ch'. revert_to_height S ch target L
        = (Inr (rev (drop (Suc (unat target)) bs)), ch', foldl undo_block L (rev (drop (Suc (unat target)) bs)))
      \<and> chain_rep S ch' (take (Suc (unat target)) bs)"
  by (rule revert_to_height_rep [OF assms])

theorem revert_to_height_correct_witness:
  "\<exists>ch1 L1 ch2 L2.
     apply_block toy_crypto toy_storage 1772975700000 toy_chain toy_b1 toy_ledger = (Inr (), ch1, L1)
     \<and> revert_to_height toy_storage ch1 0 L1 = (Inr [toy_b1], ch2, L2)
     \<and> chain_rep toy_storage ch2 [genesis_block toy_crypto]"
proof -
  obtain ch1 L1 where run:
      "apply_block toy_crypto toy_storage 1772975700000 toy_chain toy_b1 toy_ledger = (Inr (), ch1, L1)"
    and rep: "chain_rep toy_storage ch1 [genesis_block toy_crypto, toy_b1]"
    by (rule toy_run_b1)
  have "unat (bc_height ch1) = 1" using chain_repD(3) [OF rep] by simp
  then have "bc_height ch1 = 1" by (metis unat_1 unsigned_word_eqI)
  then have anchor: "checkpoint_anchor_at_or_below (bc_height ch1) = 0"
    by (simp add: checkpoint_anchor_at_or_below_def CHECKPOINTS_def word_le_nat_alt)
  show ?thesis
    using revert_to_height_correct [OF toy_storage_ok rep, of 0 L1] run anchor by auto
qed

section \<open>Fork points\<close>

lemma fork_fast_None:
  "fork_fast S ch bs = None \<longleftrightarrow> (\<forall>b \<in> set bs. blk_index b \<noteq> 0 \<and>
     (\<forall>ours. block_at S ch (blk_index b - 1) = Some ours \<longrightarrow> blk_hash ours \<noteq> blk_prev_hash b))"
  by (induction bs) (auto simp: Let_def split: option.splits)

lemma fork_fast_Some:
  "fork_fast S ch bs = Some h \<Longrightarrow> (\<exists>b \<in> set bs. (blk_index b = 0 \<and> h = 0) \<or>
     (blk_index b \<noteq> 0 \<and> h = blk_index b - 1 \<and>
       (\<exists>ours. block_at S ch h = Some ours \<and> blk_hash ours = blk_prev_hash b)))"
  by (induction bs) (auto simp: Let_def split: option.splits if_splits)

lemma saturating_sub_1: "w \<noteq> 0 \<Longrightarrow> saturating_sub w 1 = w - 1" for w :: u64
  by (auto simp: saturating_sub_def word_le_nat_alt unat_gt_0 Suc_le_eq)

text \<open>Every probe of the slow path is the parent link of a block of the batch.\<close>

lemma fork_slow_None:
  assumes "\<forall>b \<in> set bs. blk_index b \<noteq> 0 \<and>
      (\<forall>ours. block_at S ch (blk_index b - 1) = Some ours \<longrightarrow> blk_hash ours \<noteq> blk_prev_hash b)"
    "\<exists>b \<in> set bs. ph = blk_index b - 1 \<and> hash = blk_prev_hash b"
  shows "fork_slow n S ch bs ph hash = None"
  using assms(2)
proof (induction n arbitrary: ph hash)
  case (Suc n)
  have "\<not> (\<exists>ours. block_at S ch ph = Some ours \<and> blk_hash ours = hash)"
    using Suc.prems assms(1) by blast
  moreover have "fork_slow n S ch bs (saturating_sub ph 1) (blk_prev_hash p) = None"
    if "find (\<lambda>b. blk_index b = ph) bs = Some p" "ph \<noteq> 0" for p
  proof (rule Suc.IH)
    have "p \<in> set bs" "blk_index p = ph" using that(1) by (auto simp: find_Some_iff)
    then show "\<exists>b \<in> set bs. saturating_sub ph 1 = blk_index b - 1 \<and> blk_prev_hash p = blk_prev_hash b"
      using that(2) saturating_sub_1 by auto
  qed
  ultimately show ?case by (auto split: option.splits)
qed simp

section \<open>Properties of fork points\<close>

text \<open>
  a fork point that is found is one: either a block of the batch is a genesis block (and
  the answer is 0), or the block of our chain at that height is the parent that a block of the
  batch names. The walk backward through the batch never finds anything the direct check did
  not: the function equals its fast path, and it fails exactly when no block of the batch names
  a block of ours.
\<close>
theorem find_fork_point_sound:
  "find_fork_point S ch incoming = fork_fast S ch incoming
   \<and> (find_fork_point S ch incoming = None \<longleftrightarrow> (\<forall>b \<in> set incoming. blk_index b \<noteq> 0 \<and>
        \<not> (\<exists>ours. block_at S ch (blk_index b - 1) = Some ours \<and> blk_hash ours = blk_prev_hash b)))
   \<and> (\<forall>h. find_fork_point S ch incoming = Some h \<longrightarrow> (\<exists>b \<in> set incoming.
        (blk_index b = 0 \<and> h = 0) \<or> (blk_index b = h + 1 \<and>
          (\<exists>ours. block_at S ch h = Some ours \<and> blk_hash ours = blk_prev_hash b))))"
proof -
  have eq: "find_fork_point S ch incoming = fork_fast S ch incoming"
  proof (cases incoming)
    case (Cons first rest)
    show ?thesis
    proof (cases "fork_fast S ch incoming")
      case None
      then have n: "\<forall>b \<in> set incoming. blk_index b \<noteq> 0 \<and>
          (\<forall>ours. block_at S ch (blk_index b - 1) = Some ours \<longrightarrow> blk_hash ours \<noteq> blk_prev_hash b)"
        unfolding fork_fast_None .
      have "first \<in> set incoming" "saturating_sub (blk_index first) 1 = blk_index first - 1"
        using Cons n saturating_sub_1 by auto
      then have "fork_slow (length incoming) S ch incoming (saturating_sub (blk_index first) 1)
          (blk_prev_hash first) = None"
        by (intro fork_slow_None [OF n]) auto
      then show ?thesis using None Cons by (simp add: find_fork_point_def)
    qed (simp add: find_fork_point_def Cons)
  qed (simp add: find_fork_point_def)
  have some: "\<exists>b \<in> set incoming. (blk_index b = 0 \<and> h = 0) \<or> (blk_index b = h + 1 \<and>
      (\<exists>ours. block_at S ch h = Some ours \<and> blk_hash ours = blk_prev_hash b))"
    if "fork_fast S ch incoming = Some h" for h
    using fork_fast_Some [OF that] by fastforce
  show ?thesis using some unfolding eq fork_fast_None by blast
qed

text \<open>A chain that shares the first block with ours, given with the block they part at.\<close>

theorem find_fork_point_sound_witness:
  "find_fork_point toy_storage toy_chain [toy_block 1 9 [], toy_block 2 9 []] = Some 0"
proof -
  have "block_at toy_storage toy_chain 0 = Some (genesis_block toy_crypto)"
    using chain_repD(4) [OF toy_chain_rep, of 0] by simp
  then have "fork_fast toy_storage toy_chain [toy_block 1 9 [], toy_block 2 9 []] = Some 0" by simp
  then show ?thesis using find_fork_point_sound [of toy_storage toy_chain "[toy_block 1 9 [], toy_block 2 9 []]"]
    by simp
qed

text \<open>
  the answer is the parent of the first block of the batch that links to ours, not the last
  common ancestor: when a batch starts with a block whose parent we have, the answer is that
  parent, even if we share the blocks after it.
\<close>
theorem find_fork_point_first_link:
  assumes "blk_index b \<noteq> 0" "block_at S ch (blk_index b - 1) = Some ours"
    "blk_hash ours = blk_prev_hash b"
  shows "find_fork_point S ch (b # bs) = Some (blk_index b - 1)"
  using assms by (simp add: find_fork_point_def)

theorem find_fork_point_first_link_witness:
  "\<exists>ch1 L1.
     apply_block toy_crypto toy_storage 1772975700000 toy_chain toy_b1 toy_ledger = (Inr (), ch1, L1)
     \<and> block_at toy_storage ch1 1 = Some toy_b1
     \<and> find_fork_point toy_storage ch1 [toy_b1, toy_block 2 9 []] = Some 0"
proof -
  obtain ch1 L1 where run:
      "apply_block toy_crypto toy_storage 1772975700000 toy_chain toy_b1 toy_ledger = (Inr (), ch1, L1)"
    and rep: "chain_rep toy_storage ch1 [genesis_block toy_crypto, toy_b1]"
    by (rule toy_run_b1)
  have at: "block_at toy_storage ch1 0 = Some (genesis_block toy_crypto)"
      "block_at toy_storage ch1 1 = Some toy_b1"
    using chain_repD(4) [OF rep, of 0] chain_repD(4) [OF rep, of 1] by simp_all
  have "find_fork_point toy_storage ch1 (toy_b1 # [toy_block 2 9 []]) = Some (blk_index toy_b1 - 1)"
    by (rule find_fork_point_first_link [where ours = "genesis_block toy_crypto"]) (use at in \<open>simp_all add: toy_b1_def\<close>)
  then show ?thesis using run at by (simp add: toy_b1_def)
qed

section \<open>Recomputing the difficulty\<close>

lemma recompute_loop_list:
  assumes "\<And>i. block_at S ch i = (if unat i < length bs then Some (bs ! unat i) else None)"
    "unat (bc_height ch) = length bs - 1" "length bs < 2 ^ 64"
  shows "10 * k < length bs \<Longrightarrow>
    recompute_loop S ch (10 * k + 10) (diff_upto bs k) = diff_of bs"
proof (induction "length bs - 10 * k" arbitrary: k rule: less_induct)
  case less
  show ?case
  proof (cases "10 * k + 10 < length bs")
    case False
    then have "(length bs - 1) div 10 = k" using less.prems by simp
    moreover have "\<not> 10 * k + 10 \<le> unat (bc_height ch)" using False assms(2) less.prems by linarith
    ultimately show ?thesis
      by (subst recompute_loop.simps) (simp add: diff_of_def)
  next
    case True
    define w :: u64 where "w = of_nat (10 * k + 10)"
    have u: "unat w = 10 * k + 10"
      unfolding w_def by (rule unat_of_nat_small) (use True assms(3) in simp)
    have "DAA_WINDOW \<le> w" unfolding word_le_nat_alt u by (simp add: DAA_WINDOW_def)
    then have u2: "unat (w - DAA_WINDOW) = 10 * k"
      using u by (simp add: unat_sub, simp add: DAA_WINDOW_def)
    have b: "block_at S ch w = Some (bs ! (10 * k + 10))"
        "block_at S ch (w - DAA_WINDOW) = Some (bs ! (10 * k))"
      using assms(1) [of w] assms(1) [of "w - DAA_WINDOW"] True u u2 by auto
    have "recompute_loop S ch (10 * k + 10) (diff_upto bs k)
        = recompute_loop S ch (10 * k + 10 + unat DAA_WINDOW) (diff_upto bs (Suc k))"
    proof -
      have "10 * k + 10 \<le> unat (bc_height ch)" using True assms(2) by linarith
      then show ?thesis
        using b unfolding w_def by (subst recompute_loop.simps) (simp add: window_ms_def)
    qed
    also have "\<dots> = recompute_loop S ch (10 * Suc k + 10) (diff_upto bs (Suc k))"
    proof -
      have dw: "unat DAA_WINDOW = 10" by (simp add: DAA_WINDOW_def)
      have "10 * k + 10 + unat DAA_WINDOW = 10 * Suc k + 10" unfolding dw by simp
      then show ?thesis by simp
    qed
    also have "\<dots> = diff_of bs"
      by (rule less.hyps) (use True in simp_all)
    finally show ?thesis .
  qed
qed

lemma recompute_list:
  assumes "\<And>i. block_at S ch i = (if unat i < length bs then Some (bs ! unat i) else None)"
    "unat (bc_height ch) = length bs - 1" "length bs < 2 ^ 64" "bs \<noteq> []"
  shows "recompute_difficulty_from_chain S ch = diff_of bs"
proof (cases "bc_height ch < DAA_WINDOW")
  case True
  then have "(length bs - 1) div 10 = 0" using assms(2) by (simp add: word_less_nat_alt DAA_WINDOW_def)
  then have "diff_of bs = TESTNET_DIFFICULTY" unfolding diff_of_def by (simp only: diff_upto.simps)
  then show ?thesis using True by (simp add: recompute_difficulty_from_chain_def)
next
  case False
  have "recompute_loop S ch 10 TESTNET_DIFFICULTY = diff_of bs"
    using recompute_loop_list [OF assms(1-3), of 0] assms(4) by simp
  then show ?thesis using False by (simp add: recompute_difficulty_from_chain_def DAA_WINDOW_def)
qed

lemma repair_difficulty_rep:
  assumes S: "storage_ok S"
    and rep: "chain_rep S (ch\<lparr>bc_difficulty := diff_of bs,
        bc_db := db_put S (bc_db ch) KEY_DIFF (val_of_bytes S (le32 (diff_of bs)))\<rparr>) bs"
    and same: "bc_difficulty ch = diff_of bs \<Longrightarrow>
        diff_stored S (bc_db ch) (diff_of bs)"
  shows "chain_rep S (repair_difficulty S ch) bs"
proof -
  have at: "block_at S ch i = (if unat i < length bs then Some (bs ! unat i) else None)" for i
    using chain_repD(4) [OF rep, of i] S by (simp add: block_at_def)
  have "recompute_difficulty_from_chain S ch = diff_of bs"
    using recompute_list [OF at] chain_repD(1-3) [OF rep] by simp
  moreover have "chain_rep S ch bs" if "bc_difficulty ch = diff_of bs"
    using rep same that S unfolding chain_rep_def block_at_def by (simp split: option.splits)
  ultimately show ?thesis using rep by (auto simp: repair_difficulty_def Let_def)
qed

section \<open>Properties of the difficulty and of loading\<close>

lemma load_rep:
  assumes "storage_ok S" "chain_rep S ch bs" "\<And>k. k \<noteq> KEY_DIFF \<Longrightarrow> db_get S db k = db_get S (bc_db ch) k"
    and v: "db_get S db KEY_DIFF = Some v"
  shows "chain_rep S (load_or_create C S db legacy d) bs"
proof -
  have kh: "db_get S db KEY_HEIGHT = Some (val_of_bytes S (le64 (bc_height ch)))"
    using assms(2,3) by (simp add: chain_rep_def)
  have rep': "chain_rep S \<lparr>bc_db = db_put S db' KEY_DIFF (val_of_bytes S (le32 (diff_of bs))),
      bc_height = bc_height ch, bc_difficulty = diff_of bs\<rparr> bs"
    if "\<And>k. k \<noteq> KEY_DIFF \<Longrightarrow> db_get S db' k = db_get S (bc_db ch) k" for db'
    using assms(1,2) that unfolding chain_rep_def block_at_def by simp
  show "chain_rep S (load_or_create C S db legacy d) bs"
  proof (cases "bc_height ch = 0")
    case True
    then have l: "length bs - 1 = 0" using chain_repD(3) [OF assms(2)] by simp
    have d0: "diff_of bs = TESTNET_DIFFICULTY" unfolding diff_of_def by (simp only: l) simp
    let ?c = "\<lparr>bc_db = db_put S db KEY_DIFF (val_of_bytes S (le32 TESTNET_DIFFICULTY)),
        bc_height = bc_height ch, bc_difficulty = TESTNET_DIFFICULTY\<rparr>"
    have "load_or_create C S db legacy d = repair_difficulty S ?c"
      using kh True assms(1) by (simp add: load_or_create_def Let_def)
    moreover have "chain_rep S (repair_difficulty S ?c) bs"
      by (rule repair_difficulty_rep [OF assms(1)])
        (use rep' [of "bc_db ?c"] assms(1,3) d0 in simp_all)
    ultimately show ?thesis by simp
  next
    case False
    define x where "x = (let d_bytes = bytes_of_val S v in if length d_bytes = 4 then from_le32 d_bytes else 0)"
    let ?c = "\<lparr>bc_db = db, bc_height = bc_height ch, bc_difficulty = x\<rparr>"
    have "diff_of bs \<noteq> 0" using diff_of_bounds(1) [of bs] by auto
    then have stored: "bytes_of_val S v = le32 (diff_of bs)" if "x = diff_of bs"
      using that le32_from_le32 [of "bytes_of_val S v"] by (auto simp: x_def Let_def split: if_splits)
    have "load_or_create C S db legacy d = repair_difficulty S ?c"
      using kh False assms(1) v by (simp add: load_or_create_def Let_def x_def)
    moreover have "chain_rep S (repair_difficulty S ?c) bs"
      by (rule repair_difficulty_rep [OF assms(1)])
        (use rep' [of db] assms(1,3) v stored in \<open>simp_all add: diff_stored_def\<close>)
    ultimately show ?thesis by simp
  qed
qed

lemma reload_rep:
  assumes "storage_ok S" "chain_rep S ch bs"
  shows "chain_rep S (load_or_create C S (db_put S (bc_db ch) KEY_DIFF v) legacy d) bs
    \<and> bc_height (load_or_create C S (db_put S (bc_db ch) KEY_DIFF v) legacy d) = bc_height ch
    \<and> bc_difficulty (load_or_create C S (db_put S (bc_db ch) KEY_DIFF v) legacy d) = bc_difficulty ch"
proof -
  let ?db = "db_put S (bc_db ch) KEY_DIFF v"
  have main: "chain_rep S (load_or_create C S ?db legacy d) bs"
    by (rule load_rep [OF assms, of _ v]) (use assms(1) in simp_all)
  show ?thesis
    using main chain_repD(3,6) [OF main] chain_repD(3,6) [OF assms(2)]
    by (metis unsigned_word_eqI)
qed

text \<open>
  C19: restarting the node: loading the store of a chain gives the same list of blocks, height
  and difficulty back, whatever difficulty was persisted (a stale or damaged value is repaired
  from the chain) and whatever legacy file and default are given.
\<close>
theorem load_or_create_reload:
  assumes "storage_ok S" "chain_rep S ch bs"
  shows "chain_rep S (load_or_create C S (db_put S (bc_db ch) KEY_DIFF v) legacy d) bs
    \<and> bc_height (load_or_create C S (db_put S (bc_db ch) KEY_DIFF v) legacy d) = bc_height ch
    \<and> bc_difficulty (load_or_create C S (db_put S (bc_db ch) KEY_DIFF v) legacy d) = bc_difficulty ch"
  by (rule reload_rep [OF assms])

theorem load_or_create_reload_witness:
  "bc_height (load_or_create toy_crypto toy_storage
      (db_put toy_storage (bc_db toy_chain) KEY_DIFF (RawVal [9, 9])) None 3) = bc_height toy_chain
   \<and> bc_difficulty (load_or_create toy_crypto toy_storage
      (db_put toy_storage (bc_db toy_chain) KEY_DIFF (RawVal [9, 9])) None 3) = bc_difficulty toy_chain"
  using load_or_create_reload [OF toy_storage_ok toy_chain_rep, of toy_crypto "RawVal [9, 9]" None 3]
  by blast

section \<open>The difficulty over the life of a chain\<close>

text \<open>
  \<open>chain_history C S n ch\<close>: the chain \<open>ch\<close> is reached from an empty store by \<open>n\<close> blocks that were
  offered to it and any number of reverted tips, reorganisations and restarts, whether they
  succeeded or not. A restart finds the store as it is, or with anything at all in the place
  of the persisted difficulty. The ledger may be any at every step.
\<close>

inductive chain_history ::
    "crypto \<Rightarrow> ('d, 'v) storage \<Rightarrow> nat \<Rightarrow> 'd blockchain \<Rightarrow> bool" for C S where
  history_new: "(\<And>k. db_get S db k = None) \<Longrightarrow>
     chain_history C S 0 (load_or_create C S db None TESTNET_DIFFICULTY)"
| history_apply: "chain_history C S n ch \<Longrightarrow> apply_block C S now ch b L = (r, ch', L') \<Longrightarrow>
     chain_history C S (Suc n) ch'"
| history_apply_ibd: "chain_history C S n ch \<Longrightarrow> apply_block_ibd C S now ch b L = (r, ch', L') \<Longrightarrow>
     chain_history C S (Suc n) ch'"
| history_revert_tip: "chain_history C S n ch \<Longrightarrow> revert_tip S ch L = (r, ch', L') \<Longrightarrow> chain_history C S n ch'"
| history_revert_to: "chain_history C S n ch \<Longrightarrow> revert_to_height S ch target L = (r', ch', L') \<Longrightarrow>
     chain_history C S n ch'"
| history_restart: "chain_history C S n ch \<Longrightarrow> db = bc_db ch \<or> db = db_put S (bc_db ch) KEY_DIFF v \<Longrightarrow>
     chain_history C S n (load_or_create C S db legacy d)"

lemma restart_rep:
  assumes "storage_ok S" "chain_rep S ch bs" "db = bc_db ch \<or> db = db_put S (bc_db ch) KEY_DIFF v"
  shows "chain_rep S (load_or_create C S db legacy d) bs"
proof -
  obtain w where "db_get S (bc_db ch) KEY_DIFF = Some w"
    using assms(2) by (auto simp: chain_rep_def diff_stored_def)
  then show ?thesis
    using assms load_rep [OF assms(1,2), of "bc_db ch" w] load_rep [OF assms(1,2), of "db_put S (bc_db ch) KEY_DIFF v" v]
    by auto
qed

lemma apply_any_rep:
  assumes "storage_ok S" "chain_rep S ch bs" "length bs + 1 < 2 ^ 64"
    and "apply_block C S now ch b L = (r, ch', L') \<or> apply_block_ibd C S now ch b L = (r, ch', L')"
  shows "chain_rep S ch' bs \<or> chain_rep S ch' (bs @ [b])"
  using assms(4) apply_block_refines [OF assms(1-3)] apply_block_ibd_refines [OF assms(1-3)] assms(2)
  by (fastforce split: option.splits dest: chain_append_shape)

lemma revert_tip_any_rep:
  assumes "storage_ok S" "chain_rep S ch bs" "revert_tip S ch L = (r, ch', L')"
  shows "chain_rep S ch' bs \<or> chain_rep S ch' (butlast bs)"
proof (cases "1 < length bs")
  case True
  then show ?thesis using revert_tip_rep [OF assms(1,2) True, of L] assms(3) by auto
next
  case False
  then have "bc_height ch = 0" using chain_repD(3) [OF assms(2)] by (simp add: unat_eq_0)
  then show ?thesis using assms(2,3) by (simp add: revert_tip_def)
qed

lemma chain_history_rep:
  assumes S: "storage_ok S"
  shows "chain_history C S n ch \<Longrightarrow> n + 2 < 2 ^ 64 \<Longrightarrow> \<exists>bs. chain_rep S ch bs \<and> length bs \<le> Suc n"
proof (induction rule: chain_history.induct)
  case (history_new db)
  then show ?case using load_fresh_rep [OF S, of db C] by (intro exI [of _ "[genesis_block C]"]) simp
next
  case (history_apply n ch now b L r ch' L')
  then obtain bs where bs: "chain_rep S ch bs" "length bs \<le> Suc n" by auto
  have "length bs + 1 < 2 ^ 64" using bs(2) history_apply.prems by simp
  from apply_any_rep [OF S bs(1) this disjI1 [OF history_apply.hyps(2)]] bs(2) show ?case by fastforce
next
  case (history_apply_ibd n ch now b L r ch' L')
  then obtain bs where bs: "chain_rep S ch bs" "length bs \<le> Suc n" by auto
  have "length bs + 1 < 2 ^ 64" using bs(2) history_apply_ibd.prems by simp
  from apply_any_rep [OF S bs(1) this disjI2 [OF history_apply_ibd.hyps(2)]] bs(2) show ?case by fastforce
next
  case (history_revert_tip n ch L r ch' L')
  then obtain bs where bs: "chain_rep S ch bs" "length bs \<le> Suc n" by auto
  from revert_tip_any_rep [OF S bs(1) history_revert_tip.hyps(2)] bs(2) show ?case by fastforce
next
  case (history_revert_to n ch target L r' ch' L')
  then obtain bs where bs: "chain_rep S ch bs" "length bs \<le> Suc n" by auto
  have "chain_rep S ch' bs \<or> chain_rep S ch' (take (Suc (unat target)) bs)"
    using revert_to_height_rep [OF S bs(1), of target L] history_revert_to.hyps(2) bs(1)
    by (auto split: if_splits)
  moreover have "length (take (Suc (unat target)) bs) \<le> Suc n" using bs(2) by simp
  ultimately show ?case using bs(2) by blast
next
  case (history_restart n ch db v legacy d)
  then show ?case using restart_rep [OF S] by blast
qed

text \<open>
  C20: the difficulty that the code keeps up to date block by block, saves at the boundaries of the
  adjustment window and reads back from its snapshots when it reverts, is at all times the one
  \<open>recompute_difficulty_from_chain\<close> computes from the timestamps of the blocks on the chain, from
  genesis on, and it stays between 1 and 30 bits; the store holds the same value. That is so after
  any history of blocks offered, accepted or refused, at the tip or in a download, of reverts,
  reorganisations and restarts. So two nodes that hold the same blocks ask for the same work, however
  they came to them.
\<close>
theorem difficulty_canonical:
  assumes "storage_ok S" "chain_history C S n ch" "n + 2 < 2 ^ 64"
  shows "bc_difficulty ch = recompute_difficulty_from_chain S ch
    \<and> 1 \<le> unat (bc_difficulty ch) \<and> unat (bc_difficulty ch) \<le> 30
    \<and> (\<exists>v. db_get S (bc_db ch) KEY_DIFF = Some v \<and> bytes_of_val S v = le32 (bc_difficulty ch))"
proof -
  obtain bs where rep: "chain_rep S ch bs" using chain_history_rep [OF assms] by blast
  then show ?thesis
    using recompute_list [of S ch bs] chain_repD [OF rep] diff_of_bounds [of bs]
    by (simp add: chain_rep_def diff_stored_def)
qed

text \<open>A chain of many toy blocks: their times are all the same, so the difficulty rises.\<close>

definition toy_run :: "nat \<Rightarrow> block list" where
  "toy_run n = genesis_block toy_crypto # map (\<lambda>i. toy_block (of_nat i) 5 []) [1..<Suc n]"

lemma toy_run_simps [simp]: "length (toy_run n) = Suc n" "toy_run n \<noteq> []" "toy_run 0 = [genesis_block toy_crypto]"
  by (simp_all add: toy_run_def)

lemma toy_run_Suc: "toy_run (Suc n) = toy_run n @ [toy_block (of_nat (Suc n)) 5 []]"
  by (simp add: toy_run_def)

lemma toy_run_last:
  assumes "n < 400"
  shows "blk_index (last (toy_run n)) = of_nat n" "blk_hash (last (toy_run n)) = of_nat n"
proof -
  have "unat (of_nat n :: u64) = n" by (rule unat_of_nat_small) (use assms in simp)
  then show "blk_index (last (toy_run n)) = of_nat n" "blk_hash (last (toy_run n)) = of_nat n"
    by (cases n; simp add: toy_run_Suc)+
qed

lemma toy_run_append:
  assumes "Suc n < 400"
  shows "chain_append toy_crypto (apply_tx_ibd toy_crypto) (\<lambda>_. True) (toy_run n, L) (toy_block (of_nat (Suc n)) 5 [])
    = Some (toy_run (Suc n), apply_coinbase toy_crypto L 7 TESTNET_REWARD)"
proof -
  let ?b = "toy_block (of_nat (Suc n)) 5 []" and ?d = "diff_of (toy_run n)"
  have u: "unat (of_nat (Suc n) :: u64) = Suc n" by (rule unat_of_nat_small) (use assms in simp)
  have v: "unat (of_nat (Suc n) :: hash32) = Suc n" by (rule unat_of_nat_small) (use assms in simp)
  have "(2 :: nat) ^ 226 \<le> 2 ^ (256 - unat ?d)"
    by (rule power_increasing) (use diff_of_bounds(2) [of "toy_run n"] in simp_all)
  then have "unat (of_nat (Suc n) :: hash32) < 2 ^ (256 - unat ?d)"
    unfolding v using assms by simp
  then have m: "meets_difficulty (of_nat (Suc n)) ?d"
    unfolding meets_difficulty_def seq_meets_difficulty_value
    using diff_of_bounds(2) [of "toy_run n"] by simp
  have "blk_hash ?b = of_nat (Suc n)" "blk_prev_hash ?b = of_nat n" "hash_header toy_crypto ?b = of_nat (Suc n)"
    unfolding toy_block_simps toy_hash_header u by simp_all
  then have "links_to toy_crypto ?b (last (toy_run n)) ?d"
    using toy_run_last [of n] assms m by (simp add: links_to_def)
  moreover have "\<not> checkpoint_mismatch toy_crypto ?b"
  proof -
    have "find (\<lambda>(h, _). h = blk_index ?b) CHECKPOINTS = None"
      using assms u by (auto simp: find_None_iff CHECKPOINTS_def word_unat_eq_iff simp del: of_nat_Suc)
    then show ?thesis by (simp add: checkpoint_mismatch_def)
  qed
  ultimately show ?thesis by (simp add: chain_append_def admissible_def toy_run_Suc del: of_nat_Suc)
qed

lemma toy_run_history:
  "n < 400 \<Longrightarrow> \<exists>ch. chain_history toy_crypto toy_storage n ch \<and> chain_rep toy_storage ch (toy_run n)"
proof (induction n)
  case 0
  have "chain_history toy_crypto toy_storage 0 toy_chain"
    unfolding toy_chain_def by (rule history_new) (simp add: toy_storage_def)
  then show ?case using toy_chain_rep by auto
next
  case (Suc n)
  then obtain ch where ch: "chain_history toy_crypto toy_storage n ch" "chain_rep toy_storage ch (toy_run n)" by auto
  obtain r ch' L' where run: "apply_block_ibd toy_crypto toy_storage 0 ch (toy_block (of_nat (Suc n)) 5 []) toy_ledger
      = (r, ch', L')" by (metis prod_cases3)
  have len: "length (toy_run n) + 1 < 2 ^ 64" using Suc.prems by simp
  have "chain_rep toy_storage ch' (toy_run (Suc n))"
    using apply_block_ibd_refines [OF toy_storage_ok ch(2) len run] toy_run_append [OF Suc.prems, of toy_ledger]
    by simp
  then show ?case using history_apply_ibd [OF ch(1) run] by blast
qed

lemma toy_run_difficulty: "diff_of (toy_run 10) = 15"
  by (simp add: diff_of_def window_ms_def adjust_difficulty_step_def saturating_sub_def
      TESTNET_DIFFICULTY_def toy_run_def)

theorem difficulty_canonical_witness:
  "\<exists>ch. chain_history toy_crypto toy_storage 10 ch \<and> bc_height ch = 10 \<and> bc_difficulty ch = 15
     \<and> recompute_difficulty_from_chain toy_storage ch = 15"
proof -
  obtain ch where ch: "chain_history toy_crypto toy_storage 10 ch" "chain_rep toy_storage ch (toy_run 10)"
    using toy_run_history [of 10] by auto
  have "unat (bc_height ch) = 10" using chain_repD(3) [OF ch(2)] by simp
  then have "bc_height ch = 10" by (simp add: word_unat_eq_iff)
  moreover have "bc_difficulty ch = 15" using chain_repD(6) [OF ch(2)] toy_run_difficulty by simp
  ultimately show ?thesis using difficulty_canonical [OF toy_storage_ok ch(1)] ch(1) by auto
qed

section \<open>Rebuilding the ledger\<close>

lemma rebuild_list:
  assumes "\<And>i. block_at S ch i = (if unat i < length bs then Some (bs ! unat i) else None)"
    "unat (bc_height ch) = length bs - 1" "bs \<noteq> []" "length bs < 2 ^ 64"
  shows "rebuild_from_chain C S ch
    = foldl (\<lambda>L b. apply_coinbase C L (blk_miner b) (blk_reward b)) new_testnet (tl bs)"
proof -
  let ?f = "\<lambda>L i. case block_at S ch i of
      Some b \<Rightarrow> apply_coinbase C L (blk_miner b) (blk_reward b) | None \<Rightarrow> L"
  have "foldl ?f L (map of_nat [1..<n])
      = foldl (\<lambda>L b. apply_coinbase C L (blk_miner b) (blk_reward b)) L (tl (take n bs))"
    if "1 \<le> n" "n \<le> length bs" for n L
    using that
  proof (induction n)
    case (Suc n)
    show ?case
    proof (cases "n = 0")
      case True
      then show ?thesis using assms(3) by (cases bs) auto
    next
      case False
      have u: "unat (of_nat n :: u64) = n"
        by (rule unat_of_nat_small) (use Suc.prems assms(4) in simp)
      have "block_at S ch (of_nat n) = Some (bs ! n)"
        using assms(1) [of "of_nat n"] Suc.prems u by simp
      moreover have "tl (take (Suc n) bs) = tl (take n bs) @ [bs ! n]"
        using Suc.prems False assms(3)
        by (cases bs; cases n) (auto simp: take_Suc_conv_app_nth)
      moreover have "[1..<Suc n] = [1..<n] @ [n]" using False by simp
      ultimately show ?thesis using Suc False by simp
    qed
  qed simp
  from this [of "length bs" new_testnet] show ?thesis
    using assms(2,3) by (simp add: rebuild_from_chain_def u64_range_def Suc_leI)
qed

text \<open>
  rebuilding the ledger from the chain replays only the rewards: two chains that differ in
  nothing but the transactions of their blocks give the same ledger, so after a rebuild every
  transfer and every burned fee is lost. The result is the genesis ledger with the rewards of
  the blocks after genesis credited in order.
\<close>
theorem rebuild_ignores_transactions:
  assumes "chain_rep S ch bs" "chain_rep S2 ch2 cs"
    "map (\<lambda>b. (blk_miner b, blk_reward b)) bs = map (\<lambda>b. (blk_miner b, blk_reward b)) cs"
  shows "rebuild_from_chain C S ch = rebuild_from_chain C S2 ch2
    \<and> rebuild_from_chain C S ch
      = foldl (\<lambda>L b. apply_coinbase C L (blk_miner b) (blk_reward b)) new_testnet (tl bs)"
proof -
  let ?g = "\<lambda>L (m, r). apply_coinbase C L m r"
  have f: "foldl (\<lambda>L b. apply_coinbase C L (blk_miner b) (blk_reward b)) L xs
      = foldl ?g L (map (\<lambda>b. (blk_miner b, blk_reward b)) xs)" for L xs
    by (induction xs arbitrary: L) auto
  have "rebuild_from_chain C S ch = foldl ?g new_testnet (map (\<lambda>b. (blk_miner b, blk_reward b)) (tl bs))"
    using rebuild_list [of S ch bs C] chain_repD [OF assms(1)] f by simp
  moreover have "rebuild_from_chain C S2 ch2 = foldl ?g new_testnet (map (\<lambda>b. (blk_miner b, blk_reward b)) (tl cs))"
    using rebuild_list [of S2 ch2 cs C] chain_repD [OF assms(2)] f by simp
  ultimately have "rebuild_from_chain C S ch = rebuild_from_chain C S2 ch2"
    using assms(3) by (simp add: map_tl)
  then show ?thesis using rebuild_list [of S ch bs C] chain_repD [OF assms(1)] by simp
qed

lemma toy_run_ibd:
  obtains ch1 L1 where
    "apply_block_ibd toy_crypto toy_storage 0 toy_chain (toy_block 1 t []) toy_ledger = (Inr (), ch1, L1)"
    "chain_rep toy_storage ch1 [genesis_block toy_crypto, toy_block 1 t []]"
proof -
  obtain r ch' L' where run:
      "apply_block_ibd toy_crypto toy_storage 0 toy_chain (toy_block 1 t []) toy_ledger = (r, ch', L')"
    by (metis prod_cases3)
  have len: "length [genesis_block toy_crypto] + 1 < 2 ^ 64" by simp
  show ?thesis
    using apply_block_ibd_refines [OF toy_storage_ok toy_chain_rep len run] run that
    by (simp add: toy_append_ibd)
qed

theorem rebuild_ignores_transactions_witness:
  "\<exists>ch1 ch2. chain_rep toy_storage ch1 [genesis_block toy_crypto, toy_b1]
     \<and> chain_rep toy_storage ch2 [genesis_block toy_crypto, toy_block 1 5 []]
     \<and> rebuild_from_chain toy_crypto toy_storage ch1 = rebuild_from_chain toy_crypto toy_storage ch2"
proof -
  obtain ch1 ch2 where rep: "chain_rep toy_storage ch1 [genesis_block toy_crypto, toy_b1]"
      "chain_rep toy_storage ch2 [genesis_block toy_crypto, toy_block 1 5 []]"
    using toy_run_b1 toy_run_ibd by metis
  have "map (\<lambda>b. (blk_miner b, blk_reward b)) [genesis_block toy_crypto, toy_b1]
      = map (\<lambda>b. (blk_miner b, blk_reward b)) [genesis_block toy_crypto, toy_block 1 5 []]"
    by (simp add: toy_b1_def)
  then show ?thesis using rebuild_ignores_transactions [OF rep] rep by blast
qed

text \<open>
  C5: a block mints exactly the canonical reward: along any run of blocks that apply (at the tip
  or during the download), the supply after is the supply before plus one reward per block,
  less what the transactions burn.
\<close>
theorem apply_block_mints_reward:
  assumes "storage_ok S" "chain_rep S ch bs" "length bs + 1 < 2 ^ 64"
    "ledger_fits L" "supply_of L + unat TESTNET_REWARD < 2 ^ 64"
    "apply_block C S now ch b L = (Inr (), ch', L') \<or> apply_block_ibd C S now ch b L = (Inr (), ch', L')"
  shows "ledger_fits L'
    \<and> unat (total_supply L') + burned (blk_transactions b) = unat (total_supply L) + 15850000"
proof -
  have "\<exists>f extra. tx_applier f \<and> chain_append C f extra (bs, L) b = Some (bs @ [b], L')"
    using assms(6)
  proof
    assume "apply_block C S now ch b L = (Inr (), ch', L')"
    then show ?thesis
      using apply_block_Inr(1) [OF assms(1-3)] tip_apply.tx_applier_axioms [of C] by blast
  next
    assume "apply_block_ibd C S now ch b L = (Inr (), ch', L')"
    then show ?thesis
      using apply_block_ibd_Inr(1) [OF assms(1-3)] ibd_apply.tx_applier_axioms [of C] by blast
  qed
  then obtain f extra where f: "tx_applier f" "chain_append C f extra (bs, L) b = Some (bs @ [b], L')"
    by blast
  note s = chain_append_supply [OF f(1) assms(4,5) f(2)]
  have "unat TESTNET_REWARD = 15850000" by (simp add: TESTNET_REWARD_def)
  then show ?thesis
    using s total_supply_exact [of L] total_supply_exact [of L'] assms(4) by simp
qed

theorem apply_block_mints_reward_witness:
  "\<exists>ch1 L1.
     apply_block toy_crypto toy_storage 1772975700000 toy_chain toy_b1 toy_ledger = (Inr (), ch1, L1)
     \<and> unat (total_supply L1) + 5 = 100 + 15850000"
proof -
  obtain ch1 L1 where run:
    "apply_block toy_crypto toy_storage 1772975700000 toy_chain toy_b1 toy_ledger = (Inr (), ch1, L1)"
    by (rule toy_run_b1)
  have "ledger_fits L1 \<and> unat (total_supply L1) + burned (blk_transactions toy_b1)
      = unat (total_supply toy_ledger) + 15850000"
    by (rule apply_block_mints_reward [OF toy_storage_ok toy_chain_rep _ _ _ disjI1 [OF run]])
      (simp_all add: TESTNET_REWARD_def)
  moreover have "burned (blk_transactions toy_b1) = 5"
    by (simp add: burned_def toy_b1_def saturating_add_def)
  moreover have "unat (total_supply toy_ledger) = 100"
    using total_supply_exact [of toy_ledger] by simp
  ultimately show ?thesis using run by auto
qed

end
