(* ===== verification/Finality.thy ===== *)
theory Finality
  imports Transaction
begin

text \<open>
  Finality by acknowledgements (core/src/finality.rs): the status of a transaction, signed
  acknowledgements, the tracker that counts them, and the cache of seen sequence numbers. An
  \<open>Instant\<close> and a \<open>Duration\<close> are milliseconds; the wall clock and the monotonic clock are
  arguments. The calls of the optional callback are kept as a log.
\<close>

datatype transaction_status =
    Created
  | Pending (st_acks: u32) (st_quorum: u32)
  | Confirmed (st_acks: u32) (st_finality_ms: u64)
  | Rejected (st_reason: string)

fun is_final :: "transaction_status \<Rightarrow> bool" where
  "is_final (Confirmed _ _) = True"
| "is_final _ = False"

fun is_rejected :: "transaction_status \<Rightarrow> bool" where
  "is_rejected (Rejected _) = True"
| "is_rejected _ = False"

fun ack_count :: "transaction_status \<Rightarrow> u32" where
  "ack_count (Pending acks _) = acks"
| "ack_count (Confirmed acks _) = acks"
| "ack_count _ = 0"

section \<open>Acknowledgements\<close>

record tx_ack =
  ack_tx_hash :: hash32
  ack_peer_pubkey :: hash32
  ack_signature :: sig64
  ack_timestamp_ms :: u64

definition ack_message :: "hash32 \<Rightarrow> hash32 \<Rightarrow> u64 \<Rightarrow> bytes" where
  "ack_message h peer time = bytes32 h @ bytes32 peer @ le64 time"

definition ack_new :: "crypto \<Rightarrow> u64 \<Rightarrow> hash32 \<Rightarrow> wallet \<Rightarrow> tx_ack" where
  "ack_new C timestamp_ms h peer_wallet =
     (let peer_pubkey = public_key C peer_wallet;
          signature = wallet_sign C peer_wallet (ack_message h peer_pubkey timestamp_ms)
      in \<lparr>ack_tx_hash = h, ack_peer_pubkey = peer_pubkey, ack_signature = signature,
          ack_timestamp_ms = timestamp_ms\<rparr>)"

definition ack_verify :: "crypto \<Rightarrow> tx_ack \<Rightarrow> unit result" where
  "ack_verify C a = verify_signature C (ack_peer_pubkey a)
     (ack_message (ack_tx_hash a) (ack_peer_pubkey a) (ack_timestamp_ms a)) (ack_signature a)"

definition ack_tx_hash_hex :: "crypto \<Rightarrow> tx_ack \<Rightarrow> string" where
  "ack_tx_hash_hex C a = hex_encode C (bytes32 (ack_tx_hash a))"

section \<open>The tracker\<close>

record pending_tx =
  pt_submitted_at :: nat
  pt_acks :: "hash32 \<rightharpoonup> tx_ack"
  pt_quorum :: u32
  pt_callback_data :: "string option"

record finality_tracker =
  ft_pending :: "hash32 \<rightharpoonup> pending_tx"
  ft_finalized :: "hash32 \<rightharpoonup> transaction_status"
  ft_default_quorum :: u32
  ft_timeout :: nat
  ft_has_callback :: bool
  ft_calls :: "(hash32 \<times> transaction_status) list"

definition ft_new :: "u32 \<Rightarrow> finality_tracker" where
  "ft_new default_quorum = \<lparr>ft_pending = Map.empty, ft_finalized = Map.empty,
     ft_default_quorum = max default_quorum 1, ft_timeout = 30000, ft_has_callback = False,
     ft_calls = []\<rparr>"

definition ft_with_timeout :: "nat \<Rightarrow> finality_tracker \<Rightarrow> finality_tracker" where
  "ft_with_timeout timeout s = s\<lparr>ft_timeout := timeout\<rparr>"

definition ft_on_final :: "finality_tracker \<Rightarrow> finality_tracker" where
  "ft_on_final s = s\<lparr>ft_has_callback := True\<rparr>"

definition register_tx ::
    "nat \<Rightarrow> hash32 \<Rightarrow> string option \<Rightarrow> finality_tracker \<Rightarrow> bool \<times> finality_tracker" where
  "register_tx now h callback_data s =
     (if h \<in> dom (ft_pending s) \<or> h \<in> dom (ft_finalized s) then (False, s)
      else (True, s\<lparr>ft_pending := (ft_pending s)(h \<mapsto>
              \<lparr>pt_submitted_at = now, pt_acks = Map.empty, pt_quorum = ft_default_quorum s,
               pt_callback_data = callback_data\<rparr>)\<rparr>))"

definition register_tx_with_quorum ::
    "nat \<Rightarrow> hash32 \<Rightarrow> u32 \<Rightarrow> string option \<Rightarrow> finality_tracker \<Rightarrow> bool \<times> finality_tracker" where
  "register_tx_with_quorum now h quorum callback_data s =
     (if h \<in> dom (ft_pending s) \<or> h \<in> dom (ft_finalized s) then (False, s)
      else (True, s\<lparr>ft_pending := (ft_pending s)(h \<mapsto>
              \<lparr>pt_submitted_at = now, pt_acks = Map.empty, pt_quorum = max quorum 1,
               pt_callback_data = callback_data\<rparr>)\<rparr>))"

definition record_ack ::
    "crypto \<Rightarrow> nat \<Rightarrow> tx_ack \<Rightarrow> finality_tracker \<Rightarrow> transaction_status option \<times> finality_tracker" where
  "record_ack C now a s =
     (if \<not> is_ok (ack_verify C a) then (None, s)
      else
        let h = ack_tx_hash a in
        case ft_finalized s h of
          Some status \<Rightarrow> (Some status, s)
        | None \<Rightarrow>
            (case ft_pending s h of
               None \<Rightarrow> (None, s)
             | Some p \<Rightarrow>
                 if ack_peer_pubkey a \<in> dom (pt_acks p)
                 then (Some (Pending (of_nat (card (dom (pt_acks p)))) (pt_quorum p)), s)
                 else
                   let p = p\<lparr>pt_acks := (pt_acks p)(ack_peer_pubkey a \<mapsto> a)\<rparr>;
                       s = s\<lparr>ft_pending := (ft_pending s)(h \<mapsto> p)\<rparr>;
                       n = (of_nat (card (dom (pt_acks p))) :: u32);
                       quorum = pt_quorum p
                   in if n \<ge> quorum
                      then
                        let finality_ms = of_nat (now - pt_submitted_at p);
                            status = Confirmed n finality_ms;
                            s = s\<lparr>ft_pending := (ft_pending s)(h := None)\<rparr>;
                            s = s\<lparr>ft_finalized := (ft_finalized s)(h \<mapsto> status)\<rparr>;
                            s = (if ft_has_callback s then s\<lparr>ft_calls := ft_calls s @ [(h, status)]\<rparr> else s)
                        in (Some status, s)
                      else (Some (Pending n quorum), s)))"

definition ft_get_status :: "finality_tracker \<Rightarrow> hash32 \<Rightarrow> transaction_status option" where
  "ft_get_status s h = (case ft_finalized s h of
     Some status \<Rightarrow> Some status
   | None \<Rightarrow> (case ft_pending s h of
        Some p \<Rightarrow> Some (Pending (of_nat (card (dom (pt_acks p)))) (pt_quorum p))
      | None \<Rightarrow> None))"

definition ft_reject :: "hash32 \<Rightarrow> string \<Rightarrow> finality_tracker \<Rightarrow> finality_tracker" where
  "ft_reject h reason s =
     s\<lparr>ft_pending := (ft_pending s)(h := None),
       ft_finalized := (ft_finalized s)(h \<mapsto> Rejected reason)\<rparr>"

text \<open>The hashes are returned in the order of the map, which is not modelled: a set.\<close>

definition cleanup_timeouts :: "nat \<Rightarrow> finality_tracker \<Rightarrow> hash32 set \<times> finality_tracker" where
  "cleanup_timeouts now s =
     (let timed_out = {h. \<exists>p. ft_pending s h = Some p \<and> now - pt_submitted_at p > ft_timeout s}
      in (timed_out,
          s\<lparr>ft_pending := (\<lambda>h. if h \<in> timed_out then None else ft_pending s h),
            ft_finalized := (\<lambda>h. if h \<in> timed_out then Some (Rejected ''timeout'') else ft_finalized s h)\<rparr>))"

definition ft_pending_count :: "finality_tracker \<Rightarrow> nat" where
  "ft_pending_count s = card (dom (ft_pending s))"

definition ft_finalized_count :: "finality_tracker \<Rightarrow> nat" where
  "ft_finalized_count s = card (dom (ft_finalized s))"

definition ft_set_quorum :: "u32 \<Rightarrow> finality_tracker \<Rightarrow> finality_tracker" where
  "ft_set_quorum quorum s = s\<lparr>ft_default_quorum := max quorum 1\<rparr>"

definition calculate_quorum :: "nat \<Rightarrow> u32" where
  "calculate_quorum peer_count =
     (if peer_count \<le> 3 then of_nat (max peer_count 1)
      else (let f = peer_count div 3 in of_nat (f + 1)))"

section \<open>Seen sequence numbers\<close>

record seen_sequences =
  ss_seen :: "hash32 \<rightharpoonup> u64"
  ss_pending :: "hash32 \<times> u64 \<rightharpoonup> hash32"

definition ss_new :: seen_sequences where
  "ss_new = \<lparr>ss_seen = Map.empty, ss_pending = Map.empty\<rparr>"

definition ss_check :: "seen_sequences \<Rightarrow> hash32 \<Rightarrow> u64 \<Rightarrow> hash32 option" where
  "ss_check s sender sequence = ss_pending s (sender, sequence)"

definition ss_record :: "hash32 \<Rightarrow> u64 \<Rightarrow> hash32 \<Rightarrow> seen_sequences \<Rightarrow> bool \<times> seen_sequences" where
  "ss_record sender sequence h s =
     (let key = (sender, sequence) in
      if key \<in> dom (ss_pending s) then (False, s)
      else
        let s = s\<lparr>ss_pending := (ss_pending s)(key \<mapsto> h)\<rparr>;
            highest = (case ss_seen s sender of None \<Rightarrow> 0 | Some v \<Rightarrow> v)
        in (True, s\<lparr>ss_seen := (ss_seen s)(sender \<mapsto> (if sequence > highest then sequence else highest))\<rparr>))"

definition ss_confirm :: "hash32 \<Rightarrow> u64 \<Rightarrow> seen_sequences \<Rightarrow> seen_sequences" where
  "ss_confirm sender sequence s = s\<lparr>ss_pending := (ss_pending s)((sender, sequence) := None)\<rparr>"

definition ss_highest :: "seen_sequences \<Rightarrow> hash32 \<Rightarrow> u64" where
  "ss_highest s sender = (case ss_seen s sender of None \<Rightarrow> 0 | Some v \<Rightarrow> v)"

definition ss_clear_below :: "hash32 \<Rightarrow> u64 \<Rightarrow> seen_sequences \<Rightarrow> seen_sequences" where
  "ss_clear_below sender min_sequence s =
     s\<lparr>ss_pending := (\<lambda>(p, seq). if p \<noteq> sender \<or> seq \<ge> min_sequence then ss_pending s (p, seq) else None)\<rparr>"

section \<open>Runs of the tracker\<close>

datatype tracker_event =
    Register nat hash32 "string option"
  | Register_Quorum nat hash32 u32 "string option"
  | Ack nat tx_ack
  | Reject hash32 string
  | Cleanup nat
  | Set_Quorum u32

fun tracker_step :: "crypto \<Rightarrow> finality_tracker \<Rightarrow> tracker_event \<Rightarrow> finality_tracker" where
  "tracker_step C s (Register now h d) = snd (register_tx now h d s)"
| "tracker_step C s (Register_Quorum now h q d) = snd (register_tx_with_quorum now h q d s)"
| "tracker_step C s (Ack now a) = snd (record_ack C now a s)"
| "tracker_step C s (Reject h r) = ft_reject h r s"
| "tracker_step C s (Cleanup now) = snd (cleanup_timeouts now s)"
| "tracker_step C s (Set_Quorum q) = ft_set_quorum q s"

text \<open>The acknowledgements a pending entry holds are valid, for its hash, one per peer, too few.\<close>

definition acks_ok :: "crypto \<Rightarrow> hash32 \<Rightarrow> (hash32 \<rightharpoonup> tx_ack) \<Rightarrow> bool" where
  "acks_ok C h A \<longleftrightarrow> finite (dom A) \<and>
     (\<forall>k a. A k = Some a \<longrightarrow> ack_peer_pubkey a = k \<and> ack_tx_hash a = h \<and> is_ok (ack_verify C a))"

definition pending_ok :: "crypto \<Rightarrow> hash32 \<Rightarrow> pending_tx \<Rightarrow> bool" where
  "pending_ok C h p \<longleftrightarrow> acks_ok C h (pt_acks p) \<and> card (dom (pt_acks p)) < unat (pt_quorum p)"

definition tracker_inv :: "crypto \<Rightarrow> finality_tracker \<Rightarrow> bool" where
  "tracker_inv C s \<longleftrightarrow>
     (\<forall>h p. ft_pending s h = Some p \<longrightarrow> ft_finalized s h = None \<and> pending_ok C h p) \<and>
     (\<forall>h st. ft_finalized s h = Some st \<longrightarrow> is_final st \<or> is_rejected st) \<and>
     ft_default_quorum s \<noteq> 0"

lemma max_1_nonzero: "max q 1 \<noteq> 0" for q :: u32
  by (auto simp: max_def)

lemma pending_ok_new:
  "q \<noteq> 0 \<Longrightarrow> pending_ok C h \<lparr>pt_submitted_at = t, pt_acks = Map.empty, pt_quorum = q, pt_callback_data = d\<rparr>"
  by (simp add: pending_ok_def acks_ok_def unat_gt_0)

lemma acks_ok_insert:
  "acks_ok C h A \<Longrightarrow> is_ok (ack_verify C a) \<Longrightarrow> ack_tx_hash a = h \<Longrightarrow>
     acks_ok C h (A(ack_peer_pubkey a \<mapsto> a))"
  by (auto simp: acks_ok_def)

lemma card_acks_word:
  assumes "pending_ok C h p" "k \<notin> dom (pt_acks p)"
  shows "unat (of_nat (card (dom ((pt_acks p)(k \<mapsto> a)))) :: u32) = Suc (card (dom (pt_acks p)))"
proof -
  have "card (dom ((pt_acks p)(k \<mapsto> a))) = Suc (card (dom (pt_acks p)))"
    using assms by (simp add: pending_ok_def acks_ok_def)
  moreover have "Suc (card (dom (pt_acks p))) < 2 ^ 32"
    using assms(1) unat_less_32 [of "pt_quorum p"] by (simp add: pending_ok_def)
  ultimately show ?thesis by (simp add: unat_of_nat_small del: of_nat_Suc)
qed

text \<open>The outcomes of an acknowledgement.\<close>

lemma record_ack_cases:
  obtains (ignored) st where "record_ack C now a s = (st, s)"
      "st = None \<or> ft_finalized s (ack_tx_hash a) = st \<or> (\<exists>n q. st = Some (Pending n q))"
  | (counted) p where "is_ok (ack_verify C a)" "ft_finalized s (ack_tx_hash a) = None"
      "ft_pending s (ack_tx_hash a) = Some p" "ack_peer_pubkey a \<notin> dom (pt_acks p)"
      "of_nat (card (dom ((pt_acks p)(ack_peer_pubkey a \<mapsto> a)))) < pt_quorum p"
      "record_ack C now a s =
        (Some (Pending (of_nat (card (dom ((pt_acks p)(ack_peer_pubkey a \<mapsto> a))))) (pt_quorum p)),
         s\<lparr>ft_pending := (ft_pending s)(ack_tx_hash a \<mapsto> p\<lparr>pt_acks := (pt_acks p)(ack_peer_pubkey a \<mapsto> a)\<rparr>)\<rparr>)"
  | (confirmed) p ms s' where "is_ok (ack_verify C a)" "ft_finalized s (ack_tx_hash a) = None"
      "ft_pending s (ack_tx_hash a) = Some p" "ack_peer_pubkey a \<notin> dom (pt_acks p)"
      "pt_quorum p \<le> of_nat (card (dom ((pt_acks p)(ack_peer_pubkey a \<mapsto> a))))"
      "record_ack C now a s =
        (Some (Confirmed (of_nat (card (dom ((pt_acks p)(ack_peer_pubkey a \<mapsto> a))))) ms), s')"
      "ft_pending s' = (ft_pending s)(ack_tx_hash a := None)"
      "ft_finalized s' = (ft_finalized s)(ack_tx_hash a \<mapsto>
         Confirmed (of_nat (card (dom ((pt_acks p)(ack_peer_pubkey a \<mapsto> a))))) ms)"
      "ft_default_quorum s' = ft_default_quorum s"
proof -
  show ?thesis
  proof (cases "is_ok (ack_verify C a)")
    case False
    then show ?thesis by (intro ignored [of None]) (simp_all add: record_ack_def)
  next
    case ok: True
    show ?thesis
    proof (cases "ft_finalized s (ack_tx_hash a)")
      case (Some st)
      then show ?thesis using ok by (intro ignored [of "Some st"]) (simp_all add: record_ack_def)
    next
      case fin: None
      show ?thesis
      proof (cases "ft_pending s (ack_tx_hash a)")
        case None
        then show ?thesis using ok fin by (intro ignored [of None]) (simp_all add: record_ack_def)
      next
        case (Some p)
        let ?n = "of_nat (card (dom ((pt_acks p)(ack_peer_pubkey a \<mapsto> a)))) :: u32"
        show ?thesis
        proof (cases "ack_peer_pubkey a \<in> dom (pt_acks p)")
          case True
          then show ?thesis using ok fin Some by (intro ignored [of "Some (Pending (of_nat (card (dom (pt_acks p)))) (pt_quorum p))"])
              (simp_all add: record_ack_def)
        next
          case False
          show ?thesis
          proof (cases "pt_quorum p \<le> ?n")
            case True
            show ?thesis
              using ok fin Some False True
              by (intro confirmed [of p "of_nat (now - pt_submitted_at p)" "snd (record_ack C now a s)"])
                (simp_all add: record_ack_def Let_def)
          next
            case lt: False
            show ?thesis
              using ok fin Some False lt
              by (intro counted [of p]) (simp_all add: record_ack_def Let_def not_le)
          qed
        qed
      qed
    qed
  qed
qed

lemma record_ack_inv: "tracker_inv C s \<Longrightarrow> tracker_inv C (snd (record_ack C now a s))"
proof -
  assume inv: "tracker_inv C s"
  show ?thesis
  proof (cases rule: record_ack_cases [of C now a s])
    case (ignored st)
    then show ?thesis using inv by simp
  next
    case (counted p)
    have p: "pending_ok C (ack_tx_hash a) p" using inv counted(3) by (simp add: tracker_inv_def)
    have n: "Suc (card (dom (pt_acks p))) < unat (pt_quorum p)"
      using counted(5) unfolding word_less_nat_alt card_acks_word [OF p counted(4)] .
    have f: "finite (dom (pt_acks p))" using p by (simp add: pending_ok_def acks_ok_def)
    have "card (dom ((pt_acks p)(ack_peer_pubkey a \<mapsto> a))) = Suc (card (dom (pt_acks p)))"
      using f counted(4) by simp
    moreover have "acks_ok C (ack_tx_hash a) ((pt_acks p)(ack_peer_pubkey a \<mapsto> a))"
      by (rule acks_ok_insert) (use p counted(1) in \<open>simp_all add: pending_ok_def\<close>)
    ultimately have "pending_ok C (ack_tx_hash a) (p\<lparr>pt_acks := (pt_acks p)(ack_peer_pubkey a \<mapsto> a)\<rparr>)"
      using n by (simp add: pending_ok_def)
    then show ?thesis using inv counted(2,6) by (simp add: tracker_inv_def)
  next
    case (confirmed p ms s')
    then show ?thesis using inv by (simp add: tracker_inv_def)
  qed
qed

lemma tracker_step_inv: "tracker_inv C s \<Longrightarrow> tracker_inv C (tracker_step C s e)"
proof (cases e)
  case (Register now h d)
  assume "tracker_inv C s"
  then show ?thesis using Register pending_ok_new [of "ft_default_quorum s" C h now d]
    by (auto simp: tracker_inv_def register_tx_def)
next
  case (Register_Quorum now h q d)
  assume "tracker_inv C s"
  then show ?thesis using Register_Quorum pending_ok_new [OF max_1_nonzero, of C h now q d]
    by (auto simp: tracker_inv_def register_tx_with_quorum_def)
next
  case (Ack now a)
  assume "tracker_inv C s"
  then show ?thesis using Ack record_ack_inv by simp
next
  case (Reject h r)
  assume "tracker_inv C s"
  then show ?thesis using Reject by (simp add: tracker_inv_def ft_reject_def)
next
  case (Cleanup now)
  assume "tracker_inv C s"
  then show ?thesis using Cleanup by (auto simp: tracker_inv_def cleanup_timeouts_def)
next
  case (Set_Quorum q)
  assume "tracker_inv C s"
  then show ?thesis using Set_Quorum by (simp add: tracker_inv_def ft_set_quorum_def max_1_nonzero)
qed

interpretation tracker: invariant_machine "tracker_step C" "tracker_inv C" for C
  by unfold_locales (rule tracker_step_inv)

lemma tracker_inv_new: "tracker_inv C (ft_new q)"
  by (simp add: tracker_inv_def ft_new_def max_1_nonzero)

lemma tracker_reachable: "tracker_inv C (foldl (tracker_step C) (ft_new q) es)"
  by (rule tracker.run_inv [OF tracker_inv_new])

text \<open>A settled status is only changed by a rejection of its hash.\<close>

fun rejects :: "hash32 \<Rightarrow> tracker_event \<Rightarrow> bool" where
  "rejects h (Reject k _) = (k = h)"
| "rejects h _ = False"

lemma settled_step:
  assumes "tracker_inv C s" "ft_finalized s h = Some st" "\<not> rejects h e"
  shows "ft_finalized (tracker_step C s e) h = Some st"
proof (cases e)
  case (Ack now a)
  show ?thesis
    using assms Ack by (cases rule: record_ack_cases [of C now a s]) auto
next
  case (Cleanup now)
  then show ?thesis using assms by (auto simp: cleanup_timeouts_def tracker_inv_def)
qed (use assms in \<open>auto simp: register_tx_def register_tx_with_quorum_def ft_reject_def ft_set_quorum_def\<close>)

lemma settled_run:
  assumes "tracker_inv C s" "ft_finalized s h = Some st" "list_all (\<lambda>e. \<not> rejects h e) es"
  shows "ft_finalized (foldl (tracker_step C) s es) h = Some st"
  using assms
  by (induction es arbitrary: s) (auto intro: settled_step tracker_step_inv)

section \<open>Acknowledgements of distinct peers\<close>

lemma record_acks_run:
  assumes "tracker_inv C s" "ft_pending s h = Some p"
    "list_all (\<lambda>a. ack_tx_hash a = h \<and> is_ok (ack_verify C a)) as"
    "distinct (map ack_peer_pubkey as)" "set (map ack_peer_pubkey as) \<inter> dom (pt_acks p) = {}"
    "card (dom (pt_acks p)) + length as < unat (pt_quorum p)"
  shows "\<exists>p'. ft_pending (foldl (tracker_step C) s (map (Ack now) as)) h = Some p'
    \<and> pt_quorum p' = pt_quorum p
    \<and> dom (pt_acks p') = dom (pt_acks p) \<union> set (map ack_peer_pubkey as)"
  using assms
proof (induction as arbitrary: s p)
  case Nil
  then show ?case by simp
next
  case (Cons a as)
  have ok: "is_ok (ack_verify C a)" "ack_tx_hash a = h" "ack_peer_pubkey a \<notin> dom (pt_acks p)"
    using Cons.prems by auto
  have p: "pending_ok C h p" "ft_finalized s h = None"
    using Cons.prems(1,2) by (auto simp: tracker_inv_def)
  let ?p = "p\<lparr>pt_acks := (pt_acks p)(ack_peer_pubkey a \<mapsto> a)\<rparr>"
  have lt: "of_nat (card (dom ((pt_acks p)(ack_peer_pubkey a \<mapsto> a)))) < pt_quorum p"
    unfolding word_less_nat_alt card_acks_word [OF p(1) ok(3)] using Cons.prems(6) by simp
  then have s1: "tracker_step C s (Ack now a) = s\<lparr>ft_pending := (ft_pending s)(h \<mapsto> ?p)\<rparr>"
    using ok p Cons.prems(2) by (auto simp: record_ack_def Let_def)
  have fin: "finite (dom (pt_acks p))" using p(1) by (simp add: pending_ok_def acks_ok_def)
  have dq: "dom (pt_acks ?p) = insert (ack_peer_pubkey a) (dom (pt_acks p))" by simp
  have "\<exists>p'. ft_pending (foldl (tracker_step C) (tracker_step C s (Ack now a)) (map (Ack now) as)) h = Some p'
      \<and> pt_quorum p' = pt_quorum ?p
      \<and> dom (pt_acks p') = dom (pt_acks ?p) \<union> set (map ack_peer_pubkey as)"
  proof (rule Cons.IH)
    show "tracker_inv C (tracker_step C s (Ack now a))" by (rule tracker_step_inv) (rule Cons.prems(1))
    show "ft_pending (tracker_step C s (Ack now a)) h = Some ?p" using s1 by simp
    show "set (map ack_peer_pubkey as) \<inter> dom (pt_acks ?p) = {}" unfolding dq using Cons.prems(4,5) by auto
    show "card (dom (pt_acks ?p)) + length as < unat (pt_quorum ?p)"
      unfolding dq using fin ok(3) Cons.prems(6) by simp
  qed (use Cons.prems in auto)
  then show ?case unfolding dq by (simp add: Un_insert_left)
qed

lemma record_ack_confirms:
  assumes "tracker_inv C s" "ft_pending s h = Some p" "ack_tx_hash a = h" "is_ok (ack_verify C a)"
    "ack_peer_pubkey a \<notin> dom (pt_acks p)" "Suc (card (dom (pt_acks p))) = unat (pt_quorum p)"
  shows "\<exists>ms. ft_finalized (tracker_step C s (Ack now a)) h = Some (Confirmed (pt_quorum p) ms)"
proof -
  have p: "pending_ok C h p" "ft_finalized s h = None"
    using assms(1,2) by (auto simp: tracker_inv_def)
  have "unat (of_nat (card (dom ((pt_acks p)(ack_peer_pubkey a \<mapsto> a)))) :: u32) = unat (pt_quorum p)"
    unfolding card_acks_word [OF p(1) assms(5)] by (rule assms(6))
  then have "of_nat (card (dom ((pt_acks p)(ack_peer_pubkey a \<mapsto> a)))) = pt_quorum p"
    by (rule unsigned_word_eqI)
  then show ?thesis
    using assms p by (auto simp: record_ack_def Let_def)
qed

section \<open>Runs of the cache of sequence numbers\<close>

datatype seen_event =
    Seen_Record hash32 u64 hash32
  | Seen_Confirm hash32 u64
  | Seen_Clear hash32 u64

fun seen_step :: "seen_sequences \<Rightarrow> seen_event \<Rightarrow> seen_sequences" where
  "seen_step s (Seen_Record p q h) = snd (ss_record p q h s)"
| "seen_step s (Seen_Confirm p q) = ss_confirm p q s"
| "seen_step s (Seen_Clear p m) = ss_clear_below p m s"

text \<open>The events that make the cache forget a pair.\<close>

fun forgets :: "hash32 \<Rightarrow> u64 \<Rightarrow> seen_event \<Rightarrow> bool" where
  "forgets p q (Seen_Record _ _ _) = False"
| "forgets p q (Seen_Confirm p' q') = (p' = p \<and> q' = q)"
| "forgets p q (Seen_Clear p' m) = (p' = p \<and> q < m)"

lemma seen_step_keeps:
  "ss_pending s (p, q) = Some h \<Longrightarrow> \<not> forgets p q e \<Longrightarrow> ss_pending (seen_step s e) (p, q) = Some h"
  by (cases e) (auto simp: ss_record_def ss_confirm_def ss_clear_below_def Let_def)

lemma seen_step_highest: "ss_highest s p \<le> ss_highest (seen_step s e) p"
  by (cases e) (auto simp: ss_record_def ss_confirm_def ss_clear_below_def ss_highest_def Let_def
      split: option.splits)

lemma seen_run:
  assumes "ss_pending s (p, q) = Some h" "list_all (\<lambda>e. \<not> forgets p q e) es"
  shows "ss_pending (foldl seen_step s es) (p, q) = Some h \<and> ss_highest s p \<le> ss_highest (foldl seen_step s es) p"
  using assms
proof (induction es arbitrary: s)
  case (Cons e es)
  have "ss_pending (seen_step s e) (p, q) = Some h"
    by (rule seen_step_keeps) (use Cons.prems in auto)
  then have "ss_pending (foldl seen_step (seen_step s e) es) (p, q) = Some h
      \<and> ss_highest (seen_step s e) p \<le> ss_highest (foldl seen_step (seen_step s e) es) p"
    using Cons.IH Cons.prems(2) by simp
  then show ?case using seen_step_highest [of s p e] by (auto intro: order_trans)
qed simp

section \<open>Properties\<close>

text \<open>
  C28: finality is sound: whatever registrations, acknowledgements, rejections, timeouts and
  quorum changes came before, when an acknowledgement turns a transaction that was not yet
  settled into a confirmed one, there are as many distinct peers as the status reports, at
  least the quorum of the entry and at least one, and each of them has signed an
  acknowledgement of exactly this transaction that verifies.
\<close>
theorem finality_sound:
  assumes "s = foldl (tracker_step C) (ft_new q) es" "ft_finalized s (ack_tx_hash a) = None"
    "record_ack C now a s = (Some (Confirmed n ms), s')"
  shows "\<exists>p A. ft_pending s (ack_tx_hash a) = Some p \<and> acks_ok C (ack_tx_hash a) A
    \<and> card (dom A) = unat n \<and> pt_quorum p \<le> n \<and> 0 < n
    \<and> ft_get_status s' (ack_tx_hash a) = Some (Confirmed n ms)"
proof -
  have inv: "tracker_inv C s" unfolding assms(1) by (rule tracker_reachable)
  show ?thesis
  proof (cases rule: record_ack_cases [of C now a s])
    case (ignored st)
    then have "st = Some (Confirmed n ms)" using assms(3) by simp
    then show ?thesis using ignored(2) assms(2) by auto
  next
    case (counted p)
    then show ?thesis using assms(3) by simp
  next
    case (confirmed p ms2 s2)
    have p: "pending_ok C (ack_tx_hash a) p" using inv confirmed(3) by (simp add: tracker_inv_def)
    let ?A = "(pt_acks p)(ack_peer_pubkey a \<mapsto> a)"
    have n: "n = of_nat (card (dom ?A))" using confirmed(6) assms(3) by simp
    have c: "unat n = Suc (card (dom (pt_acks p)))"
      unfolding n by (rule card_acks_word [OF p confirmed(4)])
    have f: "finite (dom (pt_acks p))" using p by (simp add: pending_ok_def acks_ok_def)
    have "card (dom ?A) = Suc (card (dom (pt_acks p)))" using f confirmed(4) by simp
    moreover have "acks_ok C (ack_tx_hash a) ?A"
      by (rule acks_ok_insert) (use p confirmed(1) in \<open>simp_all add: pending_ok_def\<close>)
    moreover have "0 < n" using c by (simp add: word_less_nat_alt)
    moreover have "ft_get_status s' (ack_tx_hash a) = Some (Confirmed n ms)"
      using confirmed(6,8) assms(3) n by (simp add: ft_get_status_def)
    ultimately show ?thesis using confirmed(3,5) c n
      by (intro exI [of _ p] exI [of _ ?A] conjI) auto
  qed
qed

definition toy_ack :: "hash32 \<Rightarrow> hash32 \<Rightarrow> tx_ack" where
  "toy_ack h k = ack_new toy_crypto 5 h \<lparr>wl_signing_key = k\<rparr>"

lemma toy_ack_facts [simp]:
  "ack_tx_hash (toy_ack h k) = h" "ack_peer_pubkey (toy_ack h k) = k"
  "is_ok (ack_verify toy_crypto (toy_ack h k))"
  by (simp_all add: toy_ack_def ack_new_def ack_verify_def Let_def public_key_def wallet_sign_def
      verify_signature_def toy_crypto_def)

theorem finality_sound_witness:
  "\<exists>A ms s'. record_ack toy_crypto 40 (toy_ack 9 2)
        (foldl (tracker_step toy_crypto) (ft_new 2) [Register 10 9 None, Ack 20 (toy_ack 9 1)])
      = (Some (Confirmed 2 ms), s') \<and> acks_ok toy_crypto 9 A \<and> card (dom A) = 2"
proof -
  let ?s = "foldl (tracker_step toy_crypto) (ft_new 2) [Register 10 9 None, Ack 20 (toy_ack 9 1)]"
  obtain s' ms where run: "record_ack toy_crypto 40 (toy_ack 9 2) ?s = (Some (Confirmed 2 ms), s')"
    and none: "ft_finalized ?s (ack_tx_hash (toy_ack 9 2)) = None"
    by (simp add: record_ack_def register_tx_def ft_new_def Let_def word_le_nat_alt max_def)
  show ?thesis using finality_sound [OF refl none run] run by auto
qed

text \<open>
  finality is reached: once a transaction is registered with a quorum, valid
  acknowledgements of as many distinct peers confirm it, in any order, with the count equal to
  the quorum.
\<close>
theorem finality_reached:
  assumes "tracker_inv C s" "ft_pending s h = None" "ft_finalized s h = None"
    "list_all (\<lambda>a. ack_tx_hash a = h \<and> is_ok (ack_verify C a)) as" "distinct (map ack_peer_pubkey as)"
    "length as = unat (max q 1)"
  shows "\<exists>ms. ft_get_status (foldl (tracker_step C) (tracker_step C s (Register_Quorum t h q d)) (map (Ack now) as)) h
    = Some (Confirmed (max q 1) ms)"
proof -
  let ?p = "\<lparr>pt_submitted_at = t, pt_acks = Map.empty, pt_quorum = max q 1, pt_callback_data = d\<rparr>"
  let ?s0 = "tracker_step C s (Register_Quorum t h q d)"
  have inv0: "tracker_inv C ?s0" by (rule tracker_step_inv) (rule assms(1))
  have p0: "ft_pending ?s0 h = Some ?p"
    using assms(2,3) by (auto simp: register_tx_with_quorum_def)
  have "as \<noteq> []" using assms(6) max_1_nonzero [of q] by (auto simp: unat_eq_0)
  then obtain bs b where as: "as = bs @ [b]" by (metis rev_exhaust)
  have lt: "card (dom (pt_acks ?p)) + length bs < unat (pt_quorum ?p)"
    using assms(6) as by simp
  obtain p' where p': "ft_pending (foldl (tracker_step C) ?s0 (map (Ack now) bs)) h = Some p'"
      "pt_quorum p' = max q 1" "dom (pt_acks p') = set (map ack_peer_pubkey bs)"
    using record_acks_run [OF inv0 p0, of bs now] assms(4,5) as lt by auto
  have "card (set (map ack_peer_pubkey bs)) = length (map ack_peer_pubkey bs)"
    using assms(5) as by (intro distinct_card) auto
  then have "card (dom (pt_acks p')) = length bs" unfolding p'(3) by (simp only: length_map)
  moreover have "ack_peer_pubkey b \<notin> dom (pt_acks p')" unfolding p'(3) using assms(5) as by auto
  ultimately obtain ms where "ft_finalized (tracker_step C (foldl (tracker_step C) ?s0 (map (Ack now) bs)) (Ack now b)) h
      = Some (Confirmed (pt_quorum p') ms)"
    using record_ack_confirms [OF tracker.run_inv [OF inv0] p'(1), of b now] assms(4,6) as p'(2) by auto
  then show ?thesis using as p'(2) by (auto simp: ft_get_status_def)
qed

theorem finality_reached_witness:
  "\<exists>ms. ft_get_status (foldl (tracker_step toy_crypto)
      (tracker_step toy_crypto (ft_new 1) (Register_Quorum 0 9 2 None))
      (map (Ack 50) [toy_ack 9 4, toy_ack 9 3])) 9 = Some (Confirmed 2 ms)"
proof -
  have "\<exists>ms. ft_get_status (foldl (tracker_step toy_crypto)
      (tracker_step toy_crypto (ft_new 1) (Register_Quorum 0 9 2 None))
      (map (Ack 50) [toy_ack 9 4, toy_ack 9 3])) 9 = Some (Confirmed (max 2 1) ms)"
    by (rule finality_reached [OF tracker_inv_new]) (simp_all add: ft_new_def max_def word_le_nat_alt)
  then show ?thesis by (simp add: max_def word_le_nat_alt)
qed

text \<open>
  a settled status is permanent against every event but one: registrations, further
  acknowledgements, timeouts and quorum changes leave a confirmed or rejected transaction as it
  is, while a rejection overwrites any status, a confirmed one too.
\<close>
theorem settled_until_rejected:
  assumes "tracker_inv C s" "ft_get_status s h = Some st" "is_final st \<or> is_rejected st"
    "list_all (\<lambda>e. \<not> rejects h e) es"
  shows "ft_get_status (foldl (tracker_step C) s es) h = Some st
    \<and> ft_get_status (foldl (tracker_step C) s (es @ [Reject h r])) h = Some (Rejected r)"
proof -
  have "ft_finalized s h = Some st"
    using assms(2,3) by (auto simp: ft_get_status_def split: option.splits)
  then have "ft_finalized (foldl (tracker_step C) s es) h = Some st"
    by (rule settled_run [OF assms(1) _ assms(4)])
  then show ?thesis by (simp add: ft_get_status_def ft_reject_def)
qed

theorem settled_until_rejected_witness:
  "\<exists>s ms. ft_get_status s 9 = Some (Confirmed 1 ms)
     \<and> ft_get_status (foldl (tracker_step toy_crypto) s ([Cleanup 100000] @ [Reject 9 ''double-spend''])) 9
       = Some (Rejected ''double-spend'')"
proof -
  let ?s = "foldl (tracker_step toy_crypto) (ft_new 1) [Register 0 9 None, Ack 20 (toy_ack 9 1)]"
  obtain ms where st: "ft_get_status ?s 9 = Some (Confirmed 1 ms)"
    by (simp add: record_ack_def register_tx_def ft_new_def Let_def ft_get_status_def)
  have "ft_get_status (foldl (tracker_step toy_crypto) ?s ([Cleanup 100000] @ [Reject 9 ''double-spend''])) 9
      = Some (Rejected ''double-spend'')"
    using settled_until_rejected [OF tracker_reachable st, of "[Cleanup 100000]" "''double-spend''"] by simp
  then show ?thesis using st by blast
qed

text \<open>
  the quorum for a number of peers: up to three peers all of them (one for none), above that
  one more than a third, rounded down; it always exceeds a third of the peers and never exceeds
  them. It is not monotone: four and five peers need two acknowledgements, three need three.
\<close>
theorem calculate_quorum_bounds:
  assumes "n < 2 ^ 32"
  shows "unat (calculate_quorum n) = (if n \<le> 3 then max n 1 else n div 3 + 1)
    \<and> n < 3 * unat (calculate_quorum n) \<and> unat (calculate_quorum n) \<le> max n 1
    \<and> calculate_quorum 3 = 3 \<and> calculate_quorum 4 = 2 \<and> calculate_quorum 5 = 2"
proof -
  have "unat (calculate_quorum n) = (if n \<le> 3 then max n 1 else n div 3 + 1)"
  proof (cases "n \<le> 3")
    case True
    then have "max n 1 < 2 ^ 32" by simp
    then show ?thesis using True
      unfolding calculate_quorum_def by (simp add: unat_of_nat_small del: of_nat_max)
  next
    case False
    have "n div 3 + 1 < 2 ^ 32" using assms False by linarith
    then show ?thesis using False
      unfolding calculate_quorum_def Let_def by (simp add: unat_of_nat_small del: of_nat_Suc of_nat_add)
  qed
  then show ?thesis by (auto simp: calculate_quorum_def)
qed

theorem calculate_quorum_bounds_witness: "unat (calculate_quorum 10) = 4 \<and> 10 < 3 * unat (calculate_quorum 10)"
  using calculate_quorum_bounds [of 10] by simp

text \<open>
  the first transaction of a sender with a given sequence number wins: once it is recorded,
  every later transaction with the same pair is refused and answered with the hash of the
  first, whatever else is recorded, until that pair is confirmed or cleared; the highest
  sequence number seen of the sender never falls.
\<close>
theorem first_seen_wins:
  assumes "ss_record p q h s = (True, s1)" "list_all (\<lambda>e. \<not> forgets p q e) es"
  shows "ss_check (foldl seen_step s1 es) p q = Some h
    \<and> ss_record p q h' (foldl seen_step s1 es) = (False, foldl seen_step s1 es)
    \<and> q \<le> ss_highest (foldl seen_step s1 es) p"
proof -
  have s1: "ss_pending s1 (p, q) = Some h" "q \<le> ss_highest s1 p"
    using assms(1) by (auto simp: ss_record_def ss_highest_def Let_def split: if_splits)
  show ?thesis
    using seen_run [OF s1(1) assms(2)] s1(2) by (auto simp: ss_check_def ss_record_def Let_def)
qed

theorem first_seen_wins_witness:
  "ss_check (foldl seen_step (snd (ss_record 1 5 77 ss_new)) [Seen_Record 1 5 88, Seen_Clear 1 5, Seen_Confirm 1 4]) 1 5
     = Some 77"
  using first_seen_wins [of 1 5 77 ss_new "snd (ss_record 1 5 77 ss_new)"
      "[Seen_Record 1 5 88, Seen_Clear 1 5, Seen_Confirm 1 4]" 88]
  by (simp add: ss_record_def ss_new_def)

end
