(* ===== verification/Dedup.thy ===== *)
theory Dedup
  imports Ledger
begin

unbundle bit_operations_syntax

text \<open>
  The duplicate-share detector of the pool (pool/src/dedup.rs): three buckets of 128-bit keys in
  rotation. The clock is an argument of every call.
\<close>

definition BUCKET_TTL_MS :: u64 where "BUCKET_TTL_MS = 60000"

record tachyon_guard =
  tg_buckets :: "(128 word) set list"
  tg_current :: nat
  tg_last_rotate_ms :: u64

definition tg_new :: "u64 \<Rightarrow> tachyon_guard" where
  "tg_new now_ms = \<lparr>tg_buckets = [{}, {}, {}], tg_current = 0, tg_last_rotate_ms = now_ms\<rparr>"

definition fnv1a_64 :: "bytes \<Rightarrow> u64" where
  "fnv1a_64 data = foldl (\<lambda>h b. (h XOR ucast b) * 0x00000100000001B3) 0xcbf29ce484222325 data"

definition make_key :: "u64 \<Rightarrow> u64 \<Rightarrow> string \<Rightarrow> 128 word" where
  "make_key block_index nonce worker =
     (let worker_hash = fnv1a_64 (string_bytes worker);
          nonce_mixed = nonce XOR worker_hash
      in push_bit 64 (ucast block_index) OR ucast nonce_mixed)"

definition maybe_rotate :: "u64 \<Rightarrow> tachyon_guard \<Rightarrow> tachyon_guard" where
  "maybe_rotate now g =
     (if saturating_sub now (tg_last_rotate_ms g) \<ge> BUCKET_TTL_MS
      then
        let current = (tg_current g + 1) mod 3
        in g\<lparr>tg_current := current, tg_buckets := (tg_buckets g)[current := {}],
             tg_last_rotate_ms := now\<rparr>
      else g)"

definition is_duplicate :: "u64 \<Rightarrow> u64 \<Rightarrow> u64 \<Rightarrow> string \<Rightarrow> tachyon_guard \<Rightarrow> bool \<times> tachyon_guard" where
  "is_duplicate now block_index nonce worker g =
     (let g = maybe_rotate now g;
          key = make_key block_index nonce worker
      in if list_ex (\<lambda>i. key \<in> tg_buckets g ! i) [0..<3] then (True, g)
         else (False, g\<lparr>tg_buckets := (tg_buckets g)
                 [tg_current g := insert key (tg_buckets g ! tg_current g)]\<rparr>))"

section \<open>Lemmas\<close>

definition tg_inv :: "tachyon_guard \<Rightarrow> bool" where
  "tg_inv g \<longleftrightarrow> length (tg_buckets g) = 3 \<and> tg_current g < 3"

type_synonym share = "u64 \<times> u64 \<times> u64 \<times> string"

fun tg_step :: "tachyon_guard \<Rightarrow> share \<Rightarrow> tachyon_guard" where
  "tg_step g (now, b, n, w) = snd (is_duplicate now b n w g)"

lemma tg_step_inv: "tg_inv g \<Longrightarrow> tg_inv (tg_step g e)"
  by (cases e) (auto simp: tg_inv_def is_duplicate_def maybe_rotate_def Let_def)

interpretation guard: invariant_machine tg_step tg_inv
  by unfold_locales (rule tg_step_inv)

lemma tg_inv_new: "tg_inv (tg_new t)"
  by (simp add: tg_inv_def tg_new_def)

text \<open>
  A key that was inserted at time \<open>t\<close> is held by the bucket that is \<open>j\<close> rotations old, and the
  rotation that would clear it is still to come after \<open>t + 120000\<close>.
\<close>

definition held :: "128 word \<Rightarrow> nat \<Rightarrow> tachyon_guard \<Rightarrow> bool" where
  "held key t g \<longleftrightarrow> (\<exists>j < 3. key \<in> tg_buckets g ! ((tg_current g + 3 - j) mod 3)
     \<and> t + 60000 * j < unat (tg_last_rotate_ms g) + 60000)"

lemma rotate_cond:
  "BUCKET_TTL_MS \<le> saturating_sub now l \<longleftrightarrow> unat l + 60000 \<le> unat now"
  by (auto simp: word_le_nat_alt unat_saturating_sub BUCKET_TTL_MS_def)

lemma rotate_held:
  assumes "tg_inv g" "held key t g" "unat now \<le> t + 120000"
  shows "held key t (maybe_rotate now g)"
proof (cases "BUCKET_TTL_MS \<le> saturating_sub now (tg_last_rotate_ms g)")
  case False
  then show ?thesis using assms by (simp add: maybe_rotate_def)
next
  case True
  then have n: "unat (tg_last_rotate_ms g) + 60000 \<le> unat now" unfolding rotate_cond .
  obtain j where j: "j < 3" "key \<in> tg_buckets g ! ((tg_current g + 3 - j) mod 3)"
      "t + 60000 * j < unat (tg_last_rotate_ms g) + 60000"
    using assms(2) by (auto simp: held_def)
  have lt: "Suc j < 3" using j(1,3) n assms(3) by linarith
  have c: "tg_current g < 3" "length (tg_buckets g) = 3" using assms(1) by (auto simp: tg_inv_def)
  have idx: "((tg_current g + 1) mod 3 + 3 - Suc j) mod 3 = (tg_current g + 3 - j) mod 3"
    "(tg_current g + 3 - j) mod 3 \<noteq> (tg_current g + 1) mod 3"
  proof -
    have "j = 0 \<or> j = 1" "tg_current g = 0 \<or> tg_current g = 1 \<or> tg_current g = 2"
      using c(1) lt by linarith+
    then show "((tg_current g + 1) mod 3 + 3 - Suc j) mod 3 = (tg_current g + 3 - j) mod 3"
      "(tg_current g + 3 - j) mod 3 \<noteq> (tg_current g + 1) mod 3"
      by (elim disjE; simp)+
  qed
  have "key \<in> tg_buckets (maybe_rotate now g) ! ((tg_current (maybe_rotate now g) + 3 - Suc j) mod 3)"
    using True j(2) idx c by (simp add: maybe_rotate_def Let_def)
  moreover have "t + 60000 * Suc j < unat (tg_last_rotate_ms (maybe_rotate now g)) + 60000"
    using True n j(3) by (simp add: maybe_rotate_def Let_def)
  ultimately show ?thesis using lt unfolding held_def by blast
qed

lemma step_held:
  assumes "tg_inv g" "held key t g" "unat now \<le> t + 120000"
  shows "held key t (tg_step g (now, b, n, w))"
proof -
  have "held key t (maybe_rotate now g)" by (rule rotate_held [OF assms])
  moreover have "tg_inv (maybe_rotate now g)"
    using assms(1) by (auto simp: tg_inv_def maybe_rotate_def Let_def)
  ultimately show ?thesis
    by (auto simp: is_duplicate_def Let_def held_def tg_inv_def nth_list_update)
qed

lemma run_held:
  assumes "tg_inv g" "held key t g" "list_all (\<lambda>e. unat (fst e) \<le> t + 120000) es"
  shows "held key t (foldl tg_step g es)"
  using assms
proof (induction es arbitrary: g)
  case (Cons e es)
  obtain now b n w where e: "e = (now, b, n, w)" by (cases e)
  show ?case using Cons.IH [OF tg_step_inv step_held] Cons.prems e by simp
qed simp

lemma held_found:
  assumes "tg_inv g" "held (make_key b n w) t g" "unat now \<le> t + 120000"
  shows "fst (is_duplicate now b n w g)"
proof -
  have "held (make_key b n w) t (maybe_rotate now g)" by (rule rotate_held [OF assms])
  then have "\<exists>i<3. make_key b n w \<in> tg_buckets (maybe_rotate now g) ! i"
    by (auto simp: held_def) (metis mod_less_divisor zero_less_numeral)
  then show ?thesis by (auto simp: is_duplicate_def Let_def list_ex_iff)
qed

lemma insert_held:
  assumes "tg_inv g" "is_duplicate now b n w g = (False, g1)"
  shows "held (make_key b n w) (unat now) g1"
proof -
  let ?r = "maybe_rotate now g"
  have inv: "tg_inv ?r" using assms(1) by (auto simp: tg_inv_def maybe_rotate_def Let_def)
  have last: "unat now < unat (tg_last_rotate_ms ?r) + 60000"
    using rotate_cond [of now "tg_last_rotate_ms g"] by (auto simp: maybe_rotate_def Let_def)
  have g1: "g1 = ?r\<lparr>tg_buckets := (tg_buckets ?r)
      [tg_current ?r := insert (make_key b n w) (tg_buckets ?r ! tg_current ?r)]\<rparr>"
    using assms(2) by (auto simp: is_duplicate_def Let_def split: if_splits)
  have "make_key b n w \<in> tg_buckets g1 ! ((tg_current g1 + 3 - 0) mod 3)"
    using inv unfolding g1 by (simp add: tg_inv_def)
  then show ?thesis using last unfolding held_def g1 by (intro exI [of _ 0]) simp
qed

lemma list_ex_three: "list_ex P [0..<3] \<longleftrightarrow> P 0 \<or> P 1 \<or> P (2 :: nat)"
  by (simp add: upt_rec numeral_2_eq_2)

lemma xor_right_cancel: "a XOR c = b XOR c \<longleftrightarrow> a = b" for a b c :: u64
proof
  assume "a XOR c = b XOR c"
  then have "(a XOR c) XOR c = (b XOR c) XOR c" by simp
  then show "a = b" by (simp only: xor.assoc xor_self_eq xor.right_neutral)
qed simp

lemma make_key_eq:
  "make_key b n w = make_key b' n' w' \<longleftrightarrow>
     b = b' \<and> n XOR fnv1a_64 (string_bytes w) = n' XOR fnv1a_64 (string_bytes w')"
proof -
  have split: "push_bit 64 (ucast x) OR ucast y = (push_bit 64 (ucast x') OR ucast y' :: 128 word)
      \<longleftrightarrow> x = x' \<and> y = y'" for x y x' y' :: u64
  proof
    assume e: "push_bit 64 (ucast x) OR ucast y = (push_bit 64 (ucast x') OR ucast y' :: 128 word)"
    have hi: "bit x i = bit x' i" if "i < 64" for i
    proof -
      have "bit (push_bit 64 (ucast x) OR ucast y :: 128 word) (64 + i)
          = bit (push_bit 64 (ucast x') OR ucast y' :: 128 word) (64 + i)" by (simp only: e)
      then show ?thesis using that bit_imp_le_length [of y "64 + i"] bit_imp_le_length [of y' "64 + i"]
        by (auto simp: bit_simps)
    qed
    have lo: "bit y i = bit y' i" if "i < 64" for i
    proof -
      have "bit (push_bit 64 (ucast x) OR ucast y :: 128 word) i
          = bit (push_bit 64 (ucast x') OR ucast y' :: 128 word) i" by (simp only: e)
      then show ?thesis using that by (auto simp: bit_simps)
    qed
    show "x = x' \<and> y = y'" using hi lo by (auto intro!: bit_word_eqI)
  qed simp
  show ?thesis unfolding make_key_def Let_def by (rule split)
qed

section \<open>Where the keys come from\<close>

definition keys_from :: "share list \<Rightarrow> tachyon_guard \<Rightarrow> bool" where
  "keys_from es g \<longleftrightarrow> tg_inv g \<and> (\<forall>i < 3. tg_buckets g ! i \<subseteq> (\<lambda>(_, b, n, w). make_key b n w) ` set es)"

lemma keys_from_rotate: "keys_from es g \<Longrightarrow> keys_from es (maybe_rotate now g)"
  by (auto simp: keys_from_def maybe_rotate_def Let_def tg_inv_def nth_list_update)

lemma keys_from_step: "keys_from es g \<Longrightarrow> keys_from (es @ [e]) (tg_step g e)"
proof -
  assume k: "keys_from es g"
  obtain now b n w where e: "e = (now, b, n, w)" by (cases e)
  have "keys_from es (maybe_rotate now g)" by (rule keys_from_rotate [OF k])
  then show ?thesis
    by (auto simp: e keys_from_def is_duplicate_def Let_def tg_inv_def nth_list_update subset_iff)
qed

lemma keys_from_run: "keys_from es g \<Longrightarrow> keys_from (es @ fs) (foldl tg_step g fs)"
proof (induction fs arbitrary: es g)
  case (Cons f fs)
  then show ?case using Cons.IH [OF keys_from_step] by simp
qed simp

section \<open>Properties\<close>

text \<open>
  duplicate shares are caught: once a share is accepted, the same block index, nonce and
  worker are refused at every call up to 120 seconds later, whatever other shares come between
  and however the rotations fall.
\<close>
theorem duplicate_caught:
  assumes "tg_inv g" "is_duplicate now b n w g = (False, g1)"
    "list_all (\<lambda>e. unat (fst e) \<le> unat now + 120000) es" "unat later \<le> unat now + 120000"
  shows "fst (is_duplicate later b n w (foldl tg_step g1 es))"
proof -
  have "tg_inv g1" using tg_step_inv [OF assms(1), of "(now, b, n, w)"] assms(2) by simp
  then show ?thesis
    using held_found [OF guard.run_inv run_held] insert_held [OF assms(1,2)] assms(3,4) by blast
qed

theorem duplicate_caught_witness:
  "fst (is_duplicate 120500 7 9 ''rig'' (foldl tg_step (snd (is_duplicate 500 7 9 ''rig'' (tg_new 0)))
     [(60500, 7, 1, ''a''), (120500, 7, 2, ''a'')]))"
proof (rule duplicate_caught [OF tg_inv_new [of 0], of 500])
  show "is_duplicate 500 7 9 ''rig'' (tg_new 0) = (False, snd (is_duplicate 500 7 9 ''rig'' (tg_new 0)))"
    by (simp add: is_duplicate_def maybe_rotate_def tg_new_def Let_def rotate_cond list_ex_three)
qed simp_all

text \<open>
  the window is not the 180 seconds that the module promises: a share accepted just before a
  rotation is accepted again 120001 milliseconds later, so the bound of the previous property
  is the best possible.
\<close>
theorem duplicate_window_is_120s:
  "fst (is_duplicate 59999 7 9 w (tg_new 0)) = False
   \<and> fst (is_duplicate 180000 7 9 w (foldl tg_step (snd (is_duplicate 59999 7 9 w (tg_new 0)))
        [(60000, 7, 10, w), (120000, 7, 11, w)])) = False"
proof -
  have k: "make_key 7 9 w \<noteq> make_key 7 10 w" "make_key 7 9 w \<noteq> make_key 7 11 w"
      "make_key 7 10 w \<noteq> make_key 7 11 w"
    by (simp_all add: make_key_eq xor_right_cancel)
  then show ?thesis
    by (simp add: is_duplicate_def maybe_rotate_def tg_new_def Let_def rotate_cond list_ex_three)
qed

text \<open>
  nothing else is refused: a share is called a duplicate only if an earlier share of the same
  block has the same nonce mixed with the hash of its worker name; for one worker that is the
  same nonce.
\<close>
theorem duplicate_is_repeat:
  assumes "fst (is_duplicate now b n w (foldl tg_step (tg_new t0) es))"
  shows "\<exists>t n' w'. (t, b, n', w') \<in> set es
    \<and> n' XOR fnv1a_64 (string_bytes w') = n XOR fnv1a_64 (string_bytes w) \<and> (w' = w \<longrightarrow> n' = n)"
proof -
  have "keys_from [] (tg_new t0)"
    using tg_inv_new [of t0] by (auto simp: keys_from_def tg_new_def numeral_eq_Suc less_Suc_eq)
  then have "keys_from es (foldl tg_step (tg_new t0) es)" using keys_from_run [of "[]" _ es] by simp
  then have "keys_from es (maybe_rotate now (foldl tg_step (tg_new t0) es))" by (rule keys_from_rotate)
  then obtain t b' n' w' where e: "(t, b', n', w') \<in> set es" "make_key b n w = make_key b' n' w'"
    using assms by (fastforce simp: is_duplicate_def Let_def list_ex_iff keys_from_def split: if_splits)
  then show ?thesis
    unfolding make_key_eq by (intro exI [of _ t] exI [of _ n'] exI [of _ w'])
      (auto simp: xor_right_cancel)
qed

theorem duplicate_is_repeat_witness:
  "\<exists>t n' w'. (t, 7 :: u64, n', w') \<in> set [(5 :: u64, 7, 9 :: u64, ''rig'')]
    \<and> n' XOR fnv1a_64 (string_bytes w') = 9 XOR fnv1a_64 (string_bytes ''rig'') \<and> (w' = ''rig'' \<longrightarrow> n' = 9)"
  by (rule duplicate_is_repeat [where now = 6 and ?t0.0 = 0])
    (simp add: is_duplicate_def maybe_rotate_def tg_new_def Let_def rotate_cond list_ex_three)

end
