(* ===== verification/Protocol.thy ===== *)
theory Protocol
  imports Finality Chain
begin

text \<open>
  The wire protocol (node/src/protocol.rs): the messages and their framing as a four-byte
  big-endian length and a JSON payload. The JSON codec (serde_json) is a parameter; a stream is
  the list of bytes not read yet. \<open>codec_ok\<close> is what the code relies on: parsing inverts
  printing.
\<close>

definition MAX_MESSAGE_SIZE :: u32 where "MAX_MESSAGE_SIZE = 1048576"

datatype ip_addr = IPv4 u32 | IPv6 "128 word"

record socket_addr =
  sa_ip :: ip_addr
  sa_port :: u16

datatype message =
    Hello (hello_version: u8) (hello_listen_port: u16) (hello_user_agent: string)
  | GetPeers
  | Peers "socket_addr list"
  | MsgTx transaction
  | GetTxHashes
  | TxHashes "string list"
  | GetTxs "string list"
  | Ping u64
  | Pong u64
  | GetChainHeight
  | ChainHeight u64
  | GetBlocks (gb_from: u64) (gb_to: u64)
  | Blocks "block list"
  | NewBlock block
  | MsgTxAck tx_ack
  | GetTxStatus string
  | TxStatus (ts_tx_hash: string) (ts_acks: u32) (ts_is_final: bool)

record json_codec =
  json_to_vec :: "message \<Rightarrow> bytes option"
  json_from_slice :: "bytes \<Rightarrow> message option"

definition codec_ok :: "json_codec \<Rightarrow> bool" where
  "codec_ok J \<longleftrightarrow> (\<forall>m bs. json_to_vec J m = Some bs \<longrightarrow> json_from_slice J bs = Some m)"

datatype io_error = InvalidData | MessageTooLarge nat | UnexpectedEof

text \<open>Sending appends to the stream; a message that is too large or cannot be printed writes nothing.\<close>

definition send_message :: "json_codec \<Rightarrow> message \<Rightarrow> bytes \<Rightarrow> (io_error + unit) \<times> bytes" where
  "send_message J msg stream = (case json_to_vec J msg of
     None \<Rightarrow> (Inl InvalidData, stream)
   | Some payload \<Rightarrow>
       if length payload > unat MAX_MESSAGE_SIZE then (Inl (MessageTooLarge (length payload)), stream)
       else (Inr (), stream @ be32 (of_nat (length payload)) @ payload))"

definition read_exact :: "nat \<Rightarrow> bytes \<Rightarrow> (io_error + bytes) \<times> bytes" where
  "read_exact n stream =
     (if length stream < n then (Inl UnexpectedEof, []) else (Inr (take n stream), drop n stream))"

definition recv_message :: "json_codec \<Rightarrow> bytes \<Rightarrow> (io_error + message) \<times> bytes" where
  "recv_message J stream = (case read_exact 4 stream of
     (Inl e, rest) \<Rightarrow> (Inl e, rest)
   | (Inr len_buf, rest) \<Rightarrow>
       let len = from_be32 len_buf in
       if len > MAX_MESSAGE_SIZE then (Inl (MessageTooLarge (unat len)), rest)
       else (case read_exact (unat len) rest of
               (Inl e, rest') \<Rightarrow> (Inl e, rest')
             | (Inr payload, rest') \<Rightarrow>
                 (case json_from_slice J payload of
                    None \<Rightarrow> (Inl InvalidData, rest')
                  | Some msg \<Rightarrow> (Inr msg, rest'))))"

primrec send_all :: "json_codec \<Rightarrow> message list \<Rightarrow> bytes \<Rightarrow> (io_error + unit) \<times> bytes" where
  "send_all J [] stream = (Inr (), stream)"
| "send_all J (m # ms) stream = (case send_message J m stream of
     (Inl e, stream') \<Rightarrow> (Inl e, stream')
   | (Inr _, stream') \<Rightarrow> send_all J ms stream')"

primrec recv_n :: "json_codec \<Rightarrow> nat \<Rightarrow> bytes \<Rightarrow> (io_error + message list) \<times> bytes" where
  "recv_n J 0 stream = (Inr [], stream)"
| "recv_n J (Suc n) stream = (case recv_message J stream of
     (Inl e, stream') \<Rightarrow> (Inl e, stream')
   | (Inr m, stream') \<Rightarrow>
       (case recv_n J n stream' of
          (Inl e, stream'') \<Rightarrow> (Inl e, stream'')
        | (Inr ms, stream'') \<Rightarrow> (Inr (m # ms), stream'')))"

section \<open>Lemmas\<close>

lemma send_message_Inr:
  assumes "send_message J m stream = (Inr u, stream')"
  shows "\<exists>payload. json_to_vec J m = Some payload \<and> length payload \<le> 1048576
    \<and> stream' = stream @ be32 (of_nat (length payload)) @ payload"
  using assms by (auto simp: send_message_def MAX_MESSAGE_SIZE_def split: option.splits if_splits)

lemma recv_framed:
  assumes "codec_ok J" "json_to_vec J m = Some payload" "length payload \<le> 1048576"
  shows "recv_message J (be32 (of_nat (length payload)) @ payload @ rest) = (Inr m, rest)"
proof -
  have "json_from_slice J payload = Some m" using assms(1,2) unfolding codec_ok_def by blast
  moreover have "unat (of_nat (length payload) :: u32) = length payload"
    by (rule unat_of_nat_small) (use assms(3) in simp)
  ultimately show ?thesis
    using assms(3) cb32.take_enc [of "of_nat (length payload)" "payload @ rest"]
    by (simp add: recv_message_def read_exact_def MAX_MESSAGE_SIZE_def word_less_nat_alt not_less)
qed

lemma send_all_stream:
  assumes "codec_ok J" "send_all J ms stream = (Inr u, stream')"
  shows "\<exists>frames. stream' = stream @ frames \<and>
    (\<forall>rest. recv_n J (length ms) (frames @ rest) = (Inr ms, rest))"
  using assms(2)
proof (induction ms arbitrary: stream)
  case (Cons m ms)
  obtain s1 where 1: "send_message J m stream = (Inr (), s1)" and 2: "send_all J ms s1 = (Inr u, stream')"
    using Cons.prems by (auto split: prod.splits sum.splits)
  obtain payload where p: "json_to_vec J m = Some payload" "length payload \<le> 1048576"
      "s1 = stream @ be32 (of_nat (length payload)) @ payload"
    using send_message_Inr [OF 1] by blast
  obtain frames where f: "stream' = s1 @ frames"
      "\<forall>rest. recv_n J (length ms) (frames @ rest) = (Inr ms, rest)"
    using Cons.IH [OF 2] by blast
  show ?case
    using f p recv_framed [OF assms(1) p(1,2)]
    by (intro exI [of _ "be32 (of_nat (length payload)) @ payload @ frames"]) simp
qed simp

section \<open>Properties\<close>

text \<open>
  framing is a round trip: whatever messages are sent one after the other without an error
  are received one after the other, the same and in the same order, from any stream that
  starts with the bytes written, and what follows them is left unread.
\<close>
theorem framing_roundtrip:
  assumes "codec_ok J" "send_all J ms [] = (Inr (), stream)"
  shows "recv_n J (length ms) (stream @ rest) = (Inr ms, rest)"
  using send_all_stream [OF assms] by auto

definition toy_codec :: json_codec where
  "toy_codec = \<lparr>json_to_vec = (\<lambda>m. case m of Ping n \<Rightarrow> Some (le64 n) | GetPeers \<Rightarrow> Some [1, 2] | _ \<Rightarrow> None),
     json_from_slice = (\<lambda>bs. if length bs = 8 then Some (Ping (from_le64 bs))
                             else if bs = [1, 2] then Some GetPeers else None)\<rparr>"

lemma toy_codec_ok: "codec_ok toy_codec"
proof -
  have "le64 n \<noteq> [1, 2]" for n 
  proof
    assume "le64 n = [1, 2]"
    then have "length (le64 n) = length [1 :: u8, 2]" by (rule arg_cong)
    then show False by simp
  qed
  then show ?thesis unfolding codec_ok_def toy_codec_def by (auto split: message.splits)
qed

theorem framing_roundtrip_witness:
  "recv_n toy_codec 2 (snd (send_all toy_codec [Ping 7, GetPeers] []) @ [9]) = (Inr [Ping 7, GetPeers], [9])"
proof -
  have "send_all toy_codec [Ping 7, GetPeers] [] = (Inr (), snd (send_all toy_codec [Ping 7, GetPeers] []))"
    by (simp add: send_message_def toy_codec_def MAX_MESSAGE_SIZE_def)
  from framing_roundtrip [OF toy_codec_ok this, of "[9]"] show ?thesis
    by (simp only: list.size numeral_2_eq_2 add_0 add_Suc plus_nat.simps)
qed

text \<open>
  receiving is bounded: it reads at most four bytes and one megabyte of any stream, and it
  refuses a longer announced length before it reads or allocates the payload.
\<close>
theorem recv_bounded:
  "case recv_message J stream of
     (Inr m, rest) \<Rightarrow> length stream \<le> length rest + 4 + 1048576
   | (Inl e, rest) \<Rightarrow> (\<exists>n. e = MessageTooLarge n \<and> 1048576 < n \<and> rest = drop 4 stream)
       \<or> e = UnexpectedEof \<and> rest = [] \<or> e = InvalidData \<and> length stream \<le> length rest + 4 + 1048576"
proof (cases "length stream < 4")
  case True
  then show ?thesis by (simp add: recv_message_def read_exact_def)
next
  case False
  let ?len = "from_be32 (take 4 stream)" and ?rest = "drop 4 stream"
  show ?thesis
  proof (cases "MAX_MESSAGE_SIZE < ?len")
    case True
    then show ?thesis using False
      by (simp add: recv_message_def read_exact_def MAX_MESSAGE_SIZE_def word_less_nat_alt)
  next
    case small: False
    then have "unat ?len \<le> 1048576" by (simp add: MAX_MESSAGE_SIZE_def word_less_nat_alt not_less)
    then show ?thesis using False small
      by (auto simp: recv_message_def read_exact_def Let_def split: option.splits)
  qed
qed

end
