(* ===== verification/Mempool.thy ===== *)
theory Mempool
  imports Transaction
begin

text \<open>
  The pool of verified transactions of a node (node/src/mempool.rs), keyed by the hexadecimal
  transaction hash, and the interface its users rely on. Lists in the order of the map
  (\<open>tx_hashes\<close>, \<open>all_txs\<close>) are sets.
\<close>

record mempool =
  mp_txs :: "string \<rightharpoonup> transaction"

text \<open>The texts \<open>signature: ...\<close> and \<open>posc: ...\<close> of a refused insertion.\<close>

datatype mempool_error = Bad_Signature taron_error | Bad_Posc taron_error

definition mp_new :: mempool where "mp_new = \<lparr>mp_txs = Map.empty\<rparr>"

definition mp_len :: "mempool \<Rightarrow> nat" where "mp_len p = card (dom (mp_txs p))"

definition mp_is_empty :: "mempool \<Rightarrow> bool" where "mp_is_empty p \<longleftrightarrow> dom (mp_txs p) = {}"

definition mp_contains :: "mempool \<Rightarrow> string \<Rightarrow> bool" where
  "mp_contains p h \<longleftrightarrow> h \<in> dom (mp_txs p)"

definition mp_tx_hashes :: "mempool \<Rightarrow> string set" where "mp_tx_hashes p = dom (mp_txs p)"

definition mp_get_txs :: "mempool \<Rightarrow> string list \<Rightarrow> transaction list" where
  "mp_get_txs p hashes = List.map_filter (mp_txs p) hashes"

definition mp_insert :: "crypto \<Rightarrow> transaction \<Rightarrow> mempool \<Rightarrow> (mempool_error + bool) \<times> mempool" where
  "mp_insert C t p =
     (let h = tx_hash_hex C t in
      if mp_contains p h then (Inr False, p)
      else case tx_verify_signature C t of
        Inl e \<Rightarrow> (Inl (Bad_Signature e), p)
      | Inr _ \<Rightarrow>
          (case posc_verify C t of
             Inl e \<Rightarrow> (Inl (Bad_Posc e), p)
           | Inr _ \<Rightarrow> (Inr True, p\<lparr>mp_txs := (mp_txs p)(h \<mapsto> t)\<rparr>)))"

definition mp_all_txs :: "mempool \<Rightarrow> transaction set" where "mp_all_txs p = ran (mp_txs p)"

definition mp_remove :: "string \<Rightarrow> mempool \<Rightarrow> mempool" where
  "mp_remove h p = p\<lparr>mp_txs := (mp_txs p)(h := None)\<rparr>"

section \<open>The interface of a pool\<close>

text \<open>
  What a node uses of its pool: membership by hash, insertion that may refuse, removal. A
  refused or repeated insertion changes nothing, an accepted one adds exactly its hash, a
  removal deletes exactly its hash, and whatever is inserted satisfies \<open>good\<close>.
\<close>

locale tx_pool =
  fixes member :: "'p \<Rightarrow> string \<Rightarrow> bool"
    and key :: "transaction \<Rightarrow> string"
    and ins :: "transaction \<Rightarrow> 'p \<Rightarrow> ('e + bool) \<times> 'p"
    and del :: "string \<Rightarrow> 'p \<Rightarrow> 'p"
    and good :: "transaction \<Rightarrow> bool"
  assumes member_ins: "ins t p = (Inr True, q) \<Longrightarrow> member q h \<longleftrightarrow> h = key t \<or> member p h"
    and ins_good: "ins t p = (Inr True, q) \<Longrightarrow> good t \<and> \<not> member p (key t)"
    and ins_same: "ins t p = (r, q) \<Longrightarrow> r \<noteq> Inr True \<Longrightarrow> q = p"
    and ins_known: "member p (key t) \<Longrightarrow> ins t p = (Inr False, p)"
    and member_del: "member (del h p) g \<longleftrightarrow> g \<noteq> h \<and> member p g"
begin

lemma ins_twice: "ins t p = (Inr True, q) \<Longrightarrow> ins t q = (Inr False, q)"
  using member_ins ins_known by blast

lemma member_dels: "member (foldl (\<lambda>p t. del (key t) p) p ts) g \<longleftrightarrow> member p g \<and> g \<notin> key ` set ts"
  by (induction ts arbitrary: p) (auto simp: member_del)

lemma member_mono: "ins t p = (r, q) \<Longrightarrow> member p h \<Longrightarrow> member q h"
  using member_ins ins_same by metis

end

definition tx_good :: "crypto \<Rightarrow> transaction \<Rightarrow> bool" where
  "tx_good C t \<longleftrightarrow> is_ok (tx_verify_signature C t) \<and> is_ok (posc_verify C t)"

interpretation pool: tx_pool mp_contains "tx_hash_hex C" "mp_insert C" mp_remove "tx_good C" for C
  by unfold_locales
    (auto simp: mp_insert_def mp_contains_def mp_remove_def tx_good_def is_ok_iff Let_def
      split: if_splits sum.splits)

section \<open>The invariant of the pool\<close>

definition mp_inv :: "crypto \<Rightarrow> mempool \<Rightarrow> bool" where
  "mp_inv C p \<longleftrightarrow> finite (dom (mp_txs p)) \<and>
     (\<forall>h t. mp_txs p h = Some t \<longrightarrow> h = tx_hash_hex C t \<and> tx_good C t)"

datatype pool_event = Pool_Insert transaction | Pool_Remove string

fun pool_step :: "crypto \<Rightarrow> mempool \<Rightarrow> pool_event \<Rightarrow> mempool" where
  "pool_step C p (Pool_Insert t) = snd (mp_insert C t p)"
| "pool_step C p (Pool_Remove h) = mp_remove h p"

lemma mp_insert_inv: "mp_inv C p \<Longrightarrow> mp_inv C (snd (mp_insert C t p))"
  by (auto simp: mp_inv_def mp_insert_def tx_good_def is_ok_iff Let_def split: sum.splits)

lemma mp_remove_inv: "mp_inv C p \<Longrightarrow> mp_inv C (mp_remove h p)"
  by (auto simp: mp_inv_def mp_remove_def)

interpretation pool_machine: invariant_machine "pool_step C" "mp_inv C" for C
proof unfold_locales
  fix s e
  assume "mp_inv C s"
  then show "mp_inv C (pool_step C s e)" by (cases e) (auto intro: mp_insert_inv mp_remove_inv)
qed

lemma mp_inv_new: "mp_inv C mp_new"
  by (simp add: mp_inv_def mp_new_def)

section \<open>Properties\<close>

text \<open>
  C33: whatever is inserted into and removed from a pool, it only ever holds transactions whose
  signature and proof verify, each under its own hash, so what \<open>get_txs\<close> hands to a peer are
  verified transactions with the hashes the peer asked for.
\<close>
theorem mempool_only_verified:
  "set (mp_get_txs (foldl (pool_step C) mp_new es) hashes) \<subseteq>
     {t. tx_hash_hex C t \<in> set hashes \<and> tx_verify_signature C t = Inr () \<and> posc_verify C t = Inr ()}"
proof
  have inv: "mp_inv C (foldl (pool_step C) mp_new es)"
    by (rule pool_machine.run_inv [OF mp_inv_new])
  fix t
  assume "t \<in> set (mp_get_txs (foldl (pool_step C) mp_new es) hashes)"
  then obtain h where "h \<in> set hashes" "mp_txs (foldl (pool_step C) mp_new es) h = Some t"
    by (auto simp: mp_get_txs_def List.map_filter_def)
  then show "t \<in> {t. tx_hash_hex C t \<in> set hashes \<and> tx_verify_signature C t = Inr ()
      \<and> posc_verify C t = Inr ()}"
    using inv by (auto simp: mp_inv_def tx_good_def is_ok_iff)
qed

end
