(* ===== verification/Peers.thy ===== *)
theory Peers
  imports Protocol
begin

text \<open>
  The peer manager of a node (node/src/peer.rs): connection limits, the count per IP address,
  the rate of connection attempts, scores and bans. The monotonic clock is an argument in
  milliseconds; the channel to the writer task of a peer is only known to be there or not. A
  socket address is an IP address and a port.
\<close>

definition MAX_OUTBOUND :: nat where "MAX_OUTBOUND = 16"
definition MAX_INBOUND :: nat where "MAX_INBOUND = 1024"
definition MAX_CONNECTIONS_PER_IP :: u32 where "MAX_CONNECTIONS_PER_IP = 2"
definition SCORE_BAN_THRESHOLD :: int where "SCORE_BAN_THRESHOLD = - 100"
definition BAN_DURATION :: nat where "BAN_DURATION = 3600000"
definition MAX_CONN_RATE_PER_MINUTE :: nat where "MAX_CONN_RATE_PER_MINUTE = 10"
definition RATE_WINDOW :: nat where "RATE_WINDOW = 60000"

datatype peer_direction = Inbound | Outbound

record peer_info =
  pi_addr :: socket_addr
  pi_direction :: peer_direction
  pi_connected_at :: nat
  pi_version :: u8
  pi_user_agent :: string
  pi_last_seen :: nat
  pi_score :: "32 word"
  pi_has_channel :: bool

record peer_manager =
  pm_peers :: "socket_addr \<rightharpoonup> peer_info"
  pm_per_ip :: "ip_addr \<rightharpoonup> u32"
  pm_banned :: "ip_addr \<rightharpoonup> nat"
  pm_attempts :: "ip_addr \<rightharpoonup> nat list"

definition pm_new :: peer_manager where
  "pm_new = \<lparr>pm_peers = Map.empty, pm_per_ip = Map.empty, pm_banned = Map.empty, pm_attempts = Map.empty\<rparr>"

definition pm_is_banned :: "nat \<Rightarrow> ip_addr \<Rightarrow> peer_manager \<Rightarrow> bool \<times> peer_manager" where
  "pm_is_banned now ip s = (case pm_banned s ip of
     Some banned_at \<Rightarrow>
       if now - banned_at < BAN_DURATION then (True, s)
       else (False, s\<lparr>pm_banned := (pm_banned s)(ip := None)\<rparr>)
   | None \<Rightarrow> (False, s))"

definition track_connection_attempt :: "nat \<Rightarrow> ip_addr \<Rightarrow> peer_manager \<Rightarrow> bool \<times> peer_manager" where
  "track_connection_attempt now ip s =
     (let attempts = (case pm_attempts s ip of None \<Rightarrow> [] | Some ts \<Rightarrow> ts);
          attempts = filter (\<lambda>t. now - t < RATE_WINDOW) attempts @ [now];
          s = s\<lparr>pm_attempts := (pm_attempts s)(ip \<mapsto> attempts)\<rparr>
      in if length attempts > MAX_CONN_RATE_PER_MINUTE
         then (False, s\<lparr>pm_banned := (pm_banned s)(ip \<mapsto> now)\<rparr>)
         else (True, s))"

definition penalize :: "nat \<Rightarrow> socket_addr \<Rightarrow> 32 word \<Rightarrow> peer_manager \<Rightarrow> bool \<times> peer_manager" where
  "penalize now addr points s = (case pm_peers s addr of
     None \<Rightarrow> (False, s)
   | Some peer \<Rightarrow>
       let peer = peer\<lparr>pi_score := pi_score peer - points\<rparr>;
           s = s\<lparr>pm_peers := (pm_peers s)(addr \<mapsto> peer)\<rparr>
       in if sint (pi_score peer) < SCORE_BAN_THRESHOLD
          then (True, s\<lparr>pm_banned := (pm_banned s)(sa_ip addr \<mapsto> now)\<rparr>)
          else (False, s))"

definition pm_count :: "peer_manager \<Rightarrow> nat" where "pm_count s = card (dom (pm_peers s))"

definition with_direction :: "peer_manager \<Rightarrow> peer_direction \<Rightarrow> socket_addr set" where
  "with_direction s d = {a. \<exists>p. pm_peers s a = Some p \<and> pi_direction p = d}"

definition inbound_count :: "peer_manager \<Rightarrow> nat" where
  "inbound_count s = card (with_direction s Inbound)"

definition outbound_count :: "peer_manager \<Rightarrow> nat" where
  "outbound_count s = card (with_direction s Outbound)"

fun can_accept :: "peer_manager \<Rightarrow> peer_direction \<Rightarrow> bool" where
  "can_accept s Inbound = (inbound_count s < MAX_INBOUND)"
| "can_accept s Outbound = (outbound_count s < MAX_OUTBOUND)"

definition add_peer :: "nat \<Rightarrow> socket_addr \<Rightarrow> peer_direction \<Rightarrow> peer_manager \<Rightarrow> bool \<times> peer_manager" where
  "add_peer now addr direction s =
     (let ip = sa_ip addr in
      case pm_is_banned now ip s of
        (True, s) \<Rightarrow> (False, s)
      | (False, s) \<Rightarrow>
          let ip_count = (case pm_per_ip s ip of None \<Rightarrow> 0 | Some n \<Rightarrow> n) in
          if ip_count \<ge> MAX_CONNECTIONS_PER_IP then (False, s)
          else if addr \<in> dom (pm_peers s) \<or> \<not> can_accept s direction then (False, s)
          else
            (True, s\<lparr>pm_peers := (pm_peers s)(addr \<mapsto>
                       \<lparr>pi_addr = addr, pi_direction = direction, pi_connected_at = now, pi_version = 0,
                        pi_user_agent = [], pi_last_seen = now, pi_score = 0, pi_has_channel = False\<rparr>),
                     pm_per_ip := (pm_per_ip s)(ip \<mapsto> ip_count + 1)\<rparr>))"

definition update_peer :: "socket_addr \<Rightarrow> (peer_info \<Rightarrow> peer_info) \<Rightarrow> peer_manager \<Rightarrow> peer_manager" where
  "update_peer addr f s = (case pm_peers s addr of
     None \<Rightarrow> s | Some peer \<Rightarrow> s\<lparr>pm_peers := (pm_peers s)(addr \<mapsto> f peer)\<rparr>)"

definition update_hello :: "nat \<Rightarrow> socket_addr \<Rightarrow> u8 \<Rightarrow> string \<Rightarrow> peer_manager \<Rightarrow> peer_manager" where
  "update_hello now addr version user_agent = update_peer addr
     (\<lambda>peer. peer\<lparr>pi_version := version, pi_user_agent := user_agent, pi_last_seen := now\<rparr>)"

definition touch :: "nat \<Rightarrow> socket_addr \<Rightarrow> peer_manager \<Rightarrow> peer_manager" where
  "touch now addr = update_peer addr (\<lambda>peer. peer\<lparr>pi_last_seen := now\<rparr>)"

definition remove_peer :: "socket_addr \<Rightarrow> peer_manager \<Rightarrow> peer_manager" where
  "remove_peer addr s = (case pm_peers s addr of
     None \<Rightarrow> s
   | Some _ \<Rightarrow>
       let s = s\<lparr>pm_peers := (pm_peers s)(addr := None)\<rparr>;
           ip = sa_ip addr;
           n = (case pm_per_ip s ip of None \<Rightarrow> 0 | Some n \<Rightarrow> n);
           n = saturating_sub n 1
       in if n = 0 then s\<lparr>pm_per_ip := (pm_per_ip s)(ip := None)\<rparr>
          else s\<lparr>pm_per_ip := (pm_per_ip s)(ip \<mapsto> n)\<rparr>)"

definition is_connected :: "peer_manager \<Rightarrow> socket_addr \<Rightarrow> bool" where
  "is_connected s addr \<longleftrightarrow> addr \<in> dom (pm_peers s)"

definition all_addrs :: "peer_manager \<Rightarrow> socket_addr set" where "all_addrs s = dom (pm_peers s)"

definition set_broadcast_tx :: "socket_addr \<Rightarrow> peer_manager \<Rightarrow> peer_manager" where
  "set_broadcast_tx addr = update_peer addr (\<lambda>peer. peer\<lparr>pi_has_channel := True\<rparr>)"

definition take_broadcast_tx :: "socket_addr \<Rightarrow> peer_manager \<Rightarrow> peer_manager" where
  "take_broadcast_tx addr = update_peer addr (\<lambda>peer. peer\<lparr>pi_has_channel := False\<rparr>)"

text \<open>The peers a broadcast reaches.\<close>

definition broadcast_targets :: "peer_manager \<Rightarrow> socket_addr option \<Rightarrow> socket_addr set" where
  "broadcast_targets s exclude =
     {a. \<exists>p. pm_peers s a = Some p \<and> pi_has_channel p \<and> exclude \<noteq> Some a}"

section \<open>The invariant\<close>

definition peers_at :: "peer_manager \<Rightarrow> ip_addr \<Rightarrow> socket_addr set" where
  "peers_at s ip = {a \<in> dom (pm_peers s). sa_ip a = ip}"

definition ip_count :: "peer_manager \<Rightarrow> ip_addr \<Rightarrow> nat" where
  "ip_count s ip = (case pm_per_ip s ip of None \<Rightarrow> 0 | Some n \<Rightarrow> unat n)"

definition pm_inv :: "peer_manager \<Rightarrow> bool" where
  "pm_inv s \<longleftrightarrow> finite (dom (pm_peers s)) \<and>
     (\<forall>ip. ip_count s ip = card (peers_at s ip) \<and> card (peers_at s ip) \<le> 2) \<and>
     inbound_count s \<le> 1024 \<and> outbound_count s \<le> 16"

datatype peer_event =
    Attempt nat ip_addr
  | Penalize nat socket_addr "32 word"
  | Check_Ban nat ip_addr
  | Add nat socket_addr peer_direction
  | Hello_From nat socket_addr u8 string
  | Touch nat socket_addr
  | Remove socket_addr
  | Set_Channel socket_addr
  | Take_Channel socket_addr

fun peer_step :: "peer_manager \<Rightarrow> peer_event \<Rightarrow> peer_manager" where
  "peer_step s (Attempt now ip) = snd (track_connection_attempt now ip s)"
| "peer_step s (Penalize now a pts) = snd (penalize now a pts s)"
| "peer_step s (Check_Ban now ip) = snd (pm_is_banned now ip s)"
| "peer_step s (Add now a d) = snd (add_peer now a d s)"
| "peer_step s (Hello_From now a v u) = update_hello now a v u s"
| "peer_step s (Touch now a) = touch now a s"
| "peer_step s (Remove a) = remove_peer a s"
| "peer_step s (Set_Channel a) = set_broadcast_tx a s"
| "peer_step s (Take_Channel a) = take_broadcast_tx a s"

lemma with_direction_finite: "finite (dom (pm_peers s)) \<Longrightarrow> finite (with_direction s d)"
  by (rule finite_subset [of _ "dom (pm_peers s)"]) (auto simp: with_direction_def)

text \<open>The invariant reads the set of peers, their directions and the counts only.\<close>

lemma pm_inv_cong:
  assumes "dom (pm_peers s') = dom (pm_peers s)" "\<And>d. with_direction s' d = with_direction s d"
    "pm_per_ip s' = pm_per_ip s"
  shows "pm_inv s' \<longleftrightarrow> pm_inv s"
  using assms by (simp add: pm_inv_def ip_count_def peers_at_def inbound_count_def outbound_count_def)

lemma pm_inv_bans [simp]:
  "pm_inv (s\<lparr>pm_banned := b\<rparr>) = pm_inv s" "pm_inv (s\<lparr>pm_attempts := t\<rparr>) = pm_inv s"
  by (rule pm_inv_cong; simp add: with_direction_def)+

lemma update_peer_inv:
  assumes "\<And>p. pi_direction (f p) = pi_direction p"
  shows "pm_inv (update_peer a f s) \<longleftrightarrow> pm_inv s"
proof (cases "pm_peers s a")
  case (Some p)
  show ?thesis
    by (rule pm_inv_cong) (use assms Some in \<open>auto simp: update_peer_def with_direction_def\<close>)
qed (simp add: update_peer_def)

lemma pm_is_banned_inv: "pm_inv (snd (pm_is_banned now ip s)) = pm_inv s"
  by (simp add: pm_is_banned_def split: option.split)

lemma pm_is_banned_same:
  "pm_peers (snd (pm_is_banned now ip s)) = pm_peers s" "pm_per_ip (snd (pm_is_banned now ip s)) = pm_per_ip s"
  by (simp_all add: pm_is_banned_def split: option.split)

definition new_peer :: "nat \<Rightarrow> socket_addr \<Rightarrow> peer_direction \<Rightarrow> peer_info" where
  "new_peer now addr direction =
     \<lparr>pi_addr = addr, pi_direction = direction, pi_connected_at = now, pi_version = 0,
      pi_user_agent = [], pi_last_seen = now, pi_score = 0, pi_has_channel = False\<rparr>"

lemma ip_count_le: "(case pm_per_ip s ip of None \<Rightarrow> 0 | Some n \<Rightarrow> n) \<ge> MAX_CONNECTIONS_PER_IP \<longleftrightarrow> 2 \<le> ip_count s ip"
  by (simp add: ip_count_def MAX_CONNECTIONS_PER_IP_def word_le_nat_alt split: option.split)

lemma add_peer_cases:
  obtains (refused) "add_peer now a d s = (False, snd (pm_is_banned now (sa_ip a) s))"
  | (added) s1 n where "s1 = snd (pm_is_banned now (sa_ip a) s)" "\<not> fst (pm_is_banned now (sa_ip a) s)"
      "ip_count s1 (sa_ip a) < 2" "a \<notin> dom (pm_peers s1)" "can_accept s1 d"
      "add_peer now a d s = (True, s1\<lparr>pm_peers := (pm_peers s1)(a \<mapsto> new_peer now a d),
         pm_per_ip := (pm_per_ip s1)(sa_ip a \<mapsto> n)\<rparr>)" "unat n = Suc (ip_count s1 (sa_ip a))"
proof -
  obtain b s1 where s1: "pm_is_banned now (sa_ip a) s = (b, s1)" by fastforce
  let ?n = "case pm_per_ip s1 (sa_ip a) of None \<Rightarrow> 0 | Some n \<Rightarrow> n"
  show ?thesis
  proof (cases "\<not> b \<and> \<not> 2 \<le> ip_count s1 (sa_ip a) \<and> a \<notin> dom (pm_peers s1) \<and> can_accept s1 d")
    case True
    have "unat ?n = ip_count s1 (sa_ip a)" by (simp add: ip_count_def split: option.split)
    then have "unat (?n + 1) = Suc (ip_count s1 (sa_ip a))"
      using True unat_add_no_overflow [of ?n 1] by simp
    moreover have "add_peer now a d s = (True, s1\<lparr>pm_peers := (pm_peers s1)(a \<mapsto> new_peer now a d),
         pm_per_ip := (pm_per_ip s1)(sa_ip a \<mapsto> ?n + 1)\<rparr>)"
      using True s1 ip_count_le [of s1 "sa_ip a"]
      by (simp add: add_peer_def new_peer_def Let_def)
    ultimately show ?thesis using added [of s1 "?n + 1"] True s1 by simp
  next
    case False
    have "add_peer now a d s = (False, s1)"
      using False s1 ip_count_le [of s1 "sa_ip a"]
      by (cases b) (auto simp: add_peer_def Let_def)
    then show ?thesis using refused s1 by simp
  qed
qed

lemma add_peer_inv: "pm_inv s \<Longrightarrow> pm_inv (snd (add_peer now a d s))"
proof -
  assume inv: "pm_inv s"
  show ?thesis
  proof (cases rule: add_peer_cases [of now a d s])
    case refused
    then show ?thesis using inv pm_is_banned_inv by simp
  next
    case (added s1 n)
    have inv1: "pm_inv s1" using inv pm_is_banned_inv added(1) by simp
    let ?s = "s1\<lparr>pm_peers := (pm_peers s1)(a \<mapsto> new_peer now a d), pm_per_ip := (pm_per_ip s1)(sa_ip a \<mapsto> n)\<rparr>"
    have fin: "finite (dom (pm_peers s1))" using inv1 by (simp add: pm_inv_def)
    have at: "peers_at ?s ip = (if ip = sa_ip a then insert a (peers_at s1 ip) else peers_at s1 ip)" for ip
      by (auto simp: peers_at_def)
    have atf: "finite (peers_at s1 ip)" "a \<notin> peers_at s1 ip" for ip
      using fin added(4) by (auto simp: peers_at_def)
    have cnt: "ip_count ?s ip = (if ip = sa_ip a then Suc (ip_count s1 ip) else ip_count s1 ip)" for ip
      using added(7) by (simp add: ip_count_def)
    have ip: "ip_count ?s ip = card (peers_at ?s ip) \<and> card (peers_at ?s ip) \<le> 2" for ip
      using inv1 added(3) atf unfolding at cnt by (auto simp: pm_inv_def)
    have dir: "with_direction ?s e = (if e = d then insert a (with_direction s1 e) else with_direction s1 e)" for e
      using added(4) by (auto simp: with_direction_def new_peer_def)
    have dn: "finite (with_direction s1 e)" "a \<notin> with_direction s1 e" for e
      using with_direction_finite [OF fin] added(4) by (auto simp: with_direction_def)
    have "inbound_count ?s \<le> 1024 \<and> outbound_count ?s \<le> 16"
      using inv1 added(5) dn unfolding inbound_count_def outbound_count_def dir
      by (cases d) (auto simp: pm_inv_def inbound_count_def outbound_count_def MAX_INBOUND_def MAX_OUTBOUND_def)
    then have "pm_inv ?s" using fin ip by (simp add: pm_inv_def)
    then show ?thesis using added(6) by simp
  qed
qed

lemma remove_peer_inv: "pm_inv s \<Longrightarrow> pm_inv (remove_peer a s)"
proof (cases "pm_peers s a")
  case (Some p)
  assume inv: "pm_inv s"
  let ?s = "remove_peer a s"
  have fin: "finite (dom (pm_peers s))" using inv by (simp add: pm_inv_def)
  have peers: "pm_peers ?s = (pm_peers s)(a := None)"
    using Some by (simp add: remove_peer_def Let_def)
  have mem: "a \<in> peers_at s (sa_ip a)" using Some by (auto simp: peers_at_def)
  have at: "peers_at ?s ip = (if ip = sa_ip a then peers_at s ip - {a} else peers_at s ip)" for ip
    by (auto simp: peers_at_def peers)
  have atf: "finite (peers_at s ip)" for ip using fin by (simp add: peers_at_def)
  have cnt: "ip_count ?s ip = (if ip = sa_ip a then ip_count s ip - 1 else ip_count s ip)" for ip
    using Some unat_saturating_sub [where ?'a = 32]
    by (auto simp: ip_count_def remove_peer_def Let_def unat_eq_0 [symmetric] split: option.split)
  have old: "ip_count s ip = card (peers_at s ip)" "card (peers_at s ip) \<le> 2" for ip
    using inv by (auto simp: pm_inv_def)
  have ip: "ip_count ?s ip = card (peers_at ?s ip) \<and> card (peers_at ?s ip) \<le> 2" for ip
  proof (cases "ip = sa_ip a")
    case True
    have "card (peers_at s ip - {a}) = card (peers_at s ip) - 1" using mem True by simp
    moreover have "card (peers_at s ip) - 1 \<le> 2" using old(2) [of ip] by linarith
    ultimately show ?thesis unfolding at cnt using True old(1) [of ip] by simp
  qed (use old in \<open>simp add: at cnt\<close>)
  have dir: "with_direction ?s e \<subseteq> with_direction s e" for e
    by (auto simp: with_direction_def peers split: if_splits)
  have "card (with_direction ?s e) \<le> card (with_direction s e)" for e
    by (rule card_mono [OF with_direction_finite [OF fin] dir])
  then have "inbound_count ?s \<le> 1024 \<and> outbound_count ?s \<le> 16"
    using inv le_trans unfolding pm_inv_def inbound_count_def outbound_count_def by blast
  then show ?thesis using fin ip by (simp add: pm_inv_def peers)
qed (simp add: remove_peer_def)

lemma peer_step_inv: "pm_inv s \<Longrightarrow> pm_inv (peer_step s e)"
proof (cases e)
  case (Penalize now a pts)
  assume inv: "pm_inv s"
  show ?thesis
  proof (cases "pm_peers s a")
    case None
    then show ?thesis using Penalize inv by (simp add: penalize_def)
  next
    case (Some p)
    have "pm_inv (update_peer a (\<lambda>p. p\<lparr>pi_score := pi_score p - pts\<rparr>) s)"
      using inv by (simp add: update_peer_inv)
    then show ?thesis using Penalize Some by (simp add: penalize_def update_peer_def Let_def)
  qed
qed (auto simp: track_connection_attempt_def Let_def pm_is_banned_inv add_peer_inv remove_peer_inv
    update_hello_def touch_def set_broadcast_tx_def take_broadcast_tx_def update_peer_inv)

interpretation peer_machine: invariant_machine peer_step pm_inv
  by unfold_locales (rule peer_step_inv)

lemma pm_inv_new: "pm_inv pm_new"
  by (simp add: pm_inv_def pm_new_def ip_count_def peers_at_def inbound_count_def outbound_count_def
      with_direction_def)

section \<open>Bans\<close>

text \<open>A ban that is not older than its duration stays, whatever happens before it expires.\<close>

definition banned_since :: "nat \<Rightarrow> ip_addr \<Rightarrow> peer_manager \<Rightarrow> bool" where
  "banned_since t ip s \<longleftrightarrow> (\<exists>b. pm_banned s ip = Some b \<and> t \<le> b)"

fun event_time :: "peer_event \<Rightarrow> nat option" where
  "event_time (Attempt now _) = Some now"
| "event_time (Penalize now _ _) = Some now"
| "event_time (Check_Ban now _) = Some now"
| "event_time (Add now _ _) = Some now"
| "event_time (Hello_From now _ _ _) = Some now"
| "event_time (Touch now _) = Some now"
| "event_time _ = None"

definition within :: "nat \<Rightarrow> nat \<Rightarrow> peer_event \<Rightarrow> bool" where
  "within t u e = (case event_time e of None \<Rightarrow> True | Some now \<Rightarrow> t \<le> now \<and> now < u)"

lemma is_banned_keeps:
  assumes "banned_since t ip s" "now < t + BAN_DURATION"
  shows "banned_since t ip (snd (pm_is_banned now jp s))"
  using assms by (auto simp: banned_since_def pm_is_banned_def BAN_DURATION_def split: option.split)

lemma is_banned_true:
  assumes "banned_since t ip s" "now < t + BAN_DURATION"
  shows "pm_is_banned now ip s = (True, s)"
  using assms by (auto simp: banned_since_def pm_is_banned_def BAN_DURATION_def)

lemma update_peer_banned [simp]: "pm_banned (update_peer a f s) = pm_banned s"
  by (simp add: update_peer_def split: option.split)

lemma add_peer_banned:
  "pm_banned (snd (add_peer now a d s)) = pm_banned (snd (pm_is_banned now (sa_ip a) s))"
  by (cases rule: add_peer_cases [of now a d s]) auto

lemma remove_peer_banned [simp]: "pm_banned (remove_peer a s) = pm_banned s"
  by (simp add: remove_peer_def Let_def split: option.split)

lemma banned_step:
  assumes "banned_since t ip s" "within t (t + BAN_DURATION) e"
  shows "banned_since t ip (peer_step s e)"
proof (cases e)
  case (Add now a d)
  then show ?thesis
    using is_banned_keeps [OF assms(1), of now "sa_ip a"] assms(2)
    by (simp add: banned_since_def add_peer_banned within_def)
next
  case (Check_Ban now jp)
  then show ?thesis using is_banned_keeps [OF assms(1)] assms(2) by (simp add: within_def)
next
  case (Penalize now a pts)
  then show ?thesis using assms
    by (auto simp: banned_since_def penalize_def Let_def within_def split: option.split)
qed (use assms in \<open>auto simp: banned_since_def within_def track_connection_attempt_def Let_def
    update_hello_def touch_def set_broadcast_tx_def take_broadcast_tx_def\<close>)

lemma banned_run:
  assumes "banned_since t ip s" "list_all (within t (t + BAN_DURATION)) es"
  shows "banned_since t ip (foldl peer_step s es)"
  using assms by (induction es arbitrary: s) (auto intro: banned_step)

section \<open>Properties\<close>

text \<open>
  the connection limits hold in every state a node can reach by any sequence of connection
  attempts, registrations, removals, penalties and updates: at most two connections per IP
  address, at most 1024 inbound and 16 outbound, and the cached count per IP is the number of
  registered peers of that address.
\<close>
theorem peer_limits:
  "card (peers_at (foldl peer_step pm_new es) ip) \<le> 2
   \<and> ip_count (foldl peer_step pm_new es) ip = card (peers_at (foldl peer_step pm_new es) ip)
   \<and> inbound_count (foldl peer_step pm_new es) \<le> 1024
   \<and> outbound_count (foldl peer_step pm_new es) \<le> 16"
  using peer_machine.run_inv [OF pm_inv_new, of es] by (simp add: pm_inv_def)

text \<open>
  a ban holds for an hour: from the moment an address is banned (by the rate limit or by its
  score), no registration of a peer with that IP succeeds for 3600 seconds, whatever happens in
  between.
\<close>
theorem ban_holds:
  assumes "(r = (False :: bool) \<and> track_connection_attempt t (sa_ip a) s = (r, s1)) \<or> penalize t a pts s = (True, s1)"
    "list_all (within t (t + 3600000)) es" "now < t + 3600000"
  shows "fst (add_peer now a d (foldl peer_step s1 es)) = False"
proof -
  have ban: "banned_since t (sa_ip a) s1"
    using assms(1) by (auto simp: track_connection_attempt_def penalize_def banned_since_def Let_def
        split: if_splits option.splits)
  have "banned_since t (sa_ip a) (foldl peer_step s1 es)"
    by (rule banned_run [OF ban]) (use assms(2) in \<open>simp add: BAN_DURATION_def\<close>)
  then show ?thesis
    using is_banned_true [of t "sa_ip a" "foldl peer_step s1 es" now] assms(3)
    by (simp add: add_peer_def BAN_DURATION_def)
qed

definition toy_addr :: socket_addr where "toy_addr = \<lparr>sa_ip = IPv4 5, sa_port = 8333\<rparr>"

theorem ban_holds_witness:
  "fst (add_peer 9000 toy_addr Inbound
     (foldl peer_step (snd (penalize 1000 toy_addr 101 (snd (add_peer 0 toy_addr Inbound pm_new))))
        [Remove toy_addr, Attempt 2000 (IPv4 5)])) = False"
proof (rule ban_holds [where t = 1000 and pts = 101 and r = True])
  have "penalize 1000 toy_addr 101 (snd (add_peer 0 toy_addr Inbound pm_new))
      = (True, snd (penalize 1000 toy_addr 101 (snd (add_peer 0 toy_addr Inbound pm_new))))"
    by (simp add: penalize_def add_peer_def pm_is_banned_def pm_new_def MAX_CONNECTIONS_PER_IP_def
        inbound_count_def with_direction_def MAX_INBOUND_def SCORE_BAN_THRESHOLD_def word_le_nat_alt)
  then show "(True = False \<and> track_connection_attempt 1000 (sa_ip toy_addr)
        (snd (add_peer 0 toy_addr Inbound pm_new))
        = (True, snd (penalize 1000 toy_addr 101 (snd (add_peer 0 toy_addr Inbound pm_new)))))
    \<or> penalize 1000 toy_addr 101 (snd (add_peer 0 toy_addr Inbound pm_new))
      = (True, snd (penalize 1000 toy_addr 101 (snd (add_peer 0 toy_addr Inbound pm_new))))" by blast
qed (simp_all add: within_def)

text \<open>
  the rate limit: whatever attempts came before, the eleventh attempt of an address within a
  minute is refused and bans the address.
\<close>
theorem rate_limit:
  assumes "length ts = 10" "list_all (\<lambda>x. t \<le> x \<and> x < t + 60000) ts" "t \<le> now" "now < t + 60000"
  shows "\<exists>s1. track_connection_attempt now ip (foldl peer_step s (map (\<lambda>x. Attempt x ip) ts)) = (False, s1)
    \<and> pm_banned s1 ip = Some now"
proof -
  define log where "log s' = (case pm_attempts s' ip of None \<Rightarrow> [] | Some l \<Rightarrow> l)" for s' :: peer_manager
  have kept: "length us \<le> length (filter (\<lambda>x. t \<le> x \<and> x < t + 60000) (log (foldl peer_step s' (map (\<lambda>x. Attempt x ip) us))))"
    if "list_all (\<lambda>x. t \<le> x \<and> x < t + 60000) us" for us s'
    using that
  proof (induction us rule: rev_induct)
    case (snoc u us)
    let ?S = "foldl peer_step s' (map (\<lambda>x. Attempt x ip) us)"
    have u: "t \<le> u" "u < t + 60000" using snoc.prems by auto
    have "log (peer_step ?S (Attempt u ip)) = filter (\<lambda>x. u - x < RATE_WINDOW) (log ?S) @ [u]"
      by (simp add: log_def track_connection_attempt_def Let_def)
    moreover have "filter (\<lambda>x. t \<le> x \<and> x < t + 60000) (filter (\<lambda>x. u - x < RATE_WINDOW) (log ?S))
        = filter (\<lambda>x. t \<le> x \<and> x < t + 60000) (log ?S)"
      unfolding filter_filter using u by (intro filter_cong) (auto simp: RATE_WINDOW_def)
    ultimately show ?case using snoc u by simp
  qed simp
  let ?S = "foldl peer_step s (map (\<lambda>x. Attempt x ip) ts)"
  have fewer: "length (filter (\<lambda>x. t \<le> x \<and> x < t + 60000) l) \<le> length (filter (\<lambda>x. now - x < RATE_WINDOW) l)" for l
    using assms(3,4) by (induction l) (auto simp: RATE_WINDOW_def)
  then have "10 \<le> length (filter (\<lambda>x. now - x < RATE_WINDOW) (log ?S))"
    using kept [OF assms(2), of s] fewer [of "log ?S"] assms(1) by linarith
  then show ?thesis
    by (simp add: track_connection_attempt_def Let_def MAX_CONN_RATE_PER_MINUTE_def log_def)
qed

theorem rate_limit_witness:
  "\<exists>s1. track_connection_attempt 1010 (IPv4 5)
       (foldl peer_step pm_new (map (\<lambda>x. Attempt x (IPv4 5)) [1000, 1001, 1002, 1003, 1004, 1005, 1006, 1007, 1008, 1009]))
     = (False, s1) \<and> pm_banned s1 (IPv4 5) = Some 1010"
  by (rule rate_limit [where t = 1000]) simp_all

end
