(* ===== verification/Sync.thy ===== *)
theory Sync
  imports Protocol
begin

text \<open>
  The stand-alone synchronisation handler (node/src/sync.rs) with its own record of the chain's
  height and best hash. The node of node.rs has its own handlers and takes the chunk size from here;
  this handler keeps no blocks and checks of a block only that its hash is the hash of its
  header.
\<close>

definition IBD_CHUNK_SIZE :: u64 where "IBD_CHUNK_SIZE = 25"

record chain_state =
  cs_height :: u64
  cs_best_hash :: hash32

definition cs_new :: "crypto \<Rightarrow> chain_state" where
  "cs_new C = \<lparr>cs_height = 0, cs_best_hash = blk_hash (genesis_block C)\<rparr>"

definition best_hash_hex :: "crypto \<Rightarrow> chain_state \<Rightarrow> string" where
  "best_hash_hex C s = hex_encode C (bytes32 (cs_best_hash s))"

definition quick_validate :: "crypto \<Rightarrow> block \<Rightarrow> bool" where
  "quick_validate C b \<longleftrightarrow> blk_hash b = hash_header C b"

definition cs_take :: "block \<Rightarrow> chain_state" where
  "cs_take b = \<lparr>cs_height = blk_index b, cs_best_hash = blk_hash b\<rparr>"

text \<open>
  The result is whether a chunk was requested, the state, the announced height of the peer and the
  message sent. A send that fails ends the call with the error, after the state has changed;
  \<open>err\<close> is what sending returns, \<open>None\<close> when it works.
\<close>

type_synonym sync_result = "(io_error + bool) \<times> chain_state \<times> u64 option \<times> message list"

definition sync_send ::
    "io_error option \<Rightarrow> message \<Rightarrow> bool \<Rightarrow> chain_state \<Rightarrow> u64 option \<Rightarrow> sync_result" where
  "sync_send err msg r s ph = (case err of None \<Rightarrow> (Inr r, s, ph, [msg]) | Some e \<Rightarrow> (Inl e, s, ph, []))"

definition sync_request :: "io_error option \<Rightarrow> u64 \<Rightarrow> chain_state \<Rightarrow> u64 option \<Rightarrow> sync_result" where
  "sync_request err our_h s ph =
     (let from_idx = our_h + 1;
          to_idx = from_idx + IBD_CHUNK_SIZE - 1
      in sync_send err (GetBlocks from_idx to_idx) True s ph)"

definition handle_sync_message ::
    "crypto \<Rightarrow> io_error option \<Rightarrow> message \<Rightarrow> chain_state \<Rightarrow> u64 option \<Rightarrow> sync_result" where
  "handle_sync_message C err msg s ph = (case msg of
     GetChainHeight \<Rightarrow> sync_send err (ChainHeight (cs_height s)) False s ph
   | ChainHeight h \<Rightarrow>
       if h > cs_height s then sync_request err (cs_height s) s (Some h) else (Inr False, s, Some h, [])
   | GetBlocks from_idx to_idx \<Rightarrow> sync_send err (Blocks []) False s ph
   | Blocks blocks \<Rightarrow>
       if blocks = [] then (Inr False, s, ph, [])
       else
         let s = foldl (\<lambda>s b. if quick_validate C b then cs_take b else s) s blocks;
             need_more = (case ph of None \<Rightarrow> False | Some h \<Rightarrow> cs_height s < h)
         in if need_more then sync_request err (cs_height s) s ph else (Inr False, s, ph, [])
   | NewBlock b \<Rightarrow>
       if blk_index b = cs_height s + 1
       then (Inr False, if quick_validate C b then cs_take b else s, ph, [])
       else if blk_index b > cs_height s + 1
       then sync_request err (cs_height s) s (Some (blk_index b))
       else (Inr False, s, ph, [])
   | _ \<Rightarrow> (Inr False, s, ph, []))"

section \<open>Properties of the stand-alone handler\<close>

text \<open>
  What the handler believes after a message is what it believed before or a block whose hash is
  the hash of its header.
\<close>

definition cs_wf :: "crypto \<Rightarrow> chain_state \<Rightarrow> bool" where
  "cs_wf C s \<longleftrightarrow> s = cs_new C \<or>
     (\<exists>b. quick_validate C b \<and> s = cs_take b)"

lemma cs_wf_fold:
  "cs_wf C s \<Longrightarrow> cs_wf C (foldl (\<lambda>s b. if quick_validate C b then cs_take b else s) s bs)"
  by (induction bs arbitrary: s) (auto simp: cs_wf_def)

lemma handle_sync_wf:
  "cs_wf C s \<Longrightarrow> handle_sync_message C err msg s ph = (r, s', ph', out) \<Longrightarrow> cs_wf C s'"
  using cs_wf_fold [of C s]
  by (cases msg) (auto simp: handle_sync_message_def sync_request_def sync_send_def Let_def cs_wf_def
      split: if_splits option.splits)

text \<open>
  The stand-alone handler follows any block whose hash fits its header: one batch with a single
  such block moves its height to that block's, up or down, whatever it claims to build on.
\<close>
lemma sync_follows_any_block:
  assumes "quick_validate C b" "ph = None"
  shows "handle_sync_message C err (Blocks [b]) s ph = (Inr False, cs_take b, None, [])"
  using assms by (simp add: handle_sync_message_def)

end
