(* ===== verification/Node_Finality.thy ===== *)
theory Node_Finality
  imports Finality
begin

text \<open>
  The finality manager of a node (node/src/finality.rs): the tracker of the core crate, the
  record of seen sequence numbers and the wallet that signs acknowledgements. The locks are left
  out: every operation takes one lock for its whole body.
\<close>

record finality_manager =
  fm_tracker :: finality_tracker
  fm_seen :: seen_sequences
  fm_wallet :: wallet

definition fm_new :: "u32 \<Rightarrow> wallet \<Rightarrow> finality_manager" where
  "fm_new default_quorum node_wallet =
     \<lparr>fm_tracker = ft_new default_quorum, fm_seen = ss_new, fm_wallet = node_wallet\<rparr>"

definition fm_register_tx ::
    "crypto \<Rightarrow> nat \<Rightarrow> transaction \<Rightarrow> finality_manager \<Rightarrow> bool \<times> finality_manager" where
  "fm_register_tx C now t m =
     (case register_tx now (tx_hash C t) None (fm_tracker m) of
        (r, tracker) \<Rightarrow> (r, m\<lparr>fm_tracker := tracker\<rparr>))"

definition fm_check_double_spend :: "finality_manager \<Rightarrow> transaction \<Rightarrow> hash32 option" where
  "fm_check_double_spend m t = ss_check (fm_seen m) (tx_sender t) (tx_sequence t)"

definition fm_record_seen ::
    "crypto \<Rightarrow> transaction \<Rightarrow> finality_manager \<Rightarrow> bool \<times> finality_manager" where
  "fm_record_seen C t m =
     (case ss_record (tx_sender t) (tx_sequence t) (tx_hash C t) (fm_seen m) of
        (r, seen) \<Rightarrow> (r, m\<lparr>fm_seen := seen\<rparr>))"

definition fm_create_ack :: "crypto \<Rightarrow> u64 \<Rightarrow> hash32 \<Rightarrow> finality_manager \<Rightarrow> tx_ack" where
  "fm_create_ack C timestamp_ms h m = ack_new C timestamp_ms h (fm_wallet m)"

definition fm_record_ack ::
    "crypto \<Rightarrow> nat \<Rightarrow> tx_ack \<Rightarrow> finality_manager \<Rightarrow> transaction_status option \<times> finality_manager" where
  "fm_record_ack C now a m =
     (case record_ack C now a (fm_tracker m) of
        (r, tracker) \<Rightarrow> (r, m\<lparr>fm_tracker := tracker\<rparr>))"

definition fm_get_status :: "finality_manager \<Rightarrow> hash32 \<Rightarrow> transaction_status option" where
  "fm_get_status m h = ft_get_status (fm_tracker m) h"

definition fm_reject :: "hash32 \<Rightarrow> string \<Rightarrow> finality_manager \<Rightarrow> finality_manager" where
  "fm_reject h reason m = m\<lparr>fm_tracker := ft_reject h reason (fm_tracker m)\<rparr>"

definition fm_update_quorum :: "nat \<Rightarrow> finality_manager \<Rightarrow> finality_manager" where
  "fm_update_quorum peer_count m =
     m\<lparr>fm_tracker := ft_set_quorum (calculate_quorum peer_count) (fm_tracker m)\<rparr>"

definition fm_cleanup_timeouts :: "nat \<Rightarrow> finality_manager \<Rightarrow> hash32 set \<times> finality_manager" where
  "fm_cleanup_timeouts now m =
     (case cleanup_timeouts now (fm_tracker m) of
        (hs, tracker) \<Rightarrow> (hs, m\<lparr>fm_tracker := tracker\<rparr>))"

definition fm_counts :: "finality_manager \<Rightarrow> nat \<times> nat" where
  "fm_counts m = (ft_pending_count (fm_tracker m), ft_finalized_count (fm_tracker m))"

definition fm_node_pubkey :: "crypto \<Rightarrow> finality_manager \<Rightarrow> hash32" where
  "fm_node_pubkey C m = public_key C (fm_wallet m)"

section \<open>Lemmas\<close>

text \<open>
  Nothing is pending in a tracker to which nothing was ever registered; then only rejections
  are recorded, acknowledgements do nothing, and no status is \<open>Pending\<close> or \<open>Confirmed\<close>.
\<close>

definition unregistered :: "finality_manager \<Rightarrow> bool" where
  "unregistered m \<longleftrightarrow> ft_pending (fm_tracker m) = Map.empty \<and>
     (\<forall>h st. ft_finalized (fm_tracker m) h = Some st \<longrightarrow> is_rejected st)"

lemma unregistered_new: "unregistered (fm_new q w)"
  by (simp add: unregistered_def fm_new_def ft_new_def)

lemma unregistered_record_ack:
  assumes "unregistered m"
  shows "snd (fm_record_ack C now a m) = m \<and>
    (\<forall>st. fst (fm_record_ack C now a m) = Some st \<longrightarrow> is_rejected st)"
  using assms
  by (auto simp: unregistered_def fm_record_ack_def record_ack_def Let_def split: option.splits)

lemma unregistered_reject [simp]: "unregistered m \<Longrightarrow> unregistered (fm_reject h r m)"
  by (auto simp: unregistered_def fm_reject_def ft_reject_def)

lemma unregistered_record_seen [simp]: "unregistered (snd (fm_record_seen C t m)) = unregistered m"
  by (simp add: unregistered_def fm_record_seen_def split: prod.split)

lemma unregistered_status:
  "unregistered m \<Longrightarrow> fm_get_status m h = Some st \<Longrightarrow> is_rejected st"
  by (auto simp: unregistered_def fm_get_status_def ft_get_status_def split: option.splits)

lemma fm_record_seen_check:
  "fm_check_double_spend (snd (fm_record_seen C t m)) u =
     (if tx_sender u = tx_sender t \<and> tx_sequence u = tx_sequence t \<and> fm_check_double_spend m t = None
      then Some (tx_hash C t) else fm_check_double_spend m u)"
  by (auto simp: fm_record_seen_def fm_check_double_spend_def ss_record_def ss_check_def Let_def)

end
