(* ===== verification/Node.thy ===== *)
theory Node
  imports Node_Finality Mempool Peers Chain_Inv Sync
begin

text \<open>
  The P2P node (node/src/node.rs): its shared state, the state of one connection, and the
  handlers of the messages that do not carry blocks. A handler runs as one atomic step; it
  returns how the message loop goes on, the new states and what it sends, in order. What a step
  reads of its surroundings (clocks, whether the channel to the peer is open, whether the block
  semaphore is free, the order in which a hash map is listed) is the record \<open>env\<close>.
\<close>

section \<open>State\<close>

definition DEFAULT_PORT :: u16 where "DEFAULT_PORT = 8333"

record node_config =
  nc_listen_port :: u16
  nc_seed_nodes :: "socket_addr list"
  nc_enable_discovery :: bool
  nc_data_dir :: "string option"

definition node_config_default :: node_config where
  "node_config_default = \<lparr>nc_listen_port = DEFAULT_PORT, nc_seed_nodes = [], nc_enable_discovery = True,
     nc_data_dir = None\<rparr>"

record 'd node =
  nd_mempool :: mempool
  nd_peers :: peer_manager
  nd_known :: "(socket_addr \<times> string) set"
  nd_discovered :: "socket_addr set"
  nd_ledger :: ledger
  nd_chain :: "'d blockchain"
  nd_finality :: finality_manager
  nd_data_dir :: bool
  nd_sync_ready :: bool
  nd_ibd_peer :: "socket_addr option"
  nd_chain_height :: u64
  nd_max_seen :: u64
  nd_cached_difficulty :: u64
  nd_cached_best_hash :: string
  nd_cached_accounts :: u64
  nd_cached_supply :: u64

text \<open>The local variables of \<open>handle_messages\<close>; instants are milliseconds.\<close>

record conn =
  cn_addr :: socket_addr
  cn_peer_height :: "u64 option"
  cn_progress_height :: u64
  cn_progress_at :: nat
  cn_request_at :: "nat option"
  cn_last_recv :: nat

record env =
  ev_now :: nat
  ev_unix_ms :: u64
  ev_nanos :: u64
  ev_open :: bool
  ev_permit :: bool
  ev_addrs :: "socket_addr set \<Rightarrow> socket_addr list"
  ev_hashes :: "string set \<Rightarrow> string list"

datatype conn_end = Returned | Broken_Pipe | Timed_Out string | Recv_Failed io_error | Crashed

datatype flow = Continue | Stop conn_end

datatype effect =
    Send message
  | Broadcast message "socket_addr option"
  | Save_Ledger ledger

type_synonym 'd outcome = "flow \<times> 'd node \<times> conn \<times> effect list"

text \<open>Doing one thing after the other; the first one that ends the connection ends it.\<close>

definition and_then :: "'d outcome \<Rightarrow> ('d node \<Rightarrow> conn \<Rightarrow> 'd outcome) \<Rightarrow> 'd outcome" where
  "and_then r f = (case r of
     (Continue, st, cn, out) \<Rightarrow> (case f st cn of (fl, st, cn, out') \<Rightarrow> (fl, st, cn, out @ out'))
   | (Stop e, st, cn, out) \<Rightarrow> (Stop e, st, cn, out))"

definition send_to_peer :: "env \<Rightarrow> message \<Rightarrow> 'd node \<Rightarrow> conn \<Rightarrow> 'd outcome" where
  "send_to_peer E msg st cn =
     (if ev_open E then (Continue, st, cn, [Send msg]) else (Stop Broken_Pipe, st, cn, []))"

definition quietly :: "'d node \<Rightarrow> conn \<Rightarrow> 'd outcome" where
  "quietly st cn = (Continue, st, cn, [])"

section \<open>Creation and status\<close>

definition hash_hex :: "crypto \<Rightarrow> hash32 \<Rightarrow> string" where
  "hash_hex C h = hex_encode C (bytes32 h)"

text \<open>
  Both constructors end in the same record; \<open>None\<close> is the panic of \<open>tip\<close> on a store without its
  tip block.
\<close>

definition node_with ::
    "crypto \<Rightarrow> ('d, 'v) storage \<Rightarrow> wallet \<Rightarrow> bool \<Rightarrow> 'd blockchain \<Rightarrow> ledger \<Rightarrow> 'd node option" where
  "node_with C S node_wallet data_dir ch L = (case chain_tip S ch of
     None \<Rightarrow> None
   | Some tip \<Rightarrow> Some
       \<lparr>nd_mempool = mp_new, nd_peers = pm_new, nd_known = {}, nd_discovered = {},
        nd_ledger = L, nd_chain = ch, nd_finality = fm_new 1 node_wallet, nd_data_dir = data_dir,
        nd_sync_ready = False, nd_ibd_peer = None, nd_chain_height = bc_height ch,
        nd_max_seen = bc_height ch, nd_cached_difficulty = ucast (bc_difficulty ch),
        nd_cached_best_hash = hash_hex C (blk_hash tip),
        nd_cached_accounts = of_nat (account_count L), nd_cached_supply = total_supply L\<rparr>)"

text \<open>\<open>new\<close>: with a data directory from its files, without one a fresh store and an empty ledger.\<close>

definition node_new ::
    "crypto \<Rightarrow> ('d, 'v) storage \<Rightarrow> wallet \<Rightarrow> 'd \<Rightarrow> legacy_chain option \<Rightarrow> bool \<Rightarrow> ledger option
       \<Rightarrow> (string \<times> account_state) list option \<Rightarrow> 'd node option" where
  "node_new C S node_wallet db legacy data_dir bin_file json_file =
     (let ch = load_or_create C S db legacy TESTNET_DIFFICULTY in
      if data_dir
      then node_with C S node_wallet True ch (fst (load_or_create_testnet C S bin_file json_file ch))
      else node_with C S node_wallet False ch ledger_new)"

definition node_new_testnet ::
    "crypto \<Rightarrow> ('d, 'v) storage \<Rightarrow> wallet \<Rightarrow> 'd \<Rightarrow> legacy_chain option \<Rightarrow> bool \<Rightarrow> 'd node option" where
  "node_new_testnet C S node_wallet db legacy data_dir =
     node_with C S node_wallet data_dir (load_or_create C S db legacy TESTNET_DIFFICULTY) new_testnet"

record node_status =
  ns_listen_port :: u16
  ns_peer_count :: nat
  ns_inbound_count :: nat
  ns_outbound_count :: nat
  ns_mempool_size :: nat
  ns_account_count :: nat
  ns_total_supply :: u64
  ns_chain_height :: u64
  ns_difficulty :: u32
  ns_best_hash :: string

definition nd_status :: "u16 \<Rightarrow> 'd node \<Rightarrow> node_status" where
  "nd_status listen_port st =
     \<lparr>ns_listen_port = listen_port, ns_peer_count = pm_count (nd_peers st),
      ns_inbound_count = inbound_count (nd_peers st), ns_outbound_count = outbound_count (nd_peers st),
      ns_mempool_size = mp_len (nd_mempool st), ns_account_count = unat (nd_cached_accounts st),
      ns_total_supply = nd_cached_supply st, ns_chain_height = nd_chain_height st,
      ns_difficulty = ucast (nd_cached_difficulty st), ns_best_hash = nd_cached_best_hash st\<rparr>"

text \<open>\<open>save_state\<close>: saving the chain does nothing, the store is written as it changes.\<close>

definition save_state :: "'d node \<Rightarrow> effect list" where
  "save_state st = (if nd_data_dir st then [Save_Ledger (nd_ledger st)] else [])"

definition broadcast_tx :: "transaction \<Rightarrow> effect list" where
  "broadcast_tx t = [Broadcast (MsgTx t) None]"

definition broadcast_block :: "block \<Rightarrow> effect list" where
  "broadcast_block b = [Broadcast (NewBlock b) None]"

text \<open>The three caches that every change of the chain refreshes together.\<close>

definition store_caches :: "'d node \<Rightarrow> 'd node" where
  "store_caches st = st\<lparr>nd_cached_difficulty := ucast (bc_difficulty (nd_chain st)),
     nd_cached_accounts := of_nat (account_count (nd_ledger st)),
     nd_cached_supply := total_supply (nd_ledger st)\<rparr>"

definition purge :: "crypto \<Rightarrow> transaction list \<Rightarrow> 'd node \<Rightarrow> 'd node" where
  "purge C ts st = st\<lparr>nd_mempool := foldl (\<lambda>p t. mp_remove (tx_hash_hex C t) p) (nd_mempool st) ts\<rparr>"

section \<open>Peer messages\<close>

definition handle_hello :: "env \<Rightarrow> u8 \<Rightarrow> string \<Rightarrow> 'd node \<Rightarrow> conn \<Rightarrow> 'd outcome" where
  "handle_hello E version user_agent st cn =
     quietly (st\<lparr>nd_peers := update_hello (ev_now E) (cn_addr cn) version user_agent (nd_peers st)\<rparr>) cn"

definition handle_pong :: "env \<Rightarrow> 'd node \<Rightarrow> conn \<Rightarrow> 'd outcome" where
  "handle_pong E st cn =
     quietly (st\<lparr>nd_peers := touch (ev_now E) (cn_addr cn) (nd_peers st)\<rparr>) cn"

definition handle_ping :: "env \<Rightarrow> u64 \<Rightarrow> 'd node \<Rightarrow> conn \<Rightarrow> 'd outcome" where
  "handle_ping E nonce st cn = and_then (send_to_peer E (Pong nonce) st cn) (handle_pong E)"

definition handle_get_peers :: "env \<Rightarrow> 'd node \<Rightarrow> conn \<Rightarrow> 'd outcome" where
  "handle_get_peers E st cn = send_to_peer E (Peers (ev_addrs E (all_addrs (nd_peers st)))) st cn"

definition handle_peers :: "socket_addr list \<Rightarrow> 'd node \<Rightarrow> conn \<Rightarrow> 'd outcome" where
  "handle_peers addrs st cn =
     (let current_ips = sa_ip ` all_addrs (nd_peers st);
          new_peers = filter (\<lambda>a. sa_ip a \<notin> current_ips) addrs
      in quietly (st\<lparr>nd_discovered := nd_discovered st \<union> set new_peers\<rparr>) cn)"

section \<open>Transactions\<close>

definition handle_tx :: "crypto \<Rightarrow> env \<Rightarrow> transaction \<Rightarrow> 'd node \<Rightarrow> conn \<Rightarrow> 'd outcome" where
  "handle_tx C E t st cn =
     (let h = tx_hash C t;
          hex = tx_hash_hex C t
      in case fm_check_double_spend (nd_finality st) t of
           Some original \<Rightarrow>
             quietly (st\<lparr>nd_finality := fm_reject h ''double-spend'' (nd_finality st)\<rparr>) cn
         | None \<Rightarrow>
             (case fst (apply_tx C (nd_ledger st) t) of
                Inl e \<Rightarrow> quietly st cn
              | Inr _ \<Rightarrow>
                  (case mp_insert C t (nd_mempool st) of
                     (Inl e, pool) \<Rightarrow> quietly (st\<lparr>nd_mempool := pool\<rparr>) cn
                   | (Inr False, pool) \<Rightarrow> quietly (st\<lparr>nd_mempool := pool\<rparr>) cn
                   | (Inr True, pool) \<Rightarrow>
                       let st = st\<lparr>nd_mempool := pool,
                                   nd_finality := snd (fm_record_seen C t (nd_finality st))\<rparr>
                       in (case apply_tx C (nd_ledger st) t of
                             (Inl e, L) \<Rightarrow> (Stop Returned, st\<lparr>nd_ledger := L\<rparr>, cn, [])
                           | (Inr _, L) \<Rightarrow>
                               let st = st\<lparr>nd_ledger := L,
                                           nd_known := insert (cn_addr cn, hex) (nd_known st)\<rparr>;
                                   ack = fm_create_ack C (ev_unix_ms E) h (nd_finality st)
                               in and_then (send_to_peer E (MsgTxAck ack) st cn)
                                    (\<lambda>st cn. (Continue, st, cn,
                                       [Broadcast (MsgTx t) (Some (cn_addr cn)),
                                        Broadcast (MsgTxAck ack) (Some (cn_addr cn))]))))))"

definition handle_get_tx_hashes :: "env \<Rightarrow> 'd node \<Rightarrow> conn \<Rightarrow> 'd outcome" where
  "handle_get_tx_hashes E st cn =
     send_to_peer E (TxHashes (ev_hashes E (mp_tx_hashes (nd_mempool st)))) st cn"

definition handle_tx_hashes :: "env \<Rightarrow> string list \<Rightarrow> 'd node \<Rightarrow> conn \<Rightarrow> 'd outcome" where
  "handle_tx_hashes E hashes st cn =
     (let missing = filter (\<lambda>h. \<not> mp_contains (nd_mempool st) h) hashes
      in if missing \<noteq> [] then send_to_peer E (GetTxs missing) st cn else quietly st cn)"

primrec send_each :: "env \<Rightarrow> message list \<Rightarrow> 'd node \<Rightarrow> conn \<Rightarrow> 'd outcome" where
  "send_each E [] st cn = quietly st cn"
| "send_each E (m # ms) st cn = and_then (send_to_peer E m st cn) (send_each E ms)"

definition handle_get_txs :: "env \<Rightarrow> string list \<Rightarrow> 'd node \<Rightarrow> conn \<Rightarrow> 'd outcome" where
  "handle_get_txs E hashes st cn = send_each E (map MsgTx (mp_get_txs (nd_mempool st) hashes)) st cn"

section \<open>Acknowledgements\<close>

definition handle_tx_ack :: "crypto \<Rightarrow> env \<Rightarrow> tx_ack \<Rightarrow> 'd node \<Rightarrow> conn \<Rightarrow> 'd outcome" where
  "handle_tx_ack C E a st cn =
     (case fm_record_ack C (ev_now E) a (nd_finality st) of
        (None, m) \<Rightarrow> quietly (st\<lparr>nd_finality := m\<rparr>) cn
      | (Some status, m) \<Rightarrow>
          (Continue, st\<lparr>nd_finality := m\<rparr>, cn, [Broadcast (MsgTxAck a) (Some (cn_addr cn))]))"

definition handle_get_tx_status :: "crypto \<Rightarrow> env \<Rightarrow> string \<Rightarrow> 'd node \<Rightarrow> conn \<Rightarrow> 'd outcome" where
  "handle_get_tx_status C E h st cn =
     (let hash_bytes = (case hex_decode C h of
            Some bs \<Rightarrow> if length bs = 32 then arr32 bs else 0 | None \<Rightarrow> 0);
          (acks, final) = (case fm_get_status (nd_finality st) hash_bytes of
            Some (Confirmed acks _) \<Rightarrow> (acks, True)
          | Some (Pending acks _) \<Rightarrow> (acks, False)
          | _ \<Rightarrow> (0, False))
      in send_to_peer E (TxStatus h acks final) st cn)"

end
