(* ===== verification/Node_Blocks.thy ===== *)
theory Node_Blocks
  imports Node
begin

text \<open>
  The handlers of the messages that carry blocks and heights (node/src/node.rs), with the
  batch download and its reorganisations, the watchdog of the ping timer and the submission of
  a mined block. Reading and writing the chain within one handler is one atomic step.
\<close>


definition IBD_RESEND_INTERVAL :: nat where "IBD_RESEND_INTERVAL = 12000"
definition IBD_STALL_SWITCH :: nat where "IBD_STALL_SWITCH = 45000"

text \<open>Asking for the chunk of blocks after a height, up to a last one.\<close>

definition request_blocks :: "env \<Rightarrow> u64 \<Rightarrow> u64 \<Rightarrow> 'd node \<Rightarrow> conn \<Rightarrow> 'd outcome" where
  "request_blocks E our_h last_idx st cn =
     (let from_idx = our_h + 1;
          to_idx = min (from_idx + IBD_CHUNK_SIZE - 1) last_idx
      in and_then (send_to_peer E (GetBlocks from_idx to_idx) st cn)
           (\<lambda>st cn. quietly st (cn\<lparr>cn_request_at := Some (ev_now E)\<rparr>)))"

text \<open>A block ahead of the tip: note its height and ask for what is missing.\<close>

definition behind_peer :: "env \<Rightarrow> u64 \<Rightarrow> u64 \<Rightarrow> 'd node \<Rightarrow> conn \<Rightarrow> 'd outcome" where
  "behind_peer E our_h block_index st cn =
     request_blocks E our_h block_index
       (st\<lparr>nd_max_seen := max (nd_max_seen st) block_index, nd_sync_ready := False\<rparr>)
       (cn\<lparr>cn_peer_height := Some block_index\<rparr>)"

section \<open>A new block\<close>

definition new_block_accepted :: "crypto \<Rightarrow> block \<Rightarrow> 'd node \<Rightarrow> conn \<Rightarrow> 'd outcome" where
  "new_block_accepted C b st cn =
     (let st = (store_caches (st\<lparr>nd_chain_height := blk_index b\<rparr>))
                 \<lparr>nd_cached_best_hash := hash_hex C (blk_hash b)\<rparr>;
          st = purge C (blk_transactions b) st
      in (Continue, st, cn, save_state st @ [Broadcast (NewBlock b) (Some (cn_addr cn))]))"

text \<open>Replacing the tip by a competing block of the same height with a lower hash.\<close>

definition replace_tip ::
    "crypto \<Rightarrow> ('d, 'v) storage \<Rightarrow> env \<Rightarrow> block \<Rightarrow> 'd node \<Rightarrow> conn \<Rightarrow> 'd outcome" where
  "replace_tip C S E b st cn =
     (case revert_tip S (nd_chain st) (nd_ledger st) of
        (Inl (Err e), ch, L) \<Rightarrow> quietly (st\<lparr>nd_chain := ch, nd_ledger := L\<rparr>) cn
      | (Inl Panic, ch, L) \<Rightarrow> (Stop Crashed, st\<lparr>nd_chain := ch, nd_ledger := L\<rparr>, cn, [])
      | (Inr reverted, ch, L) \<Rightarrow>
          (case apply_block C S (ev_unix_ms E) ch b L of
             (Inr _, ch, L) \<Rightarrow>
               let st = store_caches (st\<lparr>nd_chain := ch, nd_ledger := L, nd_chain_height := blk_index b\<rparr>);
                   st = st\<lparr>nd_cached_best_hash := hash_hex C (blk_hash b)\<rparr>;
                   st = purge C (blk_transactions b) (purge C (blk_transactions reverted) st)
               in (Continue, st, cn, save_state st @ [Broadcast (NewBlock b) (Some (cn_addr cn))])
           | (Inl Panic, ch, L) \<Rightarrow> (Stop Crashed, st\<lparr>nd_chain := ch, nd_ledger := L\<rparr>, cn, [])
           | (Inl (Err _), ch, L) \<Rightarrow>
               (case apply_block C S (ev_unix_ms E) ch reverted L of
                  (Inl Panic, ch, L) \<Rightarrow> (Stop Crashed, st\<lparr>nd_chain := ch, nd_ledger := L\<rparr>, cn, [])
                | (_, ch, L) \<Rightarrow> quietly (st\<lparr>nd_chain := ch, nd_ledger := L\<rparr>) cn)))"

definition competing_block ::
    "crypto \<Rightarrow> ('d, 'v) storage \<Rightarrow> env \<Rightarrow> block \<Rightarrow> u64 \<Rightarrow> 'd node \<Rightarrow> conn \<Rightarrow> 'd outcome" where
  "competing_block C S E b our_h st cn =
     (case chain_tip S (nd_chain st) of
        None \<Rightarrow> (Stop Crashed, st, cn, [])
      | Some current_tip \<Rightarrow>
          if blk_hash b < blk_hash current_tip
          then (case block_at S (nd_chain st) (our_h - 1) of
                  None \<Rightarrow> quietly st cn
                | Some parent \<Rightarrow>
                    if blk_prev_hash b = blk_hash parent
                       \<and> block_is_valid C (ev_unix_ms E) b parent (bc_difficulty (nd_chain st))
                       \<and> blk_reward b = TESTNET_REWARD
                    then replace_tip C S E b st cn
                    else quietly st cn)
          else quietly st cn)"

definition new_block_refused ::
    "crypto \<Rightarrow> ('d, 'v) storage \<Rightarrow> env \<Rightarrow> block \<Rightarrow> 'd node \<Rightarrow> conn \<Rightarrow> 'd outcome" where
  "new_block_refused C S E b st cn =
     (let our_h = bc_height (nd_chain st) in
      if blk_index b > our_h + 1 then behind_peer E our_h (blk_index b) st cn
      else if blk_index b = our_h + 1 then
        (let fork_start = (if our_h > 10 then our_h - 10 else 1)
         in send_to_peer E (GetBlocks fork_start (blk_index b)) st cn)
      else if blk_index b = our_h then competing_block C S E b our_h st cn
      else quietly st cn)"

definition process_block ::
    "crypto \<Rightarrow> ('d, 'v) storage \<Rightarrow> env \<Rightarrow> block \<Rightarrow> 'd node \<Rightarrow> conn \<Rightarrow> 'd outcome" where
  "process_block C S E b st cn =
     (let our_height = bc_height (nd_chain st) in
      case chain_tip S (nd_chain st) of
        None \<Rightarrow> (Stop Crashed, st, cn, [])
      | Some tip \<Rightarrow>
          let (r, ch, L) =
            (if blk_index b = our_height + 1 \<and> blk_prev_hash b = blk_hash tip
             then apply_block C S (ev_unix_ms E) (nd_chain st) b (nd_ledger st)
             else if blk_index b \<le> our_height
             then (Inl (Err InvalidBlock), nd_chain st, nd_ledger st)
             else apply_block C S (ev_unix_ms E) (nd_chain st) b (nd_ledger st));
              st = st\<lparr>nd_chain := ch, nd_ledger := L\<rparr>
          in case r of
               Inr _ \<Rightarrow> new_block_accepted C b st cn
             | Inl (Err _) \<Rightarrow> new_block_refused C S E b st cn
             | Inl Panic \<Rightarrow> (Stop Crashed, st, cn, []))"

definition handle_new_block ::
    "crypto \<Rightarrow> ('d, 'v) storage \<Rightarrow> env \<Rightarrow> block \<Rightarrow> 'd node \<Rightarrow> conn \<Rightarrow> 'd outcome" where
  "handle_new_block C S E b st cn =
     (if nd_ibd_peer st \<noteq> None \<and> nd_ibd_peer st \<noteq> Some (cn_addr cn) then quietly st cn
      else
        let our_height = nd_chain_height st in
        if blk_index b > our_height + 1 then behind_peer E our_height (blk_index b) st cn
        else if blk_index b < our_height then quietly st cn
        else if \<not> ev_permit E then quietly st cn
        else process_block C S E b st cn)"

section \<open>Heights and ranges\<close>

definition handle_get_chain_height :: "env \<Rightarrow> 'd node \<Rightarrow> conn \<Rightarrow> 'd outcome" where
  "handle_get_chain_height E st cn = send_to_peer E (ChainHeight (bc_height (nd_chain st))) st cn"

definition handle_get_blocks :: "('d, 'v) storage \<Rightarrow> env \<Rightarrow> u64 \<Rightarrow> u64 \<Rightarrow> 'd node \<Rightarrow> conn \<Rightarrow> 'd outcome" where
  "handle_get_blocks S E from_idx to_idx st cn =
     send_to_peer E (Blocks (blocks_range S (nd_chain st) from_idx to_idx)) st cn"

definition handle_chain_height :: "env \<Rightarrow> u64 \<Rightarrow> 'd node \<Rightarrow> conn \<Rightarrow> 'd outcome" where
  "handle_chain_height E peer_h st cn =
     (let st = st\<lparr>nd_max_seen := max (nd_max_seen st) peer_h\<rparr>;
          cn = cn\<lparr>cn_peer_height := Some peer_h\<rparr>;
          our_h = bc_height (nd_chain st)
      in if peer_h > our_h then
           (case nd_ibd_peer st of
              Some a \<Rightarrow>
                if a \<noteq> cn_addr cn then quietly st cn
                else request_blocks E our_h peer_h (st\<lparr>nd_sync_ready := False\<rparr>) cn
            | None \<Rightarrow>
                request_blocks E our_h peer_h
                  (st\<lparr>nd_ibd_peer := Some (cn_addr cn), nd_sync_ready := False\<rparr>) cn)
         else
           (let ibd_active = (nd_ibd_peer st \<noteq> None);
                target_h = nd_max_seen st
            in if \<not> ibd_active \<and> our_h \<ge> target_h \<and> \<not> nd_sync_ready st
               then quietly (st\<lparr>nd_sync_ready := True\<rparr>) cn
               else if ibd_active \<or> our_h < target_h
               then quietly (st\<lparr>nd_sync_ready := False\<rparr>) cn
               else quietly st cn))"

section \<open>A batch of blocks\<close>

text \<open>The end of a download: the slot is free again and the node is ready or not.\<close>

definition sync_complete :: "u64 \<Rightarrow> 'd node \<Rightarrow> conn \<Rightarrow> 'd outcome" where
  "sync_complete our_h st cn =
     (let st = st\<lparr>nd_ibd_peer := None\<rparr>;
          cn = cn\<lparr>cn_request_at := None\<rparr>
      in if our_h \<ge> nd_max_seen st \<and> \<not> nd_sync_ready st
         then quietly (st\<lparr>nd_sync_ready := True\<rparr>) cn
         else quietly (st\<lparr>nd_sync_ready := False\<rparr>) cn)"

text \<open>
  The local variables of the batch: whether it crashed, how many blocks were applied, the last
  height, the node and the connection.
\<close>

type_synonym 'd batch = "bool \<times> nat \<times> u64 \<times> 'd node \<times> conn"

text \<open>The blocks of the batch above the fork point, after a reorganisation.\<close>

fun reapply_loop ::
    "crypto \<Rightarrow> ('d, 'v) storage \<Rightarrow> env \<Rightarrow> u64 \<Rightarrow> block list \<Rightarrow> nat \<Rightarrow> u64 \<Rightarrow> 'd node \<Rightarrow> conn \<Rightarrow> 'd batch" where
  "reapply_loop C S E fp [] applied last_height st cn = (False, applied, last_height, st, cn)"
| "reapply_loop C S E fp (b # bs) applied last_height st cn =
     (if blk_index b \<le> fp then reapply_loop C S E fp bs applied last_height st cn
      else case apply_block_ibd C S (ev_unix_ms E) (nd_chain st) b (nd_ledger st) of
        (Inr _, ch, L) \<Rightarrow>
          reapply_loop C S E fp bs (applied + 1) (blk_index b)
            (store_caches (st\<lparr>nd_chain := ch, nd_ledger := L, nd_chain_height := blk_index b\<rparr>))
            (cn\<lparr>cn_progress_height := blk_index b, cn_progress_at := ev_now E\<rparr>)
      | (Inl (Err _), ch, L) \<Rightarrow> (False, applied, last_height, st\<lparr>nd_chain := ch, nd_ledger := L\<rparr>, cn)
      | (Inl Panic, ch, L) \<Rightarrow> (True, applied, last_height, st\<lparr>nd_chain := ch, nd_ledger := L\<rparr>, cn))"

definition reorg_to ::
    "crypto \<Rightarrow> ('d, 'v) storage \<Rightarrow> env \<Rightarrow> u64 \<Rightarrow> block list \<Rightarrow> nat \<Rightarrow> u64 \<Rightarrow> 'd node \<Rightarrow> conn \<Rightarrow> 'd batch" where
  "reorg_to C S E fp blocks applied last_height st cn =
     (case revert_to_height S (nd_chain st) fp (nd_ledger st) of
        (Inr reverted, ch, L) \<Rightarrow>
          reapply_loop C S E fp blocks applied last_height (st\<lparr>nd_chain := ch, nd_ledger := L\<rparr>) cn
      | (Inl e, ch, L) \<Rightarrow>
          (e = Panic, applied, last_height, st\<lparr>nd_chain := ch, nd_ledger := L\<rparr>, cn))"

text \<open>Rolling back to a checkpoint; the download goes on from there (\<open>applied\<close> is set to 1).\<close>

definition rollback_to ::
    "crypto \<Rightarrow> ('d, 'v) storage \<Rightarrow> u64 \<Rightarrow> bool \<Rightarrow> nat \<Rightarrow> u64 \<Rightarrow> 'd node \<Rightarrow> conn \<Rightarrow> 'd batch" where
  "rollback_to C S anchor reset_difficulty applied last_height st cn =
     (case revert_to_height S (nd_chain st) anchor (nd_ledger st) of
        (Inr reverted, ch, L) \<Rightarrow>
          let ch = (if reset_difficulty then ch\<lparr>bc_difficulty := TESTNET_DIFFICULTY\<rparr> else ch);
              st = store_caches (st\<lparr>nd_chain := ch, nd_ledger := L, nd_chain_height := anchor\<rparr>)
          in (case chain_tip S ch of
                None \<Rightarrow> (True, applied, last_height, st, cn)
              | Some tip \<Rightarrow>
                  (False, 1, anchor, st\<lparr>nd_cached_best_hash := hash_hex C (blk_hash tip)\<rparr>, cn))
      | (Inl e, ch, L) \<Rightarrow>
          (e = Panic, applied, last_height, st\<lparr>nd_chain := ch, nd_ledger := L\<rparr>, cn))"

definition max_index :: "block list \<Rightarrow> u64" where
  "max_index blocks = foldl max 0 (map blk_index blocks)"

text \<open>A block of the batch does not apply.\<close>

definition batch_fork ::
    "crypto \<Rightarrow> ('d, 'v) storage \<Rightarrow> env \<Rightarrow> block list \<Rightarrow> nat \<Rightarrow> u64 \<Rightarrow> 'd node \<Rightarrow> conn \<Rightarrow> 'd batch" where
  "batch_fork C S E blocks applied last_height st cn =
     (let height = bc_height (nd_chain st);
          incoming_max = max_index blocks
      in if incoming_max \<le> height then (False, applied, last_height, st, cn)
         else case find_fork_point S (nd_chain st) blocks of
           Some fp \<Rightarrow>
             (let anchor = checkpoint_anchor_at_or_below (saturating_sub height 1) in
              if fp = height \<and> applied = 0 \<and> incoming_max > height + 50 \<and> anchor < height
              then rollback_to C S anchor False applied last_height st cn
              else
                let reorg_depth = height - fp;
                    max_reorg = (if incoming_max > height + 5 then height else 10)
                in if reorg_depth \<le> max_reorg
                   then reorg_to C S E fp blocks applied last_height st cn
                   else (False, applied, last_height, st, cn))
         | None \<Rightarrow>
             (let peer_announced = (case cn_peer_height cn of Some h \<Rightarrow> h | None \<Rightarrow> incoming_max) in
              if incoming_max > height + 10 \<and> (height < 200 \<or> peer_announced > height + 300)
              then
                let anchor = (if height < 200 then 0
                              else checkpoint_anchor_at_or_below (saturating_sub height 1))
                in rollback_to C S anchor (anchor = 0) applied last_height st cn
              else (False, applied, last_height, st, cn)))"

fun batch_loop ::
    "crypto \<Rightarrow> ('d, 'v) storage \<Rightarrow> env \<Rightarrow> block list \<Rightarrow> block list \<Rightarrow> nat \<Rightarrow> u64 \<Rightarrow> 'd node \<Rightarrow> conn
       \<Rightarrow> 'd batch" where
  "batch_loop C S E blocks [] applied last_height st cn = (False, applied, last_height, st, cn)"
| "batch_loop C S E blocks (b # bs) applied last_height st cn =
     (case apply_block_ibd C S (ev_unix_ms E) (nd_chain st) b (nd_ledger st) of
        (Inr _, ch, L) \<Rightarrow>
          batch_loop C S E blocks bs (applied + 1) (blk_index b)
            ((store_caches (st\<lparr>nd_chain := ch, nd_ledger := L, nd_chain_height := blk_index b\<rparr>))
               \<lparr>nd_cached_best_hash := hash_hex C (blk_hash b)\<rparr>)
            (cn\<lparr>cn_progress_height := blk_index b, cn_progress_at := ev_now E\<rparr>)
      | (Inl (Err _), ch, L) \<Rightarrow>
          batch_fork C S E blocks applied last_height (st\<lparr>nd_chain := ch, nd_ledger := L\<rparr>) cn
      | (Inl Panic, ch, L) \<Rightarrow> (True, applied, last_height, st\<lparr>nd_chain := ch, nd_ledger := L\<rparr>, cn))"

definition batch_applied :: "crypto \<Rightarrow> ('d, 'v) storage \<Rightarrow> env \<Rightarrow> 'd node \<Rightarrow> conn \<Rightarrow> 'd outcome" where
  "batch_applied C S E st cn =
     (case chain_tip S (nd_chain st) of
        None \<Rightarrow> (Stop Crashed, st, cn, [])
      | Some tip \<Rightarrow>
          let st = st\<lparr>nd_cached_best_hash := hash_hex C (blk_hash tip)\<rparr>;
              our_h = bc_height (nd_chain st)
          in and_then (Continue, st, cn, save_state st)
               (\<lambda>st cn. case cn_peer_height cn of
                  None \<Rightarrow> quietly st cn
                | Some ph \<Rightarrow>
                    if our_h < ph then request_blocks E our_h ph st cn
                    else sync_complete our_h st cn))"

definition handle_blocks ::
    "crypto \<Rightarrow> ('d, 'v) storage \<Rightarrow> env \<Rightarrow> block list \<Rightarrow> 'd node \<Rightarrow> conn \<Rightarrow> 'd outcome" where
  "handle_blocks C S E blocks st cn =
     (if nd_ibd_peer st \<noteq> None \<and> nd_ibd_peer st \<noteq> Some (cn_addr cn) then quietly st cn
      else if blocks = [] then sync_complete (bc_height (nd_chain st)) st cn
      else
        let st = st\<lparr>nd_max_seen := max (nd_max_seen st) (blk_index (last blocks))\<rparr>
        in case batch_loop C S E blocks blocks 0 0 st cn of
             (crashed, applied, last_height, st, cn) \<Rightarrow>
               if crashed then (Stop Crashed, st, cn, [])
               else if applied > 0 then batch_applied C S E st cn
               else quietly st cn)"

section \<open>The timer\<close>

definition watchdog :: "env \<Rightarrow> u64 \<Rightarrow> 'd node \<Rightarrow> conn \<Rightarrow> 'd outcome" where
  "watchdog E ph st cn =
     (let st = st\<lparr>nd_max_seen := max (nd_max_seen st) ph\<rparr>;
          our_h = nd_chain_height st;
          cn = (if our_h > cn_progress_height cn
                then cn\<lparr>cn_progress_height := our_h, cn_progress_at := ev_now E\<rparr> else cn)
      in if our_h < ph then
           and_then
             (if (case cn_request_at cn of None \<Rightarrow> True | Some t \<Rightarrow> ev_now E - t \<ge> IBD_RESEND_INTERVAL)
              then request_blocks E our_h ph st cn else quietly st cn)
             (\<lambda>st cn.
                if ev_now E - cn_progress_at cn \<ge> IBD_STALL_SWITCH
                then (Stop (Timed_Out ''ibd stalled, switching peer''),
                      st\<lparr>nd_ibd_peer := None, nd_sync_ready := False\<rparr>, cn, [])
                else quietly st cn)
         else quietly st cn)"

definition handle_tick :: "env \<Rightarrow> 'd node \<Rightarrow> conn \<Rightarrow> 'd outcome" where
  "handle_tick E st cn =
     (if ev_now E - cn_last_recv cn > 120000
      then (Stop (Timed_Out ''peer idle timeout''), st, cn, [])
      else
        and_then
          (case (nd_ibd_peer st = Some (cn_addr cn), cn_peer_height cn) of
             (True, Some ph) \<Rightarrow> watchdog E ph st cn
           | _ \<Rightarrow> quietly st cn)
          (send_to_peer E (Ping (ev_nanos E))))"

section \<open>Submitting a mined block\<close>

definition submit_mined_block ::
    "crypto \<Rightarrow> ('d, 'v) storage \<Rightarrow> env \<Rightarrow> block \<Rightarrow> 'd node \<Rightarrow> bool partial \<times> 'd node \<times> effect list" where
  "submit_mined_block C S E b st =
     (if blk_index b \<noteq> nd_chain_height st + 1 then (Inr False, st, [])
      else case apply_block C S (ev_unix_ms E) (nd_chain st) b (nd_ledger st) of
        (Inr _, ch, L) \<Rightarrow>
          let st = store_caches (st\<lparr>nd_chain := ch, nd_ledger := L, nd_chain_height := blk_index b\<rparr>);
              st = st\<lparr>nd_cached_best_hash := hash_hex C (blk_hash b)\<rparr>;
              st = purge C (blk_transactions b) st
          in (Inr True, st, save_state st @ broadcast_block b)
      | (Inl (Err _), ch, L) \<Rightarrow> (Inr False, st\<lparr>nd_chain := ch, nd_ledger := L\<rparr>, [])
      | (Inl Panic, ch, L) \<Rightarrow> (Inl Panic, st\<lparr>nd_chain := ch, nd_ledger := L\<rparr>, []))"

section \<open>The message loop\<close>

datatype loop_event = Received message | Receive_Error io_error | Tick

text \<open>
  Log lines are left out. The arguments of those at the debug level, such as the cut hash of a
  \<open>TxStatus\<close>, are evaluated only when that level is enabled, which the shipped default is not.
\<close>

fun dispatch ::
    "crypto \<Rightarrow> ('d, 'v) storage \<Rightarrow> env \<Rightarrow> message \<Rightarrow> 'd node \<Rightarrow> conn \<Rightarrow> 'd outcome" where
  "dispatch C S E (Hello version _ user_agent) st cn = handle_hello E version user_agent st cn"
| "dispatch C S E GetPeers st cn = handle_get_peers E st cn"
| "dispatch C S E (Peers addrs) st cn = handle_peers addrs st cn"
| "dispatch C S E (MsgTx t) st cn = handle_tx C E t st cn"
| "dispatch C S E GetTxHashes st cn = handle_get_tx_hashes E st cn"
| "dispatch C S E (TxHashes hashes) st cn = handle_tx_hashes E hashes st cn"
| "dispatch C S E (GetTxs hashes) st cn = handle_get_txs E hashes st cn"
| "dispatch C S E (Ping nonce) st cn = handle_ping E nonce st cn"
| "dispatch C S E (Pong nonce) st cn = handle_pong E st cn"
| "dispatch C S E GetChainHeight st cn = handle_get_chain_height E st cn"
| "dispatch C S E (ChainHeight h) st cn = handle_chain_height E h st cn"
| "dispatch C S E (GetBlocks from_idx to_idx) st cn = handle_get_blocks S E from_idx to_idx st cn"
| "dispatch C S E (Blocks blocks) st cn = handle_blocks C S E blocks st cn"
| "dispatch C S E (NewBlock b) st cn = handle_new_block C S E b st cn"
| "dispatch C S E (MsgTxAck a) st cn = handle_tx_ack C E a st cn"
| "dispatch C S E (GetTxStatus h) st cn = handle_get_tx_status C E h st cn"
| "dispatch C S E (TxStatus h acks final) st cn = quietly st cn"

fun loop_step ::
    "crypto \<Rightarrow> ('d, 'v) storage \<Rightarrow> env \<Rightarrow> loop_event \<Rightarrow> 'd node \<Rightarrow> conn \<Rightarrow> 'd outcome" where
  "loop_step C S E (Received msg) st cn = dispatch C S E msg st (cn\<lparr>cn_last_recv := ev_now E\<rparr>)"
| "loop_step C S E (Receive_Error e) st cn = (Stop (Recv_Failed e), st, cn, [])"
| "loop_step C S E Tick st cn = handle_tick E st cn"

end
