(* ===== verification/Node_Loop.thy ===== *)
theory Node_Loop
  imports Node_Blocks
begin

text \<open>
  The life of the connections of a node (node/src/node.rs, node/src/seeds.rs): accepting,
  connecting, the messages a connection starts with, what is cleaned up when it ends, the choice
  of peers to connect to and the removal of silent peers; and the node with all its
  connections as one state machine (\<open>sys_step\<close>).
\<close>

section \<open>Seeds\<close>

definition TESTNET_SEEDS :: "string list" where
  "TESTNET_SEEDS = [''185.211.6.168:8333'', ''82.197.67.49:8333'', ''46.250.234.67:8333'']"

text \<open>The resolver is a parameter; a name that does not resolve gives no address.\<close>

definition resolve_seeds :: "(string \<Rightarrow> socket_addr list) \<Rightarrow> socket_addr list \<Rightarrow> socket_addr list" where
  "resolve_seeds to_socket_addrs config_seeds =
     (if config_seeds \<noteq> [] then config_seeds else concat (map to_socket_addrs TESTNET_SEEDS))"

definition startup_seeds ::
    "(string \<Rightarrow> socket_addr list) \<Rightarrow> socket_addr list \<Rightarrow> ip_addr set \<Rightarrow> u16 \<Rightarrow> socket_addr list" where
  "startup_seeds to_socket_addrs config_seeds own_ips listen_port =
     filter (\<lambda>a. \<not> (sa_ip a \<in> own_ips \<and> sa_port a = listen_port))
       (resolve_seeds to_socket_addrs config_seeds)"

text \<open>
  One round of the reconnection task: the addresses it tries, and the state with the discovered
  peers drained. \<open>None\<close> when there is no room for an outbound peer.
\<close>

definition reconnect_round ::
    "env \<Rightarrow> (string \<Rightarrow> socket_addr list) \<Rightarrow> socket_addr list \<Rightarrow> ip_addr set \<Rightarrow> u16 \<Rightarrow> 'd node
       \<Rightarrow> (socket_addr list \<times> 'd node) option" where
  "reconnect_round E to_socket_addrs config_seeds own_ips port st =
     (let outbound = outbound_count (nd_peers st) in
      if \<not> can_accept (nd_peers st) Outbound then None
      else
        let candidates = (if outbound < 2 then resolve_seeds to_socket_addrs config_seeds else [])
                           @ ev_addrs E (nd_discovered st);
            st = st\<lparr>nd_discovered := {}\<rparr>;
            connected_ips = sa_ip ` all_addrs (nd_peers st);
            candidates = filter (\<lambda>a. sa_ip a \<notin> connected_ips
                                   \<and> \<not> (sa_ip a \<in> own_ips \<and> sa_port a = port)) candidates
        in Some (candidates, st))"

section \<open>Opening and closing connections\<close>

text \<open>An accepted socket: banned, too frequent or too many connections are dropped.\<close>

definition accept_connection :: "nat \<Rightarrow> socket_addr \<Rightarrow> peer_manager \<Rightarrow> bool \<times> peer_manager" where
  "accept_connection now addr pm =
     (case pm_is_banned now (sa_ip addr) pm of
        (True, pm) \<Rightarrow> (False, pm)
      | (False, pm) \<Rightarrow>
          (case track_connection_attempt now (sa_ip addr) pm of
             (False, pm) \<Rightarrow> (False, pm)
           | (True, pm) \<Rightarrow>
               if can_accept pm Inbound then add_peer now addr Inbound pm else (False, pm)))"

definition conn_start :: "env \<Rightarrow> socket_addr \<Rightarrow> 'd node \<Rightarrow> conn" where
  "conn_start E addr st =
     \<lparr>cn_addr = addr, cn_peer_height = None, cn_progress_height = nd_chain_height st,
      cn_progress_at = ev_now E, cn_request_at = None, cn_last_recv = ev_now E\<rparr>"

definition hello :: "u16 \<Rightarrow> message" where "hello our_port = Hello 1 our_port ''taron/0.2.0''"

text \<open>\<open>run\<close> and the start of \<open>handle_peer\<close>; \<open>None\<close> means the socket is dropped.\<close>

definition open_inbound ::
    "env \<Rightarrow> u16 \<Rightarrow> socket_addr \<Rightarrow> 'd node \<Rightarrow> conn option \<times> 'd node \<times> effect list" where
  "open_inbound E our_port addr st =
     (case accept_connection (ev_now E) addr (nd_peers st) of
        (False, pm) \<Rightarrow> (None, st\<lparr>nd_peers := pm\<rparr>, [])
      | (True, pm) \<Rightarrow>
          let st = st\<lparr>nd_peers := set_broadcast_tx addr pm\<rparr>
          in (Some (conn_start E addr st), st, [Send (hello our_port), Send GetChainHeight]))"

text \<open>
  The start of \<open>connect_to_peer\<close>: \<open>connected\<close> says whether the TCP connection was made and
  \<open>same_ip\<close> whether its two ends have the same address.
\<close>

definition open_outbound ::
    "env \<Rightarrow> u16 \<Rightarrow> bool \<Rightarrow> bool \<Rightarrow> socket_addr \<Rightarrow> 'd node \<Rightarrow> conn option \<times> 'd node \<times> effect list" where
  "open_outbound E our_port connected same_ip addr st =
     (case add_peer (ev_now E) addr Outbound (nd_peers st) of
        (False, pm) \<Rightarrow> (None, st\<lparr>nd_peers := pm\<rparr>, [])
      | (True, pm) \<Rightarrow>
          if \<not> connected then (None, st\<lparr>nd_peers := pm\<rparr>, [])
          else if same_ip \<and> sa_port addr = our_port
          then (None, st\<lparr>nd_peers := remove_peer addr pm\<rparr>, [])
          else
            let st = st\<lparr>nd_peers := set_broadcast_tx addr pm\<rparr>
            in (Some (conn_start E addr st), st,
                [Send (hello our_port), Send GetChainHeight, Send GetPeers, Send GetTxHashes]))"

text \<open>What follows the message loop: release the download slot, drop the channel and the peer.\<close>

definition release_slot :: "socket_addr \<Rightarrow> 'd node \<Rightarrow> bool \<times> 'd node" where
  "release_slot addr st =
     (if nd_ibd_peer st = Some addr then (True, st\<lparr>nd_ibd_peer := None\<rparr>) else (False, st))"

definition close_outbound :: "socket_addr \<Rightarrow> 'd node \<Rightarrow> 'd node \<times> effect list" where
  "close_outbound addr st =
     (let (released_ibd_driver, st) = release_slot addr st;
          st = st\<lparr>nd_peers := remove_peer addr (nd_peers st)\<rparr>
      in if released_ibd_driver
         then (st\<lparr>nd_sync_ready := False\<rparr>, [Broadcast GetChainHeight None])
         else (st, []))"

definition close_inbound :: "socket_addr \<Rightarrow> 'd node \<Rightarrow> 'd node \<times> effect list" where
  "close_inbound addr st =
     (let (released_ibd_driver, st) = release_slot addr st;
          st = st\<lparr>nd_peers := take_broadcast_tx addr (nd_peers st)\<rparr>;
          (st, out) = (if released_ibd_driver
             then (st\<lparr>nd_sync_ready := False\<rparr>, [Broadcast GetChainHeight None])
             else (st, []))
      in (st\<lparr>nd_peers := remove_peer addr (nd_peers st)\<rparr>, out))"

text \<open>The reaper: peers silent for more than five minutes lose their channel and their entry.\<close>

definition stale_addrs :: "nat \<Rightarrow> peer_manager \<Rightarrow> socket_addr set" where
  "stale_addrs now pm = {a. \<exists>p. pm_peers pm a = Some p \<and> now - pi_last_seen p > 300000}"

definition reap_stale :: "env \<Rightarrow> 'd node \<Rightarrow> 'd node" where
  "reap_stale E st = st\<lparr>nd_peers :=
     foldl (\<lambda>pm a. remove_peer a (take_broadcast_tx a pm)) (nd_peers st)
       (ev_addrs E (stale_addrs (ev_now E) (nd_peers st)))\<rparr>"

section \<open>The node with its connections\<close>

text \<open>
  Connections are numbered as they are opened. A crashed handler takes its task down before
  the cleanup runs.
\<close>

record 'd system =
  sy_node :: "'d node"
  sy_conns :: "nat \<rightharpoonup> conn \<times> peer_direction"
  sy_next :: nat

datatype sys_event =
    Accept env socket_addr
  | Connect env bool bool socket_addr
  | Conn_Event env nat loop_event
  | Submit env block
  | Reap env
  | Reconnect env "socket_addr list" "ip_addr set"

definition opened :: "peer_direction \<Rightarrow> 'd system \<Rightarrow> conn option \<times> 'd node \<times> effect list \<Rightarrow> 'd system" where
  "opened d s r = (case r of
     (None, st, _) \<Rightarrow> s\<lparr>sy_node := st\<rparr>
   | (Some cn, st, _) \<Rightarrow>
       s\<lparr>sy_node := st, sy_conns := (sy_conns s)(sy_next s \<mapsto> (cn, d)), sy_next := Suc (sy_next s)\<rparr>)"

definition closed :: "peer_direction \<Rightarrow> conn_end \<Rightarrow> socket_addr \<Rightarrow> 'd node \<Rightarrow> 'd node" where
  "closed d e addr st = (case e of
     Crashed \<Rightarrow> st
   | _ \<Rightarrow> fst (case d of Inbound \<Rightarrow> close_inbound addr st | Outbound \<Rightarrow> close_outbound addr st))"

fun sys_step ::
    "crypto \<Rightarrow> ('d, 'v) storage \<Rightarrow> u16 \<Rightarrow> (string \<Rightarrow> socket_addr list) \<Rightarrow> 'd system \<Rightarrow> sys_event \<Rightarrow> 'd system" where
  "sys_step C S port dns s (Accept E addr) = opened Inbound s (open_inbound E port addr (sy_node s))"
| "sys_step C S port dns s (Connect E connected same_ip addr) =
     opened Outbound s (open_outbound E port connected same_ip addr (sy_node s))"
| "sys_step C S port dns s (Conn_Event E i ev) =
     (case sy_conns s i of
        None \<Rightarrow> s
      | Some (cn, d) \<Rightarrow>
          (case loop_step C S E ev (sy_node s) cn of
             (Continue, st, cn, _) \<Rightarrow> s\<lparr>sy_node := st, sy_conns := (sy_conns s)(i \<mapsto> (cn, d))\<rparr>
           | (Stop e, st, cn, _) \<Rightarrow>
               s\<lparr>sy_node := closed d e (cn_addr cn) st, sy_conns := (sy_conns s)(i := None)\<rparr>))"
| "sys_step C S port dns s (Submit E b) =
     (case submit_mined_block C S E b (sy_node s) of (_, st, _) \<Rightarrow> s\<lparr>sy_node := st\<rparr>)"
| "sys_step C S port dns s (Reap E) = s\<lparr>sy_node := reap_stale E (sy_node s)\<rparr>"
| "sys_step C S port dns s (Reconnect E seeds own_ips) =
     (case reconnect_round E dns seeds own_ips port (sy_node s) of
        None \<Rightarrow> s | Some (_, st) \<Rightarrow> s\<lparr>sy_node := st\<rparr>)"

end
