(* ===== verification/Node_Inv.thy ===== *)
theory Node_Inv
  imports Node_Loop
begin

text \<open>
  What every handler of the node keeps: the chain in the store is a valid chain from the
  genesis block, the pool and the table of peers are in order, no transaction is registered
  with the tracker, nothing crashes, and the download slot belongs to a live connection. The
  budget of the invariant is the number of blocks the chain may still grow by before
  64-bit heights run out.
\<close>

named_theorems node_good "handlers keep the node in order"

section \<open>Valid chains\<close>

definition valid_chain :: "crypto \<Rightarrow> block list \<Rightarrow> bool" where
  "valid_chain C bs \<longleftrightarrow> bs \<noteq> [] \<and> bs ! 0 = genesis_block C \<and>
     (\<forall>i. 0 < i \<and> i < length bs \<longrightarrow> admissible C (bs ! (i - 1)) (diff_of (take i bs)) (bs ! i))"

lemma valid_chain_genesis: "valid_chain C [genesis_block C]"
  by (simp add: valid_chain_def)

lemma valid_chain_snoc:
  assumes "valid_chain C bs" "admissible C (last bs) (diff_of bs) b"
  shows "valid_chain C (bs @ [b])"
proof -
  have "bs \<noteq> []" using assms(1) by (simp add: valid_chain_def)
  then show ?thesis
    using assms by (auto simp: valid_chain_def nth_append less_Suc_eq last_conv_nth)
qed

lemma valid_chain_take: "valid_chain C bs \<Longrightarrow> valid_chain C (take (Suc n) bs)"
  by (auto simp: valid_chain_def min_def)

definition chain_good :: "crypto \<Rightarrow> ('d, 'v) storage \<Rightarrow> nat \<Rightarrow> 'd blockchain \<Rightarrow> bool" where
  "chain_good C S n ch \<longleftrightarrow>
     (\<exists>bs. chain_rep S ch bs \<and> valid_chain C bs \<and> length bs + n < 2 ^ 64)"

lemma chain_good_mono: "chain_good C S n ch \<Longrightarrow> m \<le> n \<Longrightarrow> chain_good C S m ch"
  unfolding chain_good_def by (meson add_left_mono le_less_trans)

lemma chain_good_tip:
  assumes "chain_good C S n ch"
  obtains b where "chain_tip S ch = Some b"
  using assms chain_rep_tip unfolding chain_good_def by blast

lemma chain_append_good:
  assumes "chain_rep S ch bs" "valid_chain C bs" "length bs + Suc n < 2 ^ 64"
    and "case chain_append C f extra (bs, L) b of
           Some (bs', M) \<Rightarrow> r = Inr () \<and> chain_rep S ch' bs' \<and> L' = M
         | None \<Rightarrow> r = Inl (Err InvalidBlock) \<and> ch' = ch"
  shows "chain_good C S n ch' \<and> r \<noteq> Inl Panic \<and> (\<forall>e. r = Inl e \<longrightarrow> ch' = ch)"
proof (cases "chain_append C f extra (bs, L) b")
  case None
  have "chain_good C S n ch" unfolding chain_good_def using assms(1-3) by (auto intro!: exI [of _ bs])
  then show ?thesis using assms(4) None by simp
next
  case (Some p)
  obtain bs' M where p: "p = (bs', M)" by (cases p)
  then have bs': "bs' = bs @ [b]" using chain_append_shape Some by blast
  have "admissible C (last bs) (diff_of bs) b"
    using Some p by (auto simp: chain_append_def split: if_splits)
  then have "valid_chain C bs'" using valid_chain_snoc assms(2) bs' by blast
  then show ?thesis
    using assms(3,4) Some p bs' unfolding chain_good_def by (auto intro!: exI [of _ bs'])
qed

lemma apply_block_good:
  assumes S: "storage_ok S" and good: "chain_good C S (Suc n) ch"
    and run: "apply_block C S now ch b L = (r, ch', L')"
  shows "chain_good C S n ch' \<and> r \<noteq> Inl Panic \<and> (\<forall>e. r = Inl e \<longrightarrow> ch' = ch)"
proof -
  obtain bs where bs: "chain_rep S ch bs" "valid_chain C bs" "length bs + Suc n < 2 ^ 64"
    using good unfolding chain_good_def by blast
  have room: "length bs + 1 < 2 ^ 64" using bs(3) by linarith
  show ?thesis by (rule chain_append_good [OF bs apply_block_refines [OF S bs(1) room run]])
qed

lemma apply_block_ibd_good:
  assumes S: "storage_ok S" and good: "chain_good C S (Suc n) ch"
    and run: "apply_block_ibd C S now ch b L = (r, ch', L')"
  shows "chain_good C S n ch' \<and> r \<noteq> Inl Panic \<and> (\<forall>e. r = Inl e \<longrightarrow> ch' = ch)"
proof -
  obtain bs where bs: "chain_rep S ch bs" "valid_chain C bs" "length bs + Suc n < 2 ^ 64"
    using good unfolding chain_good_def by blast
  have room: "length bs + 1 < 2 ^ 64" using bs(3) by linarith
  show ?thesis by (rule chain_append_good [OF bs apply_block_ibd_refines [OF S bs(1) room run]])
qed

lemma revert_tip_good:
  assumes S: "storage_ok S" and good: "chain_good C S n ch"
    and run: "revert_tip S ch L = (r, ch', L')"
  shows "chain_good C S n ch' \<and> r \<noteq> Inl Panic \<and> (\<forall>b. r = Inr b \<longrightarrow> chain_good C S (Suc n) ch')"
proof -
  obtain bs where bs: "chain_rep S ch bs" "valid_chain C bs" "length bs + n < 2 ^ 64"
    using good unfolding chain_good_def by blast
  show ?thesis
  proof (cases "1 < length bs")
    case False
    then have "bc_height ch = 0" using chain_repD(1,3) [OF bs(1)] by (simp add: unat_eq_0 [symmetric])
    then show ?thesis using run good by (auto simp: revert_tip_def)
  next
    case True
    then have "chain_rep S ch' (butlast bs)" and r: "r = Inr (last bs)"
      using revert_tip_rep [OF S bs(1), of L] run by auto
    moreover have "valid_chain C (butlast bs)"
      using valid_chain_take [OF bs(2), of "length bs - 2"] True
      by (simp add: butlast_conv_take Suc_diff_Suc numeral_2_eq_2)
    moreover have "length (butlast bs) + Suc n < 2 ^ 64" using bs(3) True by simp
    ultimately have "chain_good C S (Suc n) ch'" unfolding chain_good_def by blast
    then show ?thesis using r chain_good_mono [of C S "Suc n" ch' n] by simp
  qed
qed

lemma revert_to_height_good:
  assumes S: "storage_ok S" and good: "chain_good C S n ch"
    and run: "revert_to_height S ch target L = (r, ch', L')"
  shows "chain_good C S n ch' \<and> r \<noteq> Inl Panic \<and>
    (\<forall>x. r = Inr x \<longrightarrow> unat (bc_height ch') = min (unat target) (unat (bc_height ch)))"
proof -
  obtain bs where bs: "chain_rep S ch bs" "valid_chain C bs" "length bs + n < 2 ^ 64"
    using good unfolding chain_good_def by blast
  show ?thesis
  proof (cases "target < checkpoint_anchor_at_or_below (bc_height ch)")
    case True
    then show ?thesis using revert_to_height_rep [OF S bs(1), of target L] run good by simp
  next
    case False
    then have rep: "chain_rep S ch' (take (Suc (unat target)) bs)" and r: "\<exists>x. r = Inr x"
      using revert_to_height_rep [OF S bs(1), of target L] run by auto
    have "unat (bc_height ch') = min (unat target) (unat (bc_height ch))"
      using chain_repD(3) [OF rep] chain_repD(1,3) [OF bs(1)] by auto
    moreover have "length (take (Suc (unat target)) bs) + n < 2 ^ 64" using bs(3) by simp
    ultimately show ?thesis
      using rep r valid_chain_take [OF bs(2)] unfolding chain_good_def by blast
  qed
qed

text \<open>At height 0 the difficulty already is the one of the testnet.\<close>

lemma reset_difficulty_good:
  assumes "chain_good C S n ch" "bc_height ch = 0"
  shows "ch\<lparr>bc_difficulty := TESTNET_DIFFICULTY\<rparr> = ch"
proof -
  obtain bs where "chain_rep S ch bs" using assms(1) unfolding chain_good_def by blast
  note R = chain_repD [OF this]
  have "length bs - 1 = 0" using R(3) assms(2) by simp
  then have "diff_of bs = TESTNET_DIFFICULTY" unfolding diff_of_def by (simp only:) simp
  then have "bc_difficulty ch = TESTNET_DIFFICULTY" using R(6) by simp
  then show ?thesis by (cases ch) simp
qed

section \<open>The invariant of the node\<close>

definition node_inv :: "crypto \<Rightarrow> ('d, 'v) storage \<Rightarrow> nat \<Rightarrow> 'd node \<Rightarrow> bool" where
  "node_inv C S n st \<longleftrightarrow> chain_good C S n (nd_chain st) \<and> mp_inv C (nd_mempool st) \<and>
     pm_inv (nd_peers st) \<and> unregistered (nd_finality st)"

text \<open>
  What a handler may do: keep the invariant, not crash, leave the address of the connection, and
  change the download slot to nobody or to its own peer only.
\<close>

definition slot_ok :: "'d node \<Rightarrow> conn \<Rightarrow> 'd node \<Rightarrow> bool" where
  "slot_ok st cn st' \<longleftrightarrow> nd_ibd_peer st' = nd_ibd_peer st \<or> nd_ibd_peer st' = None
     \<or> nd_ibd_peer st' = Some (cn_addr cn)"

definition good_outcome ::
    "crypto \<Rightarrow> ('d, 'v) storage \<Rightarrow> nat \<Rightarrow> 'd node \<Rightarrow> conn \<Rightarrow> 'd outcome \<Rightarrow> bool" where
  "good_outcome C S n st cn r \<longleftrightarrow> (case r of (fl, st', cn', out) \<Rightarrow>
     node_inv C S n st' \<and> fl \<noteq> Stop Crashed \<and> cn_addr cn' = cn_addr cn \<and> slot_ok st cn st')"

lemma node_inv_mono: "node_inv C S n st \<Longrightarrow> m \<le> n \<Longrightarrow> node_inv C S m st"
  unfolding node_inv_def using chain_good_mono by blast

lemma slot_ok_refl [simp]: "slot_ok st cn st"
  by (simp add: slot_ok_def)

lemma good_quietly [node_good]:
  "node_inv C S n st' \<Longrightarrow> cn_addr cn' = cn_addr cn \<Longrightarrow> slot_ok st cn st' \<Longrightarrow>
     good_outcome C S n st cn (quietly st' cn')"
  by (simp add: good_outcome_def quietly_def)

lemma good_send [node_good]:
  "node_inv C S n st' \<Longrightarrow> cn_addr cn' = cn_addr cn \<Longrightarrow> slot_ok st cn st' \<Longrightarrow>
     good_outcome C S n st cn (send_to_peer E msg st' cn')"
  by (simp add: good_outcome_def send_to_peer_def)

lemma good_and_then:
  assumes "good_outcome C S n st cn r"
    and "\<And>st' cn'. node_inv C S n st' \<Longrightarrow> cn_addr cn' = cn_addr cn \<Longrightarrow> slot_ok st cn st' \<Longrightarrow>
      good_outcome C S n st cn (f st' cn')"
  shows "good_outcome C S n st cn (and_then r f)"
proof -
  obtain fl st1 cn1 out where r: "r = (fl, st1, cn1, out)" by (cases r)
  show ?thesis
    using assms(1) assms(2) [of st1 cn1] unfolding r
    by (cases fl) (auto simp: good_outcome_def and_then_def split: prod.splits)
qed

lemma node_inv_fields [simp]:
  "node_inv C S n (st\<lparr>nd_known := x1\<rparr>) = node_inv C S n st"
  "node_inv C S n (st\<lparr>nd_discovered := x2\<rparr>) = node_inv C S n st"
  "node_inv C S n (st\<lparr>nd_ledger := x3\<rparr>) = node_inv C S n st"
  "node_inv C S n (st\<lparr>nd_sync_ready := x4\<rparr>) = node_inv C S n st"
  "node_inv C S n (st\<lparr>nd_ibd_peer := x5\<rparr>) = node_inv C S n st"
  "node_inv C S n (st\<lparr>nd_chain_height := x6\<rparr>) = node_inv C S n st"
  "node_inv C S n (st\<lparr>nd_max_seen := x7\<rparr>) = node_inv C S n st"
  "node_inv C S n (st\<lparr>nd_cached_best_hash := x8\<rparr>) = node_inv C S n st"
  "node_inv C S n (store_caches st) = node_inv C S n st"
  by (simp_all add: node_inv_def store_caches_def)

lemma slot_ok_fields [simp]:
  "slot_ok st cn (st'\<lparr>nd_known := x1\<rparr>) = slot_ok st cn st'"
  "slot_ok st cn (st'\<lparr>nd_discovered := x2\<rparr>) = slot_ok st cn st'"
  "slot_ok st cn (st'\<lparr>nd_ledger := x3\<rparr>) = slot_ok st cn st'"
  "slot_ok st cn (st'\<lparr>nd_sync_ready := x4\<rparr>) = slot_ok st cn st'"
  "slot_ok st cn (st'\<lparr>nd_chain_height := x6\<rparr>) = slot_ok st cn st'"
  "slot_ok st cn (st'\<lparr>nd_max_seen := x7\<rparr>) = slot_ok st cn st'"
  "slot_ok st cn (st'\<lparr>nd_cached_best_hash := x8\<rparr>) = slot_ok st cn st'"
  "slot_ok st cn (st'\<lparr>nd_chain := x9\<rparr>) = slot_ok st cn st'"
  "slot_ok st cn (st'\<lparr>nd_mempool := x10\<rparr>) = slot_ok st cn st'"
  "slot_ok st cn (st'\<lparr>nd_peers := x11\<rparr>) = slot_ok st cn st'"
  "slot_ok st cn (st'\<lparr>nd_finality := x12\<rparr>) = slot_ok st cn st'"
  "slot_ok st cn (store_caches st') = slot_ok st cn st'"
  "slot_ok st cn (purge C ts st') = slot_ok st cn st'"
  "slot_ok st cn (st'\<lparr>nd_ibd_peer := None\<rparr>)"
  "slot_ok st cn (st'\<lparr>nd_ibd_peer := Some (cn_addr cn)\<rparr>)"
  by (simp_all add: slot_ok_def store_caches_def purge_def)

lemma node_inv_parts:
  "node_inv C S n st \<Longrightarrow> pm_inv pm \<Longrightarrow> node_inv C S n (st\<lparr>nd_peers := pm\<rparr>)"
  "node_inv C S n st \<Longrightarrow> mp_inv C p \<Longrightarrow> node_inv C S n (st\<lparr>nd_mempool := p\<rparr>)"
  "node_inv C S n st \<Longrightarrow> unregistered m \<Longrightarrow> node_inv C S n (st\<lparr>nd_finality := m\<rparr>)"
  "node_inv C S k st \<Longrightarrow> chain_good C S n ch \<Longrightarrow> node_inv C S n (st\<lparr>nd_chain := ch\<rparr>)"
  by (simp_all add: node_inv_def)

lemma node_invD:
  assumes "node_inv C S n st"
  shows "chain_good C S n (nd_chain st)" "mp_inv C (nd_mempool st)" "pm_inv (nd_peers st)"
    "unregistered (nd_finality st)"
  using assms by (simp_all add: node_inv_def)

lemma node_inv_purge [simp]: "node_inv C S n st \<Longrightarrow> node_inv C S n (purge C ts st)"
proof (induction ts arbitrary: st)
  case Nil
  then show ?case by (simp add: purge_def)
next
  case (Cons t ts)
  have "mp_inv C (mp_remove (tx_hash_hex C t) (nd_mempool st))"
    by (rule mp_remove_inv) (rule node_invD [OF Cons.prems])
  from Cons.IH [OF node_inv_parts(2) [OF Cons.prems this]] show ?case
    by (simp add: purge_def)
qed

section \<open>The handlers\<close>

lemma touch_inv [simp]: "pm_inv (touch now a s) = pm_inv s"
  by (simp add: touch_def update_peer_inv)

lemma update_hello_inv [simp]: "pm_inv (update_hello now a v u s) = pm_inv s"
  by (simp add: update_hello_def update_peer_inv)

lemma channel_inv [simp]:
  "pm_inv (set_broadcast_tx a s) = pm_inv s" "pm_inv (take_broadcast_tx a s) = pm_inv s"
  by (simp_all add: set_broadcast_tx_def take_broadcast_tx_def update_peer_inv)

lemma handle_hello_good [node_good]:
  "node_inv C S n st \<Longrightarrow> good_outcome C S n st cn (handle_hello E v u st cn)"
  unfolding handle_hello_def
  by (intro good_quietly node_inv_parts(1)) (auto dest: node_invD)

lemma handle_pong_good [node_good]:
  "node_inv C S n st' \<Longrightarrow> cn_addr cn' = cn_addr cn \<Longrightarrow> slot_ok st cn st' \<Longrightarrow>
     good_outcome C S n st cn (handle_pong E st' cn')"
  unfolding handle_pong_def
  by (intro good_quietly node_inv_parts(1)) (auto dest: node_invD)

lemma handle_ping_good [node_good]:
  "node_inv C S n st \<Longrightarrow> good_outcome C S n st cn (handle_ping E nonce st cn)"
  unfolding handle_ping_def by (intro good_and_then good_send) (auto intro: node_good)

lemma handle_peers_good [node_good]:
  "node_inv C S n st \<Longrightarrow> good_outcome C S n st cn (handle_peers addrs st cn)"
  unfolding handle_peers_def Let_def by (intro good_quietly) simp_all

lemma handle_get_good [node_good]:
  "node_inv C S n st \<Longrightarrow> good_outcome C S n st cn (handle_get_peers E st cn)"
  "node_inv C S n st \<Longrightarrow> good_outcome C S n st cn (handle_get_tx_hashes E st cn)"
  "node_inv C S n st \<Longrightarrow> good_outcome C S n st cn (handle_get_chain_height E st cn)"
  "node_inv C S n st \<Longrightarrow> good_outcome C S n st cn (handle_get_blocks S' E a b st cn)"
  "node_inv C S n st \<Longrightarrow> good_outcome C S n st cn (handle_tx_hashes E hs st cn)"
  "node_inv C S n st \<Longrightarrow> good_outcome C S n st cn (handle_get_tx_status C' E h st cn)"
  unfolding handle_get_peers_def handle_get_tx_hashes_def handle_get_chain_height_def
    handle_get_blocks_def handle_tx_hashes_def handle_get_tx_status_def
  by (auto simp: Let_def intro!: node_good split: prod.splits)

lemma send_each_good [node_good]:
  "node_inv C S n st' \<Longrightarrow> cn_addr cn' = cn_addr cn \<Longrightarrow> slot_ok st cn st' \<Longrightarrow>
     good_outcome C S n st cn (send_each E ms st' cn')"
  by (induction ms arbitrary: st' cn') (auto intro!: node_good good_and_then)

lemma handle_get_txs_good [node_good]:
  "node_inv C S n st \<Longrightarrow> good_outcome C S n st cn (handle_get_txs E hs st cn)"
  by (simp add: handle_get_txs_def send_each_good)

lemma handle_tx_ack_good [node_good]:
  assumes "node_inv C S n st"
  shows "good_outcome C S n st cn (handle_tx_ack C' E a st cn)"
proof -
  have "snd (fm_record_ack C' (ev_now E) a (nd_finality st)) = nd_finality st"
    using unregistered_record_ack [OF node_invD(4) [OF assms]] by blast
  then show ?thesis
    using assms
    by (auto simp: handle_tx_ack_def quietly_def good_outcome_def split: prod.splits option.splits)
qed

lemma handle_tx_good [node_good]:
  assumes inv: "node_inv C S n st"
  shows "good_outcome C S n st cn (handle_tx C E t st cn)"
proof -
  note D = node_invD [OF inv]
  obtain r pool where ins: "mp_insert C t (nd_mempool st) = (r, pool)"
    by (cases "mp_insert C t (nd_mempool st)")
  have pool: "mp_inv C pool" using mp_insert_inv [OF D(2), of t] ins by simp
  have st1: "node_inv C S n (st\<lparr>nd_mempool := pool, nd_finality := snd (fm_record_seen C t (nd_finality st))\<rparr>)"
    by (intro node_inv_parts inv pool) (simp add: D(4))
  show ?thesis
  proof (cases "fm_check_double_spend (nd_finality st) t")
    case (Some h)
    then show ?thesis
      unfolding handle_tx_def Let_def
      by (simp, intro good_quietly node_inv_parts(3) [OF inv]) (simp_all add: D(4))
  next
    case None
    show ?thesis
    proof (cases "fst (apply_tx C (nd_ledger st) t)")
      case (Inl e)
      then show ?thesis using None inv unfolding handle_tx_def Let_def by (simp add: good_quietly)
    next
      case (Inr u)
      have q: "good_outcome C S n st cn (quietly (st\<lparr>nd_mempool := pool\<rparr>) cn)"
        by (intro good_quietly node_inv_parts(2) [OF inv] pool) simp_all
      obtain L where L: "apply_tx C (nd_ledger st) t = (Inr u, L)"
        using Inr by (cases "apply_tx C (nd_ledger st) t") auto
      show ?thesis
        using None Inr ins q st1 L unfolding handle_tx_def Let_def
        by (cases r) (auto split: bool.split intro!: good_and_then good_send, simp_all add: good_outcome_def)
    qed
  qed
qed

end
