(* ===== verification/Node_Safe.thy ===== *)
theory Node_Safe
  imports Node_Inv
begin

text \<open>
  The handlers of blocks keep the node in order, and so does every step of the node with all
  its connections: the invariant of \<open>sys_step\<close>.
\<close>

lemma request_blocks_good [node_good]:
  "node_inv C S n st' \<Longrightarrow> cn_addr cn' = cn_addr cn \<Longrightarrow> slot_ok st cn st' \<Longrightarrow>
     good_outcome C S n st cn (request_blocks E h l st' cn')"
  unfolding request_blocks_def Let_def
  by (intro good_and_then good_send good_quietly) simp_all

lemma behind_peer_good [node_good]:
  "node_inv C S n st \<Longrightarrow> slot_ok st0 cn st \<Longrightarrow> good_outcome C S n st0 cn (behind_peer E h i st cn)"
  unfolding behind_peer_def by (intro request_blocks_good) simp_all

lemma sync_complete_good [node_good]:
  "node_inv C S n st' \<Longrightarrow> cn_addr cn' = cn_addr cn \<Longrightarrow> slot_ok st cn st' \<Longrightarrow>
     good_outcome C S n st cn (sync_complete h st' cn')"
  unfolding sync_complete_def Let_def by (auto intro!: good_quietly simp: slot_ok_def)

lemma handle_chain_height_good [node_good]:
  "node_inv C S n st \<Longrightarrow> good_outcome C S n st cn (handle_chain_height E h st cn)"
  unfolding handle_chain_height_def Let_def
  by (auto intro!: node_good split: option.split simp: slot_ok_def)

lemma new_block_accepted_good:
  assumes "node_inv C S n st" "slot_ok st0 cn st"
  shows "good_outcome C S n st0 cn (new_block_accepted C b st cn)"
  using assms by (simp add: new_block_accepted_def good_outcome_def Let_def)

lemma replace_tip_good:
  assumes S: "storage_ok S" and inv: "node_inv C S n st" and slot: "slot_ok st0 cn st"
  shows "good_outcome C S n st0 cn (replace_tip C S E b st cn)"
proof -
  obtain r ch L where rt: "revert_tip S (nd_chain st) (nd_ledger st) = (r, ch, L)"
    by (metis prod_cases3)
  note good = revert_tip_good [OF S node_invD(1) [OF inv] rt]
  have keep: "node_inv C S n (st\<lparr>nd_chain := ch', nd_ledger := L'\<rparr>)" if "chain_good C S n ch'" for ch' L'
    using node_inv_parts(4) [OF inv that] by simp
  show ?thesis
  proof (cases r)
    case (Inl e)
    then show ?thesis using rt good keep slot unfolding replace_tip_def
      by (cases e) (auto intro!: good_quietly)
  next
    case (Inr reverted)
    obtain r2 ch2 L2 where ap: "apply_block C S (ev_unix_ms E) ch b L = (r2, ch2, L2)"
      by (metis prod_cases3)
    have good1: "chain_good C S (Suc n) ch" using good Inr by simp
    note good2 = apply_block_good [OF S good1 ap]
    show ?thesis
    proof (cases r2)
      case (Inr u)
      then show ?thesis using rt \<open>r = Inr reverted\<close> ap good2 keep slot unfolding replace_tip_def Let_def
        by (simp add: good_outcome_def)
    next
      case (Inl e)
      obtain r3 ch3 L3 where rp: "apply_block C S (ev_unix_ms E) ch reverted L2 = (r3, ch3, L3)"
        by (metis prod_cases3)
      note good3 = apply_block_good [OF S good1 rp]
      have "e \<noteq> Panic" "ch2 = ch" using good2 Inl by auto
      then show ?thesis using rt \<open>r = Inr reverted\<close> ap rp Inl good3 keep slot unfolding replace_tip_def
        by (cases e; cases r3; auto intro!: good_quietly split: fault.split)
    qed
  qed
qed

lemma competing_block_good:
  assumes S: "storage_ok S" and inv: "node_inv C S n st" and slot: "slot_ok st0 cn st"
  shows "good_outcome C S n st0 cn (competing_block C S E b h st cn)"
proof -
  obtain tip where "chain_tip S (nd_chain st) = Some tip"
    using chain_good_tip [OF node_invD(1) [OF inv]] by blast
  then show ?thesis
    using inv slot replace_tip_good [OF S inv slot]
    by (auto simp: competing_block_def intro!: good_quietly split: option.split)
qed

lemma new_block_refused_good:
  assumes S: "storage_ok S" and inv: "node_inv C S n st" and slot: "slot_ok st0 cn st"
  shows "good_outcome C S n st0 cn (new_block_refused C S E b st cn)"
  using inv slot competing_block_good [OF S inv slot]
  by (auto simp: new_block_refused_def Let_def intro!: node_good)

lemma process_block_good:
  assumes S: "storage_ok S" and inv: "node_inv C S (Suc n) st"
  shows "good_outcome C S n st cn (process_block C S E b st cn)"
proof -
  obtain tip where tip: "chain_tip S (nd_chain st) = Some tip"
    using chain_good_tip [OF node_invD(1) [OF inv]] by blast
  obtain r ch L where ap: "apply_block C S (ev_unix_ms E) (nd_chain st) b (nd_ledger st) = (r, ch, L)"
    by (metis prod_cases3)
  note good = apply_block_good [OF S node_invD(1) [OF inv] ap]
  have keep: "node_inv C S n (st\<lparr>nd_chain := ch, nd_ledger := L\<rparr>)"
    using node_inv_parts(4) [OF inv, of n ch] good by simp
  have slot: "slot_ok st cn (st\<lparr>nd_chain := ch, nd_ledger := L\<rparr>)" by simp
  have inv': "node_inv C S n st" by (rule node_inv_mono [OF inv]) simp
  show ?thesis
  proof (cases r)
    case (Inr u)
    then show ?thesis
      using tip ap new_block_accepted_good [OF keep slot] new_block_refused_good [OF S inv', of st cn]
      by (simp add: process_block_def Let_def)
  next
    case (Inl e)
    then have "e \<noteq> Panic" using good by auto
    then show ?thesis
      using tip ap Inl new_block_refused_good [OF S keep slot] new_block_refused_good [OF S inv', of st cn]
      by (cases e) (simp_all add: process_block_def Let_def)
  qed
qed

lemma handle_new_block_good [node_good]:
  assumes "storage_ok S" "node_inv C S (Suc n) st"
  shows "good_outcome C S n st cn (handle_new_block C S E b st cn)"
  using process_block_good [OF assms] node_inv_mono [OF assms(2), of n]
  by (auto simp: handle_new_block_def Let_def intro!: node_good)

section \<open>Batches\<close>

definition good_batch ::
    "crypto \<Rightarrow> ('d, 'v) storage \<Rightarrow> nat \<Rightarrow> 'd node \<Rightarrow> conn \<Rightarrow> 'd batch \<Rightarrow> bool" where
  "good_batch C S n st cn r \<longleftrightarrow> (case r of (crashed, applied, last_height, st', cn') \<Rightarrow>
     \<not> crashed \<and> node_inv C S n st' \<and> cn_addr cn' = cn_addr cn \<and> slot_ok st cn st')"

lemma good_batchI:
  "node_inv C S n st' \<Longrightarrow> cn_addr cn' = cn_addr cn \<Longrightarrow> slot_ok st cn st' \<Longrightarrow>
     good_batch C S n st cn (False, applied, last_height, st', cn')"
  by (simp add: good_batch_def)

lemma reapply_loop_good:
  assumes S: "storage_ok S"
  shows "node_inv C S (length bs + n) st' \<Longrightarrow> cn_addr cn' = cn_addr cn \<Longrightarrow> slot_ok st cn st' \<Longrightarrow>
    good_batch C S n st cn (reapply_loop C S E fp bs applied last_height st' cn')"
proof (induction bs arbitrary: applied last_height st' cn')
  case Nil
  then show ?case by (simp add: good_batchI)
next
  case (Cons b bs)
  have prem: "node_inv C S (Suc (length bs + n)) st'" using Cons.prems(1) by simp
  have less: "node_inv C S (length bs + n) st'" by (rule node_inv_mono [OF prem]) simp
  obtain r ch L where ap: "apply_block_ibd C S (ev_unix_ms E) (nd_chain st') b (nd_ledger st') = (r, ch, L)"
    by (metis prod_cases3)
  note good = apply_block_ibd_good [OF S node_invD(1) [OF prem] ap]
  have keep: "node_inv C S (length bs + n) (st'\<lparr>nd_chain := ch, nd_ledger := L\<rparr>)"
    using node_inv_parts(4) [OF prem, of "length bs + n" ch] good by simp
  then have keep': "node_inv C S n (st'\<lparr>nd_chain := ch, nd_ledger := L\<rparr>)"
    by (rule node_inv_mono) simp
  show ?case
  proof (cases r)
    case (Inr u)
    then show ?thesis
      using ap keep less Cons.prems(2,3) by (auto intro!: Cons.IH)
  next
    case (Inl e)
    then have "e \<noteq> Panic" using good by auto
    then show ?thesis
      using ap Inl keep' less Cons.prems(2,3) by (cases e) (auto intro!: Cons.IH good_batchI)
  qed
qed

lemma reorg_to_good:
  assumes S: "storage_ok S" and inv: "node_inv C S (length bs + n) st'"
    and a: "cn_addr cn' = cn_addr cn" and slot: "slot_ok st cn st'"
  shows "good_batch C S n st cn (reorg_to C S E fp bs applied last_height st' cn')"
proof -
  obtain r ch L where rv: "revert_to_height S (nd_chain st') fp (nd_ledger st') = (r, ch, L)"
    by (metis prod_cases3)
  note good = revert_to_height_good [OF S node_invD(1) [OF inv] rv]
  have keep: "node_inv C S (length bs + n) (st'\<lparr>nd_chain := ch, nd_ledger := L\<rparr>)"
    using node_inv_parts(4) [OF inv, of "length bs + n" ch] good by simp
  then have keep': "node_inv C S n (st'\<lparr>nd_chain := ch, nd_ledger := L\<rparr>)"
    by (rule node_inv_mono) simp
  show ?thesis
  proof (cases r)
    case (Inl e)
    then show ?thesis using rv good keep' a slot by (auto simp: reorg_to_def good_batch_def)
  next
    case (Inr x)
    then show ?thesis using rv keep a slot by (auto simp: reorg_to_def intro!: reapply_loop_good [OF S])
  qed
qed

lemma rollback_to_good:
  assumes S: "storage_ok S" and inv: "node_inv C S n st'"
    and a: "cn_addr cn' = cn_addr cn" and slot: "slot_ok st cn st'"
    and reset: "reset_difficulty \<Longrightarrow> anchor = 0"
  shows "good_batch C S n st cn (rollback_to C S anchor reset_difficulty applied last_height st' cn')"
proof -
  obtain r ch L where rv: "revert_to_height S (nd_chain st') anchor (nd_ledger st') = (r, ch, L)"
    by (metis prod_cases3)
  note good = revert_to_height_good [OF S node_invD(1) [OF inv] rv]
  show ?thesis
  proof (cases r)
    case (Inl e)
    then show ?thesis
      using rv good node_inv_parts(4) [OF inv, of n ch] a slot by (auto simp: rollback_to_def good_batch_def)
  next
    case (Inr x)
    let ?ch = "if reset_difficulty then ch\<lparr>bc_difficulty := TESTNET_DIFFICULTY\<rparr> else ch"
    have "bc_height ch = 0" if "reset_difficulty"
      using good Inr reset [OF that] by (simp add: unat_eq_0)
    then have same: "?ch = ch" using reset_difficulty_good good by (simp, blast)
    obtain tip where "chain_tip S ch = Some tip" using good chain_good_tip by blast
    moreover have "node_inv C S n (st'\<lparr>nd_chain := ch\<rparr>)" using node_inv_parts(4) [OF inv] good by blast
    ultimately show ?thesis
      using rv Inr a slot unfolding rollback_to_def Let_def good_batch_def
      by (simp only: prod.case sum.case same) simp
  qed
qed

lemma batch_fork_good:
  assumes S: "storage_ok S" and inv: "node_inv C S (length blocks + n) st'"
    and a: "cn_addr cn' = cn_addr cn" and slot: "slot_ok st cn st'"
  shows "good_batch C S n st cn (batch_fork C S E blocks applied last_height st' cn')"
proof -
  have inv': "node_inv C S n st'" by (rule node_inv_mono [OF inv]) simp
  show ?thesis
    unfolding batch_fork_def Let_def
    by (auto split: option.split intro!: good_batchI [OF inv' a slot] reorg_to_good [OF S inv a slot]
        rollback_to_good [OF S inv' a slot])
qed

lemma batch_loop_good:
  assumes S: "storage_ok S"
  shows "node_inv C S (length bs + (length blocks + n)) st' \<Longrightarrow> cn_addr cn' = cn_addr cn \<Longrightarrow>
    slot_ok st cn st' \<Longrightarrow> good_batch C S n st cn (batch_loop C S E blocks bs applied last_height st' cn')"
proof (induction bs arbitrary: applied last_height st' cn')
  case Nil
  then show ?case using node_inv_mono [of C S "length blocks + n" st' n] by (simp add: good_batchI)
next
  case (Cons b bs)
  let ?m = "length bs + (length blocks + n)"
  have prem: "node_inv C S (Suc ?m) st'" using Cons.prems(1) by simp
  obtain r ch L where ap: "apply_block_ibd C S (ev_unix_ms E) (nd_chain st') b (nd_ledger st') = (r, ch, L)"
    by (metis prod_cases3)
  note good = apply_block_ibd_good [OF S node_invD(1) [OF prem] ap]
  have keep: "node_inv C S ?m (st'\<lparr>nd_chain := ch, nd_ledger := L\<rparr>)"
    using node_inv_parts(4) [OF prem, of ?m ch] good by simp
  then have keep': "node_inv C S (length blocks + n) (st'\<lparr>nd_chain := ch, nd_ledger := L\<rparr>)"
    by (rule node_inv_mono) simp
  show ?case
  proof (cases r)
    case (Inr u)
    then show ?thesis using ap keep Cons.prems(2,3) by (auto intro!: Cons.IH)
  next
    case (Inl e)
    then have "e \<noteq> Panic" using good by auto
    then show ?thesis
      using ap Inl keep' Cons.prems(2,3) by (cases e) (auto intro!: batch_fork_good [OF S])
  qed
qed

lemma batch_applied_good:
  assumes inv: "node_inv C S n st'" and a: "cn_addr cn' = cn_addr cn" and slot: "slot_ok st cn st'"
  shows "good_outcome C S n st cn (batch_applied C S E st' cn')"
proof -
  obtain tip where "chain_tip S (nd_chain st') = Some tip"
    using chain_good_tip [OF node_invD(1) [OF inv]] by blast
  then show ?thesis
    using inv a slot unfolding batch_applied_def Let_def
    by (simp, intro good_and_then) (auto simp: good_outcome_def [of C S n st cn "(Continue, _, _, _)"]
        intro!: node_good split: option.split)
qed

lemma handle_blocks_good [node_good]:
  assumes S: "storage_ok S" and inv: "node_inv C S (2 * length blocks + n) st"
  shows "good_outcome C S n st cn (handle_blocks C S E blocks st cn)"
proof -
  have inv': "node_inv C S n st" by (rule node_inv_mono [OF inv]) simp
  let ?st = "st\<lparr>nd_max_seen := max (nd_max_seen st) (blk_index (last blocks))\<rparr>"
  have "good_batch C S n st cn (batch_loop C S E blocks blocks 0 0 ?st cn)"
    by (rule batch_loop_good [OF S]) (use inv in \<open>simp_all add: mult_2 add.assoc\<close>)
  then show ?thesis
    using inv' unfolding handle_blocks_def Let_def
    by (auto simp: good_batch_def intro!: node_good batch_applied_good split: prod.split)
qed

section \<open>The timer and the dispatcher\<close>

lemma watchdog_good [node_good]:
  "node_inv C S n st \<Longrightarrow> good_outcome C S n st cn (watchdog E ph st cn)"
  unfolding watchdog_def Let_def
  by (auto intro!: good_and_then node_good) (auto simp: good_outcome_def slot_ok_def)

lemma handle_tick_good [node_good]:
  "node_inv C S n st \<Longrightarrow> good_outcome C S n st cn (handle_tick E st cn)"
  unfolding handle_tick_def
  by (auto intro!: good_and_then node_good split: bool.split option.split) (auto simp: good_outcome_def)

fun message_cost :: "message \<Rightarrow> nat" where
  "message_cost (NewBlock b) = 1"
| "message_cost (Blocks bs) = 2 * length bs"
| "message_cost _ = 0"

lemma dispatch_good:
  assumes "storage_ok S" "node_inv C S (message_cost m + n) st"
  shows "good_outcome C S n st cn (dispatch C S E m st cn)"
  using assms by (cases m) (auto intro: node_good)

end
