(* ===== verification/Node_System.thy ===== *)
theory Node_System
  imports Node_Safe Chain_Props
begin

text \<open>
  The node with all its connections: the invariant of \<open>sys_step\<close>, and the properties that hold
  after any sequence of connections, messages, timer ticks and submissions.
\<close>

section \<open>The invariant\<close>

definition slot_live :: "'d system \<Rightarrow> bool" where
  "slot_live s \<longleftrightarrow> (\<forall>a. nd_ibd_peer (sy_node s) = Some a \<longrightarrow>
     (\<exists>i cn d. sy_conns s i = Some (cn, d) \<and> cn_addr cn = a))"

definition sys_inv :: "crypto \<Rightarrow> ('d, 'v) storage \<Rightarrow> nat \<Rightarrow> 'd system \<Rightarrow> bool" where
  "sys_inv C S n s \<longleftrightarrow> node_inv C S n (sy_node s) \<and> slot_live s \<and> (\<forall>i \<ge> sy_next s. sy_conns s i = None)"

fun event_cost :: "sys_event \<Rightarrow> nat" where
  "event_cost (Conn_Event E i (Received m)) = message_cost m"
| "event_cost (Submit E b) = 1"
| "event_cost _ = 0"

lemma track_inv [simp]: "pm_inv (snd (track_connection_attempt now ip s)) = pm_inv s"
  by (simp add: track_connection_attempt_def Let_def)

lemma accept_connection_inv:
  assumes "pm_inv pm"
  shows "pm_inv (snd (accept_connection now a pm))"
proof -
  obtain b p1 where 1: "pm_is_banned now (sa_ip a) pm = (b, p1)" by fastforce
  obtain t p2 where 2: "track_connection_attempt now (sa_ip a) p1 = (t, p2)" by fastforce
  have "pm_inv p1" using pm_is_banned_inv [of now "sa_ip a" pm] 1 assms by simp
  moreover have "pm_inv p2" using track_inv [of now "sa_ip a" p1] 2 \<open>pm_inv p1\<close> by simp
  ultimately show ?thesis
    using 1 2 add_peer_inv [of p2 now a Inbound]
    by (simp add: accept_connection_def split: bool.split)
qed

lemma reap_inv: "pm_inv pm \<Longrightarrow> pm_inv (foldl (\<lambda>pm a. remove_peer a (take_broadcast_tx a pm)) pm as)"
  by (induction as arbitrary: pm) (simp_all add: remove_peer_inv)

lemma opened_inv:
  assumes s: "sys_inv C S n s" and st: "node_inv C S n st" "nd_ibd_peer st = nd_ibd_peer (sy_node s)"
  shows "sys_inv C S n (opened d s (r, st, out))"
proof (cases r)
  case None
  then show ?thesis using s st by (simp add: opened_def sys_inv_def slot_live_def)
next
  case (Some cn)
  have fresh: "sy_conns s (sy_next s) = None" using s by (simp add: sys_inv_def)
  have "\<exists>i cn' d'. ((sy_conns s)(sy_next s \<mapsto> (cn, d))) i = Some (cn', d') \<and> cn_addr cn' = a"
    if "nd_ibd_peer st = Some a" for a
  proof -
    have "nd_ibd_peer (sy_node s) = Some a" using that st(2) by simp
    then obtain i cn' d' where i: "sy_conns s i = Some (cn', d')" "cn_addr cn' = a"
      using s unfolding sys_inv_def slot_live_def by blast
    then have "i \<noteq> sy_next s" using fresh by auto
    then show ?thesis using i by (intro exI [of _ i] exI [of _ cn'] exI [of _ d']) simp
  qed
  then show ?thesis using s st(1) Some by (simp add: opened_def sys_inv_def slot_live_def)
qed

lemma release_slot_inv:
  "release_slot a st = (r, st') \<Longrightarrow> node_inv C S n st \<Longrightarrow>
     node_inv C S n st' \<and> nd_ibd_peer st' = (if nd_ibd_peer st = Some a then None else nd_ibd_peer st)
     \<and> nd_peers st' = nd_peers st"
  by (auto simp: release_slot_def split: if_splits)

lemma closed_inv:
  assumes "node_inv C S n st" "e \<noteq> Crashed"
  shows "node_inv C S n (closed d e a st) \<and>
    nd_ibd_peer (closed d e a st) = (if nd_ibd_peer st = Some a then None else nd_ibd_peer st)"
proof -
  obtain r st' where rel: "release_slot a st = (r, st')" by (cases "release_slot a st")
  note R = release_slot_inv [OF rel assms(1)]
  have "closed d e a st = fst (case d of Inbound \<Rightarrow> close_inbound a st | Outbound \<Rightarrow> close_outbound a st)"
    using assms(2) by (cases e) (simp_all add: closed_def)
  moreover have pm: "pm_inv (nd_peers st')" using R assms(1) by (simp add: node_inv_def)
  ultimately show ?thesis
    using rel R pm
    by (cases d)
      (auto simp: close_inbound_def close_outbound_def Let_def
        intro!: node_inv_parts(1) remove_peer_inv)
qed

lemma loop_step_good:
  assumes "storage_ok S" "node_inv C S (event_cost (Conn_Event E i ev) + n) st"
  shows "good_outcome C S n st cn (loop_step C S E ev st cn)"
proof (cases ev)
  case (Received m)
  have "good_outcome C S n st (cn\<lparr>cn_last_recv := ev_now E\<rparr>) (loop_step C S E ev st cn)"
    using dispatch_good [OF assms(1), of C m n st] assms(2) Received by simp
  then show ?thesis by (simp add: good_outcome_def slot_ok_def)
next
  case (Receive_Error e)
  then show ?thesis using assms(2) by (simp add: good_outcome_def)
next
  case Tick
  then show ?thesis using assms(2) handle_tick_good by simp
qed

lemma conn_event_inv:
  assumes S: "storage_ok S" and inv: "sys_inv C S (event_cost (Conn_Event E i ev) + n) s"
  shows "sys_inv C S n (sys_step C S port dns s (Conn_Event E i ev))"
proof (cases "sy_conns s i")
  case None
  then show ?thesis
    using inv node_inv_mono [of C S "event_cost (Conn_Event E i ev) + n" "sy_node s" n]
    by (simp add: sys_inv_def)
next
  case (Some p)
  obtain cn d where p: "p = (cn, d)" by (cases p)
  obtain fl st cn' out where run: "loop_step C S E ev (sy_node s) cn = (fl, st, cn', out)"
    by (metis prod_cases4)
  have good: "node_inv C S n st" "fl \<noteq> Stop Crashed" "cn_addr cn' = cn_addr cn" "slot_ok (sy_node s) cn st"
    using loop_step_good [OF S, of C E i ev n "sy_node s" cn] inv run
    by (auto simp: sys_inv_def good_outcome_def)
  have known: "\<exists>j cn'' d''. sy_conns s j = Some (cn'', d'') \<and> cn_addr cn'' = a \<and> (j = i \<longrightarrow> a = cn_addr cn)"
    if "nd_ibd_peer st = Some a" for a
  proof -
    have "nd_ibd_peer (sy_node s) = Some a \<or> a = cn_addr cn" using good(4) that by (auto simp: slot_ok_def)
    then show ?thesis
    proof
      assume "nd_ibd_peer (sy_node s) = Some a"
      then obtain j cn'' d'' where j: "sy_conns s j = Some (cn'', d'')" "cn_addr cn'' = a"
        using inv unfolding sys_inv_def slot_live_def by blast
      show ?thesis
        by (intro exI [of _ j] exI [of _ cn''] exI [of _ d'']) (use j Some p in auto)
    next
      assume "a = cn_addr cn"
      then show ?thesis using Some p by auto
    qed
  qed
  have below: "i < sy_next s" using Some inv unfolding sys_inv_def by (metis not_le option.simps(3))
  show ?thesis
  proof (cases fl)
    case Continue
    have "slot_live (s\<lparr>sy_node := st, sy_conns := (sy_conns s)(i \<mapsto> (cn', d))\<rparr>)"
      unfolding slot_live_def
    proof (intro allI impI)
      fix a
      assume "nd_ibd_peer (sy_node (s\<lparr>sy_node := st, sy_conns := (sy_conns s)(i \<mapsto> (cn', d))\<rparr>)) = Some a"
      then obtain j cn'' d'' where j: "sy_conns s j = Some (cn'', d'')" "cn_addr cn'' = a"
          "j = i \<longrightarrow> a = cn_addr cn"
        using known by auto
      then show "\<exists>k c e. sy_conns (s\<lparr>sy_node := st, sy_conns := (sy_conns s)(i \<mapsto> (cn', d))\<rparr>) k
          = Some (c, e) \<and> cn_addr c = a"
        by (cases "j = i") (use good(3) in auto)
    qed
    then show ?thesis using Some p run Continue good(1) inv below by (simp add: sys_inv_def)
  next
    case (Stop e)
    then have "e \<noteq> Crashed" using good(2) by simp
    note cl = closed_inv [OF good(1) this, of d "cn_addr cn"]
    have "slot_live (s\<lparr>sy_node := closed d e (cn_addr cn) st, sy_conns := (sy_conns s)(i := None)\<rparr>)"
      unfolding slot_live_def
    proof (intro allI impI)
      fix a
      assume "nd_ibd_peer (sy_node (s\<lparr>sy_node := closed d e (cn_addr cn) st, sy_conns := (sy_conns s)(i := None)\<rparr>))
        = Some a"
      then have "nd_ibd_peer st = Some a" "a \<noteq> cn_addr cn" using cl by (auto split: if_splits)
      then obtain j cn'' d'' where "sy_conns s j = Some (cn'', d'')" "cn_addr cn'' = a" "j \<noteq> i"
        using known by blast
      then show "\<exists>k c e'. sy_conns (s\<lparr>sy_node := closed d e (cn_addr cn) st, sy_conns := (sy_conns s)(i := None)\<rparr>) k
          = Some (c, e') \<and> cn_addr c = a"
        by auto
    qed
    then show ?thesis using Some p run Stop cl good(3) inv by (simp add: sys_inv_def)
  qed
qed

lemma unchanged_slot [simp]:
  "nd_ibd_peer (purge C ts st) = nd_ibd_peer st" "nd_ibd_peer (store_caches st) = nd_ibd_peer st"
  by (simp_all add: purge_def store_caches_def)

lemma submit_inv:
  assumes S: "storage_ok S" and inv: "node_inv C S (Suc n) st"
    and run: "submit_mined_block C S E b st = (r, st', out)"
  shows "node_inv C S n st' \<and> r \<noteq> Inl Panic \<and> nd_ibd_peer st' = nd_ibd_peer st"
proof -
  obtain q ch L where ap: "apply_block C S (ev_unix_ms E) (nd_chain st) b (nd_ledger st) = (q, ch, L)"
    by (metis prod_cases3)
  note good = apply_block_good [OF S node_invD(1) [OF inv] ap]
  have keep: "node_inv C S n (st\<lparr>nd_chain := ch\<rparr>)" using node_inv_parts(4) [OF inv, of n ch] good by simp
  have less: "node_inv C S n st" by (rule node_inv_mono [OF inv]) simp
  show ?thesis
  proof (cases q)
    case (Inl e)
    then have "e \<noteq> Panic" using good by auto
    then show ?thesis using run ap Inl keep less
      by (cases e) (auto simp: submit_mined_block_def split: if_splits)
  next
    case (Inr u)
    then show ?thesis using run ap keep less
      by (auto simp: submit_mined_block_def Let_def split: if_splits)
  qed
qed

lemma sys_step_inv:
  assumes S: "storage_ok S" and inv: "sys_inv C S (event_cost e + n) s"
  shows "sys_inv C S n (sys_step C S port dns s e)"
proof -
  have D: "node_inv C S n (sy_node s)" using inv node_inv_mono [of C S "event_cost e + n" "sy_node s" n]
    by (simp add: sys_inv_def)
  have I: "sys_inv C S n s" using inv D by (simp add: sys_inv_def)
  note pm = node_invD(3) [OF D]
  have upd: "sys_inv C S n (s\<lparr>sy_node := st\<rparr>)"
    if "node_inv C S n st" "nd_ibd_peer st = nd_ibd_peer (sy_node s)" for st
    using that I by (simp add: sys_inv_def slot_live_def)
  show ?thesis
  proof (cases e)
    case (Accept E a)
    obtain b p where ac: "accept_connection (ev_now E) a (nd_peers (sy_node s)) = (b, p)" by fastforce
    have "pm_inv p" using accept_connection_inv [OF pm, of "ev_now E" a] ac by simp
    then show ?thesis using Accept ac
      by (cases b) (auto simp: open_inbound_def Let_def intro!: opened_inv [OF I] node_inv_parts(1) [OF D])
  next
    case (Connect E c1 c2 a)
    obtain b p where ac: "add_peer (ev_now E) a Outbound (nd_peers (sy_node s)) = (b, p)" by fastforce
    have "pm_inv p" using add_peer_inv [OF pm, of "ev_now E" a Outbound] ac by simp
    then show ?thesis using Connect ac
      by (cases b) (auto simp: open_outbound_def Let_def intro!: opened_inv [OF I] node_inv_parts(1) [OF D]
          remove_peer_inv)
  next
    case (Conn_Event E i ev)
    then show ?thesis using conn_event_inv [OF S, of C E i ev n s port dns] inv by simp
  next
    case (Submit E b)
    obtain r st out where run: "submit_mined_block C S E b (sy_node s) = (r, st, out)" by (metis prod_cases3)
    have "node_inv C S (Suc n) (sy_node s)" using inv Submit by (simp add: sys_inv_def)
    then show ?thesis using Submit run submit_inv [OF S _ run] by (auto intro!: upd)
  next
    case (Reap E)
    then show ?thesis
      by (auto simp: reap_stale_def intro!: upd node_inv_parts(1) [OF D] reap_inv pm)
  next
    case (Reconnect E seeds own)
    then show ?thesis
      using I D by (auto simp: reconnect_round_def Let_def intro!: upd)
  qed
qed

text \<open>The node is a machine with the budget of blocks; a store with its laws is one that keeps it.\<close>

definition safe_step ::
    "crypto \<Rightarrow> ('d, 'v) storage \<Rightarrow> u16 \<Rightarrow> (string \<Rightarrow> socket_addr list) \<Rightarrow> 'd system \<Rightarrow> sys_event \<Rightarrow> 'd system" where
  "safe_step C S port dns s e = (if storage_ok S then sys_step C S port dns s e else s)"

interpretation node_machine: budget_machine "safe_step C S port dns" event_cost "sys_inv C S"
  for C S port dns
proof unfold_locales
  fix e n s
  assume "sys_inv C S (event_cost e + n) s"
  then show "sys_inv C S n (safe_step C S port dns s e)"
    using sys_step_inv [of S C e n s port dns] node_inv_mono [of C S "event_cost e + n" "sy_node s" n]
    by (auto simp: safe_step_def sys_inv_def)
qed

lemma sys_run_inv:
  assumes "storage_ok S" "sys_inv C S (sum_list (map event_cost es) + n) s"
  shows "sys_inv C S n (foldl (sys_step C S port dns) s es)"
proof -
  have "safe_step C S port dns = sys_step C S port dns"
    using assms(1) by (intro ext) (simp add: safe_step_def)
  then show ?thesis using node_machine.run_budget [OF assms(2), of port dns] by simp
qed

end
