(* ===== verification/Node_Props.thy ===== *)
theory Node_Props
  imports Node_System
begin

text \<open>
  Properties of the node: what holds after every run of the machine \<open>sys_step\<close>, and what single
  handlers do to a node in order.
\<close>

section \<open>A fresh node\<close>

definition toy_env :: env where
  "toy_env = \<lparr>ev_now = 0, ev_unix_ms = 1772975700000, ev_nanos = 0, ev_open = True, ev_permit = True,
     ev_addrs = (\<lambda>_. []), ev_hashes = (\<lambda>_. [])\<rparr>"

definition toy_peer :: socket_addr where "toy_peer = \<lparr>sa_ip = IPv4 9, sa_port = 8333\<rparr>"

definition toy_conn :: conn where
  "toy_conn = \<lparr>cn_addr = toy_peer, cn_peer_height = None, cn_progress_height = 0, cn_progress_at = 0,
     cn_request_at = None, cn_last_recv = 0\<rparr>"

definition toy_node :: "(bytes \<rightharpoonup> stored) node" where
  "toy_node = the (node_with toy_crypto toy_storage \<lparr>wl_signing_key = 3\<rparr> False toy_chain toy_ledger)"

definition fresh_system :: "'d node \<Rightarrow> 'd system" where
  "fresh_system st = \<lparr>sy_node = st, sy_conns = Map.empty, sy_next = 0\<rparr>"

lemma node_with_inv:
  assumes "node_with C S w dd ch L = Some st" "chain_good C S n ch"
  shows "sys_inv C S n (fresh_system st)"
  using assms
  by (auto simp: node_with_def fresh_system_def sys_inv_def node_inv_def slot_live_def mp_inv_new
      pm_inv_new unregistered_new split: option.splits)

lemma fresh_chain_good:
  assumes "storage_ok S" "\<And>k. db_get S db k = None" "n + 1 < 2 ^ 64"
  shows "chain_good C S n (load_or_create C S db None TESTNET_DIFFICULTY)"
  unfolding chain_good_def
  by (intro exI [of _ "[genesis_block C]"] conjI load_fresh_rep [OF assms(1,2)] valid_chain_genesis)
    (use assms(3) in simp)

lemma node_new_inv:
  assumes "storage_ok S" "\<And>k. db_get S db k = None" "n + 1 < 2 ^ 64"
    and "node_new C S w db None data_dir bin_file json_file = Some st"
  shows "sys_inv C S n (fresh_system st)"
  using assms(4) node_with_inv [OF _ fresh_chain_good [OF assms(1-3), of C]]
  by (auto simp: node_new_def Let_def split: if_splits)

section \<open>After every run\<close>

text \<open>
  C2: whatever connections are made and whatever messages, timer ticks and mined blocks a fresh node
  processes, in any order, its store holds at every moment a chain that starts at the genesis
  block and in which every block passed every check against its predecessor (link, hash, work at
  the difficulty of its place, checkpoint, reward, signatures); its pool holds verified
  transactions only, its tables of peers stay within their limits, and the download slot
  belongs to nobody or to a connection that is still open.
\<close>
theorem node_chain_always_valid:
  assumes "storage_ok S" "\<And>k. db_get S db k = None"
    and "node_new C S w db None data_dir bin_file json_file = Some st"
    and "sum_list (map event_cost es) + 1 < 2 ^ 64"
    and "s = foldl (sys_step C S port dns) (fresh_system st) es"
  shows "(\<exists>bs. chain_rep S (nd_chain (sy_node s)) bs \<and> valid_chain C bs)
    \<and> mp_inv C (nd_mempool (sy_node s)) \<and> pm_inv (nd_peers (sy_node s)) \<and> slot_live s"
proof -
  have "sys_inv C S (sum_list (map event_cost es) + 0) (fresh_system st)"
    by (rule node_new_inv [OF assms(1,2) _ assms(3)]) (use assms(4) in simp)
  from sys_run_inv [OF assms(1) this, of port dns] show ?thesis
    unfolding assms(5) [symmetric] sys_inv_def node_inv_def chain_good_def by blast
qed

lemma toy_start: "node_new toy_crypto toy_storage \<lparr>wl_signing_key = 3\<rparr> Map.empty None False None None
    = Some (the (node_new toy_crypto toy_storage \<lparr>wl_signing_key = 3\<rparr> Map.empty None False None None))"
  using chain_rep_tip [OF toy_chain_rep]
  by (simp add: node_new_def node_with_def toy_chain_def Let_def)

theorem node_chain_always_valid_witness:
  "\<exists>bs. chain_rep toy_storage (nd_chain (sy_node (foldl (sys_step toy_crypto toy_storage 8333 (\<lambda>_. []))
       (fresh_system (the (node_new toy_crypto toy_storage \<lparr>wl_signing_key = 3\<rparr> Map.empty None False None None)))
       [Accept toy_env toy_peer, Conn_Event toy_env 0 (Received (NewBlock toy_b1)), Conn_Event toy_env 0 Tick]))) bs
     \<and> valid_chain toy_crypto bs"
  using node_chain_always_valid [OF toy_storage_ok _ toy_start, of
      "[Accept toy_env toy_peer, Conn_Event toy_env 0 (Received (NewBlock toy_b1)), Conn_Event toy_env 0 Tick]"
      _ 8333 "\<lambda>_. []"]
  by (simp add: toy_storage_def)

text \<open>
  C16: no message and no timer tick ever makes a handler of a running node panic, and no
  submitted block does, after any history.
\<close>
theorem node_never_crashes:
  assumes "storage_ok S" "\<And>k. db_get S db k = None"
    and "node_new C S w db None data_dir bin_file json_file = Some st"
    and "sum_list (map event_cost es) + event_cost (Conn_Event E 0 ev) + 2 < 2 ^ 64"
    and "s = foldl (sys_step C S port dns) (fresh_system st) es"
  shows "fst (loop_step C S E ev (sy_node s) cn) \<noteq> Stop Crashed
    \<and> fst (submit_mined_block C S E b (sy_node s)) \<noteq> Inl Panic"
proof -
  let ?c = "event_cost (Conn_Event E 0 ev)"
  have "sys_inv C S (sum_list (map event_cost es) + Suc ?c) (fresh_system st)"
    by (rule node_new_inv [OF assms(1,2) _ assms(3)]) (use assms(4) in simp)
  from sys_run_inv [OF assms(1) this, of port dns] have inv: "node_inv C S (Suc ?c) (sy_node s)"
    unfolding assms(5) [symmetric] by (simp add: sys_inv_def)
  have "node_inv C S (?c + 0) (sy_node s)" by (rule node_inv_mono [OF inv]) simp
  from loop_step_good [OF assms(1) this, of cn] have "fst (loop_step C S E ev (sy_node s) cn) \<noteq> Stop Crashed"
    by (auto simp: good_outcome_def)
  moreover have "fst (submit_mined_block C S E b (sy_node s)) \<noteq> Inl Panic"
    using submit_inv [OF assms(1) inv] by (metis prod_cases3 fst_conv)
  ultimately show ?thesis by blast
qed

theorem node_never_crashes_witness:
  "fst (loop_step toy_crypto toy_storage toy_env (Received (Blocks [toy_b1]))
     (the (node_new toy_crypto toy_storage \<lparr>wl_signing_key = 3\<rparr> Map.empty None False None None)) toy_conn) \<noteq> Stop Crashed"
  using node_never_crashes [OF toy_storage_ok _ toy_start, of "[]" toy_env "Received (Blocks [toy_b1])"
      "fresh_system (the (node_new toy_crypto toy_storage \<lparr>wl_signing_key = 3\<rparr> Map.empty None False None None))"
      8333 "\<lambda>_. []" toy_conn toy_b1]
  by (simp add: toy_storage_def fresh_system_def)

text \<open>
  C29: no transaction ever becomes final on a running node: nothing registers transactions with
  the tracker, so every acknowledgement is dropped without being counted or relayed, and
  every request for a status is answered with no acknowledgements and not final.
\<close>
theorem node_never_confirms:
  assumes "storage_ok S" "\<And>k. db_get S db k = None"
    and "node_new C S w db None data_dir bin_file json_file = Some st"
    and "sum_list (map event_cost es) + 1 < 2 ^ 64"
    and "s = foldl (sys_step C S port dns) (fresh_system st) es"
    and "ev_open E"
  shows "handle_get_tx_status C E h (sy_node s) cn
      = (Continue, sy_node s, cn, [Send (TxStatus h 0 False)])
    \<and> (\<forall>a. ft_finalized (fm_tracker (nd_finality (sy_node s))) (ack_tx_hash a) = None \<longrightarrow>
        handle_tx_ack C E a (sy_node s) cn = (Continue, sy_node s, cn, []))"
proof -
  have "sys_inv C S (sum_list (map event_cost es) + 0) (fresh_system st)"
    by (rule node_new_inv [OF assms(1,2) _ assms(3)]) (use assms(4) in simp)
  from sys_run_inv [OF assms(1) this, of port dns] have u: "unregistered (nd_finality (sy_node s))"
    unfolding assms(5) [symmetric] by (simp add: sys_inv_def node_inv_def)
  have "(case fm_get_status (nd_finality (sy_node s)) k of Some (Confirmed acks _) \<Rightarrow> (acks, True)
      | Some (Pending acks _) \<Rightarrow> (acks, False) | _ \<Rightarrow> (0, False)) = (0, False)" for k
    using unregistered_status [OF u, of k] by (auto split: option.split transaction_status.split)
  then have "handle_get_tx_status C E h (sy_node s) cn
      = (Continue, sy_node s, cn, [Send (TxStatus h 0 False)])"
    using assms(6) by (simp add: handle_get_tx_status_def send_to_peer_def Let_def)
  moreover have "handle_tx_ack C E a (sy_node s) cn = (Continue, sy_node s, cn, [])"
    if "ft_finalized (fm_tracker (nd_finality (sy_node s))) (ack_tx_hash a) = None" for a
    using u that
    by (auto simp: handle_tx_ack_def fm_record_ack_def record_ack_def unregistered_def quietly_def Let_def
        split: option.split)
  ultimately show ?thesis by blast
qed

theorem node_never_confirms_witness:
  "handle_get_tx_status toy_crypto toy_env ''00''
     (the (node_new toy_crypto toy_storage \<lparr>wl_signing_key = 3\<rparr> Map.empty None False None None)) toy_conn
   = (Continue, the (node_new toy_crypto toy_storage \<lparr>wl_signing_key = 3\<rparr> Map.empty None False None None), toy_conn,
      [Send (TxStatus ''00'' 0 False)])"
  using node_never_confirms [OF toy_storage_ok _ toy_start, of "[]"
      "fresh_system (the (node_new toy_crypto toy_storage \<lparr>wl_signing_key = 3\<rparr> Map.empty None False None None))"
      8333 "\<lambda>_. []" toy_env "''00''" toy_conn]
  by (simp add: toy_storage_def toy_env_def fresh_system_def)

end
