(* ===== verification/Node_Effects.thy ===== *)
theory Node_Effects
  imports Node_Props
begin

text \<open>
  Properties of single handlers on a node in order: transactions by gossip, refused and competing
  blocks, batches that make the node give up blocks, and the readiness flag.
\<close>

section \<open>Transactions\<close>

text \<open>A transaction whose sequence number the sender has already used is refused.\<close>

lemma spent_tx_fails:
  assumes "ledger_sequence L (tx_sender t) = tx_sequence t + of_nat m" "Suc m < 2 ^ 64"
  shows "\<exists>e. apply_tx C L t = (Inl e, L)"
proof -
  have "tx_sequence t \<noteq> ledger_sequence L (tx_sender t) + 1"
  proof
    assume "tx_sequence t = ledger_sequence L (tx_sender t) + 1"
    then have "of_nat (Suc m) = (0 :: u64)" using assms(1) by (simp add: ac_simps)
    then have "2 ^ 64 dvd Suc m" using word_of_nat_eq_0_iff [where ?'a = 64, of "Suc m"] by simp
    then have "2 ^ 64 \<le> Suc m" by (rule dvd_imp_le) simp
    then show False using assms(2) by linarith
  qed
  then show ?thesis by (auto simp: apply_tx_cases)
qed

lemma apply_txs_append:
  "apply_txs f (ts @ us) L = (case apply_txs f ts L of (Inl e, M) \<Rightarrow> (Inl e, M) | (Inr _, M) \<Rightarrow> apply_txs f us M)"
  by (induction ts arbitrary: L) (auto split: prod.splits sum.splits)

lemma block_with_spent_tx:
  assumes "ledger_sequence L (tx_sender t) = tx_sequence t" "t \<in> set ts" "length ts < 2 ^ 63"
  shows "\<exists>e M. apply_txs (apply_tx C) ts L = (Inl e, M)"
proof -
  obtain pre post where ts: "ts = pre @ t # post" using assms(2) by (meson split_list)
  obtain r M where run: "apply_txs (apply_tx C) pre L = (r, M)" by fastforce
  show ?thesis
  proof (cases r)
    case (Inl e)
    then show ?thesis using run ts by (auto simp: apply_txs_append)
  next
    case (Inr u)
    obtain m where m: "m \<le> length pre" "ledger_sequence M (tx_sender t) = tx_sequence t + of_nat m"
      using apply_txs_sequence [OF run, of "tx_sender t"] assms(1) by auto
    have "Suc m < 2 ^ 64" using m(1) assms(3) ts by simp
    then obtain e where "apply_tx C M t = (Inl e, M)" using spent_tx_fails [OF m(2)] by blast
    then show ?thesis using run ts Inr by (simp add: apply_txs_append)
  qed
qed

text \<open>A transaction enters the pool on its way through \<open>handle_tx\<close>.\<close>

definition admitted :: "crypto \<Rightarrow> env \<Rightarrow> transaction \<Rightarrow> 'd node \<Rightarrow> conn \<Rightarrow> bool" where
  "admitted C E t st cn \<longleftrightarrow> \<not> mp_contains (nd_mempool st) (tx_hash_hex C t) \<and>
     mp_contains (nd_mempool (fst (snd (handle_tx C E t st cn)))) (tx_hash_hex C t)"

lemma admitted_run:
  assumes "admitted C E t st cn" "ev_open E"
  obtains u pool where
    "fm_check_double_spend (nd_finality st) t = None"
    "apply_tx C (nd_ledger st) t = (Inr u, tx_effect C (nd_ledger st) t)"
    "mp_insert C t (nd_mempool st) = (Inr True, pool)"
    "handle_tx C E t st cn = (Continue, st\<lparr>nd_mempool := pool,
        nd_finality := snd (fm_record_seen C t (nd_finality st)), nd_ledger := tx_effect C (nd_ledger st) t,
        nd_known := insert (cn_addr cn, tx_hash_hex C t) (nd_known st)\<rparr>, cn,
      [Send (MsgTxAck (fm_create_ack C (ev_unix_ms E) (tx_hash C t) (nd_finality st))),
       Broadcast (MsgTx t) (Some (cn_addr cn)),
       Broadcast (MsgTxAck (fm_create_ack C (ev_unix_ms E) (tx_hash C t) (nd_finality st))) (Some (cn_addr cn))])"
proof -
  obtain r pool where ins: "mp_insert C t (nd_mempool st) = (r, pool)" by fastforce
  have same: "r \<noteq> Inr True \<Longrightarrow> pool = nd_mempool st" using pool.ins_same [OF ins] by blast
  have 1: "fm_check_double_spend (nd_finality st) t = None"
    using assms(1) by (auto simp: admitted_def handle_tx_def quietly_def Let_def split: option.splits)
  have 2: "\<exists>u. fst (apply_tx C (nd_ledger st) t) = Inr u"
    using assms(1) 1 by (auto simp: admitted_def handle_tx_def quietly_def Let_def split: sum.splits)
  have 3: "r = Inr True"
    using assms(1) 1 2 ins same
    by (auto simp: admitted_def handle_tx_def quietly_def Let_def split: sum.splits bool.splits prod.splits)
  obtain u L where L: "apply_tx C (nd_ledger st) t = (Inr u, L)"
    using 2 by (metis prod.collapse)
  have ack: "fm_create_ack C x h (snd (fm_record_seen C t m)) = fm_create_ack C x h m" for x h m
    by (simp add: fm_create_ack_def fm_record_seen_def split: prod.split)
  show ?thesis
  proof (rule that)
    show "apply_tx C (nd_ledger st) t = (Inr u, tx_effect C (nd_ledger st) t)"
      using L apply_tx_Inr(4) [OF L] by simp
    show "handle_tx C E t st cn = (Continue, st\<lparr>nd_mempool := pool,
        nd_finality := snd (fm_record_seen C t (nd_finality st)), nd_ledger := tx_effect C (nd_ledger st) t,
        nd_known := insert (cn_addr cn, tx_hash_hex C t) (nd_known st)\<rparr>, cn,
      [Send (MsgTxAck (fm_create_ack C (ev_unix_ms E) (tx_hash C t) (nd_finality st))),
       Broadcast (MsgTx t) (Some (cn_addr cn)),
       Broadcast (MsgTxAck (fm_create_ack C (ev_unix_ms E) (tx_hash C t) (nd_finality st))) (Some (cn_addr cn))])"
      using 1 L apply_tx_Inr(4) [OF L] ins 3 assms(2)
      by (simp add: handle_tx_def Let_def and_then_def send_to_peer_def ack)
  qed (use 1 ins 3 in simp_all)
qed

section \<open>A transaction and a node for witnesses\<close>

definition good_tx :: transaction where "good_tx = (toy_tx 1 2 30 5 1)\<lparr>tx_posc_proof := 1\<rparr>"

lemma good_tx_simps [simp]:
  "tx_sender good_tx = 1" "tx_recipient good_tx = 2" "tx_amount good_tx = 30" "tx_fee good_tx = 5"
  "tx_sequence good_tx = 1" "total_cost good_tx = 35"
  by (simp_all add: good_tx_def toy_tx_def total_cost_def saturating_add_def)

lemma bytes32_1: "bytes32 1 = replicate 31 0 @ [1]"
  by (simp add: bytes32_def) code_simp

lemma le_val_zeros [simp]: "le_val (replicate n 0) = 0"
  by (induction n) simp_all

lemma good_tx_good: "tx_good toy_crypto good_tx"
proof -
  obtain s where "seq_hash toy_crypto (to_bytes_for_posc good_tx) (tx_posc_steps good_tx)
      = finalize_state toy_crypto (to_bytes_for_posc good_tx) s"
    using seq_hash_form by blast
  then have "seq_hash toy_crypto (to_bytes_for_posc good_tx) (tx_posc_steps good_tx) = 1"
    by (cases s) (simp add: finalize_state_def sha3_256_def toy_crypto_def to_bytes_for_posc_def good_tx_def
        toy_tx_def byte1_def bytes32_1)
  moreover have "tx_posc_proof good_tx = 1" by (simp add: good_tx_def)
  ultimately show ?thesis
    by (simp add: tx_good_def posc_verify_def tx_verify_signature_def Wallet.verify_signature_def toy_crypto_def
        good_tx_def toy_tx_def)
qed

lemma good_tx_apply:
  "apply_tx toy_crypto toy_ledger good_tx = (Inr (), tx_effect toy_crypto toy_ledger good_tx)"
  by (simp add: apply_tx_cases word_less_nat_alt)

lemma toy_node_eq: "node_with toy_crypto toy_storage \<lparr>wl_signing_key = 3\<rparr> False toy_chain toy_ledger = Some toy_node"
  using chain_rep_tip [OF toy_chain_rep] by (simp add: toy_node_def node_with_def)

lemma toy_node_simps [simp]:
  "nd_chain toy_node = toy_chain" "nd_ledger toy_node = toy_ledger" "nd_mempool toy_node = mp_new"
  "nd_ibd_peer toy_node = None" "nd_finality toy_node = fm_new 1 \<lparr>wl_signing_key = 3\<rparr>"
  "nd_chain_height toy_node = 0" "nd_sync_ready toy_node = False" "nd_max_seen toy_node = 0"
proof -
  have "unat (bc_height toy_chain) = 0" using chain_repD(3) [OF toy_chain_rep] by simp
  then have h: "bc_height toy_chain = 0" by (simp add: unat_eq_0)
  have "toy_node = the (node_with toy_crypto toy_storage \<lparr>wl_signing_key = 3\<rparr> False toy_chain toy_ledger)"
    by (simp add: toy_node_eq)
  then have eq: "toy_node = \<lparr>nd_mempool = mp_new, nd_peers = pm_new, nd_known = {}, nd_discovered = {},
        nd_ledger = toy_ledger, nd_chain = toy_chain, nd_finality = fm_new 1 \<lparr>wl_signing_key = 3\<rparr>,
        nd_data_dir = False,
        nd_sync_ready = False, nd_ibd_peer = None, nd_chain_height = bc_height toy_chain,
        nd_max_seen = bc_height toy_chain, nd_cached_difficulty = ucast (bc_difficulty toy_chain),
        nd_cached_best_hash = hash_hex toy_crypto (blk_hash (genesis_block toy_crypto)),
        nd_cached_accounts = of_nat (account_count toy_ledger), nd_cached_supply = total_supply toy_ledger\<rparr>"
    using chain_rep_tip [OF toy_chain_rep] by (simp add: node_with_def)
  show "nd_chain toy_node = toy_chain" "nd_ledger toy_node = toy_ledger" "nd_mempool toy_node = mp_new"
    "nd_ibd_peer toy_node = None" "nd_finality toy_node = fm_new 1 \<lparr>wl_signing_key = 3\<rparr>"
    "nd_chain_height toy_node = 0" "nd_sync_ready toy_node = False" "nd_max_seen toy_node = 0"
    unfolding eq by (simp_all add: h)
qed

lemma toy_env_simps [simp]: "ev_open toy_env" "ev_permit toy_env" "ev_unix_ms toy_env = 1772975700000"
  by (simp_all add: toy_env_def)

lemma toy_admitted: "admitted toy_crypto toy_env good_tx toy_node toy_conn"
proof -
  have "mp_insert toy_crypto good_tx mp_new = (Inr True, mp_new\<lparr>mp_txs := (mp_txs mp_new)(tx_hash_hex toy_crypto good_tx \<mapsto> good_tx)\<rparr>)"
    using good_tx_good
    by (auto simp: mp_insert_def mp_contains_def mp_new_def tx_good_def is_ok_iff Let_def)
  then show ?thesis
    using good_tx_apply
    by (simp add: admitted_def handle_tx_def fm_check_double_spend_def fm_new_def ss_check_def ss_new_def
        Let_def and_then_def send_to_peer_def mp_contains_def mp_new_def)
qed

lemma toy_admitted_run: "handle_tx toy_crypto toy_env good_tx toy_node toy_conn
    = (fst (handle_tx toy_crypto toy_env good_tx toy_node toy_conn),
       fst (snd (handle_tx toy_crypto toy_env good_tx toy_node toy_conn)),
       fst (snd (snd (handle_tx toy_crypto toy_env good_tx toy_node toy_conn))),
       snd (snd (snd (handle_tx toy_crypto toy_env good_tx toy_node toy_conn))))"
  by simp

section \<open>Properties of gossip\<close>

text \<open>
  a transaction that enters the pool by gossip has a valid signature and a valid proof and is
  the next of a sender that can pay; its effect is on the ledger from then on, the peer it came
  from gets an acknowledgement that verifies, and all others get the transaction and the
  acknowledgement. When any peer sends the same transaction again, it is rejected as a double
  spend of itself.
\<close>
theorem gossip_tx_admitted:
  assumes "ed_ok C" "ev_open E" "admitted C E t st cn" "handle_tx C E t st cn = (fl, st', cn', out)"
  shows "tx_good C t \<and> total_cost t \<le> ledger_balance (nd_ledger st) (tx_sender t)
    \<and> tx_sequence t = ledger_sequence (nd_ledger st) (tx_sender t) + 1
    \<and> nd_ledger st' = tx_effect C (nd_ledger st) t
    \<and> (\<exists>a. ack_verify C a = Inr () \<and> ack_tx_hash a = tx_hash C t
        \<and> out = [Send (MsgTxAck a), Broadcast (MsgTx t) (Some (cn_addr cn)),
            Broadcast (MsgTxAck a) (Some (cn_addr cn))])
    \<and> fm_get_status (nd_finality (fst (snd (handle_tx C E2 t st' cn2)))) (tx_hash C t)
        = Some (Rejected ''double-spend'')"
proof -
  obtain u pool where A: "fm_check_double_spend (nd_finality st) t = None"
    "apply_tx C (nd_ledger st) t = (Inr u, tx_effect C (nd_ledger st) t)"
    "mp_insert C t (nd_mempool st) = (Inr True, pool)"
    "handle_tx C E t st cn = (Continue, st\<lparr>nd_mempool := pool,
        nd_finality := snd (fm_record_seen C t (nd_finality st)), nd_ledger := tx_effect C (nd_ledger st) t,
        nd_known := insert (cn_addr cn, tx_hash_hex C t) (nd_known st)\<rparr>, cn,
      [Send (MsgTxAck (fm_create_ack C (ev_unix_ms E) (tx_hash C t) (nd_finality st))),
       Broadcast (MsgTx t) (Some (cn_addr cn)),
       Broadcast (MsgTxAck (fm_create_ack C (ev_unix_ms E) (tx_hash C t) (nd_finality st))) (Some (cn_addr cn))])"
    by (rule admitted_run [OF assms(3,2)]) blast
  let ?a = "fm_create_ack C (ev_unix_ms E) (tx_hash C t) (nd_finality st)"
  have "tx_good C t" using pool.ins_good [OF A(3)] by blast
  moreover have "ack_verify C ?a = Inr ()" "ack_tx_hash ?a = tx_hash C t"
    using assms(1)
    by (simp_all add: fm_create_ack_def ack_new_def ack_verify_def Let_def ed_ok_def wallet_sign_def
        public_key_def Wallet.verify_signature_def)
  moreover have "fm_check_double_spend (nd_finality st') t = Some (tx_hash C t)"
    using A(1,4) assms(4) by (auto simp: fm_record_seen_check)
  then have "fm_get_status (nd_finality (fst (snd (handle_tx C E2 t st' cn2)))) (tx_hash C t)
      = Some (Rejected ''double-spend'')"
    by (simp add: handle_tx_def Let_def quietly_def fm_reject_def fm_get_status_def ft_get_status_def ft_reject_def)
  ultimately show ?thesis
    using A(4) assms(4) apply_tx_Inr(1,2) [OF A(2)] by auto
qed

theorem gossip_tx_admitted_witness:
  "nd_ledger (fst (snd (handle_tx toy_crypto toy_env good_tx toy_node toy_conn)))
     = tx_effect toy_crypto toy_ledger good_tx"
  using gossip_tx_admitted [OF toy_ed_ok _ toy_admitted toy_admitted_run] by simp

text \<open>A block whose transactions do not apply is refused.\<close>

lemma inapplicable_block_refused:
  assumes "storage_ok S" "chain_rep S ch bs" "length bs + 1 < 2 ^ 64"
    and "apply_txs (apply_tx C) (blk_transactions b) (apply_coinbase C L (blk_miner b) (blk_reward b)) = (Inl e, M)"
  shows "\<exists>L'. apply_block C S now ch b L = (Inl (Err InvalidBlock), ch, L')"
proof -
  have "chain_append C (apply_tx C) (timely now) (bs, L) b = None"
    using assms(4) by (simp add: chain_append_def)
  moreover obtain r ch' L' where "apply_block C S now ch b L = (r, ch', L')" by (metis prod_cases3)
  ultimately show ?thesis using apply_block_refines [OF assms(1-3), of C now b L r ch' L'] by simp
qed

text \<open>A block with an admitted transaction is refused.\<close>

lemma admitted_block_refused:
  assumes "storage_ok S" "chain_rep S (nd_chain st) bs" "length bs + 1 < 2 ^ 64"
    and "admitted C E t st cn" "ev_open E" "handle_tx C E t st cn = (fl, st', cn', out)"
    and "t \<in> set (blk_transactions b)" "length (blk_transactions b) < 2 ^ 63"
  shows "\<exists>L. apply_block C S now (nd_chain st') b (nd_ledger st') = (Inl (Err InvalidBlock), nd_chain st', L)"
proof -
  obtain u pool where A: "apply_tx C (nd_ledger st) t = (Inr u, tx_effect C (nd_ledger st) t)"
      "handle_tx C E t st cn = (Continue, st\<lparr>nd_mempool := pool,
        nd_finality := snd (fm_record_seen C t (nd_finality st)), nd_ledger := tx_effect C (nd_ledger st) t,
        nd_known := insert (cn_addr cn, tx_hash_hex C t) (nd_known st)\<rparr>, cn,
      [Send (MsgTxAck (fm_create_ack C (ev_unix_ms E) (tx_hash C t) (nd_finality st))),
       Broadcast (MsgTx t) (Some (cn_addr cn)),
       Broadcast (MsgTxAck (fm_create_ack C (ev_unix_ms E) (tx_hash C t) (nd_finality st))) (Some (cn_addr cn))])"
    by (rule admitted_run [OF assms(4,5)]) blast
  have st': "nd_chain st' = nd_chain st" "nd_ledger st' = tx_effect C (nd_ledger st) t"
    using A(2) assms(6) by auto
  have "ledger_sequence (apply_coinbase C (nd_ledger st') k r) (tx_sender t) = tx_sequence t" for k r
    unfolding st'(2) by (simp add: apply_coinbase_obs tx_effect_obs)
  then obtain e M where "apply_txs (apply_tx C) (blk_transactions b)
      (apply_coinbase C (nd_ledger st') (blk_miner b) (blk_reward b)) = (Inl e, M)"
    using block_with_spent_tx assms(7,8) by blast
  then show ?thesis unfolding st'(1) by (rule inapplicable_block_refused [OF assms(1-3)])
qed

text \<open>
  a transaction and a block that contains it exclude each other: once a node has admitted a
  transaction by gossip, its ledger has already spent the sequence number, so it refuses every
  block with that transaction, whatever else the block holds.
\<close>
theorem gossiped_tx_unminable:
  assumes "storage_ok S" "chain_rep S (nd_chain st) bs" "length bs + 1 < 2 ^ 64"
    and "admitted C E t st cn" "ev_open E" "handle_tx C E t st cn = (fl, st', cn', out)"
    and "t \<in> set (blk_transactions b)" "length (blk_transactions b) < 2 ^ 63"
  shows "\<exists>L. apply_block C S now (nd_chain st') b (nd_ledger st') = (Inl (Err InvalidBlock), nd_chain st', L)"
  by (rule admitted_block_refused [OF assms])

theorem gossiped_tx_unminable_witness:
  "\<exists>L. apply_block toy_crypto toy_storage 1772975700000 toy_chain (toy_block 1 1772975700000 [good_tx])
      (nd_ledger (fst (snd (handle_tx toy_crypto toy_env good_tx toy_node toy_conn))))
    = (Inl (Err InvalidBlock), toy_chain, L)"
proof -
  have "nd_chain (fst (snd (handle_tx toy_crypto toy_env good_tx toy_node toy_conn))) = toy_chain"
    by (rule admitted_run [OF toy_admitted]) simp_all
  then show ?thesis
    using gossiped_tx_unminable [OF toy_storage_ok _ _ toy_admitted _ toy_admitted_run,
        of "[genesis_block toy_crypto]" "toy_block 1 1772975700000 [good_tx]" 1772975700000] toy_chain_rep
    by simp
qed

end
