(* ===== verification/Node_Forks.thy ===== *)
theory Node_Forks
  imports Node_Effects
begin

text \<open>
  Properties of the handlers of blocks on a node in order: accepted blocks, blocks refused for
  a transaction, batches without work, and empty batches.
\<close>

section \<open>Accepted and refused blocks\<close>

text \<open>The handler of new blocks listens to a peer: nobody else drives the download.\<close>

definition listens :: "'d node \<Rightarrow> conn \<Rightarrow> bool" where
  "listens st cn \<longleftrightarrow> nd_ibd_peer st = None \<or> nd_ibd_peer st = Some (cn_addr cn)"

lemma height_next:
  assumes "chain_rep S ch bs" "length bs + 1 < 2 ^ 64" "unat i = length bs"
  shows "i = bc_height ch + 1" "bc_height ch < i"
proof -
  note R = chain_repD [OF assms(1)]
  have pos: "0 < length bs" using R(1) by simp
  have "unat (bc_height ch + 1) = length bs"
    using R(3) pos assms(2) unat_add_no_overflow [of "bc_height ch" 1] by simp
  then show "i = bc_height ch + 1" using assms(3) by (metis unsigned_word_eqI)
  show "bc_height ch < i" using R(3) pos assms(3) by (simp add: word_less_nat_alt)
qed

lemma process_next:
  assumes "chain_rep S (nd_chain st) bs" "length bs + 1 < 2 ^ 64" "unat (blk_index b) = length bs"
    and "apply_block C S (ev_unix_ms E) (nd_chain st) b (nd_ledger st) = (r, ch, L)"
  shows "process_block C S E b st cn = (case r of
      Inr _ \<Rightarrow> new_block_accepted C b (st\<lparr>nd_chain := ch, nd_ledger := L\<rparr>) cn
    | Inl (Err _) \<Rightarrow> new_block_refused C S E b (st\<lparr>nd_chain := ch, nd_ledger := L\<rparr>) cn
    | Inl Panic \<Rightarrow> (Stop Crashed, st\<lparr>nd_chain := ch, nd_ledger := L\<rparr>, cn, []))"
proof -
  note h = height_next [OF assms(1-3)]
  have "\<not> blk_index b \<le> bc_height (nd_chain st)" using h(2) by simp
  then show ?thesis
    using assms(4) chain_rep_tip [OF assms(1)] h(1)
    by (simp add: process_block_def Let_def split: sum.split fault.split)
qed

lemma handle_next:
  assumes "listens st cn" "ev_permit E" "nd_chain_height st = bc_height (nd_chain st)"
    and "chain_rep S (nd_chain st) bs" "length bs + 1 < 2 ^ 64" "unat (blk_index b) = length bs"
  shows "handle_new_block C S E b st cn = process_block C S E b st cn"
proof -
  note h = height_next [OF assms(4-6)]
  show ?thesis
    using assms(1-3) h by (auto simp: handle_new_block_def listens_def Let_def)
qed

text \<open>
  C15: a new block that extends the tip: a node whose caches are current appends it to the chain,
  applies it to the ledger, brings every cache up to date (height, difficulty, number of accounts,
  the sum of all balances, best hash), drops the block's transactions from its pool, saves the
  ledger and passes the block on to all peers but the sender.
\<close>
theorem new_block_extends:
  assumes "storage_ok S" "chain_rep S (nd_chain st) bs" "length bs + 1 < 2 ^ 64"
    and "listens st cn" "ev_permit E" "nd_chain_height st = bc_height (nd_chain st)"
    and "chain_append C (apply_tx C) (timely (ev_unix_ms E)) (bs, nd_ledger st) b = Some (bs @ [b], L')"
  shows "\<exists>st'. handle_new_block C S E b st cn
      = (Continue, st', cn, save_state st' @ [Broadcast (NewBlock b) (Some (cn_addr cn))])
    \<and> chain_rep S (nd_chain st') (bs @ [b]) \<and> nd_ledger st' = L'
    \<and> nd_chain_height st' = bc_height (nd_chain st')
    \<and> nd_cached_difficulty st' = ucast (bc_difficulty (nd_chain st'))
    \<and> nd_cached_accounts st' = of_nat (card (dom L'))
    \<and> nd_cached_supply st' = (\<Sum>k \<in> dom L'. acc_balance (the (L' k)))
    \<and> nd_cached_best_hash st' = hash_hex C (blk_hash b)
    \<and> (\<forall>h. mp_contains (nd_mempool st') h \<longleftrightarrow>
        mp_contains (nd_mempool st) h \<and> h \<notin> tx_hash_hex C ` set (blk_transactions b))"
proof -
  obtain r ch L where run: "apply_block C S (ev_unix_ms E) (nd_chain st) b (nd_ledger st) = (r, ch, L)"
    by (metis prod_cases3)
  have ap: "r = Inr ()" "chain_rep S ch (bs @ [b])" "L = L'"
    using apply_block_refines [OF assms(1-3) run] assms(7) by auto
  have adm: "links_to C b (last bs) (diff_of bs)"
    using assms(7) by (auto simp: chain_append_def admissible_def split: if_splits)
  have idx: "unat (blk_index b) = length bs" by (rule links_to_index [OF adm assms(2,3)])
  have hb: "bc_height ch = blk_index b"
    using chain_repD(3) [OF ap(2)] idx by (intro unat_eqI) simp
  have pool: "mp_contains (foldl (\<lambda>p t. mp_remove (tx_hash_hex C t) p) p ts) h
      \<longleftrightarrow> mp_contains p h \<and> h \<notin> tx_hash_hex C ` set ts" for p ts h
    by (rule pool.member_dels)
  show ?thesis
    unfolding handle_next [OF assms(4-6) assms(2,3) idx] process_next [OF assms(2,3) idx run]
    using ap hb
    by (simp add: new_block_accepted_def Let_def store_caches_def purge_def pool save_state_def
        account_count_def total_supply_def)
qed

theorem new_block_extends_witness:
  "\<exists>st'. handle_new_block toy_crypto toy_storage toy_env toy_b1 toy_node toy_conn
      = (Continue, st', toy_conn, save_state st' @ [Broadcast (NewBlock toy_b1) (Some toy_peer)])
    \<and> chain_rep toy_storage (nd_chain st') [genesis_block toy_crypto, toy_b1]
    \<and> nd_cached_accounts st' = of_nat (card (dom (nd_ledger st')))"
proof -
  have "bc_height toy_chain = 0"
    using chain_repD(3) [OF toy_chain_rep] by (simp add: unat_eq_0)
  then show ?thesis
    using new_block_extends [OF toy_storage_ok, of toy_node "[genesis_block toy_crypto]" toy_conn toy_env
        toy_crypto toy_b1] toy_chain_rep toy_append_b1
    by (auto simp: listens_def toy_conn_def)
qed

section \<open>Coins without blocks\<close>

text \<open>A block that is good except that its first transaction spends from an account that is not there.\<close>

definition bad_spend :: "crypto \<Rightarrow> u64 \<Rightarrow> block list \<Rightarrow> ledger \<Rightarrow> block \<Rightarrow> bool" where
  "bad_spend C now bs L b \<longleftrightarrow> admissible C (last bs) (diff_of bs) b \<and> timely now b \<and>
     (\<exists>t ts. blk_transactions b = t # ts \<and> tx_sender t \<notin> dom L \<and> tx_sender t \<noteq> blk_miner b)"

lemma bad_spend_apply:
  assumes "chain_rep S ch bs" "bad_spend C now bs L b"
  shows "apply_block C S now ch b L
    = (Inl (Err InvalidBlock), ch, apply_coinbase C L (blk_miner b) TESTNET_REWARD)"
proof -
  obtain t ts where t: "blk_transactions b = t # ts" "tx_sender t \<notin> dom L" "tx_sender t \<noteq> blk_miner b"
    using assms(2) by (auto simp: bad_spend_def)
  have adm: "admissible C (last bs) (diff_of bs) b" "timely now b" using assms(2) by (auto simp: bad_spend_def)
  have "tx_sender t \<notin> dom (apply_coinbase C L (blk_miner b) TESTNET_REWARD)"
    using t(2,3) by (auto simp: apply_coinbase_def Let_def)
  then have "\<exists>e. apply_tx C (apply_coinbase C L (blk_miner b) TESTNET_REWARD) t
      = (Inl e, apply_coinbase C L (blk_miner b) TESTNET_REWARD)"
    by (simp add: apply_tx_cases)
  then obtain e where "apply_txs (apply_tx C) (blk_transactions b) (apply_coinbase C L (blk_miner b) TESTNET_REWARD)
      = (Inl e, apply_coinbase C L (blk_miner b) TESTNET_REWARD)"
    using t(1) by auto
  moreover have "validate_inner C now b (last bs) (diff_of bs) True = None"
    using adm by (simp add: validate_inner_None admissible_def timely_def)
  ultimately show ?thesis
    using adm chain_rep_tip [OF assms(1)] chain_repD(6) [OF assms(1)]
    by (simp add: apply_block_def admissible_def is_ok_list)
qed

lemma bad_spend_next: "bad_spend C now bs L b \<Longrightarrow> bad_spend C now bs (apply_coinbase C L (blk_miner b) r) b"
  by (auto simp: bad_spend_def apply_coinbase_def Let_def)

definition deliver :: "crypto \<Rightarrow> ('d, 'v) storage \<Rightarrow> env \<Rightarrow> conn \<Rightarrow> block \<Rightarrow> 'd node \<Rightarrow> 'd node" where
  "deliver C S E cn b st = fst (snd (handle_new_block C S E b st cn))"

lemma deliver_bad:
  assumes "chain_rep S (nd_chain st) bs" "length bs + 1 < 2 ^ 64"
    and "listens st cn" "ev_permit E" "nd_chain_height st = bc_height (nd_chain st)"
    and "bad_spend C (ev_unix_ms E) bs (nd_ledger st) b"
  shows "deliver C S E cn b st
    = st\<lparr>nd_ledger := apply_coinbase C (nd_ledger st) (blk_miner b) TESTNET_REWARD\<rparr>"
proof -
  have adm: "links_to C b (last bs) (diff_of bs)" using assms(6) by (simp add: bad_spend_def admissible_def)
  have idx: "unat (blk_index b) = length bs" by (rule links_to_index [OF adm assms(1,2)])
  note h = height_next [OF assms(1,2) idx]
  show ?thesis
    unfolding deliver_def handle_next [OF assms(3-5) assms(1,2) idx]
      process_next [OF assms(1,2) idx bad_spend_apply [OF assms(1,6)]]
    using h(1) by (simp add: new_block_refused_def send_to_peer_def Let_def)
qed

text \<open>
  C9: coins without blocks: a miner who finds one block at the tip and puts a transaction into it
  that cannot be paid is credited the block reward every time the block is delivered, although
  the block is refused each time and the chain never moves; \<open>n\<close> deliveries credit \<open>n\<close> rewards.
\<close>
theorem refused_block_mints:
  assumes "chain_rep S (nd_chain st) bs" "length bs + 1 < 2 ^ 64"
    and "listens st cn" "ev_permit E" "nd_chain_height st = bc_height (nd_chain st)"
    and "bad_spend C (ev_unix_ms E) bs (nd_ledger st) b"
  shows "nd_chain ((deliver C S E cn b ^^ n) st) = nd_chain st
    \<and> ledger_balance (nd_ledger ((deliver C S E cn b ^^ n) st)) (blk_miner b)
        = ledger_balance (nd_ledger st) (blk_miner b) + of_nat n * TESTNET_REWARD"
proof -
  let ?ok = "\<lambda>s. nd_chain s = nd_chain st \<and> nd_chain_height s = nd_chain_height st
      \<and> nd_ibd_peer s = nd_ibd_peer st \<and> bad_spend C (ev_unix_ms E) bs (nd_ledger s) b"
  have step: "?ok s \<Longrightarrow> ?ok (deliver C S E cn b s) \<and>
      ledger_balance (nd_ledger (deliver C S E cn b s)) (blk_miner b)
        = ledger_balance (nd_ledger s) (blk_miner b) + TESTNET_REWARD" for s
    using deliver_bad [of S s bs cn E C b] assms(1-5) bad_spend_next [of C "ev_unix_ms E" bs "nd_ledger s" b]
    by (simp add: listens_def apply_coinbase_obs)
  have "?ok ((deliver C S E cn b ^^ n) st) \<and>
      ledger_balance (nd_ledger ((deliver C S E cn b ^^ n) st)) (blk_miner b)
        = ledger_balance (nd_ledger st) (blk_miner b) + of_nat n * TESTNET_REWARD"
  proof (induction n)
    case 0
    then show ?case using assms(6) by simp
  next
    case (Suc n)
    then show ?case using step [of "(deliver C S E cn b ^^ n) st"] by (simp add: algebra_simps)
  qed
  then show ?thesis by blast
qed

theorem refused_block_mints_witness:
  "ledger_balance (nd_ledger ((deliver toy_crypto toy_storage toy_env toy_conn
      (toy_block 1 1772975700000 [toy_tx 3 4 1 1 1]) ^^ 5) toy_node)) 7 = 5 * TESTNET_REWARD"
proof -
  have "bc_height toy_chain = 0"
    using chain_repD(3) [OF toy_chain_rep] by (simp add: unat_eq_0)
  moreover have "bad_spend toy_crypto 1772975700000 [genesis_block toy_crypto] toy_ledger
      (toy_block 1 1772975700000 [toy_tx 3 4 1 1 1])"
    using toy_admissible [of "[toy_tx 3 4 1 1 1]" 1772975700000]
    by (simp add: bad_spend_def timely_def toy_ledger_def)
  moreover have "ledger_balance toy_ledger 7 = 0" by (simp add: ledger_balance_def toy_ledger_def)
  ultimately show ?thesis
    using refused_block_mints [of toy_storage toy_node "[genesis_block toy_crypto]" toy_conn toy_env toy_crypto
        "toy_block 1 1772975700000 [toy_tx 3 4 1 1 1]" 5] toy_chain_rep
    by (simp add: listens_def)
qed

section \<open>Batches\<close>

text \<open>
  an empty batch of blocks, which any peer may send when no download runs, frees the
  download slot and inverts the readiness of a node that has reached every height it has heard
  of: a ready node stops mining, and the next empty batch makes it ready again.
\<close>
theorem empty_batch_inverts_readiness:
  assumes "listens st cn"
  shows "handle_blocks C S E [] st cn = (Continue,
      st\<lparr>nd_ibd_peer := None,
         nd_sync_ready := (nd_max_seen st \<le> bc_height (nd_chain st) \<and> \<not> nd_sync_ready st)\<rparr>,
      cn\<lparr>cn_request_at := None\<rparr>, [])"
  using assms by (auto simp: handle_blocks_def listens_def sync_complete_def quietly_def Let_def)

theorem empty_batch_inverts_readiness_witness:
  "nd_sync_ready (fst (snd (handle_blocks toy_crypto toy_storage toy_env []
      (toy_node\<lparr>nd_sync_ready := True\<rparr>) toy_conn))) = False"
  by (subst empty_batch_inverts_readiness) (simp_all add: listens_def)

lemma ibd_unlinked:
  assumes "chain_rep S ch bs" "\<not> links_to C b (last bs) (diff_of bs)"
  shows "apply_block_ibd C S now ch b L = (Inl (Err InvalidBlock), ch, L)"
  using assms chain_rep_tip [OF assms(1)] chain_repD(6) [OF assms(1)]
  by (simp add: apply_block_ibd_def validate_inner_None)

text \<open>
  C10: giving up blocks for nothing: two made-up blocks, without any work, are enough to make a
  node drop its chain back to any height at or above the last checkpoint it passed: the first
  one names a block of the node as its parent, the second one only claims a height more than
  five above the node's. The dropped blocks are not restored, the ledger is that of the
  shorter chain, nothing is sent, and the cached height and hash still say what they said before.
\<close>
theorem unworked_batch_reverts_chain:
  assumes "storage_ok S" "chain_rep S (nd_chain st) bs" "length bs + 5 < 2 ^ 64" "listens st cn"
    and "Suc fp < length bs" "checkpoint_anchor_at_or_below (bc_height (nd_chain st)) \<le> of_nat fp"
    and "unat (blk_index b1) = Suc fp" "blk_prev_hash b1 = blk_hash (bs ! fp)"
      "blk_hash b1 \<noteq> hash_header C b1"
    and "length bs + 5 \<le> unat (blk_index b2)"
  shows "\<exists>st'. handle_blocks C S E [b1, b2] st cn = (Continue, st', cn, [])
    \<and> chain_rep S (nd_chain st') (take (Suc fp) bs)
    \<and> nd_ledger st' = foldl undo_block (nd_ledger st) (rev (drop (Suc fp) bs))
    \<and> nd_chain_height st' = nd_chain_height st \<and> nd_cached_best_hash st' = nd_cached_best_hash st"
proof -
  note R = chain_repD [OF assms(2)]
  let ?ch = "nd_chain st" and ?fp = "of_nat fp :: u64"
  have ufp: "unat ?fp = fp" by (rule unat_of_nat_small) (use R(2) assms(5) in simp)
  have nz: "blk_index b1 \<noteq> 0" using assms(7) by auto
  have par: "blk_index b1 - 1 = ?fp"
    by (rule unat_eqI) (use nz assms(7) ufp in \<open>simp add: unat_minus_one\<close>)
  have nolink: "\<not> links_to C b1 p d" for p d using assms(9) by (simp add: links_to_def)
  have fail: "apply_block_ibd C S (ev_unix_ms E) ch b1 L = (Inl (Err InvalidBlock), ch, L)"
    if "chain_rep S ch cs" for ch L cs by (rule ibd_unlinked [OF that nolink])
  have find: "find_fork_point S ?ch [b1, b2] = Some ?fp"
    using nz par R(4) [of ?fp] ufp assms(5,8) by (simp add: find_fork_point_def Let_def)
  have hlt: "?fp < bc_height ?ch" using R(3) ufp assms(5) by (simp add: word_less_nat_alt)
  have h5: "unat (bc_height ?ch + 5) = length bs + 4"
    using R(3) assms(3,5) unat_add_no_overflow [of "bc_height ?ch" 5] by simp
  have big: "max_index [b1, b2] = blk_index b2"
    using assms(5,7,10) by (simp add: max_index_def max_def word_le_nat_alt)
  have up: "bc_height ?ch + 5 < blk_index b2" using h5 assms(10) by (simp add: word_less_nat_alt)
  have gt: "\<not> blk_index b2 \<le> bc_height ?ch" using R(3) assms(10) by (simp add: word_le_nat_alt)
  have depth: "bc_height ?ch - ?fp \<le> bc_height ?ch" using unat_sub_no_underflow [OF less_imp_le [OF hlt]] by (simp add: word_le_nat_alt)
  obtain ch' where rv: "revert_to_height S ?ch ?fp (nd_ledger st)
      = (Inr (rev (drop (Suc fp) bs)), ch', foldl undo_block (nd_ledger st) (rev (drop (Suc fp) bs)))"
      "chain_rep S ch' (take (Suc fp) bs)"
    using revert_to_height_rep [OF assms(1,2), of ?fp "nd_ledger st", unfolded ufp] assms(6)
    unfolding not_less [symmetric] by auto
  have above: "\<not> blk_index b1 \<le> ?fp" using ufp assms(7) by (simp add: word_le_nat_alt)
  let ?st1 = "st\<lparr>nd_max_seen := max (nd_max_seen st) (blk_index b2)\<rparr>"
  let ?st' = "?st1\<lparr>nd_chain := ch', nd_ledger := foldl undo_block (nd_ledger st) (rev (drop (Suc fp) bs))\<rparr>"
  have "batch_loop C S E [b1, b2] [b1, b2] 0 0 ?st1 cn = (False, 0, 0, ?st', cn)"
    using fail [OF assms(2)] fail [OF rv(2)] find less_imp_neq [OF hlt] big up gt depth rv(1) above
    by (simp add: batch_fork_def reorg_to_def Let_def)
  then show ?thesis
    using assms(4) rv(2)
    by (intro exI [of _ ?st']) (auto simp: handle_blocks_def listens_def quietly_def)
qed

text \<open>A node at height one, and two made-up blocks.\<close>

definition fake_1 :: block where "fake_1 = (toy_block 1 0 [])\<lparr>blk_hash := 99\<rparr>"
definition fake_2 :: block where "fake_2 = toy_block 50 0 []"

theorem unworked_batch_reverts_chain_witness:
  "\<exists>st1 st2. chain_rep toy_storage (nd_chain st1) [genesis_block toy_crypto, toy_b1]
    \<and> handle_blocks toy_crypto toy_storage toy_env [fake_1, fake_2] st1 toy_conn = (Continue, st2, toy_conn, [])
    \<and> chain_rep toy_storage (nd_chain st2) [genesis_block toy_crypto]"
proof -
  obtain ch1 L1 where rep: "chain_rep toy_storage ch1 [genesis_block toy_crypto, toy_b1]"
    by (rule toy_run_b1)
  have "unat (bc_height ch1) = 1" using chain_repD(3) [OF rep] by simp
  then have "bc_height ch1 = 1" by (metis unat_1 unsigned_word_eqI)
  then have anchor: "checkpoint_anchor_at_or_below (bc_height ch1) = 0"
    by (simp add: checkpoint_anchor_at_or_below_def CHECKPOINTS_def word_le_nat_alt)
  let ?st = "toy_node\<lparr>nd_chain := ch1\<rparr>"
  have rep': "chain_rep toy_storage (nd_chain ?st) [genesis_block toy_crypto, toy_b1]" using rep by simp
  obtain st2 where "handle_blocks toy_crypto toy_storage toy_env [fake_1, fake_2] ?st toy_conn
        = (Continue, st2, toy_conn, [])"
      "chain_rep toy_storage (nd_chain st2) (take (Suc 0) [genesis_block toy_crypto, toy_b1])"
    using unworked_batch_reverts_chain [OF toy_storage_ok rep', of toy_conn 0 fake_1 toy_crypto fake_2 toy_env] anchor
    by (auto simp: listens_def fake_1_def fake_2_def)
  then show ?thesis using rep' by (intro exI [of _ ?st] exI [of _ st2]) simp
qed

end
