(* ===== verification/Node_Sync.thy ===== *)
theory Node_Sync
  imports Node_Forks
begin

text \<open>
  The initial download between two nodes: a batch of good blocks is applied completely, and a
  node that asks an honest peer chunk by chunk reaches the peer's chain.
\<close>

section \<open>Ranges of blocks\<close>

lemma blocks_range_list:
  assumes "chain_rep S ch bs"
  shows "blocks_range S ch f t = take (Suc (unat t) - unat f) (drop (unat f) bs)"
proof -
  note R = chain_repD [OF assms]
  have "unat (min t (bc_height ch)) < length bs"
    unfolding unat_min R(3) using R(1) by (cases "length bs") auto
  then have "blocks_range S ch f t = take (Suc (min (unat t) (length bs - 1)) - unat f) (drop (unat f) bs)"
    unfolding blocks_range_def Let_def by (simp add: blocks_between [OF assms] unat_min R(3))
  also have "\<dots> = take (Suc (unat t) - unat f) (drop (unat f) bs)"
    using R(1) by (cases "unat t < length bs") (simp_all add: min_def)
  finally show ?thesis .
qed

section \<open>A batch of good blocks\<close>

fun chain_extend ::
    "crypto \<Rightarrow> block list \<times> ledger \<Rightarrow> block list \<Rightarrow> (block list \<times> ledger) option" where
  "chain_extend C st [] = Some st"
| "chain_extend C st (b # bs) =
     (case chain_append C (apply_tx_ibd C) (\<lambda>_. True) st b of
        None \<Rightarrow> None | Some st' \<Rightarrow> chain_extend C st' bs)"

lemma chain_extend_append:
  "chain_extend C st (bs @ cs) = (case chain_extend C st bs of None \<Rightarrow> None | Some st' \<Rightarrow> chain_extend C st' cs)"
  by (induction bs arbitrary: st) (auto split: option.split)

lemma chain_extend_shape: "chain_extend C (bs, L) cs = Some (bs', M) \<Longrightarrow> bs' = bs @ cs"
proof (induction cs arbitrary: bs L)
  case (Cons c cs)
  then obtain b1 L1 where "chain_append C (apply_tx_ibd C) (\<lambda>_. True) (bs, L) c = Some (b1, L1)"
      "chain_extend C (b1, L1) cs = Some (bs', M)"
    by (auto split: option.splits)
  then show ?case using Cons.IH chain_append_shape by fastforce
qed simp

lemma chain_extend_Cons:
  assumes "chain_extend C (bs, L) (c # cs) = Some r"
  obtains L1 where "chain_append C (apply_tx_ibd C) (\<lambda>_. True) (bs, L) c = Some (bs @ [c], L1)"
    "chain_extend C (bs @ [c], L1) cs = Some r"
proof (cases "chain_append C (apply_tx_ibd C) (\<lambda>_. True) (bs, L) c")
  case (Some p)
  then have "fst p = bs @ [c]" using chain_append_shape by (cases p) fastforce
  then show ?thesis using assms Some that [of "snd p"] by (cases p) simp
qed (use assms in simp)

lemma chain_extend_split:
  assumes "chain_extend C (bs, L) (cs @ ds) = Some r"
  obtains L1 where "chain_extend C (bs, L) cs = Some (bs @ cs, L1)"
    "chain_extend C (bs @ cs, L1) ds = Some r"
proof (cases "chain_extend C (bs, L) cs")
  case (Some p)
  then have "fst p = bs @ cs" using chain_extend_shape by (cases p) fastforce
  then show ?thesis using assms Some that [of "snd p"] by (cases p) (simp add: chain_extend_append)
qed (use assms in \<open>simp add: chain_extend_append\<close>)

text \<open>The parts of node and connection that applying blocks does not touch.\<close>

definition same_rest :: "'d node \<Rightarrow> 'd node \<Rightarrow> bool" where
  "same_rest st st' \<longleftrightarrow> nd_ibd_peer st' = nd_ibd_peer st \<and> nd_max_seen st' = nd_max_seen st
     \<and> nd_sync_ready st' = nd_sync_ready st \<and> nd_mempool st' = nd_mempool st
     \<and> nd_data_dir st' = nd_data_dir st"

definition same_conn :: "conn \<Rightarrow> conn \<Rightarrow> bool" where
  "same_conn cn cn' \<longleftrightarrow> cn_addr cn' = cn_addr cn \<and> cn_peer_height cn' = cn_peer_height cn"

lemma batch_loop_extends:
  assumes S: "storage_ok S"
  shows "chain_rep S (nd_chain st) bs \<Longrightarrow> length bs + length cs < 2 ^ 64 \<Longrightarrow>
    chain_extend C (bs, nd_ledger st) cs = Some (bs @ cs, L') \<Longrightarrow>
    nd_chain_height st = bc_height (nd_chain st) \<Longrightarrow>
    \<exists>l st' cn'. batch_loop C S E blocks cs applied last_height st cn = (False, applied + length cs, l, st', cn')
      \<and> chain_rep S (nd_chain st') (bs @ cs) \<and> nd_ledger st' = L' \<and> nd_chain_height st' = bc_height (nd_chain st')
      \<and> same_rest st st' \<and> same_conn cn cn'"
proof (induction cs arbitrary: bs applied last_height st cn)
  case Nil
  then show ?case by (simp add: same_rest_def same_conn_def)
next
  case (Cons c cs)
  obtain L1 where ap: "chain_append C (apply_tx_ibd C) (\<lambda>_. True) (bs, nd_ledger st) c = Some (bs @ [c], L1)"
      and ex: "chain_extend C (bs @ [c], L1) cs = Some (bs @ c # cs, L')"
    using chain_extend_Cons [OF Cons.prems(3)] by blast
  obtain r ch L where run: "apply_block_ibd C S (ev_unix_ms E) (nd_chain st) c (nd_ledger st) = (r, ch, L)"
    by (metis prod_cases3)
  have room: "length bs + 1 < 2 ^ 64" using Cons.prems(2) by simp
  have ok: "r = Inr ()" "chain_rep S ch (bs @ [c])" "L = L1"
    using apply_block_ibd_refines [OF S Cons.prems(1) room run] ap by auto
  have idx: "unat (blk_index c) = length bs"
    using chain_repD(5) [OF ok(2), of "length bs"] by simp
  have h: "blk_index c = bc_height ch"
    by (rule unat_eqI) (use chain_repD(3) [OF ok(2)] idx in simp)
  let ?st = "(store_caches (st\<lparr>nd_chain := ch, nd_ledger := L, nd_chain_height := blk_index c\<rparr>))
      \<lparr>nd_cached_best_hash := hash_hex C (blk_hash c)\<rparr>"
  let ?cn = "cn\<lparr>cn_progress_height := blk_index c, cn_progress_at := ev_now E\<rparr>"
  have pre: "chain_rep S (nd_chain ?st) (bs @ [c])" "length (bs @ [c]) + length cs < 2 ^ 64"
    "chain_extend C (bs @ [c], nd_ledger ?st) cs = Some ((bs @ [c]) @ cs, L')"
    "nd_chain_height ?st = bc_height (nd_chain ?st)"
    using ok ex Cons.prems(2) h by (simp_all add: store_caches_def)
  obtain l st' cn' where IH: "batch_loop C S E blocks cs (applied + 1) (blk_index c) ?st ?cn
        = (False, applied + 1 + length cs, l, st', cn')"
      "chain_rep S (nd_chain st') ((bs @ [c]) @ cs)" "nd_ledger st' = L'"
      "nd_chain_height st' = bc_height (nd_chain st')" "same_rest ?st st'" "same_conn ?cn cn'"
    using Cons.IH [OF pre, of "applied + 1" "blk_index c" ?cn] by blast
  have "batch_loop C S E blocks (c # cs) applied last_height st cn
      = (False, applied + length (c # cs), l, st', cn')"
    using run ok IH(1) by simp
  moreover have "same_rest st st'" "same_conn cn cn'"
    using IH(5,6) by (simp_all add: same_rest_def same_conn_def store_caches_def)
  ultimately show ?case using IH(2-4) by (intro exI [of _ l] exI [of _ st'] exI [of _ cn']) simp
qed

text \<open>What a chunk of good blocks does, and how the download goes on.\<close>

lemma handle_blocks_extends:
  assumes S: "storage_ok S" and rep: "chain_rep S (nd_chain st) bs" and room: "length bs + length cs < 2 ^ 64"
    and ex: "chain_extend C (bs, nd_ledger st) cs = Some (bs @ cs, L')" and ne: "cs \<noteq> []"
    and h: "nd_chain_height st = bc_height (nd_chain st)" and lis: "listens st cn"
    and ph: "cn_peer_height cn = Some ph" and op: "ev_open E"
  shows "\<exists>st' cn' out. handle_blocks C S E cs st cn = (Continue, st', cn', out)
    \<and> chain_rep S (nd_chain st') (bs @ cs) \<and> nd_ledger st' = L'
    \<and> nd_chain_height st' = bc_height (nd_chain st') \<and> cn_peer_height cn' = Some ph
    \<and> cn_addr cn' = cn_addr cn
    \<and> (if bc_height (nd_chain st') < ph
       then nd_ibd_peer st' = nd_ibd_peer st \<and> out = save_state st' @
         [Send (GetBlocks (bc_height (nd_chain st') + 1)
           (min (bc_height (nd_chain st') + 1 + IBD_CHUNK_SIZE - 1) ph))]
       else nd_ibd_peer st' = None \<and> (\<exists>L. out = (if nd_data_dir st then [Save_Ledger L] else [])))"
proof -
  let ?st = "st\<lparr>nd_max_seen := max (nd_max_seen st) (blk_index (last cs))\<rparr>"
  have pre: "chain_rep S (nd_chain ?st) bs" "chain_extend C (bs, nd_ledger ?st) cs = Some (bs @ cs, L')"
    "nd_chain_height ?st = bc_height (nd_chain ?st)"
    using rep ex h by simp_all
  obtain l st1 cn1 where run: "batch_loop C S E cs cs 0 0 ?st cn = (False, 0 + length cs, l, st1, cn1)"
    and post: "chain_rep S (nd_chain st1) (bs @ cs)" "nd_ledger st1 = L'"
      "nd_chain_height st1 = bc_height (nd_chain st1)" "same_rest ?st st1" "same_conn cn cn1"
    using batch_loop_extends [OF S pre(1) room pre(2,3), of E cs 0 0 cn] by blast
  note tip = chain_rep_tip [OF post(1)]
  have hb: "handle_blocks C S E cs st cn = batch_applied C S E st1 cn1"
    using ne lis run by (auto simp: handle_blocks_def listens_def Let_def)
  show ?thesis
    unfolding hb using tip post ph op
    by (auto simp: batch_applied_def and_then_def request_blocks_def send_to_peer_def sync_complete_def
        quietly_def save_state_def same_rest_def same_conn_def Let_def)
qed

section \<open>Over the wire\<close>

text \<open>
  The task that writes to a connection frames the messages queued for it and ends at the first
  one that cannot be sent; the write half of the connection is closed then. The other side receives
  what was written, and the end of the stream after it.
\<close>

primrec writer_task :: "json_codec \<Rightarrow> message list \<Rightarrow> bytes \<Rightarrow> bytes" where
  "writer_task J [] stream = stream"
| "writer_task J (msg # msgs) stream = (case send_message J msg stream of
     (Inl _, stream) \<Rightarrow> stream
   | (Inr _, stream) \<Rightarrow> writer_task J msgs stream)"

definition wire_deliver :: "json_codec \<Rightarrow> message list \<Rightarrow> loop_event" where
  "wire_deliver J msgs = (case fst (recv_message J (writer_task J msgs [])) of
     Inl e \<Rightarrow> Receive_Error e | Inr msg \<Rightarrow> Received msg)"

text \<open>A message that can be sent: its text has at most a megabyte.\<close>

definition wire_fits :: "json_codec \<Rightarrow> message \<Rightarrow> bool" where
  "wire_fits J msg \<longleftrightarrow> (\<exists>bs. json_to_vec J msg = Some bs \<and> length bs \<le> 1048576)"

lemma wire_deliver_fits: "codec_ok J \<Longrightarrow> wire_fits J msg \<Longrightarrow> wire_deliver J [msg] = Received msg"
  using recv_framed [of J msg _ "[]"]
  by (auto simp: wire_fits_def wire_deliver_def send_message_def MAX_MESSAGE_SIZE_def)

lemma wire_deliver_oversized: "\<not> wire_fits J msg \<Longrightarrow> wire_deliver J [msg] = Receive_Error UnexpectedEof"
  by (auto simp: wire_fits_def wire_deliver_def send_message_def MAX_MESSAGE_SIZE_def recv_message_def
      read_exact_def split: option.splits)

section \<open>Chunk by chunk\<close>

text \<open>
  Two nodes on one connection: what the node has queued for the peer goes over the wire, the peer
  handles it, and its answer goes back over the wire to the node, again and again. The result is what
  the node still has queued, \<open>None\<close> when the connection has ended, and the node.
\<close>

definition sends :: "effect list \<Rightarrow> message list" where
  "sends out = List.map_filter (\<lambda>e. case e of Send msg \<Rightarrow> Some msg | _ \<Rightarrow> None) out"

fun sync_rounds ::
    "json_codec \<Rightarrow> crypto \<Rightarrow> ('d, 'v) storage \<Rightarrow> ('e, 'w) storage \<Rightarrow> env \<Rightarrow> nat \<Rightarrow> message list
       \<Rightarrow> 'e node \<times> conn \<Rightarrow> 'd node \<times> conn \<Rightarrow> message list option \<times> 'd node" where
  "sync_rounds J C S SB E 0 queued (peer, pcn) (st, cn) = (Some queued, st)"
| "sync_rounds J C S SB E (Suc n) [] (peer, pcn) (st, cn) = (Some [], st)"
| "sync_rounds J C S SB E (Suc n) (msg # queued) (peer, pcn) (st, cn) =
     (case loop_step C SB E (wire_deliver J (msg # queued)) peer pcn of
        (Stop _, _, _, _) \<Rightarrow> (None, st)
      | (Continue, peer, pcn, reply) \<Rightarrow>
          if sends reply = [] then (Some [], st)
          else (case loop_step C S E (wire_deliver J (sends reply)) st cn of
              (Stop _, st, _, _) \<Rightarrow> (None, st)
            | (Continue, st, cn, out) \<Rightarrow> sync_rounds J C S SB E n (sends out) (peer, pcn) (st, cn)))"

text \<open>The chunks in which the blocks of a list are asked for.\<close>

fun chunks_of_25 :: "'a list \<Rightarrow> 'a list list" where
  "chunks_of_25 [] = []"
| "chunks_of_25 (x # xs) = take 25 (x # xs) # chunks_of_25 (drop 24 xs)"

lemma chunks_nonempty: "xs \<noteq> [] \<Longrightarrow> chunks_of_25 xs = take 25 xs # chunks_of_25 (drop 25 xs)"
  by (cases xs) simp_all

lemma sends_simps [simp]:
  "sends [] = []" "sends (Send m # out) = m # sends out" "sends (Save_Ledger L # out) = sends out"
  "sends (save_state st @ out) = sends out"
  by (simp_all add: sends_def List.map_filter_simps save_state_def)

text \<open>The request for the blocks from height \<open>k\<close> on of a peer at height \<open>ph\<close>.\<close>

abbreviation chunk_request :: "nat \<Rightarrow> u64 \<Rightarrow> message" where
  "chunk_request k ph \<equiv> GetBlocks (of_nat k) (min (of_nat k + IBD_CHUNK_SIZE - 1) ph)"

lemma chunk_answer:
  assumes B: "chain_rep SB (nd_chain peer) full" and k: "k < length full" "length full + 25 < 2 ^ 64"
    and op: "ev_open E"
  shows "loop_step C SB E (Received (chunk_request k (bc_height (nd_chain peer)))) peer pcn
    = (Continue, peer, pcn\<lparr>cn_last_recv := ev_now E\<rparr>, [Send (Blocks (take 25 (drop k full)))])"
proof -
  let ?ph = "bc_height (nd_chain peer)"
  let ?t = "min (of_nat k + IBD_CHUNK_SIZE - 1) ?ph"
  note RB = chain_repD [OF B]
  have uk: "unat (of_nat k :: u64) = k" by (rule unat_of_nat_small) (use k in simp)
  have "unat (of_nat k + 24 :: u64) = k + 24"
    using uk k unat_add_no_overflow [of "of_nat k :: u64" 24] by simp
  moreover have "of_nat k + IBD_CHUNK_SIZE - 1 = (of_nat k + 24 :: u64)" by (simp add: IBD_CHUNK_SIZE_def)
  ultimately have "unat (of_nat k + IBD_CHUNK_SIZE - 1 :: u64) = k + 24" by (simp only:)
  then have ut: "Suc (unat ?t) = min (k + 25) (length full)"
    unfolding unat_min RB(3) using k(1) by (cases "length full") auto
  have "take (min (k + 25) (length full) - k) (drop k full) = take 25 (drop k full)"
    using k(1) by (simp add: min_def)
  then show ?thesis
    using op by (simp add: handle_get_blocks_def send_to_peer_def blocks_range_list [OF B] uk ut)
qed

text \<open>
  What the node is in the middle of a download: its chain is the beginning of the peer's, the blocks
  that are missing are good for its ledger, and the request for the next chunk is queued.
\<close>

definition downloading ::
    "crypto \<Rightarrow> ('d, 'v) storage \<Rightarrow> block list \<Rightarrow> u64 \<Rightarrow> ledger \<Rightarrow> nat \<Rightarrow> message list \<Rightarrow> 'd node \<Rightarrow> conn \<Rightarrow> bool" where
  "downloading C S full ph L' k queued st cn \<longleftrightarrow>
     chain_rep S (nd_chain st) (take k full) \<and> k < length full \<and> 0 < k
     \<and> chain_extend C (take k full, nd_ledger st) (drop k full) = Some (full, L')
     \<and> nd_chain_height st = bc_height (nd_chain st) \<and> listens st cn \<and> cn_peer_height cn = Some ph
     \<and> queued = [chunk_request k ph]"

text \<open>And what it is in the end.\<close>

definition downloaded :: "('d, 'v) storage \<Rightarrow> block list \<Rightarrow> ledger \<Rightarrow> 'd node \<Rightarrow> bool" where
  "downloaded S full L' st \<longleftrightarrow> chain_rep S (nd_chain st) full \<and> nd_ledger st = L' \<and> nd_ibd_peer st = None
     \<and> nd_chain_height st = bc_height (nd_chain st)"

lemma chunk_handled:
  assumes S: "storage_ok S" and d: "downloading C S full ph L' k queued st cn"
    and ph: "unat ph = length full - 1" and len: "length full + 25 < 2 ^ 64" and op: "ev_open E"
  shows "\<exists>st' cn' out. loop_step C S E (Received (Blocks (take 25 (drop k full)))) st cn = (Continue, st', cn', out)
    \<and> (if length full \<le> k + 25 then downloaded S full L' st' \<and> sends out = []
       else downloading C S full ph L' (k + 25) (sends out) st' cn')"
proof -
  define cs where "cs = take 25 (drop k full)"
  let ?k = "min (k + 25) (length full)" and ?cn = "cn\<lparr>cn_last_recv := ev_now E\<rparr>"
  have D: "chain_rep S (nd_chain st) (take k full)" "k < length full" "0 < k"
      "chain_extend C (take k full, nd_ledger st) (drop k full) = Some (full, L')"
      "nd_chain_height st = bc_height (nd_chain st)" "listens st ?cn" "cn_peer_height ?cn = Some ph"
    using d by (simp_all add: downloading_def listens_def)
  have cat: "take k full @ cs = take ?k full"
    using take_add [of k 25 full] by (simp add: cs_def min_def)
  have rest: "drop k full = cs @ drop ?k full"
    using append_take_drop_id [of 25 "drop k full"] by (auto simp: cs_def min_def ac_simps)
  obtain L1 where ex: "chain_extend C (take k full, nd_ledger st) cs = Some (take k full @ cs, L1)"
      and more: "chain_extend C (take k full @ cs, L1) (drop ?k full) = Some (full, L')"
    using chain_extend_split [OF D(4) [unfolded rest]] by blast
  have ne: "cs \<noteq> []" using D(2) by (simp add: cs_def)
  have room: "length (take k full) + length cs < 2 ^ 64"
    using len cat by (metis add_lessD1 le_less_trans length_append length_take min.cobounded1)
  obtain st' cn' out where hb: "handle_blocks C S E cs st ?cn = (Continue, st', cn', out)"
    and post: "chain_rep S (nd_chain st') (take k full @ cs)" "nd_ledger st' = L1"
      "nd_chain_height st' = bc_height (nd_chain st')" "cn_peer_height cn' = Some ph" "cn_addr cn' = cn_addr ?cn"
    and next_q: "if bc_height (nd_chain st') < ph
       then nd_ibd_peer st' = nd_ibd_peer st \<and> out = save_state st' @
         [Send (GetBlocks (bc_height (nd_chain st') + 1) (min (bc_height (nd_chain st') + 1 + IBD_CHUNK_SIZE - 1) ph))]
       else nd_ibd_peer st' = None \<and> (\<exists>L. out = (if nd_data_dir st then [Save_Ledger L] else []))"
    using handle_blocks_extends [OF S D(1) room ex ne D(5,6,7) op] by blast
  have step: "loop_step C S E (Received (Blocks (take 25 (drop k full)))) st cn = (Continue, st', cn', out)"
    using hb by (simp add: cs_def)
  have "length (take k full @ cs) = ?k" by (simp add: cat)
  then have uh: "unat (bc_height (nd_chain st')) = ?k - 1" using chain_repD(3) [OF post(1)] by simp
  show ?thesis
  proof (cases "length full \<le> k + 25")
    case True
    then have "take k full @ cs = full" using cat by simp
    moreover from True have "\<not> bc_height (nd_chain st') < ph" using uh ph by (simp add: word_less_nat_alt)
    ultimately show ?thesis
      using step next_q post more True by (auto simp: downloaded_def)
  next
    case False
    then have k: "?k = k + 25" "take k full @ cs = take (k + 25) full" using cat by (simp_all add: min_def)
    have lt: "bc_height (nd_chain st') < ph"
      using uh ph False k(1) by (simp add: word_less_nat_alt)
    have "unat (bc_height (nd_chain st') + 1) = k + 25"
      using uh k(1) False len unat_add_no_overflow [of "bc_height (nd_chain st')" 1] by simp
    moreover have "unat (of_nat (k + 25) :: u64) = k + 25" by (rule unat_of_nat_small) (use False len in simp)
    ultimately have hk: "bc_height (nd_chain st') + 1 = of_nat (k + 25)" by (intro unat_eqI) simp
    have "listens st' cn'" using next_q lt D(6) post(5) by (simp add: listens_def)
    then have "downloading C S full ph L' (k + 25) (sends out) st' cn'"
      using next_q lt post more k False by (simp add: downloading_def hk)
    then show ?thesis using step False by auto
  qed
qed

lemma sync_rounds_complete:
  assumes J: "codec_ok J" "\<And>f t. wire_fits J (GetBlocks f t)"
    and S: "storage_ok S" and B: "chain_rep SB (nd_chain peer) full" and op: "ev_open E"
    and len: "length full + 25 < 2 ^ 64"
  shows "downloading C S full (bc_height (nd_chain peer)) L' k queued st cn \<Longrightarrow>
    css = chunks_of_25 (drop k full) \<Longrightarrow>
    case sync_rounds J C S SB E (length css) queued (peer, pcn) (st, cn) of (rest, st') \<Rightarrow>
      if list_all (\<lambda>bs. wire_fits J (Blocks bs)) css then rest = Some [] \<and> downloaded S full L' st'
      else rest = None
        \<and> chain_rep S (nd_chain st') (take (k + 25 * length (takeWhile (\<lambda>bs. wire_fits J (Blocks bs)) css)) full)"
proof (induction css arbitrary: k queued st cn pcn)
  case Nil
  then show ?case using chunks_nonempty [of "drop k full"] by (simp add: downloading_def)
next
  case (Cons c css)
  let ?ph = "bc_height (nd_chain peer)"
  have kl: "k < length full" and q: "queued = [chunk_request k ?ph]" and rep: "chain_rep S (nd_chain st) (take k full)"
    using Cons.prems(1) by (simp_all add: downloading_def)
  have c: "c = take 25 (drop k full)" "css = chunks_of_25 (drop (k + 25) full)"
    using Cons.prems(2) chunks_nonempty [of "drop k full"] kl by (simp_all add: ac_simps)
  have step: "sync_rounds J C S SB E (Suc (length css)) queued (peer, pcn) (st, cn)
      = (case loop_step C S E (wire_deliver J [Blocks c]) st cn of
          (Stop _, st, _, _) \<Rightarrow> (None, st)
        | (Continue, st, cn, out) \<Rightarrow> sync_rounds J C S SB E (length css) (sends out)
            (peer, pcn\<lparr>cn_last_recv := ev_now E\<rparr>) (st, cn))"
    using chunk_answer [OF B kl len op, of C pcn] by (simp add: q wire_deliver_fits [OF J] c(1) del: loop_step.simps)
  show ?case
  proof (cases "wire_fits J (Blocks c)")
    case False
    then show ?thesis using rep by (simp add: step wire_deliver_oversized)
  next
    case True
    obtain st' cn' out where hb: "loop_step C S E (Received (Blocks c)) st cn = (Continue, st', cn', out)"
      and post: "if length full \<le> k + 25 then downloaded S full L' st' \<and> sends out = []
         else downloading C S full ?ph L' (k + 25) (sends out) st' cn'"
      using chunk_handled [OF S Cons.prems(1) chain_repD(3) [OF B] len op, folded c(1)] by blast
    have run: "sync_rounds J C S SB E (Suc (length css)) queued (peer, pcn) (st, cn)
      = sync_rounds J C S SB E (length css) (sends out) (peer, pcn\<lparr>cn_last_recv := ev_now E\<rparr>) (st', cn')"
      using hb by (simp add: step wire_deliver_fits [OF J(1) True] del: loop_step.simps)
    show ?thesis
    proof (cases "length full \<le> k + 25")
      case last: True
      then have "css = []" by (simp add: c(2))
      then show ?thesis using run post last True by simp
    next
      case False
      then have "downloading C S full ?ph L' (k + 25) (sends out) st' cn'" using post by simp
      from Cons.IH [OF this c(2), of "pcn\<lparr>cn_last_recv := ev_now E\<rparr>"] show ?thesis
        using True unfolding list.size run add_0_right One_nat_def add_Suc_right
        by (cases "list_all (\<lambda>bs. wire_fits J (Blocks bs)) css") (simp_all add: run algebra_simps split: prod.splits)
    qed
  qed
qed

section \<open>Properties\<close>

text \<open>
  C6: the initial download: a node whose chain is the beginning of an honest peer's chain (whose
  further blocks are good for its ledger) and that hears the peer's height asks for blocks, in one
  round of messages for every 25 blocks that are missing. Every message goes over the wire, which
  carries a megabyte at most. If the text of every chunk of 25 blocks is within that, the node then has
  the whole chain and its ledger, its cached height is right, nothing is outstanding and the download
  slot is free. Otherwise the download stops at the first chunk that is too long: the peer's writer
  ends, the node's connection with it, and the node has the blocks before that chunk only, after which
  the next attempt with any peer of the same chain begins with this chunk.
\<close>
theorem two_nodes_sync:
  assumes "codec_ok J" "\<And>f t. wire_fits J (GetBlocks f t)"
    and "storage_ok S" "chain_rep SB (nd_chain peer) full" "chain_rep S (nd_chain st) (take k full)"
    and "0 < k" "k < length full" "length full + 25 < 2 ^ 64"
    and "chain_extend C (take k full, nd_ledger st) (drop k full) = Some (full, L')"
    and "nd_chain_height st = bc_height (nd_chain st)" "listens st cn" "ev_open E"
  shows "case handle_chain_height E (bc_height (nd_chain peer)) st cn of (fl, st1, cn1, out) \<Rightarrow>
    fl = Continue \<and>
    (let chunks = chunks_of_25 (drop k full) in
     case sync_rounds J C S SB E (length chunks) (sends out) (peer, pcn) (st1, cn1) of (rest, st') \<Rightarrow>
       if list_all (\<lambda>bs. wire_fits J (Blocks bs)) chunks
       then rest = Some [] \<and> chain_rep S (nd_chain st') full \<and> nd_ledger st' = L' \<and> nd_ibd_peer st' = None
         \<and> nd_chain_height st' = bc_height (nd_chain st')
       else rest = None
         \<and> chain_rep S (nd_chain st')
             (take (k + 25 * length (takeWhile (\<lambda>bs. wire_fits J (Blocks bs)) chunks)) full))"
proof -
  note R = chain_repD [OF assms(5)] and RB = chain_repD [OF assms(4)]
  let ?ph = "bc_height (nd_chain peer)"
  have uh: "unat (bc_height (nd_chain st)) = k - 1" using R(3) assms(7) by simp
  have gt: "?ph > bc_height (nd_chain st)" using uh RB(3) assms(6,7) by (simp add: word_less_nat_alt)
  have "unat (bc_height (nd_chain st) + 1) = k"
    using uh assms(6-8) unat_add_no_overflow [of "bc_height (nd_chain st)" 1] by simp
  moreover have "unat (of_nat k :: u64) = k" by (rule unat_of_nat_small) (use assms(7,8) in simp)
  ultimately have hk: "bc_height (nd_chain st) + 1 = of_nat k" by (intro unat_eqI) simp
  obtain st1 cn1 where run: "handle_chain_height E ?ph st cn = (Continue, st1, cn1, [Send (chunk_request k ?ph)])"
    and st1: "nd_chain st1 = nd_chain st" "nd_ledger st1 = nd_ledger st" "nd_chain_height st1 = nd_chain_height st"
      "listens st1 cn1" "cn_peer_height cn1 = Some ?ph"
    using gt assms(11,12)
    by (auto simp: handle_chain_height_def request_blocks_def and_then_def send_to_peer_def quietly_def hk
        listens_def Let_def)
  have "downloading C S full ?ph L' k [chunk_request k ?ph] st1 cn1"
    using st1 assms by (simp add: downloading_def)
  from sync_rounds_complete [OF assms(1-4,12,8) this refl, of pcn] show ?thesis
    unfolding run by (simp add: Let_def downloaded_def split: prod.splits if_splits)
qed

text \<open>
  A codec for runs of toy blocks, which needs \<open>pad\<close> bytes for every block: the witness downloads thirty
  blocks in two chunks with a small one and stops before the first chunk with a large one.
\<close>

definition toy_blocks :: "nat \<Rightarrow> nat \<Rightarrow> block list" where
  "toy_blocks f n = map (\<lambda>i. toy_block (of_nat i) 5 []) [f..<f + n]"

definition block_codec :: "nat \<Rightarrow> json_codec" where
  "block_codec pad =
     \<lparr>json_to_vec = (\<lambda>m. case m of
          GetBlocks f t \<Rightarrow> Some (1 # le64 f @ le64 t)
        | Blocks bs \<Rightarrow>
            (let f = (case bs of [] \<Rightarrow> 0 | b # _ \<Rightarrow> blk_index b); n = length bs in
             if bs = toy_blocks (unat f) n \<and> n < 2 ^ 64
             then Some (2 # le64 f @ le64 (of_nat n) @ replicate (n * pad) 0) else None)
        | _ \<Rightarrow> None),
      json_from_slice = (\<lambda>bs. case bs of
          [] \<Rightarrow> None
        | c # rest \<Rightarrow>
            (let f = from_le64 (take 8 rest); t = from_le64 (take 8 (drop 8 rest)) in
             if c = 1 then Some (GetBlocks f t) else Some (Blocks (toy_blocks (unat f) (unat t)))))\<rparr>"

lemma block_codec_ok: "codec_ok (block_codec pad)"
proof -
  have "unat (of_nat n :: u64) = n" if "n < 2 ^ 64" for n by (rule unat_of_nat_small) (use that in simp)
  then show ?thesis
    by (auto simp: codec_ok_def block_codec_def Let_def split: message.splits if_splits)
qed

lemma toy_run_blocks: "toy_run n = genesis_block toy_crypto # toy_blocks 1 n"
  by (simp add: toy_run_def toy_blocks_def)

lemma toy_blocks_take: "take m (toy_blocks f n) = toy_blocks f (min m n)"
  by (simp add: toy_blocks_def take_map take_upt min_def)

lemma toy_blocks_drop: "drop m (toy_blocks f n) = toy_blocks (f + m) (n - m)"
  by (cases "m \<le> n") (simp_all add: toy_blocks_def drop_map)

lemma toy_blocks_length [simp]: "length (toy_blocks f n) = n"
  by (simp add: toy_blocks_def)

lemma block_codec_request: "wire_fits (block_codec pad) (GetBlocks f t)"
  by (simp add: wire_fits_def block_codec_def)

lemma block_codec_fits:
  assumes "0 < n" "f + n < 400"
  shows "wire_fits (block_codec pad) (Blocks (toy_blocks f n)) \<longleftrightarrow> 17 + n * pad \<le> 1048576"
proof -
  have "unat (of_nat f :: u64) = f" by (rule unat_of_nat_small) (use assms in simp)
  moreover have "toy_blocks f n = toy_block (of_nat f) 5 [] # toy_blocks (Suc f) (n - 1)"
    using assms(1) by (cases n) (simp_all add: toy_blocks_def upt_rec)
  ultimately show ?thesis
    using assms by (simp add: wire_fits_def block_codec_def Let_def split: list.split)
qed

lemma toy_extend:
  "m + n < 400 \<Longrightarrow> \<exists>M. chain_extend toy_crypto (toy_run m, L) (toy_blocks (Suc m) n) = Some (toy_run (m + n), M)"
proof (induction n arbitrary: m L)
  case 0
  then show ?case by (simp add: toy_blocks_def)
next
  case (Suc n)
  have "toy_blocks (Suc m) (Suc n) = toy_block (of_nat (Suc m)) 5 [] # toy_blocks (Suc (Suc m)) n"
    by (simp add: toy_blocks_def upt_rec del: upt_Suc)
  moreover have "\<exists>M. chain_extend toy_crypto (toy_run (Suc m), apply_coinbase toy_crypto L 7 TESTNET_REWARD)
      (toy_blocks (Suc (Suc m)) n) = Some (toy_run (Suc m + n), M)"
    by (rule Suc.IH) (use Suc.prems in simp)
  ultimately show ?case using toy_run_append [of m L] Suc.prems by (simp del: of_nat_Suc)
qed

theorem two_nodes_sync_witness:
  "\<exists>peer. chain_rep toy_storage (nd_chain peer) (toy_run 30) \<and>
    (case handle_chain_height toy_env (bc_height (nd_chain peer)) toy_node toy_conn of (fl, st1, cn1, out) \<Rightarrow>
      (case sync_rounds (block_codec 0) toy_crypto toy_storage toy_storage toy_env 2 (sends out)
          (peer, toy_conn) (st1, cn1) of (rest, st') \<Rightarrow>
        rest = Some [] \<and> chain_rep toy_storage (nd_chain st') (toy_run 30))
      \<and> (case sync_rounds (block_codec 50000) toy_crypto toy_storage toy_storage toy_env 2 (sends out)
          (peer, toy_conn) (st1, cn1) of (rest, st') \<Rightarrow>
        rest = None \<and> chain_rep toy_storage (nd_chain st') [genesis_block toy_crypto]))"
proof -
  obtain ch where rep: "chain_rep toy_storage ch (toy_run 30)" using toy_run_history [of 30] by auto
  let ?peer = "toy_node\<lparr>nd_chain := ch\<rparr>"
  have B: "chain_rep toy_storage (nd_chain ?peer) (toy_run 30)" using rep by simp
  have parts: "take 1 (toy_run 30) = [genesis_block toy_crypto]" "drop 1 (toy_run 30) = toy_blocks 1 30"
    by (simp_all add: toy_run_blocks)
  obtain M where ext: "chain_extend toy_crypto (take 1 (toy_run 30), nd_ledger toy_node) (drop 1 (toy_run 30))
      = Some (toy_run 30, M)"
    using toy_extend [of 0 30 "nd_ledger toy_node"] unfolding parts by auto
  have ne: "toy_blocks f n \<noteq> [] \<longleftrightarrow> 0 < n" for f n by (cases n) (simp_all add: toy_blocks_def)
  have "chunks_of_25 (toy_blocks 26 5) = [toy_blocks 26 5]"
    using chunks_nonempty [of "toy_blocks 26 5"] by (simp add: ne toy_blocks_take toy_blocks_drop) (simp add: toy_blocks_def)
  then have chunks: "chunks_of_25 (toy_blocks 1 30) = [toy_blocks 1 25, toy_blocks 26 5]"
    using chunks_nonempty [of "toy_blocks 1 30"] by (simp add: ne toy_blocks_take toy_blocks_drop)
  have h: "nd_chain_height toy_node = bc_height (nd_chain toy_node)" "listens toy_node toy_conn"
    using chain_repD(3) [OF toy_chain_rep] by (simp_all add: unat_eq_0 listens_def)
  have h3: "chain_rep toy_storage (nd_chain toy_node) (take 1 (toy_run 30))"
    unfolding parts using toy_chain_rep by simp
  have fits: "wire_fits (block_codec 0) (Blocks (toy_blocks 1 25))" "wire_fits (block_codec 0) (Blocks (toy_blocks 26 5))"
    "\<not> wire_fits (block_codec 50000) (Blocks (toy_blocks 1 25))"
    by (simp_all add: block_codec_fits)
  note small = two_nodes_sync [OF block_codec_ok [of 0] block_codec_request [of 0] toy_storage_ok B h3 _ _ _ ext h,
      unfolded parts chunks]
  note large = two_nodes_sync [OF block_codec_ok [of 50000] block_codec_request [of 50000] toy_storage_ok B h3 _ _ _ ext h,
      unfolded parts chunks]
  show ?thesis
    unfolding numeral_2_eq_2
    using small [of toy_env toy_conn] large [of toy_env toy_conn] B fits parts(1)
    by (intro exI [of _ ?peer]) (auto split: prod.splits)
qed

section \<open>Transactions in downloaded blocks\<close>

lemma admissible_transactions:
  "admissible C prev d b \<Longrightarrow> is_ok (tx_verify_signature C t) \<Longrightarrow> admissible C prev d (b\<lparr>blk_transactions := [t]\<rparr>)"
  by (auto simp: admissible_def links_to_def checkpoint_mismatch_def hash_header_def header_bytes_def split: option.split)

text \<open>
  C39: a peer that a node downloads from moves money with old transactions: it takes the next block,
  which somebody else has mined, and puts any signed transaction into it that the sender can pay for,
  such as one that is on the chain already. The node takes the block, since the header does not commit
  to the transactions and a download does not look at sequence numbers, and makes the transfer:
  the recipient has the amount and the sender pays amount and fee, whatever its sequence number. At the
  tip the same block is refused, unless the number happens to be the sender's next.
\<close>
theorem download_replays_transaction:
  assumes "storage_ok S" "chain_rep S (nd_chain st) bs" "length bs + 1 < 2 ^ 64"
    and "listens st cn" "nd_chain_height st = bc_height (nd_chain st)" "cn_peer_height cn = Some ph" "ev_open E"
    and "admissible C (last bs) (diff_of bs) b" "is_ok (tx_verify_signature C t)"
    and "L = apply_coinbase C (nd_ledger st) (blk_miner b) TESTNET_REWARD" "total_cost t \<le> ledger_balance L (tx_sender t)"
    and "f = b\<lparr>blk_transactions := [t]\<rparr>"
  shows "\<exists>st' cn' out. handle_blocks C S E [f] st cn = (Continue, st', cn', out)
    \<and> chain_rep S (nd_chain st') (bs @ [f])
    \<and> ledger_balance (nd_ledger st') = (\<lambda>k.
        (if k = tx_sender t then ledger_balance L k - total_cost t else ledger_balance L k)
        + (if k = tx_recipient t then tx_amount t else 0))
    \<and> (tx_sequence t \<noteq> ledger_sequence (nd_ledger st) (tx_sender t) + 1 \<longrightarrow>
        (\<exists>M. apply_block C S (ev_unix_ms E) (nd_chain st) f (nd_ledger st) = (Inl (Err InvalidBlock), nd_chain st, M)))"
proof -
  have adm: "admissible C (last bs) (diff_of bs) f"
    using admissible_transactions [OF assms(8,9)] by (simp add: assms(12))
  have credit: "apply_coinbase C (nd_ledger st) (blk_miner f) (blk_reward f) = L"
    using assms(8) by (simp add: assms(10,12) admissible_def)
  have run: "apply_tx_ibd C L t = (Inr (), tx_effect C L t)" using assms(11) by (simp add: apply_tx_ibd_cases not_less)
  have "blk_transactions f = [t]" by (simp add: assms(12))
  then have "chain_append C (apply_tx_ibd C) (\<lambda>_. True) (bs, nd_ledger st) f = Some (bs @ [f], tx_effect C L t)"
    using adm credit run by (simp add: chain_append_def)
  then have ex: "chain_extend C (bs, nd_ledger st) [f] = Some (bs @ [f], tx_effect C L t)" by simp
  obtain st' cn' out where hb: "handle_blocks C S E [f] st cn = (Continue, st', cn', out)"
      "chain_rep S (nd_chain st') (bs @ [f])" "nd_ledger st' = tx_effect C L t"
    using handle_blocks_extends [OF assms(1,2) _ ex _ assms(5,4,6,7)] assms(3) by auto
  have "\<exists>M. apply_block C S (ev_unix_ms E) (nd_chain st) f (nd_ledger st) = (Inl (Err InvalidBlock), nd_chain st, M)"
    if "tx_sequence t \<noteq> ledger_sequence (nd_ledger st) (tx_sender t) + 1"
  proof -
    have "ledger_sequence L (tx_sender t) = ledger_sequence (nd_ledger st) (tx_sender t)"
      by (simp add: assms(10) apply_coinbase_obs)
    then have "\<exists>e. apply_tx C L t = (Inl e, L)" using that by (auto simp: apply_tx_cases)
    then obtain e where "apply_txs (apply_tx C) (blk_transactions f)
        (apply_coinbase C (nd_ledger st) (blk_miner f) (blk_reward f)) = (Inl e, L)"
      unfolding credit \<open>blk_transactions f = [t]\<close> by auto
    then have "chain_append C (apply_tx C) (timely (ev_unix_ms E)) (bs, nd_ledger st) f = None"
      by (simp add: chain_append_def)
    moreover obtain r ch M where "apply_block C S (ev_unix_ms E) (nd_chain st) f (nd_ledger st) = (r, ch, M)"
      by (metis prod_cases3)
    ultimately show ?thesis using apply_block_refines [OF assms(1-3)] by fastforce
  qed
  then show ?thesis using hb by (simp add: tx_effect_obs)
qed

theorem download_replays_transaction_witness:
  "\<exists>st st' cn' out. chain_rep toy_storage (nd_chain st) [genesis_block toy_crypto, toy_b1]
    \<and> toy_tx 1 2 30 5 1 \<in> set (blk_transactions toy_b1) \<and> ledger_balance (nd_ledger st) 2 = 30
    \<and> handle_blocks toy_crypto toy_storage toy_env [toy_block 2 5 [toy_tx 1 2 30 5 1]] st
        (toy_conn\<lparr>cn_peer_height := Some 9\<rparr>) = (Continue, st', cn', out)
    \<and> ledger_balance (nd_ledger st') 2 = 60"
proof -
  let ?t = "toy_tx 1 2 30 5 1"
  let ?L1 = "tx_effect toy_crypto (apply_coinbase toy_crypto toy_ledger 7 TESTNET_REWARD) ?t"
  obtain ch1 L1 where run: "chain_rep toy_storage ch1 [genesis_block toy_crypto, toy_b1]"
    by (rule toy_run_b1)
  let ?st = "toy_node\<lparr>nd_chain := ch1, nd_ledger := ?L1, nd_chain_height := bc_height ch1\<rparr>"
  have rep: "chain_rep toy_storage (nd_chain ?st) [genesis_block toy_crypto, toy_b1]" using run by simp
  have d: "diff_of [genesis_block toy_crypto, toy_b1] = 14" by (simp add: diff_of_def TESTNET_DIFFICULTY_def)
  have adm: "admissible toy_crypto (last [genesis_block toy_crypto, toy_b1])
      (diff_of [genesis_block toy_crypto, toy_b1]) (toy_block 2 5 [])"
    unfolding d by (simp add: admissible_def links_to_def toy_b1_def checkpoint_mismatch_def CHECKPOINTS_def
        meets_difficulty_def seq_meets_difficulty_value)
  have bal: "ledger_balance ?L1 1 = 65" "ledger_balance ?L1 2 = 30"
    by (simp_all add: tx_effect_obs apply_coinbase_obs saturating_add_def)
  let ?L = "apply_coinbase toy_crypto (nd_ledger ?st) (blk_miner (toy_block 2 5 [])) TESTNET_REWARD"
  have pay: "total_cost ?t \<le> ledger_balance ?L (tx_sender ?t)"
    using bal(1) by (simp add: apply_coinbase_obs saturating_add_def)
  have f: "toy_block 2 5 [?t] = (toy_block 2 5 [])\<lparr>blk_transactions := [?t]\<rparr>" by (simp add: toy_block_def)
  have small: "length [genesis_block toy_crypto, toy_b1] + 1 < 2 ^ 64" by simp
  have side: "listens ?st (toy_conn\<lparr>cn_peer_height := Some 9\<rparr>)" "nd_chain_height ?st = bc_height (nd_chain ?st)"
    "cn_peer_height (toy_conn\<lparr>cn_peer_height := Some 9\<rparr>) = Some 9" "ev_open toy_env"
    by (simp_all add: listens_def)
  obtain st' cn' out where res: "handle_blocks toy_crypto toy_storage toy_env [toy_block 2 5 [?t]] ?st
        (toy_conn\<lparr>cn_peer_height := Some 9\<rparr>) = (Continue, st', cn', out)"
      "ledger_balance (nd_ledger st') = (\<lambda>k.
        (if k = tx_sender ?t then ledger_balance ?L k - total_cost ?t else ledger_balance ?L k)
        + (if k = tx_recipient ?t then tx_amount ?t else 0))"
    using download_replays_transaction [OF toy_storage_ok rep small side adm toy_sig refl pay f] by blast
  have "ledger_balance ?L 2 = 30" using bal(2) by (simp add: apply_coinbase_obs)
  then have "ledger_balance (nd_ledger st') 2 = 60" unfolding res(2) by simp
  moreover have "?t \<in> set (blk_transactions toy_b1)" "ledger_balance (nd_ledger ?st) 2 = 30"
    using bal(2) by (simp_all add: toy_b1_def)
  ultimately show ?thesis using res(1) rep by blast
qed

end
