(* ===== verification/Pool_Db.thy ===== *)
theory Pool_Db
  imports Dedup
begin

text \<open>
  The persistence of the pool (pool/src/db.rs). A table is the list of its rows in the order of
  insertion; each statement is the function its SQL text describes. The columns are signed
  64-bit integers: an unsigned value is stored with its bits (\<open>as i64\<close>) and compared as signed
  (\<open>sint\<close>). Every call may fail, which is \<open>None\<close>: the first argument says whether the server
  answers it. Where the SQL text leaves the order of rows open the caller does not use it, with
  one exception, \<open>DISTINCT ON\<close>, whose choice among rows of equal time is the argument \<open>tie\<close>.
  Connecting and creating the schema are left out.
\<close>

section \<open>Records and tables\<close>

record share_record =
  sr_timestamp_ms :: u64
  sr_miner_address :: string
  sr_miner_pubkey :: string
  sr_worker_name :: string
  sr_nonce :: u64
  sr_block_index :: u64
  sr_is_block :: bool

record payout_record =
  pr_timestamp_ms :: u64
  pr_to_address :: string
  pr_amount_micro :: u64
  pr_tx_hash :: string
  pr_block_index :: u64

record 'f hashrate_snapshot =
  hs_timestamp_ms :: u64
  hs_hashrate_hps :: 'f
  hs_active_miners :: u32

record 'f pool_db =
  pd_shares :: "share_record list"
  pd_payouts :: "payout_record list"
  pd_snapshots :: "'f hashrate_snapshot list"

section \<open>Writes\<close>

definition insert_share :: "bool \<Rightarrow> share_record \<Rightarrow> 'f pool_db \<Rightarrow> 'f pool_db option" where
  "insert_share up r D = (if up then Some (D\<lparr>pd_shares := pd_shares D @ [r]\<rparr>) else None)"

definition insert_payout :: "bool \<Rightarrow> payout_record \<Rightarrow> 'f pool_db \<Rightarrow> 'f pool_db option" where
  "insert_payout up r D = (if up then Some (D\<lparr>pd_payouts := pd_payouts D @ [r]\<rparr>) else None)"

definition insert_hashrate_snapshot ::
    "bool \<Rightarrow> 'f hashrate_snapshot \<Rightarrow> 'f pool_db \<Rightarrow> 'f pool_db option" where
  "insert_hashrate_snapshot up r D =
     (if up then Some (D\<lparr>pd_snapshots := pd_snapshots D @ [r]\<rparr>) else None)"

section \<open>Reads\<close>

definition rows_since :: "u64 \<Rightarrow> share_record list \<Rightarrow> share_record list" where
  "rows_since since_ms rs = filter (\<lambda>r. sint since_ms \<le> sint (sr_timestamp_ms r)) rs"

definition max_i64 :: "u64 list \<Rightarrow> u64 option" where
  "max_i64 ts = (case ts of [] \<Rightarrow> None
     | t # us \<Rightarrow> Some (foldl (\<lambda>a b. if sint a \<le> sint b then b else a) t us))"

definition min_i64 :: "u64 list \<Rightarrow> u64 option" where
  "min_i64 ts = (case ts of [] \<Rightarrow> None
     | t # us \<Rightarrow> Some (foldl (\<lambda>a b. if sint b \<le> sint a then b else a) t us))"

definition shares_since :: "bool \<Rightarrow> 'f pool_db \<Rightarrow> u64 \<Rightarrow> share_record list option" where
  "shares_since up D since_ms = (if up then Some (rows_since since_ms (pd_shares D)) else None)"

definition shares_by_miner_since_full ::
    "bool \<Rightarrow> 'f pool_db \<Rightarrow> string \<Rightarrow> u64 \<Rightarrow> share_record list option" where
  "shares_by_miner_since_full up D address since_ms =
     (if up then Some (filter (\<lambda>r. sr_miner_address r = address) (rows_since since_ms (pd_shares D)))
      else None)"

definition shares_by_miner_since :: "bool \<Rightarrow> 'f pool_db \<Rightarrow> string \<Rightarrow> u64 \<Rightarrow> u64 option" where
  "shares_by_miner_since up D address since_ms =
     (if up
      then Some (of_nat (length (filter (\<lambda>r. sr_miner_address r = address)
             (rows_since since_ms (pd_shares D)))))
      else None)"

definition payouts_by_miner :: "bool \<Rightarrow> 'f pool_db \<Rightarrow> string \<Rightarrow> payout_record list option" where
  "payouts_by_miner up D address =
     (if up
      then Some (rev (sort_key (\<lambda>p. sint (pr_timestamp_ms p))
             (filter (\<lambda>p. pr_to_address p = address) (pd_payouts D))))
      else None)"

definition hashrate_snapshots_since ::
    "bool \<Rightarrow> 'f pool_db \<Rightarrow> u64 \<Rightarrow> 'f hashrate_snapshot list option" where
  "hashrate_snapshots_since up D since_ms =
     (if up
      then Some (sort_key (\<lambda>s. sint (hs_timestamp_ms s))
             (filter (\<lambda>s. sint since_ms \<le> sint (hs_timestamp_ms s)) (pd_snapshots D)))
      else None)"

definition workers_for_miner :: "bool \<Rightarrow> 'f pool_db \<Rightarrow> string \<Rightarrow> (string \<times> u64) list option" where
  "workers_for_miner up D address =
     (let rs = filter (\<lambda>r. sr_miner_address r = address) (pd_shares D);
          last_ms = (\<lambda>w. the (max_i64 (map sr_timestamp_ms (filter (\<lambda>r. sr_worker_name r = w) rs))))
      in if up
         then Some (rev (sort_key (\<lambda>(_, t). sint t)
                (map (\<lambda>w. (w, last_ms w)) (remdups (map sr_worker_name rs)))))
         else None)"

definition shares_by_worker_since :: "bool \<Rightarrow> 'f pool_db \<Rightarrow> string \<Rightarrow> string \<Rightarrow> u64 \<Rightarrow> u64 option" where
  "shares_by_worker_since up D address worker since_ms =
     (if up
      then Some (of_nat (length (filter
             (\<lambda>r. sr_miner_address r = address \<and> sr_worker_name r = worker)
             (rows_since since_ms (pd_shares D)))))
      else None)"

definition count_blocks_found :: "bool \<Rightarrow> 'f pool_db \<Rightarrow> u64 option" where
  "count_blocks_found up D =
     (if up then Some (of_nat (length (filter sr_is_block (pd_shares D)))) else None)"

definition last_share_ms :: "bool \<Rightarrow> 'f pool_db \<Rightarrow> string \<Rightarrow> u64 option" where
  "last_share_ms up D address =
     (if up
      then (case max_i64 (map sr_timestamp_ms
                (filter (\<lambda>r. sr_miner_address r = address) (pd_shares D))) of
              None \<Rightarrow> Some 0 | Some t \<Rightarrow> Some t)
      else None)"

text \<open>The newest row of an address; among rows of equal time the server chooses.\<close>

definition newest_row ::
    "(share_record list \<Rightarrow> share_record) \<Rightarrow> share_record list \<Rightarrow> share_record option" where
  "newest_row tie rs =
     (case max_i64 (map sr_timestamp_ms rs) of
        None \<Rightarrow> None
      | Some t \<Rightarrow> Some (tie (filter (\<lambda>r. sr_timestamp_ms r = t) rs)))"

definition miner_pubkeys_in_round ::
    "bool \<Rightarrow> (share_record list \<Rightarrow> share_record) \<Rightarrow> 'f pool_db \<Rightarrow> u64 \<Rightarrow> (string \<rightharpoonup> string) option" where
  "miner_pubkeys_in_round up tie D since_ms =
     (if up
      then Some (\<lambda>address. map_option sr_miner_pubkey
             (newest_row tie (filter (\<lambda>r. sr_miner_address r = address)
                (rows_since since_ms (pd_shares D)))))
      else None)"

definition distinct_miners_since :: "bool \<Rightarrow> 'f pool_db \<Rightarrow> u64 \<Rightarrow> nat option" where
  "distinct_miners_since up D since_ms =
     (if up then Some (card (sr_miner_address ` set (rows_since since_ms (pd_shares D)))) else None)"

definition worker_key :: "string \<Rightarrow> string \<Rightarrow> string" where
  "worker_key address worker = address @ '':'' @ worker"

definition distinct_workers_since :: "bool \<Rightarrow> 'f pool_db \<Rightarrow> u64 \<Rightarrow> nat option" where
  "distinct_workers_since up D since_ms =
     (if up
      then Some (card ((\<lambda>r. worker_key (sr_miner_address r) (sr_worker_name r))
             ` set (rows_since since_ms (pd_shares D))))
      else None)"

definition worker_share_stats_since ::
    "bool \<Rightarrow> 'f pool_db \<Rightarrow> u64 \<Rightarrow> (string \<times> nat \<times> u64 \<times> u64) list option" where
  "worker_share_stats_since up D since_ms =
     (let rs = rows_since since_ms (pd_shares D);
          group = (\<lambda>(a, w). filter (\<lambda>r. sr_miner_address r = a \<and> sr_worker_name r = w) rs);
          row = (\<lambda>(a, w). let ts = map sr_timestamp_ms (group (a, w))
                  in (worker_key a w, length ts, the (min_i64 ts), the (max_i64 ts)))
      in if up
         then Some (map row (remdups (map (\<lambda>r. (sr_miner_address r, sr_worker_name r)) rs)))
         else None)"

text \<open>The sum is computed exactly; the cast to \<open>bigint\<close> is an error outside the signed range.\<close>

definition sum_bigint :: "u64 list \<Rightarrow> u64 option" where
  "sum_bigint xs =
     (let s = sum_list (map sint xs)
      in if - (2 ^ 63) \<le> s \<and> s < 2 ^ 63 then Some (of_int s) else None)"

definition total_paid :: "bool \<Rightarrow> 'f pool_db \<Rightarrow> u64 option" where
  "total_paid up D = (if up then sum_bigint (map pr_amount_micro (pd_payouts D)) else None)"

definition total_paid_to_miner :: "bool \<Rightarrow> 'f pool_db \<Rightarrow> string \<Rightarrow> u64 option" where
  "total_paid_to_miner up D address =
     (if up
      then sum_bigint (map pr_amount_micro (filter (\<lambda>p. pr_to_address p = address) (pd_payouts D)))
      else None)"

section \<open>The directory of miner keys\<close>

text \<open>
  What the payouts rely on: a table of shares in which a miner with a share in the round can be
  looked up, and what is found was written for that miner.
\<close>

locale key_directory =
  fixes rows :: "'d \<Rightarrow> share_record set"
    and put :: "share_record \<Rightarrow> 'd \<Rightarrow> 'd"
    and key :: "'d \<Rightarrow> u64 \<Rightarrow> string \<rightharpoonup> string"
  assumes rows_put: "rows (put r d) = insert r (rows d)"
    and key_sound: "key d since a = Some p \<Longrightarrow>
      \<exists>r \<in> rows d. sr_miner_address r = a \<and> sr_miner_pubkey r = p"
    and key_complete: "\<lbrakk>r \<in> rows d; sint since \<le> sint (sr_timestamp_ms r)\<rbrakk>
      \<Longrightarrow> key d since (sr_miner_address r) \<noteq> None"
begin

lemma put_known: "sint since \<le> sint (sr_timestamp_ms r) \<Longrightarrow> key (put r d) since (sr_miner_address r) \<noteq> None"
  by (rule key_complete) (simp_all add: rows_put)

lemma key_checked:
  assumes "key d since a = Some p" "\<forall>r \<in> rows d. ok (sr_miner_address r) (sr_miner_pubkey r)"
  shows "ok a p"
  using key_sound [OF assms(1)] assms(2) by blast

end

definition tie_ok :: "(share_record list \<Rightarrow> share_record) \<Rightarrow> bool" where
  "tie_ok tie \<longleftrightarrow> (\<forall>rs. rs \<noteq> [] \<longrightarrow> tie rs \<in> set rs)"

lemma foldl_pick_mem: "foldl (\<lambda>a b. if c a b then b else a) t us \<in> insert t (set us)"
  by (induction us arbitrary: t) auto

lemma max_i64_mem: "max_i64 ts = Some t \<Longrightarrow> t \<in> set ts"
  using foldl_pick_mem [of "\<lambda>a b. sint a \<le> sint b"] by (cases ts) (auto simp: max_i64_def)

lemma max_i64_None [simp]: "max_i64 ts = None \<longleftrightarrow> ts = []"
  by (cases ts) (auto simp: max_i64_def)

lemma newest_row_mem:
  assumes "tie_ok tie" "newest_row tie rs = Some r"
  shows "r \<in> set rs"
proof -
  obtain t where t: "max_i64 (map sr_timestamp_ms rs) = Some t"
      "r = tie (filter (\<lambda>r. sr_timestamp_ms r = t) rs)"
    using assms(2) by (auto simp: newest_row_def split: option.splits)
  have "filter (\<lambda>r. sr_timestamp_ms r = t) rs \<noteq> []"
    using max_i64_mem [OF t(1)] by (auto simp: filter_empty_conv)
  then have "r \<in> set (filter (\<lambda>r. sr_timestamp_ms r = t) rs)"
    using assms(1) t(2) unfolding tie_ok_def by blast
  then show ?thesis by simp
qed

lemma newest_row_None [simp]: "newest_row tie rs = None \<longleftrightarrow> rs = []"
  by (auto simp: newest_row_def max_i64_def split: option.splits list.splits)

text \<open>The key of an address with a row, for a server that answers.\<close>

definition key_of ::
    "(share_record list \<Rightarrow> share_record) \<Rightarrow> 'f pool_db \<Rightarrow> u64 \<Rightarrow> string \<rightharpoonup> string" where
  "key_of tie D since = the (miner_pubkeys_in_round True tie D since)"

definition put_share :: "share_record \<Rightarrow> 'f pool_db \<Rightarrow> 'f pool_db" where
  "put_share r D = the (insert_share True r D)"

text \<open>A server that breaks ties within the rows given to it.\<close>

definition pick_row :: "(share_record list \<Rightarrow> share_record) \<Rightarrow> share_record list \<Rightarrow> share_record" where
  "pick_row tie rs = (if tie rs \<in> set rs then tie rs else hd rs)"

lemma pick_row_ok: "tie_ok (pick_row tie)"
  by (auto simp: tie_ok_def pick_row_def)

lemma pick_row_id: "tie_ok tie \<Longrightarrow> rs \<noteq> [] \<Longrightarrow> pick_row tie rs = tie rs"
  by (auto simp: tie_ok_def pick_row_def)

lemma newest_row_pick_row: "tie_ok tie \<Longrightarrow> newest_row (pick_row tie) rs = newest_row tie rs"
  using max_i64_mem [of "map sr_timestamp_ms rs"]
  by (auto simp: newest_row_def filter_empty_conv image_iff intro!: pick_row_id split: option.splits)

lemma key_of_pick_row: "tie_ok tie \<Longrightarrow> key_of (pick_row tie) D since = key_of tie D since"
  by (simp add: key_of_def miner_pubkeys_in_round_def newest_row_pick_row)

interpretation directory: key_directory "\<lambda>D. set (pd_shares D)" put_share "key_of (pick_row tie)" for tie
proof unfold_locales
  fix D :: "'a pool_db" and since :: u64 and a p
  assume "key_of (pick_row tie) D since a = Some p"
  then show "\<exists>r \<in> set (pd_shares D). sr_miner_address r = a \<and> sr_miner_pubkey r = p"
    using newest_row_mem [OF pick_row_ok [of tie]]
    by (fastforce simp: key_of_def miner_pubkeys_in_round_def rows_since_def)
next
  fix r and D :: "'a pool_db" and since :: u64
  assume "r \<in> set (pd_shares D)" "sint since \<le> sint (sr_timestamp_ms r)"
  then show "key_of (pick_row tie) D since (sr_miner_address r) \<noteq> None"
    by (auto simp: key_of_def miner_pubkeys_in_round_def rows_since_def filter_empty_conv)
qed (simp add: put_share_def insert_share_def)

end
