(* ===== verification/Floats.thy ===== *)
theory Floats
  imports Prelude
begin

text \<open>
  Floating-point arithmetic as the code uses it: a record of the operations of \<open>f64\<close> (or of
  \<open>f32\<close>, which has the same ones), so that
  nothing proved rests on how they round. A decimal literal \<open>m\<close> times ten to the \<open>e\<close> is
  \<open>f_lit m e\<close>, \<open>as f64\<close> from an integer type is \<open>f_of_int\<close>, and the saturating casts back are
  \<open>f_to_u32\<close>, \<open>f_to_u64\<close> and \<open>f_to_i32\<close>. \<open>f_max\<close>, \<open>f_min\<close> and \<open>f_clamp\<close> are those of the standard library.
\<close>

record 'f floats =
  f_lit :: "int \<Rightarrow> int \<Rightarrow> 'f"
  f_of_int :: "int \<Rightarrow> 'f"
  f_add :: "'f \<Rightarrow> 'f \<Rightarrow> 'f"
  f_sub :: "'f \<Rightarrow> 'f \<Rightarrow> 'f"
  f_mul :: "'f \<Rightarrow> 'f \<Rightarrow> 'f"
  f_div :: "'f \<Rightarrow> 'f \<Rightarrow> 'f"
  f_less :: "'f \<Rightarrow> 'f \<Rightarrow> bool"
  f_eq :: "'f \<Rightarrow> 'f \<Rightarrow> bool"
  f_max :: "'f \<Rightarrow> 'f \<Rightarrow> 'f"
  f_min :: "'f \<Rightarrow> 'f \<Rightarrow> 'f"
  f_powf :: "'f \<Rightarrow> 'f \<Rightarrow> 'f"
  f_round :: "'f \<Rightarrow> 'f"
  f_to_u32 :: "'f \<Rightarrow> u32"
  f_to_u64 :: "'f \<Rightarrow> u64"
  f_to_i32 :: "'f \<Rightarrow> i32"

definition f_clamp :: "'f floats \<Rightarrow> 'f \<Rightarrow> 'f \<Rightarrow> 'f \<Rightarrow> 'f" where
  "f_clamp F x lo hi = (if f_less F x lo then lo else if f_less F hi x then hi else x)"

definition f_zero :: "'f floats \<Rightarrow> 'f" where "f_zero F = f_lit F 0 0"

definition f_nat :: "'f floats \<Rightarrow> nat \<Rightarrow> 'f" where "f_nat F n = f_of_int F (int n)"

definition f_u64 :: "'f floats \<Rightarrow> u64 \<Rightarrow> 'f" where "f_u64 F w = f_of_int F (uint w)"

text \<open>\<open>partial_cmp\<close> is none when the two numbers cannot be compared, and \<open>unwrap\<close> then panics.\<close>

definition comparable :: "'f floats \<Rightarrow> 'f \<Rightarrow> 'f \<Rightarrow> bool" where
  "comparable F a b \<longleftrightarrow> f_less F a b \<or> f_less F b a \<or> f_eq F a b"

text \<open>The comparison orders the numbers of a set: they are comparable, and it is a strict weak order.\<close>

definition order_on :: "'f floats \<Rightarrow> 'f set \<Rightarrow> bool" where
  "order_on F A \<longleftrightarrow> (\<forall>x \<in> A. \<forall>y \<in> A. comparable F x y) \<and> (\<forall>x \<in> A. \<not> f_less F x x)
     \<and> (\<forall>x \<in> A. \<forall>y \<in> A. \<forall>z \<in> A. \<not> f_less F x y \<longrightarrow> \<not> f_less F y z \<longrightarrow> \<not> f_less F x z)
     \<and> (\<forall>x \<in> A. \<forall>y \<in> A. f_less F x y \<longrightarrow> \<not> f_less F y x)"

text \<open>
  A concrete instance for witnesses: integer arithmetic that rounds every quotient down and
  reads a literal as its integral part.
\<close>

definition int_floats :: "int floats" where
  "int_floats = \<lparr>f_lit = (\<lambda>m e. if e < 0 then m div 10 ^ nat (- e) else m * 10 ^ nat e),
     f_of_int = (\<lambda>n. n), f_add = (+), f_sub = (-), f_mul = (*), f_div = (div), f_less = (<),
     f_eq = (=), f_max = max, f_min = min, f_powf = (\<lambda>x _. x), f_round = (\<lambda>x. x),
     f_to_u32 = (\<lambda>x. of_int (max 0 (min 4294967295 x))),
     f_to_u64 = (\<lambda>x. of_int (max 0 (min 18446744073709551615 x))),
     f_to_i32 = (\<lambda>x. of_int (max (- 2147483648) (min 2147483647 x)))\<rparr>"

end
