(* ===== verification/Vardiff.thy ===== *)
theory Vardiff
  imports Floats Pool_Db
begin

text \<open>
  The per-worker share difficulty of the pool (pool/src/vardiff.rs). \<open>u32::clamp\<close> panics when its
  bounds are the wrong way round: the new difficulty is then \<open>None\<close>, and the worker keeps the
  time and the average written before the panic. The clock is an argument.
\<close>

definition TARGET_INTERVAL_MS :: "'f floats \<Rightarrow> 'f" where "TARGET_INTERVAL_MS F = f_lit F 8000 0"
definition ALPHA :: "'f floats \<Rightarrow> 'f" where "ALPHA F = f_lit F 3 (- 1)"
definition MAX_RATIO :: "'f floats \<Rightarrow> 'f" where "MAX_RATIO F = f_lit F 3 0"
definition SMOOTH_EXP :: "'f floats \<Rightarrow> 'f" where "SMOOTH_EXP F = f_lit F 8 (- 1)"

record 'f worker_vardiff =
  wv_difficulty :: u32
  wv_ewiat_ms :: 'f
  wv_last_share_ms :: u64

definition wv_new :: "'f floats \<Rightarrow> u64 \<Rightarrow> u32 \<Rightarrow> 'f worker_vardiff" where
  "wv_new F now initial_difficulty =
     \<lparr>wv_difficulty = initial_difficulty, wv_ewiat_ms = TARGET_INTERVAL_MS F, wv_last_share_ms = now\<rparr>"

definition clamp_u32 :: "u32 \<Rightarrow> u32 \<Rightarrow> u32 \<Rightarrow> u32 option" where
  "clamp_u32 x lo hi = (if lo \<le> hi then Some (if x < lo then lo else if x > hi then hi else x) else None)"

definition wv_on_share ::
    "'f floats \<Rightarrow> u64 \<Rightarrow> u32 \<Rightarrow> 'f worker_vardiff \<Rightarrow> u32 option \<times> 'f worker_vardiff" where
  "wv_on_share F now max_difficulty w =
     (let elapsed = f_u64 F (saturating_sub now (wv_last_share_ms w));
          w = w\<lparr>wv_last_share_ms := now\<rparr>;
          w = w\<lparr>wv_ewiat_ms := f_add F (f_mul F (ALPHA F) elapsed)
                 (f_mul F (f_sub F (f_lit F 1 0) (ALPHA F)) (wv_ewiat_ms w))\<rparr>;
          raw_ratio = f_div F (TARGET_INTERVAL_MS F) (f_max F (wv_ewiat_ms w) (f_lit F 1 0));
          ratio = f_clamp F raw_ratio (f_div F (f_lit F 1 0) (MAX_RATIO F)) (MAX_RATIO F);
          factor = f_powf F ratio (SMOOTH_EXP F);
          ceiling = min max_difficulty 62
      in case clamp_u32 (f_to_u32 F (f_round F (f_mul F (f_of_int F (uint (wv_difficulty w))) factor)))
                4 ceiling of
           None \<Rightarrow> (None, w)
         | Some new_diff \<Rightarrow> (Some new_diff, w\<lparr>wv_difficulty := new_diff\<rparr>))"

record 'f vardiff_registry =
  vr_workers :: "string \<rightharpoonup> 'f worker_vardiff"
  vr_base_difficulty :: u32

definition vr_new :: "u32 \<Rightarrow> 'f vardiff_registry" where
  "vr_new base_difficulty = \<lparr>vr_workers = Map.empty, vr_base_difficulty = base_difficulty\<rparr>"

text \<open>The entry of a worker, a fresh one at the base difficulty on first sight.\<close>

definition vr_entry :: "'f floats \<Rightarrow> u64 \<Rightarrow> string \<Rightarrow> 'f vardiff_registry \<Rightarrow> 'f worker_vardiff" where
  "vr_entry F now key R = (case vr_workers R key of
     Some w \<Rightarrow> w | None \<Rightarrow> wv_new F now (vr_base_difficulty R))"

definition get_difficulty ::
    "'f floats \<Rightarrow> u64 \<Rightarrow> string \<Rightarrow> 'f vardiff_registry \<Rightarrow> u32 \<times> 'f vardiff_registry" where
  "get_difficulty F now key R =
     (let w = vr_entry F now key R
      in (wv_difficulty w, R\<lparr>vr_workers := (vr_workers R)(key \<mapsto> w)\<rparr>))"

definition vr_on_share ::
    "'f floats \<Rightarrow> u64 \<Rightarrow> string \<Rightarrow> u32 \<Rightarrow> 'f vardiff_registry \<Rightarrow> u32 option \<times> 'f vardiff_registry" where
  "vr_on_share F now key block_difficulty R =
     (case wv_on_share F now block_difficulty (vr_entry F now key R) of
        (d, w) \<Rightarrow> (d, R\<lparr>vr_workers := (vr_workers R)(key \<mapsto> w)\<rparr>))"

definition set_base_difficulty :: "u32 \<Rightarrow> 'f vardiff_registry \<Rightarrow> 'f vardiff_registry" where
  "set_base_difficulty difficulty R = R\<lparr>vr_base_difficulty := difficulty\<rparr>"

section \<open>Lemmas\<close>

lemma clamp_u32_None [simp]: "clamp_u32 x lo hi = None \<longleftrightarrow> hi < lo"
  by (auto simp: clamp_u32_def)

lemma clamp_u32_bounds: "clamp_u32 x lo hi = Some y \<Longrightarrow> lo \<le> y \<and> y \<le> hi"
  by (auto simp: clamp_u32_def split: if_splits)

lemma wv_on_share_None: "fst (wv_on_share F now d w) = None \<longleftrightarrow> d < 4"
proof -
  have "min d 62 < 4 \<longleftrightarrow> d < (4 :: u32)" by (simp add: min_less_iff_disj)
  then show ?thesis by (simp add: wv_on_share_def Let_def split: option.splits)
      (metis clamp_u32_None option.distinct(1))
qed

lemma wv_on_share_Some:
  "wv_on_share F now d w = (Some n, w') \<Longrightarrow>
     4 \<le> n \<and> n \<le> min d 62 \<and> wv_difficulty w' = n \<and> wv_last_share_ms w' = now"
  by (auto simp: wv_on_share_def Let_def split: option.splits dest: clamp_u32_bounds)

lemma vr_on_share_eq:
  "vr_on_share F now key d R =
     (let p = wv_on_share F now d (vr_entry F now key R)
      in (fst p, R\<lparr>vr_workers := (vr_workers R)(key \<mapsto> snd p)\<rparr>))"
  by (simp add: vr_on_share_def Let_def split_def)

lemma vr_entry_on_share:
  "vr_entry F t k (snd (vr_on_share F now key d R)) =
     (if k = key then snd (wv_on_share F now d (vr_entry F now key R)) else vr_entry F t k R)"
  unfolding vr_on_share_eq Let_def by (simp add: vr_entry_def split: option.split)

section \<open>Properties\<close>

text \<open>
  whatever the arithmetic does, a share moves the difficulty of its worker into the range from
  4 to the block difficulty (62 at most), which is what the worker is told next, and touches no
  other worker; and the call panics exactly when the block difficulty is below 4, which the chain
  allows, as its own adjustment goes down to 1.
\<close>
theorem vardiff_bounds:
  "(fst (vr_on_share F now key d R) = None \<longleftrightarrow> unat d < 4)
   \<and> (\<forall>n. fst (vr_on_share F now key d R) = Some n \<longrightarrow>
        4 \<le> unat n \<and> unat n \<le> min (unat d) 62
        \<and> fst (get_difficulty F later key (snd (vr_on_share F now key d R))) = n)
   \<and> (k \<noteq> key \<longrightarrow> fst (get_difficulty F later k (snd (vr_on_share F now key d R)))
        = fst (get_difficulty F later k R))"
proof (intro conjI allI impI)
  show "fst (vr_on_share F now key d R) = None \<longleftrightarrow> unat d < 4"
    by (simp add: vr_on_share_eq Let_def wv_on_share_None word_less_nat_alt)
next
  fix n assume "fst (vr_on_share F now key d R) = Some n"
  then obtain w where w: "wv_on_share F now d (vr_entry F now key R) = (Some n, w)"
    by (cases "wv_on_share F now d (vr_entry F now key R)") (auto simp: vr_on_share_def)
  note b = wv_on_share_Some [OF w]
  then show "4 \<le> unat n" "unat n \<le> min (unat d) 62"
    by (simp_all add: word_le_nat_alt unat_min)
  show "fst (get_difficulty F later key (snd (vr_on_share F now key d R))) = n"
    using b w by (simp add: get_difficulty_def vr_entry_on_share Let_def)
next
  assume "k \<noteq> key"
  then show "fst (get_difficulty F later k (snd (vr_on_share F now key d R)))
      = fst (get_difficulty F later k R)"
    by (simp add: get_difficulty_def vr_entry_on_share Let_def)
qed

theorem vardiff_bounds_witness:
  "fst (vr_on_share int_floats 9000 ''a:rig'' 3 (vr_new 0)) = None
   \<and> (\<exists>n. fst (vr_on_share int_floats 9000 ''a:rig'' 14 (vr_new 10)) = Some n \<and> 4 \<le> unat n \<and> unat n \<le> 14)"
proof -
  have "unat (3 :: u32) < 4" "\<not> unat (14 :: u32) < 4" by simp_all
  then show ?thesis
    using vardiff_bounds [of int_floats 9000 "''a:rig''" 3 "vr_new 0"]
      vardiff_bounds [of int_floats 9000 "''a:rig''" 14 "vr_new 10" 0]
    by (cases "fst (vr_on_share int_floats 9000 ''a:rig'' 14 (vr_new 10))") auto
qed

end
