(* ===== verification/Scoring.thy ===== *)
theory Scoring
  imports Floats Hash
begin

text \<open>
  The proportional share-weight algorithm (pool/src/scoring.rs): weights of shares by the leading
  zeros of their hash, and the payouts of a weighted round. The order in which the hash map of
  miners is iterated is an argument.
\<close>

record 'f weighted_share =
  ws_miner_address :: string
  ws_weight :: 'f

record 'f weighted_round =
  wr_shares :: "'f weighted_share list"
  wr_total_weight :: 'f

definition u8_leading_zeros :: "u8 \<Rightarrow> nat" where
  "u8_leading_zeros b = length (takeWhile (\<lambda>i. \<not> bit b i) [7, 6, 5, 4, 3, 2, 1, 0])"

fun leading_zeros_bytes :: "bytes \<Rightarrow> nat" where
  "leading_zeros_bytes [] = 0"
| "leading_zeros_bytes (b # bs) =
     (let lz = u8_leading_zeros b in if lz < 8 then lz else lz + leading_zeros_bytes bs)"

definition leading_zeros_256 :: "hash32 \<Rightarrow> u32" where
  "leading_zeros_256 h = of_nat (leading_zeros_bytes (bytes32 h))"

definition add_share :: "'f floats \<Rightarrow> string \<Rightarrow> hash32 \<Rightarrow> u32 \<Rightarrow> 'f weighted_round \<Rightarrow> 'f weighted_round" where
  "add_share F miner_address h share_diff R =
     (let lz = leading_zeros_256 h;
          excess = saturating_sub lz share_diff;
          weight = f_u64 F (push_bit (unat (min excess 62)) 1)
      in R\<lparr>wr_total_weight := f_add F (wr_total_weight R) weight,
           wr_shares := wr_shares R @ [\<lparr>ws_miner_address = miner_address, ws_weight = weight\<rparr>]\<rparr>)"

definition weight_by_miner :: "'f floats \<Rightarrow> 'f weighted_round \<Rightarrow> string \<rightharpoonup> 'f" where
  "weight_by_miner F R =
     foldl (\<lambda>m s. m(ws_miner_address s \<mapsto>
          f_add F (case m (ws_miner_address s) of None \<Rightarrow> f_zero F | Some w \<Rightarrow> w) (ws_weight s)))
       Map.empty (wr_shares R)"

text \<open>The truncated share of a miner and the miner that gets the dust (the last of the largest).\<close>

definition proportional :: "'f floats \<Rightarrow> 'f weighted_round \<Rightarrow> u64 \<Rightarrow> string \<Rightarrow> u64" where
  "proportional F R total_reward a =
     f_to_u64 F (f_mul F (f_div F (the (weight_by_miner F R a)) (wr_total_weight R)) (f_u64 F total_reward))"

definition top_miner :: "'f floats \<Rightarrow> (string \<rightharpoonup> 'f) \<Rightarrow> string list \<Rightarrow> string option" where
  "top_miner F m order = (case order of [] \<Rightarrow> None
     | a # as \<Rightarrow> Some (foldl (\<lambda>x y. if f_less F (the (m y)) (the (m x)) then x else y) a as))"

definition compute_payouts ::
    "'f floats \<Rightarrow> string list \<Rightarrow> 'f weighted_round \<Rightarrow> u64 \<Rightarrow> string \<rightharpoonup> u64" where
  "compute_payouts F order R total_reward =
     (if f_eq F (wr_total_weight R) (f_zero F) \<or> wr_shares R = [] then Map.empty
      else
        let m = weight_by_miner F R;
            (payouts, distributed) = foldl (\<lambda>(p, d) a.
               let amount = proportional F R total_reward a in (p(a \<mapsto> amount), d + amount))
               (Map.empty, 0) order;
            dust = saturating_sub total_reward distributed
        in if dust > 0
           then (case top_miner F m order of
                  None \<Rightarrow> payouts
                | Some best \<Rightarrow>
                    payouts(best \<mapsto> (case payouts best of None \<Rightarrow> 0 | Some x \<Rightarrow> x) + dust))
           else payouts)"

section \<open>Leading zeros and difficulty\<close>

lemma le_length_takeWhile:
  "d \<le> length (takeWhile P xs) \<longleftrightarrow> d \<le> length xs \<and> (\<forall>i < d. P (xs ! i))"
proof (induction xs arbitrary: d)
  case (Cons x xs)
  show ?case
  proof (cases d)
    case (Suc e)
    then show ?thesis using Cons.IH [of e] by (simp add: All_less_Suc2)
  qed simp
qed auto

lemma unat_less_power_bits: "unat b < 2 ^ k \<longleftrightarrow> (\<forall>i. k \<le> i \<longrightarrow> \<not> bit b i)" for b :: "'a::len word"
proof -
  have "unat b < 2 ^ k \<longleftrightarrow> take_bit k (unat b) = unat b"
    by (rule take_bit_nat_eq_self_iff [symmetric])
  also have "\<dots> \<longleftrightarrow> take_bit k b = b"
    by (metis unat_eqI unsigned_take_bit_eq)
  also have "\<dots> \<longleftrightarrow> (\<forall>i. k \<le> i \<longrightarrow> \<not> bit b i)"
  proof (intro iffI allI impI)
    fix i assume t: "take_bit k b = b" and i: "k \<le> i"
    have "\<not> bit (take_bit k b) i" using i by (simp add: bit_take_bit_iff)
    then show "\<not> bit b i" unfolding t .
    next
    assume "\<forall>i. k \<le> i \<longrightarrow> \<not> bit b i"
    then show "take_bit k b = b"
      by (intro bit_word_eqI) (auto simp: bit_take_bit_iff not_le)
  qed
  finally show ?thesis .
qed

lemma u8_leading_zeros_iff:
  assumes "d \<le> 8"
  shows "d \<le> u8_leading_zeros b \<longleftrightarrow> unat b < 2 ^ (8 - d)"
proof -
  let ?xs = "[7, 6, 5, 4, 3, 2, 1, 0 :: nat]"
  have nth: "?xs ! i = 7 - i" if "i < 8" for i :: nat
  proof -
    have "i = 0 \<or> i = 1 \<or> i = 2 \<or> i = 3 \<or> i = 4 \<or> i = 5 \<or> i = 6 \<or> i = 7"
      using that by linarith
    then show ?thesis by (elim disjE) simp_all
  qed
  have "d \<le> u8_leading_zeros b \<longleftrightarrow> (\<forall>i < d. \<not> bit b (7 - i))"
  proof -
    have l: "length ?xs = 8" by simp
    have n: "\<forall>i < d. ?xs ! i = 7 - i" using nth assms by (meson less_le_trans)
    show ?thesis unfolding u8_leading_zeros_def le_length_takeWhile l using n assms by metis
  qed
  also have "\<dots> \<longleftrightarrow> (\<forall>i. 8 - d \<le> i \<longrightarrow> \<not> bit b i)"
  proof (intro iffI allI impI)
    fix i assume a: "\<forall>i < d. \<not> bit b (7 - i)" and i: "8 - d \<le> i"
    show "\<not> bit b i"
    proof
      assume "bit b i"
      then have "i < 8" using bit_imp_le_length [of b i] by simp
      then have "7 - i < d" "7 - (7 - i) = i" using i assms by linarith+
      then show False using a \<open>bit b i\<close> by metis
    qed
  qed (use assms in auto)
  finally show ?thesis by (simp add: unat_less_power_bits)
qed

lemma u8_leading_zeros_le: "u8_leading_zeros b \<le> 8"
  using length_takeWhile_le [of "\<lambda>i. \<not> bit b i" "[7, 6, 5, 4, 3, 2, 1, 0]"]
  by (simp add: u8_leading_zeros_def)

text \<open>The number a byte string reads as, most significant byte first.\<close>

lemma leading_zeros_bytes_iff:
  "d \<le> 8 * length bs \<Longrightarrow>
     d \<le> leading_zeros_bytes bs \<longleftrightarrow> le_val (rev bs) < 2 ^ (8 * length bs - d)"
proof (induction bs arbitrary: d)
  case (Cons b bs)
  let ?n = "8 * length bs"
  have p: "256 ^ length bs = (2 :: nat) ^ ?n" by (simp add: power_mult)
  have v: "le_val (rev (b # bs)) = le_val (rev bs) + 2 ^ ?n * unat b"
    using p by (simp add: le_val_append)
  have lt: "le_val (rev bs) < 2 ^ ?n" using le_val_less [of "rev bs"] p by simp
  show ?case
  proof (cases "u8_leading_zeros b < 8")
    case False
    then have eight: "u8_leading_zeros b = 8" using u8_leading_zeros_le [of b] by linarith
    then have zero: "unat b = 0" using u8_leading_zeros_iff [of 8 b] by simp
    show ?thesis
    proof (cases "d \<le> 8")
      case True
      have "le_val (rev bs) < 2 ^ (8 * length (b # bs) - d)"
        by (rule less_le_trans [OF lt], rule power_increasing) (use True in auto)
      then show ?thesis using eight zero v True by simp
    next
      case False
      have e: "8 * length (b # bs) - d = 8 * length bs - (d - 8)" using False by simp
      have "d \<le> leading_zeros_bytes (b # bs) \<longleftrightarrow> d - 8 \<le> leading_zeros_bytes bs"
        using eight False by (auto simp: Let_def)
      then show ?thesis using zero v e Cons.IH [of "d - 8"] Cons.prems by simp
    qed
  next
    case True
    have nz: "unat b \<noteq> 0" using u8_leading_zeros_iff [of 8 b] True by auto
    show ?thesis
    proof (cases "d \<le> 8")
      case False
      have "(2 :: nat) ^ (8 * length (b # bs) - d) \<le> 2 ^ ?n"
        using False by (intro power_increasing) auto
      also have "\<dots> \<le> 2 ^ ?n * unat b" using nz by simp
      finally have "\<not> le_val (rev (b # bs)) < 2 ^ (8 * length (b # bs) - d)"
        using v by simp
      then show ?thesis using False True by (auto simp: Let_def)
    next
      case d: True
      have "(2 :: nat) ^ (8 * length (b # bs) - d) = 2 ^ ?n * 2 ^ (8 - d)"
        using d by (simp flip: power_add)
      moreover have "le_val (rev bs) + 2 ^ ?n * unat b < 2 ^ ?n * 2 ^ (8 - d) \<longleftrightarrow> unat b < 2 ^ (8 - d)"
      proof
        assume "unat b < 2 ^ (8 - d)"
        then have "2 ^ ?n * Suc (unat b) \<le> 2 ^ ?n * 2 ^ (8 - d)" by (intro mult_le_mono2) simp
        then show "le_val (rev bs) + 2 ^ ?n * unat b < 2 ^ ?n * 2 ^ (8 - d)" using lt by simp
      next
        assume "le_val (rev bs) + 2 ^ ?n * unat b < 2 ^ ?n * 2 ^ (8 - d)"
        then have "2 ^ ?n * unat b < 2 ^ ?n * 2 ^ (8 - d)" by linarith
        then show "unat b < 2 ^ (8 - d)" by simp
      qed
      ultimately show ?thesis using u8_leading_zeros_iff [OF d, of b] True v by (simp add: Let_def)
    qed
  qed
qed simp

lemma leading_zeros_bytes_le: "leading_zeros_bytes bs \<le> 8 * length bs"
proof (induction bs)
  case (Cons b bs)
  then show ?case using u8_leading_zeros_le [of b] by (auto simp: Let_def)
qed simp

lemma unat_leading_zeros_256: "unat (leading_zeros_256 h) = leading_zeros_bytes (bytes32 h)"
  using leading_zeros_bytes_le [of "bytes32 h"] by (simp add: leading_zeros_256_def unat_of_nat_small)

lemma leading_zeros_meets:
  assumes "unat d \<le> 256"
  shows "d \<le> leading_zeros_256 h \<longleftrightarrow> unat h < 2 ^ (256 - unat d)"
proof -
  have v: "le_val (rev (bytes32 h)) = unat h"
    using unat_less_exp [of h] by (simp add: bytes32_def le_val_le_bytes)
  then show ?thesis
    using assms leading_zeros_bytes_iff [of "unat d" "bytes32 h"]
    by (simp add: word_le_nat_alt unat_leading_zeros_256)
qed

text \<open>
  counting leading zeros and testing a difficulty agree: a hash meets a difficulty exactly when
  it has that many leading zero bits, for every difficulty up to 256; so an accepted share has
  a positive weight excess only for the work beyond its threshold.
\<close>
theorem leading_zeros_difficulty:
  assumes "unat d \<le> 256"
  shows "meets_difficulty h d \<longleftrightarrow> d \<le> leading_zeros_256 h"
  using leading_zeros_meets [OF assms, of h] assms
  by (simp add: meets_difficulty_def seq_meets_difficulty_value)

theorem leading_zeros_difficulty_witness:
  "meets_difficulty 1 255 \<longleftrightarrow> 255 \<le> leading_zeros_256 1"
  by (rule leading_zeros_difficulty) simp

section \<open>Payouts add up\<close>

lemma payout_fold:
  "distinct (as @ bs) \<Longrightarrow>
   foldl (\<lambda>(p, d) a. let amount = f a in (p(a \<mapsto> amount), d + amount))
      (\<lambda>a. if a \<in> set as then Some (f a) else None, sum_list (map f as)) bs
    = (\<lambda>a. if a \<in> set (as @ bs) then Some (f a) else None, sum_list (map f (as @ bs)))"
  for f :: "'k \<Rightarrow> u64"
proof (induction bs arbitrary: as)
  case (Cons b bs)
  have "(\<lambda>a. if a \<in> set as then Some (f a) else None)(b \<mapsto> f b)
      = (\<lambda>a. if a \<in> set (as @ [b]) then Some (f a) else None)" by auto
  moreover have "sum_list (map f as) + f b = sum_list (map f (as @ [b]))" by simp
  ultimately show ?case using Cons.IH [of "as @ [b]"] Cons.prems
    by (simp only: foldl_Cons prod.case Let_def append_assoc append.simps)
qed simp

lemma top_miner_mem: "top_miner F m order = Some a \<Longrightarrow> a \<in> set order"
proof -
  have "foldl (\<lambda>x y. if f_less F (the (m y)) (the (m x)) then x else y) b bs \<in> insert b (set bs)" for b bs
    by (induction bs arbitrary: b) auto
  then show "top_miner F m order = Some a \<Longrightarrow> a \<in> set order"
    by (cases order) (auto simp: top_miner_def)
qed

lemma unat_sum_list:
  "sum_list (map unat xs) < 2 ^ LENGTH('a) \<Longrightarrow> unat (sum_list xs) = sum_list (map unat xs)"
  for xs :: "'a::len word list"
  by (induction xs) (auto simp: unat_add_no_overflow)

text \<open>
  the payouts of a weighted round add up to the reward to the last unit: when the truncated
  shares do not exceed it, the miner of the largest weight gets exactly the rest, every miner of
  the round is paid, and nobody else.
\<close>
theorem compute_payouts_exact:
  assumes "distinct order" "set order = dom (weight_by_miner F R)" "order \<noteq> []"
    "\<not> f_eq F (wr_total_weight R) (f_zero F)" "wr_shares R \<noteq> []"
    "(\<Sum>a\<leftarrow>order. unat (proportional F R reward a)) \<le> unat reward"
  shows "dom (compute_payouts F order R reward) = set order
    \<and> (\<Sum>a\<in>set order. unat (the (compute_payouts F order R reward a))) = unat reward"
proof -
  let ?f = "proportional F R reward" and ?P = "compute_payouts F order R reward"
  let ?m = "\<lambda>a. if a \<in> set order then Some (?f a) else None"
  let ?d = "sum_list (map ?f order)"
  have d: "unat ?d = (\<Sum>a\<leftarrow>order. unat (?f a))"
    using unat_sum_list [of "map ?f order"] assms(6) unat_less_64 [of reward] by (simp add: comp_def)
  have fold: "foldl (\<lambda>(p, d) a. let amount = ?f a in (p(a \<mapsto> amount), d + amount)) (Map.empty, 0) order = (?m, ?d)"
    using payout_fold [of "[]" order ?f] assms(1) by simp
  have base: "(\<Sum>a\<in>set order. unat (the (?m a))) = unat ?d"
    unfolding d using assms(1) by (simp add: sum_list_distinct_conv_sum_set)
  have "top_miner F (weight_by_miner F R) order \<noteq> None"
    using assms(3) by (cases order) (simp_all add: top_miner_def)
  then obtain best where best: "top_miner F (weight_by_miner F R) order = Some best" "best \<in> set order"
    using top_miner_mem by (metis not_Some_eq)
  have dm: "dom ?m = set order" by (auto split: if_splits)
  have dust: "unat (saturating_sub reward ?d) = unat reward - unat ?d" by (rule unat_saturating_sub)
  show ?thesis
  proof (cases "saturating_sub reward ?d > 0")
    case False
    then have "?P = ?m" using assms(4,5) fold by (simp add: compute_payouts_def Let_def)
    moreover have "unat (saturating_sub reward ?d) = 0" using False by (simp add: word_gt_0)
    then have "unat reward = unat ?d" using dust d assms(6) by linarith
    ultimately show ?thesis using base dm by simp
  next
    case True
    let ?rest = "saturating_sub reward ?d"
    have P: "?P = ?m(best \<mapsto> ?f best + ?rest)"
      using assms(4,5) fold True best by (simp add: compute_payouts_def Let_def)
    have one: "unat (?f best) \<le> unat ?d"
      using base best(2) member_le_sum [of best "set order" "\<lambda>a. unat (the (?m a))"] by simp
    then have "unat (?f best + ?rest) = unat (?f best) + unat ?rest"
      using dust d assms(6) unat_less_64 [of reward] by (intro unat_add_no_overflow) simp
    then have "(\<Sum>a\<in>set order. unat (the (?P a))) + unat (?f best)
        = (\<Sum>a\<in>set order. unat (the (?m a))) + (unat (?f best) + unat ?rest)"
      using sum_map_upd [of ?m unat best "?f best + ?rest"] best(2)
      by (simp add: P dm map_upd_dom_absorb insert_absorb)
    moreover have "dom ?P = set order" using best(2) dm by (simp only: P map_upd_dom_absorb)
    ultimately show ?thesis using base dust d assms(6) by simp
  qed
qed

theorem compute_payouts_exact_witness:
  "let R = \<lparr>wr_shares = [\<lparr>ws_miner_address = ''a'', ws_weight = 1\<rparr>, \<lparr>ws_miner_address = ''b'', ws_weight = 3\<rparr>],
            wr_total_weight = 4\<rparr>
   in (\<Sum>a\<in>set [''a'', ''b'']. unat (the (compute_payouts int_floats [''a'', ''b''] R 1000 a))) = 1000"
proof -
  let ?R = "\<lparr>wr_shares = [\<lparr>ws_miner_address = ''a'', ws_weight = 1\<rparr>, \<lparr>ws_miner_address = ''b'', ws_weight = 3\<rparr>],
            wr_total_weight = 4\<rparr>"
  have w: "weight_by_miner int_floats ?R = [''a'' \<mapsto> 1, ''b'' \<mapsto> 3]"
    by (simp add: weight_by_miner_def int_floats_def f_zero_def)
  have "proportional int_floats ?R 1000 a = 0" if "a \<in> {''a'', ''b''}" for a
    using that by (auto simp: proportional_def w) (simp_all add: int_floats_def f_u64_def)
  then have "(\<Sum>a\<leftarrow>[''a'', ''b'']. unat (proportional int_floats ?R 1000 a)) \<le> unat (1000 :: u64)"
    by simp
  moreover have "\<not> f_eq int_floats (wr_total_weight ?R) (f_zero int_floats)"
    by (simp add: int_floats_def f_zero_def)
  ultimately have "(\<Sum>a\<in>set [''a'', ''b'']. unat (the (compute_payouts int_floats [''a'', ''b''] ?R 1000 a)))
      = unat (1000 :: u64)"
    by (intro conjunct2 [OF compute_payouts_exact]) (auto simp: w)
  then show ?thesis by (simp only: Let_def) simp
qed

end
