(* ===== verification/Pool.thy ===== *)
theory Pool
  imports Vardiff Scoring Block
begin

text \<open>
  The pool server (pool/src/main.rs): its state, the block template taken from the node, work
  requests, share submission and the watcher that follows the chain. The database, the clock and
  the answers of the node are arguments; a handler reads the clock once. A panic in a handler is
  the response \<open>None\<close>. Handlers are atomic here; the theory \<open>Pool_Races\<close> cuts
  them at their locks.
\<close>

section \<open>Constants\<close>

definition SHARE_DIFF_OFFSET :: u32 where "SHARE_DIFF_OFFSET = 4"
definition POOL_FEE_PERMILLE :: u64 where "POOL_FEE_PERMILLE = 10"

section \<open>State\<close>

record block_template =
  bt_index :: u64
  bt_prev_hash :: hash32
  bt_timestamp :: u64
  bt_difficulty :: u32
  bt_share_difficulty :: u32

record share_round =
  rd_shares :: "string \<rightharpoonup> u64"
  rd_total_shares :: u64

definition round_default :: share_round where
  "round_default = \<lparr>rd_shares = Map.empty, rd_total_shares = 0\<rparr>"

record 'f cached_pool_stats =
  cs_active_miners :: nat
  cs_active_workers :: nat
  cs_pool_hashrate :: 'f
  cs_total_paid :: u64

record found_block =
  fb_candidate :: block
  fb_hash :: hash32

record 'f pool_state =
  ps_wallet :: wallet
  ps_template :: block_template
  ps_round :: share_round
  ps_round_start_ms :: u64
  ps_payout_sequence :: u64
  ps_blocks_found :: u64
  ps_vardiff :: "'f vardiff_registry"
  ps_dedup :: tachyon_guard
  ps_db :: "'f pool_db"
  ps_cached_stats :: "'f cached_pool_stats"
  ps_queue :: "found_block list"

record pool_env =
  pe_now :: u64
  pe_read_ok :: bool
  pe_write_ok :: bool
  pe_payout_ok :: "payout_record \<Rightarrow> bool"
  pe_tie :: "share_record list \<Rightarrow> share_record"

section \<open>What the node answers\<close>

record node_status_reply =
  nr_chain_height :: u64
  nr_best_hash :: string
  nr_difficulty :: u32

record node_account_reply =
  na_sequence :: u64
  na_balance :: u64

text \<open>Copying at most 32 bytes into a zeroed array, from a text that may not be hexadecimal.\<close>

definition hash_of_hex :: "crypto \<Rightarrow> string \<Rightarrow> hash32" where
  "hash_of_hex C s =
     (let bytes = (case hex_decode C s of None \<Rightarrow> [] | Some bs \<Rightarrow> bs)
      in arr32 (take 32 bytes @ replicate (32 - length bytes) 0))"

definition template_of_status :: "crypto \<Rightarrow> u64 \<Rightarrow> node_status_reply \<Rightarrow> block_template" where
  "template_of_status C now status =
     \<lparr>bt_index = nr_chain_height status + 1, bt_prev_hash = hash_of_hex C (nr_best_hash status),
      bt_timestamp = now, bt_difficulty = nr_difficulty status,
      bt_share_difficulty = saturating_sub (nr_difficulty status) SHARE_DIFF_OFFSET\<rparr>"

text \<open>The state \<open>main\<close> starts from, after the first answer of the node.\<close>

definition pool_start ::
    "crypto \<Rightarrow> 'f floats \<Rightarrow> pool_env \<Rightarrow> wallet \<Rightarrow> node_status_reply \<Rightarrow> 'f pool_db \<Rightarrow> 'f pool_state" where
  "pool_start C F E w status D =
     \<lparr>ps_wallet = w, ps_template = template_of_status C (pe_now E) status,
      ps_round = round_default, ps_round_start_ms = pe_now E, ps_payout_sequence = 0,
      ps_blocks_found = (case count_blocks_found (pe_read_ok E) D of None \<Rightarrow> 0 | Some n \<Rightarrow> n),
      ps_vardiff = vr_new (saturating_sub (nr_difficulty status) SHARE_DIFF_OFFSET),
      ps_dedup = tg_new (pe_now E), ps_db = D,
      ps_cached_stats = \<lparr>cs_active_miners = 0, cs_active_workers = 0, cs_pool_hashrate = f_zero F,
        cs_total_paid = 0\<rparr>,
      ps_queue = []\<rparr>"

section \<open>The watcher\<close>

record pool_watch =
  wa_last_height :: u64
  wa_last_hash :: string

definition pool_watcher ::
    "crypto \<Rightarrow> u64 \<Rightarrow> node_status_reply option \<Rightarrow> pool_watch \<times> 'f pool_state \<Rightarrow> pool_watch \<times> 'f pool_state" where
  "pool_watcher C now reply = (\<lambda>(wa, P).
     case reply of
       None \<Rightarrow> (wa, P)
     | Some status \<Rightarrow>
         if nr_chain_height status > wa_last_height wa \<or> nr_best_hash status \<noteq> wa_last_hash wa
         then
           let new_tmpl = template_of_status C now status;
               P = P\<lparr>ps_template := new_tmpl\<rparr>;
               P = P\<lparr>ps_round := round_default\<rparr>;
               P = P\<lparr>ps_vardiff := set_base_difficulty
                      (saturating_sub (bt_difficulty new_tmpl) SHARE_DIFF_OFFSET) (ps_vardiff P)\<rparr>;
               P = P\<lparr>ps_round_start_ms := now\<rparr>
           in (\<lparr>wa_last_height = nr_chain_height status, wa_last_hash = nr_best_hash status\<rparr>, P)
         else (wa, P))"

section \<open>Work requests\<close>

record work_response =
  wk_block_index :: u64
  wk_prev_hash :: string
  wk_timestamp :: u64
  wk_pool_pubkey :: string
  wk_difficulty :: u32
  wk_share_difficulty :: u32
  wk_reward :: u64

definition or_default :: "'a \<Rightarrow> 'a option \<Rightarrow> 'a" where
  "or_default d x = (case x of None \<Rightarrow> d | Some y \<Rightarrow> y)"

definition get_work ::
    "crypto \<Rightarrow> 'f floats \<Rightarrow> u64 \<Rightarrow> string option \<Rightarrow> string option \<Rightarrow> 'f pool_state
       \<Rightarrow> work_response \<times> 'f pool_state" where
  "get_work C F now address worker P =
     (let T = ps_template P;
          key = worker_key (or_default ''unknown'' address) (or_default ''default'' worker);
          (vd_diff, R) = get_difficulty F now key (ps_vardiff P);
          share_difficulty = max vd_diff (bt_share_difficulty T)
      in (\<lparr>wk_block_index = bt_index T, wk_prev_hash = hex_encode C (bytes32 (bt_prev_hash T)),
           wk_timestamp = now, wk_pool_pubkey = hex_encode C (bytes32 (public_key C (ps_wallet P))),
           wk_difficulty = bt_difficulty T, wk_share_difficulty = share_difficulty,
           wk_reward = TESTNET_REWARD\<rparr>,
          P\<lparr>ps_vardiff := R\<rparr>))"

section \<open>Share submission\<close>

record share_request =
  sq_miner_address :: string
  sq_miner_pubkey :: string
  sq_worker_name :: string
  sq_nonce :: u64
  sq_block_index :: u64
  sq_timestamp :: u64
  sq_prev_hash :: string

definition default_worker_name :: string where "default_worker_name = ''default''"

datatype share_message =
    Invalid_Pubkey_Format
  | Address_Pubkey_Mismatch
  | Stale_Block (sm_expected: u64) (sm_got: u64)
  | Prev_Hash_Mismatch
  | Stale_Share_Timestamp
  | Duplicate_Share
  | Below_Minimum (sm_floor: u32)
  | Found_And_Submitted (sm_index: u64)
  | Share_Accepted

datatype http_status = OK_200 | Bad_Request_400

record share_response =
  sp_status :: http_status
  sp_accepted :: bool
  sp_is_block :: bool
  sp_message :: share_message

definition share_refused :: "share_message \<Rightarrow> share_response" where
  "share_refused m =
     \<lparr>sp_status = Bad_Request_400, sp_accepted = False, sp_is_block = False, sp_message = m\<rparr>"

definition decode_pubkey :: "crypto \<Rightarrow> string \<Rightarrow> hash32 option" where
  "decode_pubkey C s = (case hex_decode C s of
     None \<Rightarrow> None | Some bs \<Rightarrow> if length bs = 32 then Some (arr32 bs) else None)"

definition share_candidate :: "crypto \<Rightarrow> 'f pool_state \<Rightarrow> share_request \<Rightarrow> block" where
  "share_candidate C P q =
     \<lparr>blk_index = sq_block_index q, blk_prev_hash = hash_of_hex C (sq_prev_hash q),
      blk_timestamp = sq_timestamp q, blk_miner = public_key C (ps_wallet P), blk_nonce = sq_nonce q,
      blk_hash = 0, blk_reward = TESTNET_REWARD, blk_transactions = []\<rparr>"

definition count_share :: "string \<Rightarrow> share_round \<Rightarrow> share_round" where
  "count_share a r =
     r\<lparr>rd_shares := (rd_shares r)(a \<mapsto> or_default 0 (rd_shares r a) + 1),
       rd_total_shares := rd_total_shares r + 1\<rparr>"

text \<open>The part from the accepted share on: counting, storing, and handing over a block.\<close>

definition accept_share ::
    "crypto \<Rightarrow> pool_env \<Rightarrow> share_request \<Rightarrow> block \<Rightarrow> hash32 \<Rightarrow> 'f pool_state
       \<Rightarrow> share_response \<times> 'f pool_state" where
  "accept_share C E q candidate h P =
     (let is_block = meets_difficulty h (bt_difficulty (ps_template P));
          P = P\<lparr>ps_round := count_share (sq_miner_address q) (ps_round P)\<rparr>;
          share_rec = \<lparr>sr_timestamp_ms = pe_now E, sr_miner_address = sq_miner_address q,
            sr_miner_pubkey = sq_miner_pubkey q, sr_worker_name = sq_worker_name q,
            sr_nonce = sq_nonce q, sr_block_index = sq_block_index q, sr_is_block = is_block\<rparr>;
          P = P\<lparr>ps_db := or_default (ps_db P) (insert_share (pe_write_ok E) share_rec (ps_db P))\<rparr>
      in if is_block
         then (\<lparr>sp_status = OK_200, sp_accepted = True, sp_is_block = True,
                sp_message = Found_And_Submitted (sq_block_index q)\<rparr>,
               P\<lparr>ps_queue := ps_queue P @ [\<lparr>fb_candidate = candidate, fb_hash = h\<rparr>]\<rparr>)
         else (\<lparr>sp_status = OK_200, sp_accepted = True, sp_is_block = False,
                sp_message = Share_Accepted\<rparr>, P))"

definition submit_share ::
    "crypto \<Rightarrow> 'f floats \<Rightarrow> pool_env \<Rightarrow> share_request \<Rightarrow> 'f pool_state
       \<Rightarrow> share_response option \<times> 'f pool_state" where
  "submit_share C F E q P =
     (let T = ps_template P in
      case decode_pubkey C (sq_miner_pubkey q) of
        None \<Rightarrow> (Some (share_refused Invalid_Pubkey_Format), P)
      | Some pubkey_bytes \<Rightarrow>
          if address_from_pubkey C pubkey_bytes \<noteq> sq_miner_address q
          then (Some (share_refused Address_Pubkey_Mismatch), P)
          else if sq_block_index q \<noteq> bt_index T
          then (Some (share_refused (Stale_Block (bt_index T) (sq_block_index q))), P)
          else if sq_prev_hash q \<noteq> hex_encode C (bytes32 (bt_prev_hash T))
          then (Some (share_refused Prev_Hash_Mismatch), P)
          else if (if sq_timestamp q > pe_now E then sq_timestamp q - pe_now E
                   else pe_now E - sq_timestamp q) > 90000
          then (Some (share_refused Stale_Share_Timestamp), P)
          else
            let candidate = share_candidate C P q;
                h = hash_header C candidate;
                key = worker_key (sq_miner_address q) (sq_worker_name q);
                (dup, guard) = is_duplicate (pe_now E) (sq_block_index q) (sq_nonce q) key (ps_dedup P);
                P = P\<lparr>ps_dedup := guard\<rparr>
            in if dup then (Some (share_refused Duplicate_Share), P)
               else if \<not> meets_difficulty h (bt_share_difficulty T)
               then (Some (share_refused (Below_Minimum (bt_share_difficulty T))), P)
               else
                 let (d, R) = vr_on_share F (pe_now E) key (bt_difficulty T) (ps_vardiff P);
                     P = P\<lparr>ps_vardiff := R\<rparr>
                 in case d of
                      None \<Rightarrow> (None, P)
                    | Some _ \<Rightarrow> (case accept_share C E q candidate h P of (r, P) \<Rightarrow> (Some r, P)))"

end
