(* ===== verification/Pool_Share.thy ===== *)
theory Pool_Share
  imports Pool
begin

unbundle bit_operations_syntax

text \<open>
  What a submitted share does: the exact conditions of its acceptance and what it changes, that
  nothing in it ties the work to one miner, that a found block is valid for the chain the template
  came from, and the accounts of the round.
\<close>

section \<open>The cases of a submission\<close>

definition share_key :: "share_request \<Rightarrow> string" where
  "share_key q = worker_key (sq_miner_address q) (sq_worker_name q)"

definition share_hash :: "crypto \<Rightarrow> 'f pool_state \<Rightarrow> share_request \<Rightarrow> hash32" where
  "share_hash C P q = hash_header C (share_candidate C P q)"

definition share_dup :: "pool_env \<Rightarrow> share_request \<Rightarrow> tachyon_guard \<Rightarrow> bool \<times> tachyon_guard" where
  "share_dup E q g = is_duplicate (pe_now E) (sq_block_index q) (sq_nonce q) (share_key q) g"

text \<open>The checks before the duplicate test: the key, and that the work is current.\<close>

definition owns_key :: "crypto \<Rightarrow> share_request \<Rightarrow> bool" where
  "owns_key C q \<longleftrightarrow> (\<exists>pk. decode_pubkey C (sq_miner_pubkey q) = Some pk
     \<and> sq_miner_address q = address_from_pubkey C pk)"

definition share_current :: "crypto \<Rightarrow> pool_env \<Rightarrow> 'f pool_state \<Rightarrow> share_request \<Rightarrow> bool" where
  "share_current C E P q \<longleftrightarrow>
     sq_block_index q = bt_index (ps_template P) \<and>
     sq_prev_hash q = hex_encode C (bytes32 (bt_prev_hash (ps_template P))) \<and>
     unat (sq_timestamp q) \<le> unat (pe_now E) + 90000 \<and> unat (pe_now E) \<le> unat (sq_timestamp q) + 90000"

definition share_valid :: "crypto \<Rightarrow> pool_env \<Rightarrow> 'f pool_state \<Rightarrow> share_request \<Rightarrow> bool" where
  "share_valid C E P q \<longleftrightarrow> owns_key C q \<and> share_current C E P q \<and> \<not> fst (share_dup E q (ps_dedup P))
     \<and> meets_difficulty (share_hash C P q) (bt_share_difficulty (ps_template P))"

lemma time_delta:
  "(if t > now then t - now else now - t) > 90000 \<longleftrightarrow>
     \<not> (unat t \<le> unat now + 90000 \<and> unat now \<le> unat t + 90000)" for t now :: u64
  by (auto simp: word_less_nat_alt unat_sub word_le_nat_alt not_less)

lemma share_candidate_upd [simp]:
  "share_candidate C (P\<lparr>ps_dedup := g\<rparr>) q = share_candidate C P q"
  "share_candidate C (P\<lparr>ps_vardiff := R\<rparr>) q = share_candidate C P q"
  by (simp_all add: share_candidate_def)

text \<open>The state after an accepted share, field by field.\<close>

definition share_row :: "crypto \<Rightarrow> pool_env \<Rightarrow> 'f pool_state \<Rightarrow> share_request \<Rightarrow> share_record" where
  "share_row C E P q = \<lparr>sr_timestamp_ms = pe_now E, sr_miner_address = sq_miner_address q,
     sr_miner_pubkey = sq_miner_pubkey q, sr_worker_name = sq_worker_name q, sr_nonce = sq_nonce q,
     sr_block_index = sq_block_index q,
     sr_is_block = meets_difficulty (share_hash C P q) (bt_difficulty (ps_template P))\<rparr>"

definition share_effect ::
    "crypto \<Rightarrow> 'f floats \<Rightarrow> pool_env \<Rightarrow> 'f pool_state \<Rightarrow> share_request \<Rightarrow> 'f pool_state" where
  "share_effect C F E P q =
     P\<lparr>ps_round := count_share (sq_miner_address q) (ps_round P),
       ps_vardiff := snd (vr_on_share F (pe_now E) (share_key q) (bt_difficulty (ps_template P)) (ps_vardiff P)),
       ps_dedup := snd (share_dup E q (ps_dedup P)),
       ps_db := (if pe_write_ok E
          then (ps_db P)\<lparr>pd_shares := pd_shares (ps_db P) @ [share_row C E P q]\<rparr> else ps_db P),
       ps_queue := ps_queue P @
         (if meets_difficulty (share_hash C P q) (bt_difficulty (ps_template P))
          then [\<lparr>fb_candidate = share_candidate C P q, fb_hash = share_hash C P q\<rparr>] else [])\<rparr>"

lemma submit_share_cases:
  obtains (refused) m g where "submit_share C F E q P = (Some (share_refused m), P\<lparr>ps_dedup := g\<rparr>)"
      "\<not> share_valid C E P q" "g = ps_dedup P \<or> g = snd (share_dup E q (ps_dedup P))"
  | (panicked) R where "submit_share C F E q P
        = (None, P\<lparr>ps_dedup := snd (share_dup E q (ps_dedup P)), ps_vardiff := R\<rparr>)"
      "share_valid C E P q" "bt_difficulty (ps_template P) < 4"
  | (accepted) r where "submit_share C F E q P = (Some r, share_effect C F E P q)" "sp_accepted r"
      "sp_is_block r = meets_difficulty (share_hash C P q) (bt_difficulty (ps_template P))"
      "share_valid C E P q" "4 \<le> bt_difficulty (ps_template P)"
proof (cases "owns_key C q \<and> share_current C E P q")
  case False
  have "\<exists>m. submit_share C F E q P = (Some (share_refused m), P)"
    using False unfolding submit_share_def Let_def
    by (auto simp: owns_key_def share_current_def time_delta split: option.split)
  then show ?thesis using False refused [of _ "ps_dedup P"] by (auto simp: share_valid_def)
next
  case True
  then obtain pk where pk: "decode_pubkey C (sq_miner_pubkey q) = Some pk"
      "sq_miner_address q = address_from_pubkey C pk" by (auto simp: owns_key_def)
  obtain dup g where dup: "share_dup E q (ps_dedup P) = (dup, g)" by fastforce
  let ?P = "P\<lparr>ps_dedup := g\<rparr>" and ?T = "ps_template P"
  obtain d R where vr: "vr_on_share F (pe_now E) (share_key q) (bt_difficulty ?T) (ps_vardiff P) = (d, R)"
    by fastforce
  have run: "submit_share C F E q P =
      (if dup then (Some (share_refused Duplicate_Share), ?P)
       else if \<not> meets_difficulty (share_hash C P q) (bt_share_difficulty ?T)
       then (Some (share_refused (Below_Minimum (bt_share_difficulty ?T))), ?P)
       else case d of None \<Rightarrow> (None, ?P\<lparr>ps_vardiff := R\<rparr>)
          | Some _ \<Rightarrow> (case accept_share C E q (share_candidate C P q) (share_hash C P q)
              (?P\<lparr>ps_vardiff := R\<rparr>) of (r, P) \<Rightarrow> (Some r, P)))"
    using True pk dup vr unfolding submit_share_def Let_def share_dup_def share_key_def share_hash_def
    by (simp add: share_current_def time_delta)
  have valid: "share_valid C E P q \<longleftrightarrow>
      \<not> dup \<and> meets_difficulty (share_hash C P q) (bt_share_difficulty ?T)"
    using True dup by (simp add: share_valid_def)
  show ?thesis
  proof (cases "share_valid C E P q")
    case False
    then show ?thesis using refused [of _ g] run valid dup by (cases dup) auto
  next
    case v: True
    have d: "d = None \<longleftrightarrow> bt_difficulty ?T < 4"
      using vr wv_on_share_None by (metis fst_conv vr_on_share_eq)
    show ?thesis
    proof (cases d)
      case None
      then show ?thesis using panicked [of R] run v valid d dup by simp
    next
      case (Some n)
      let ?a = "accept_share C E q (share_candidate C P q) (share_hash C P q) (?P\<lparr>ps_vardiff := R\<rparr>)"
      have "snd ?a = share_effect C F E P q"
        using dup vr by (simp add: accept_share_def Let_def share_effect_def share_row_def
            insert_share_def or_default_def)
      moreover have "sp_accepted (fst ?a)"
          "sp_is_block (fst ?a) = meets_difficulty (share_hash C P q) (bt_difficulty ?T)"
        by (simp_all add: accept_share_def Let_def)
      moreover have "submit_share C F E q P = (Some (fst ?a), snd ?a)"
        using run v valid Some by (simp add: split_def)
      moreover have "4 \<le> bt_difficulty ?T" using d Some by (simp add: not_less [symmetric])
      ultimately show ?thesis using accepted [of "fst ?a"] v by simp
    qed
  qed
qed

section \<open>Helper facts\<close>

lemma decode_pubkey_encode [simp]:
  "hex_ok C \<Longrightarrow> decode_pubkey C (hex_encode C (bytes32 k)) = Some k"
  by (simp add: decode_pubkey_def)

lemma hash_of_hex_encode [simp]: "hex_ok C \<Longrightarrow> hash_of_hex C (hex_encode C (bytes32 h)) = h"
  by (simp add: hash_of_hex_def)

lemma hash_header_upd [simp]:
  "hash_header C (b\<lparr>blk_hash := h\<rparr>) = hash_header C b"
  "hash_header C (b\<lparr>blk_transactions := ts\<rparr>) = hash_header C b"
  by (simp_all add: hash_header_def header_bytes_def)

lemma share_candidate_fields [simp]:
  "blk_index (share_candidate C P q) = sq_block_index q"
  "blk_prev_hash (share_candidate C P q) = hash_of_hex C (sq_prev_hash q)"
  "blk_timestamp (share_candidate C P q) = sq_timestamp q"
  "blk_miner (share_candidate C P q) = public_key C (ps_wallet P)"
  "blk_reward (share_candidate C P q) = TESTNET_REWARD"
  by (simp_all add: share_candidate_def)

lemma share_effect_fields [simp]:
  "ps_template (share_effect C F E P q) = ps_template P"
  "ps_wallet (share_effect C F E P q) = ps_wallet P"
  "ps_round_start_ms (share_effect C F E P q) = ps_round_start_ms P"
  "ps_round (share_effect C F E P q) = count_share (sq_miner_address q) (ps_round P)"
  "ps_dedup (share_effect C F E P q) = snd (share_dup E q (ps_dedup P))"
  by (simp_all add: share_effect_def)

text \<open>A share is taken when its handler answers with acceptance.\<close>

definition share_taken :: "share_response option \<Rightarrow> bool" where
  "share_taken r \<longleftrightarrow> (\<exists>s. r = Some s \<and> sp_accepted s)"

lemma share_taken_iff:
  "share_taken (fst (submit_share C F E q P)) \<longleftrightarrow>
     share_valid C E P q \<and> 4 \<le> bt_difficulty (ps_template P)"
  by (rule submit_share_cases [of C F E q P])
    (auto simp: share_taken_def share_refused_def not_less [symmetric])

lemma share_taken_effect:
  "share_taken (fst (submit_share C F E q P)) \<Longrightarrow> snd (submit_share C F E q P) = share_effect C F E P q"
  by (rule submit_share_cases [of C F E q P]) (auto simp: share_taken_def share_refused_def)

section \<open>A concrete pool for witnesses\<close>

definition toy_pool :: "int pool_state" where
  "toy_pool = pool_start toy_crypto int_floats
     \<lparr>pe_now = 1772975700000, pe_read_ok = True, pe_write_ok = True, pe_payout_ok = (\<lambda>_. True), pe_tie = hd\<rparr>
     \<lparr>wl_signing_key = 3\<rparr>
     \<lparr>nr_chain_height = 0, nr_best_hash = hex_encode toy_crypto (bytes32 0), nr_difficulty = 14\<rparr>
     \<lparr>pd_shares = [], pd_payouts = [], pd_snapshots = []\<rparr>"

definition toy_pool_env :: pool_env where
  "toy_pool_env = \<lparr>pe_now = 1772975700000, pe_read_ok = True, pe_write_ok = True,
     pe_payout_ok = (\<lambda>_. True), pe_tie = hd\<rparr>"

definition toy_request :: "hash32 \<Rightarrow> string \<Rightarrow> share_request" where
  "toy_request k w = \<lparr>sq_miner_address = address_from_pubkey toy_crypto k,
     sq_miner_pubkey = hex_encode toy_crypto (bytes32 k), sq_worker_name = w, sq_nonce = 42,
     sq_block_index = 1, sq_timestamp = 1772975700000, sq_prev_hash = hex_encode toy_crypto (bytes32 0)\<rparr>"

lemma toy_pool_simps [simp]:
  "ps_template toy_pool = \<lparr>bt_index = 1, bt_prev_hash = 0, bt_timestamp = 1772975700000,
     bt_difficulty = 14, bt_share_difficulty = 10\<rparr>"
  "ps_round toy_pool = round_default" "ps_dedup toy_pool = tg_new 1772975700000"
  "ps_wallet toy_pool = \<lparr>wl_signing_key = 3\<rparr>" "ps_queue toy_pool = []"
  "ps_db toy_pool = \<lparr>pd_shares = [], pd_payouts = [], pd_snapshots = []\<rparr>"
  "ps_round_start_ms toy_pool = 1772975700000"
  by (simp_all add: toy_pool_def pool_start_def template_of_status_def toy_hex_ok
      SHARE_DIFF_OFFSET_def saturating_sub_def)

lemma toy_request_simps [simp]:
  "sq_miner_address (toy_request k w) = address_from_pubkey toy_crypto k"
  "sq_miner_pubkey (toy_request k w) = hex_encode toy_crypto (bytes32 k)"
  "sq_worker_name (toy_request k w) = w" "sq_nonce (toy_request k w) = 42"
  "sq_block_index (toy_request k w) = 1" "sq_timestamp (toy_request k w) = 1772975700000"
  "sq_prev_hash (toy_request k w) = hex_encode toy_crypto (bytes32 0)"
  by (simp_all add: toy_request_def)

lemma toy_env_pool_simps [simp]:
  "pe_now toy_pool_env = 1772975700000" "pe_write_ok toy_pool_env" "pe_read_ok toy_pool_env"
  "pe_payout_ok toy_pool_env p" "pe_tie toy_pool_env = hd"
  by (simp_all add: toy_pool_env_def)

lemma toy_owns [simp]: "owns_key toy_crypto (toy_request k w)"
  by (simp add: owns_key_def toy_hex_ok)

lemma toy_share_hash [simp]: "share_hash toy_crypto P (toy_request k w) = 1"
  by (simp add: share_hash_def)

lemma toy_meets [simp]: "unat d \<le> 255 \<Longrightarrow> meets_difficulty 1 d"
  using one_less_power [of "2 :: nat" "256 - unat d"]
  by (simp add: meets_difficulty_def seq_meets_difficulty_value)

lemma toy_fresh: "share_dup toy_pool_env (toy_request k w) (tg_new 1772975700000) =
    (False, (tg_new 1772975700000)\<lparr>tg_buckets := [{make_key 1 42 (share_key (toy_request k w))}, {}, {}]\<rparr>)"
  by (simp add: share_dup_def is_duplicate_def maybe_rotate_def tg_new_def rotate_cond list_ex_three Let_def)

lemma toy_share_valid: "share_valid toy_crypto toy_pool_env toy_pool (toy_request k w)"
  by (simp add: share_valid_def share_current_def toy_fresh)

lemma toy_share_taken: "share_taken (fst (submit_share toy_crypto F toy_pool_env (toy_request k w) toy_pool))"
  by (simp add: share_taken_iff toy_share_valid)

lemma toy_keys: "fnv1a_64 (string_bytes (share_key (toy_request 6 ''thief'')))
    \<noteq> fnv1a_64 (string_bytes (share_key (toy_request 5 ''rig'')))"
  by code_simp

lemma xor_left_cancel: "c XOR a = c XOR b \<longleftrightarrow> a = b" for a b c :: u64
  using xor_right_cancel [of a c b] by (simp add: xor.commute)

section \<open>Properties\<close>

text \<open>
  the decision on a share: it is accepted exactly when the key it names hashes to its address,
  it is for the current block and predecessor, its time is within 90 seconds of the pool's clock,
  it is not a duplicate and meets the floor difficulty, and the chain difficulty is at least 4;
  below 4 such a share makes the handler panic. An accepted share counts once, for the address of
  its own key, and queues a block exactly when its hash meets the chain difficulty; any other
  outcome leaves round, database and queue as they were.
\<close>
theorem share_decision:
  "(share_taken (fst (submit_share C F E q P)) \<longleftrightarrow>
      share_valid C E P q \<and> 4 \<le> unat (bt_difficulty (ps_template P)))
   \<and> (fst (submit_share C F E q P) = None \<longleftrightarrow>
      share_valid C E P q \<and> unat (bt_difficulty (ps_template P)) < 4)
   \<and> ps_template (snd (submit_share C F E q P)) = ps_template P
   \<and> (if share_taken (fst (submit_share C F E q P))
      then ps_round (snd (submit_share C F E q P)) = count_share (sq_miner_address q) (ps_round P)
        \<and> pd_shares (ps_db (snd (submit_share C F E q P))) =
            pd_shares (ps_db P) @ (if pe_write_ok E then [share_row C E P q] else [])
        \<and> ps_queue (snd (submit_share C F E q P)) = ps_queue P @
            (if meets_difficulty (share_hash C P q) (bt_difficulty (ps_template P))
             then [\<lparr>fb_candidate = share_candidate C P q, fb_hash = share_hash C P q\<rparr>] else [])
      else ps_round (snd (submit_share C F E q P)) = ps_round P
        \<and> ps_db (snd (submit_share C F E q P)) = ps_db P
        \<and> ps_queue (snd (submit_share C F E q P)) = ps_queue P)"
proof (rule submit_share_cases [of C F E q P])
  fix r assume "submit_share C F E q P = (Some r, share_effect C F E P q)" "sp_accepted r"
    "share_valid C E P q" "4 \<le> bt_difficulty (ps_template P)"
  then show ?thesis by (simp add: share_taken_def share_effect_def word_le_nat_alt)
qed (auto simp: share_taken_def share_refused_def word_less_nat_alt word_le_nat_alt)

text \<open>
  C21: a share is not bound to the miner or the worker that found it: after one is accepted, the same
  nonce and time under any other worker name, or by any other miner with a key of its own, is
  accepted as well and counts again, as long as its mixed key is not in the duplicate guard and
  the work is still current.
\<close>
theorem share_counts_again:
  assumes "share_taken (fst (submit_share C F E q P))"
    and "sq_nonce q' = sq_nonce q" "sq_block_index q' = sq_block_index q"
      "sq_timestamp q' = sq_timestamp q" "sq_prev_hash q' = sq_prev_hash q"
    and "owns_key C q'" "share_current C E' P q'"
    and "\<not> fst (share_dup E' q' (snd (share_dup E q (ps_dedup P))))"
  shows "share_taken (fst (submit_share C F E' q' (snd (submit_share C F E q P))))
    \<and> ps_round (snd (submit_share C F E' q' (snd (submit_share C F E q P))))
      = count_share (sq_miner_address q') (count_share (sq_miner_address q) (ps_round P))"
proof -
  let ?P = "share_effect C F E P q"
  have P: "snd (submit_share C F E q P) = ?P" by (rule share_taken_effect [OF assms(1)])
  have v: "share_valid C E P q" "4 \<le> bt_difficulty (ps_template P)"
    using assms(1) by (simp_all add: share_taken_iff)
  have "share_hash C ?P q' = share_hash C P q"
    using assms(2-5) by (simp add: share_hash_def share_candidate_def)
  moreover have "share_current C E' ?P q'" using assms(7) by (simp add: share_current_def)
  ultimately have "share_valid C E' ?P q'"
    using v(1) assms(6,8) by (simp add: share_valid_def)
  then have taken: "share_taken (fst (submit_share C F E' q' ?P))"
    using v(2) by (simp add: share_taken_iff)
  then show ?thesis using share_taken_effect [OF taken] by (simp add: P)
qed

theorem share_counts_again_witness:
  "rd_total_shares (ps_round (snd (submit_share toy_crypto int_floats toy_pool_env (toy_request 6 ''thief'')
     (snd (submit_share toy_crypto int_floats toy_pool_env (toy_request 5 ''rig'') toy_pool))))) = 2"
proof -
  let ?q = "toy_request 5 ''rig''" and ?r = "toy_request 6 ''thief''"
  have "\<not> fst (share_dup toy_pool_env ?r (snd (share_dup toy_pool_env ?q (ps_dedup toy_pool))))"
    using toy_keys
    by (simp add: toy_fresh, simp add: share_dup_def is_duplicate_def maybe_rotate_def tg_new_def
        rotate_cond list_ex_three Let_def make_key_eq xor_left_cancel)
  then show ?thesis
    using share_counts_again [OF toy_share_taken, of ?r _ _ toy_pool_env]
    by (simp add: share_current_def count_share_def round_default_def)
qed

text \<open>
  a block found by a share is one the node accepts: if the template was taken from the tip of
  its chain and the two clocks differ by at most 30 seconds, the queued candidate with its hash
  filled in passes the block validation against that tip at the chain difficulty, whatever
  transactions are put in, and it carries the fixed reward.
\<close>
theorem found_block_valid:
  assumes "hex_ok C" "share_taken (fst (submit_share C F E q P))"
    and "meets_difficulty (share_hash C P q) (bt_difficulty (ps_template P))"
    and "bt_index (ps_template P) = blk_index tip + 1" "bt_prev_hash (ps_template P) = blk_hash tip"
    and "unat clock \<le> unat (pe_now E) + 30000" "unat (pe_now E) \<le> unat clock + 30000"
  shows "\<exists>fb. ps_queue (snd (submit_share C F E q P)) = ps_queue P @ [fb]
    \<and> block_is_valid C clock ((fb_candidate fb)\<lparr>blk_hash := fb_hash fb, blk_transactions := ts\<rparr>) tip
        (bt_difficulty (ps_template P))
    \<and> blk_reward (fb_candidate fb) = TESTNET_REWARD
    \<and> blk_miner (fb_candidate fb) = public_key C (ps_wallet P)"
proof -
  let ?c = "share_candidate C P q"
  have cur: "share_current C E P q" using assms(2) by (simp add: share_taken_iff share_valid_def)
  have "links_to C (?c\<lparr>blk_hash := share_hash C P q, blk_transactions := ts\<rparr>) tip (bt_difficulty (ps_template P))"
    using cur assms(1,3,4,5) by (simp add: links_to_def share_hash_def share_current_def)
  then have "block_is_valid C clock (?c\<lparr>blk_hash := share_hash C P q, blk_transactions := ts\<rparr>) tip
      (bt_difficulty (ps_template P))"
    using cur assms(6,7)
    by (simp add: block_is_valid_def is_valid_inner_def validate_inner_None share_current_def)
  then show ?thesis
    using share_taken_effect [OF assms(2)] assms(3)
    by (intro exI [of _ "\<lparr>fb_candidate = ?c, fb_hash = share_hash C P q\<rparr>"]) (simp add: share_effect_def)
qed

theorem found_block_valid_witness:
  "\<exists>fb. ps_queue (snd (submit_share toy_crypto int_floats toy_pool_env (toy_request 5 ''rig'') toy_pool)) = [fb]
    \<and> block_is_valid toy_crypto 1772975700000
        ((fb_candidate fb)\<lparr>blk_hash := fb_hash fb, blk_transactions := []\<rparr>) (genesis_block toy_crypto) 14"
  using found_block_valid [OF toy_hex_ok toy_share_taken, of 5 "''rig''" "genesis_block toy_crypto" 1772975700000 int_floats "[]"]
  by simp blast

end
