(* ===== verification/Pool_Payout.thy ===== *)
theory Pool_Payout
  imports Pool_Share
begin

text \<open>
  Paying the miners of a round and submitting found blocks (pool/src/main.rs,
  \<open>build_payout_txs\<close> and \<open>block_submitter_task\<close>). The order in which the hash map of the round is
  iterated is an argument, as are the answers of the node: the account of the pool, the pending
  transactions, and whether a submitted block is accepted.
\<close>

section \<open>Payout transactions\<close>

definition to_distribute :: u64 where
  "to_distribute = TESTNET_REWARD - TESTNET_REWARD * POOL_FEE_PERMILLE div 1000"

fun payout_loop ::
    "crypto \<Rightarrow> pool_env \<Rightarrow> wallet \<Rightarrow> u64 \<Rightarrow> (string \<rightharpoonup> u64) \<Rightarrow> u64 \<Rightarrow> (string \<rightharpoonup> string) \<Rightarrow> string list
       \<Rightarrow> u64 \<Rightarrow> 'f pool_db \<Rightarrow> transaction list \<times> 'f pool_db" where
  "payout_loop C E w block_index shares total_shares pubkeys [] sequence D = ([], D)"
| "payout_loop C E w block_index shares total_shares pubkeys (miner_address # as) sequence D =
     (let payout = to_distribute * or_default 0 (shares miner_address) div total_shares;
          skip = payout_loop C E w block_index shares total_shares pubkeys as sequence D
      in if payout = 0 then skip
         else case pubkeys miner_address of
           None \<Rightarrow> skip
         | Some pubkey_hex \<Rightarrow>
             (case decode_pubkey C pubkey_hex of
                None \<Rightarrow> skip
              | Some pubkey_bytes \<Rightarrow>
                  (case build_and_prove C (pe_now E) (tb_set_sequence sequence (tb_set_amount payout
                          (tb_set_recipient pubkey_bytes (tb_new w)))) of
                     Inl _ \<Rightarrow> skip
                   | Inr tx \<Rightarrow>
                       let row = \<lparr>pr_timestamp_ms = pe_now E, pr_to_address = miner_address,
                             pr_amount_micro = payout, pr_tx_hash = tx_hash_hex C tx,
                             pr_block_index = block_index\<rparr>;
                           D = or_default D (insert_payout (pe_payout_ok E row) row D)
                       in (case payout_loop C E w block_index shares total_shares pubkeys as (sequence + 1) D of
                             (txs, D) \<Rightarrow> (tx # txs, D)))))"

definition build_payout_txs ::
    "crypto \<Rightarrow> pool_env \<Rightarrow> string list \<Rightarrow> node_account_reply option \<Rightarrow> u64 \<Rightarrow> u64 \<Rightarrow> 'f pool_state
       \<Rightarrow> transaction list \<times> 'f pool_state" where
  "build_payout_txs C E order account block_index round_start_ms P =
     (let r = ps_round P in
      if rd_total_shares r = 0 then ([], P)
      else case miner_pubkeys_in_round (pe_read_ok E) (pe_tie E) (ps_db P) round_start_ms of
        None \<Rightarrow> ([], P)
      | Some pubkeys \<Rightarrow>
          let account = or_default \<lparr>na_sequence = 0, na_balance = 0\<rparr> account;
              (txs, D) = payout_loop C E (ps_wallet P) block_index (rd_shares r) (rd_total_shares r)
                 pubkeys order (na_sequence account + 1) (ps_db P)
          in (txs, P\<lparr>ps_db := D\<rparr>))"

section \<open>The submitter\<close>

text \<open>The block that is sent to the node.\<close>

definition final_block :: "found_block \<Rightarrow> transaction list \<Rightarrow> transaction list \<Rightarrow> block" where
  "final_block f payout_txs mempool_txs =
     (fb_candidate f)\<lparr>blk_hash := fb_hash f, blk_transactions := payout_txs @ mempool_txs\<rparr>"

text \<open>
  What is left of the queue after a block was accepted: entries up to its height are dropped, the
  first later one goes to the end of the queue.
\<close>

definition drain_queue :: "u64 \<Rightarrow> found_block list \<Rightarrow> found_block list" where
  "drain_queue block_index q =
     (case dropWhile (\<lambda>f. blk_index (fb_candidate f) \<le> block_index) q of
        [] \<Rightarrow> [] | f # fs \<Rightarrow> fs @ [f])"

text \<open>
  One turn of the loop: the height last submitted and the pool, with what was submitted, if
  anything, and the answer.
\<close>

definition block_submitter ::
    "crypto \<Rightarrow> pool_env \<Rightarrow> string list \<Rightarrow> node_account_reply option \<Rightarrow> transaction list
       \<Rightarrow> (block \<Rightarrow> bool) \<Rightarrow> u64 \<times> 'f pool_state \<Rightarrow> (block \<times> bool) option \<times> u64 \<times> 'f pool_state" where
  "block_submitter C E order account mempool_txs submit = (\<lambda>(last_submitted_index, P).
     case ps_queue P of
       [] \<Rightarrow> (None, last_submitted_index, P)
     | found # q \<Rightarrow>
         let P = P\<lparr>ps_queue := q\<rparr>;
             block_index = blk_index (fb_candidate found)
         in if block_index \<le> last_submitted_index then (None, last_submitted_index, P)
            else
              let (payout_txs, P) = build_payout_txs C E order account block_index (ps_round_start_ms P) P;
                  b = final_block found payout_txs mempool_txs
              in if submit b
                 then (Some (b, True), block_index,
                       P\<lparr>ps_blocks_found := ps_blocks_found P + 1,
                         ps_queue := drain_queue block_index (ps_queue P)\<rparr>)
                 else (Some (b, False), last_submitted_index, P))"

section \<open>The payouts of a round\<close>

text \<open>What one miner is owed and to which key, if anything is paid.\<close>

definition payee ::
    "crypto \<Rightarrow> (string \<rightharpoonup> u64) \<Rightarrow> u64 \<Rightarrow> (string \<rightharpoonup> string) \<Rightarrow> string \<Rightarrow> (u64 \<times> hash32) option" where
  "payee C shares total_shares pubkeys a =
     (let payout = to_distribute * or_default 0 (shares a) div total_shares
      in if payout = 0 then None
         else Option.bind (pubkeys a) (\<lambda>p. map_option (Pair payout) (decode_pubkey C p)))"

definition payout_tx :: "crypto \<Rightarrow> u64 \<Rightarrow> wallet \<Rightarrow> u64 \<Rightarrow> u64 \<times> hash32 \<Rightarrow> transaction" where
  "payout_tx C now w seq p = projr (build_and_prove C now (tb_set_sequence seq
     (tb_set_amount (fst p) (tb_set_recipient (snd p) (tb_new w)))))"

fun payout_run :: "crypto \<Rightarrow> u64 \<Rightarrow> wallet \<Rightarrow> u64 \<Rightarrow> (u64 \<times> hash32) list \<Rightarrow> transaction list" where
  "payout_run C now w seq [] = []"
| "payout_run C now w seq (p # ps) = payout_tx C now w seq p # payout_run C now w (seq + 1) ps"

abbreviation payout_builder :: "wallet \<Rightarrow> u64 \<Rightarrow> u64 \<times> hash32 \<Rightarrow> tx_builder" where
  "payout_builder w seq p \<equiv>
     tb_set_sequence seq (tb_set_amount (fst p) (tb_set_recipient (snd p) (tb_new w)))"

lemma payout_builder_fields [simp]:
  "tb_wallet (payout_builder w seq p) = w" "tb_recipient (payout_builder w seq p) = snd p"
  "tb_amount (payout_builder w seq p) = fst p" "tb_fee (payout_builder w seq p) = 1"
  "tb_sequence (payout_builder w seq p) = seq" "tb_data (payout_builder w seq p) = []"
  by (simp_all add: tb_set_sequence_def tb_set_amount_def tb_set_recipient_def tb_new_def)

lemma payout_tx_built:
  "build_and_prove C now (payout_builder w seq p) = Inr (payout_tx C now w seq p)"
  unfolding payout_tx_def by (simp add: build_and_prove_def Let_def)

lemma payout_tx_fields [simp]:
  "tx_sender (payout_tx C now w seq p) = public_key C w"
  "tx_recipient (payout_tx C now w seq p) = snd p" "tx_amount (payout_tx C now w seq p) = fst p"
  "tx_fee (payout_tx C now w seq p) = 1" "tx_sequence (payout_tx C now w seq p) = seq"
  using build_and_prove_form(4) [OF payout_tx_built [of C now seq p w]] by auto

lemma payout_tx_signed:
  assumes "ed_ok C"
  shows "tx_verify_signature C (payout_tx C now w seq p) = Inr ()"
proof -
  note form = build_and_prove_form [OF payout_tx_built [of C now seq p w]]
  have "tx_signature (payout_tx C now w seq p)
      = wallet_sign C w (to_bytes_for_signing (payout_tx C now w seq p))"
    using form(3) by simp
  then show ?thesis using verify_own_signature [OF assms] by (simp add: tx_verify_signature_def)
qed

lemma payout_loop_run:
  "fst (payout_loop C E w i shares total_shares pubkeys order seq D)
     = payout_run C (pe_now E) w seq (List.map_filter (payee C shares total_shares pubkeys) order)"
proof (induction order arbitrary: seq D)
  case (Cons a as)
  have built: "build_and_prove C (pe_now E) (tb_set_sequence seq (tb_set_amount p
      (tb_set_recipient k (tb_new w)))) = Inr (payout_tx C (pe_now E) w seq (p, k))" for p k
    using payout_tx_built [of C "pe_now E" seq "(p, k)" w] by simp
  show ?case
    using Cons.IH
    by (auto simp: payee_def Let_def built map_filter_simps split: option.splits prod.splits
        dest!: arg_cong [where f = fst])
qed (simp add: map_filter_simps)

lemma payout_run_signed: "ed_ok C \<Longrightarrow> t \<in> set (payout_run C now w seq ps) \<Longrightarrow> tx_verify_signature C t = Inr ()"
  by (induction ps arbitrary: seq) (auto simp: payout_tx_signed)

lemma payout_run_length [simp]: "length (payout_run C now w seq ps) = length ps"
  by (induction ps arbitrary: seq) auto

section \<open>The sum of the payouts\<close>

definition round_ok :: "nat \<Rightarrow> share_round \<Rightarrow> bool" where
  "round_ok n r \<longleftrightarrow> finite (dom (rd_shares r)) \<and>
     (\<Sum>a\<in>dom (rd_shares r). unat (the (rd_shares r a))) = unat (rd_total_shares r) \<and>
     unat (rd_total_shares r) + n < 2 ^ 64"

text \<open>The number of shares from which the product with the distributed amount wraps.\<close>

definition round_fits :: "share_round \<Rightarrow> bool" where
  "round_fits r \<longleftrightarrow> round_ok 0 r \<and> unat (rd_total_shares r) * 15691500 < 2 ^ 64"

lemma to_distribute_value: "to_distribute = 15691500"
  by (simp add: to_distribute_def TESTNET_REWARD_def POOL_FEE_PERMILLE_def)

lemma sum_div_le:
  fixes f :: "'a \<Rightarrow> nat"
  assumes "(\<Sum>x\<leftarrow>xs. f x) \<le> c * T" "0 < T"
  shows "(\<Sum>x\<leftarrow>xs. f x div T) \<le> c"
proof -
  have "(\<Sum>x\<leftarrow>xs. f x div T) * T \<le> (\<Sum>x\<leftarrow>xs. f x)"
    by (induction xs) (auto simp: add_mult_distrib intro!: add_mono)
  then have "(\<Sum>x\<leftarrow>xs. f x div T) * T \<le> c * T" using assms(1) by linarith
  then show ?thesis using assms(2) by simp
qed

lemma payout_value:
  assumes "unat n \<le> unat total_shares" "unat total_shares * 15691500 < 2 ^ 64"
  shows "unat (to_distribute * n div total_shares) = 15691500 * unat n div unat total_shares"
proof -
  have "15691500 * unat n \<le> unat total_shares * 15691500" using assms(1) by simp
  then have "15691500 * unat n < 2 ^ 64" using assms(2) by linarith
  then show ?thesis by (simp add: to_distribute_value unat_div unat_word_ariths)
qed

lemma payee_sum:
  "(\<Sum>p\<leftarrow>List.map_filter (payee C shares total_shares pubkeys) as. unat (fst p))
     \<le> (\<Sum>a\<leftarrow>as. unat (to_distribute * or_default 0 (shares a) div total_shares))"
  by (induction as) (auto simp: map_filter_simps payee_def Let_def split: option.splits if_splits bind_splits)

lemma payee_count: "length (List.map_filter (payee C shares total_shares pubkeys) as) \<le> length as"
  by (induction as) (auto simp: map_filter_simps split: option.splits)

lemma round_payouts:
  assumes "round_fits r" "distinct order" "set order = dom (rd_shares r)" "rd_total_shares r \<noteq> 0"
  shows "(\<Sum>p\<leftarrow>List.map_filter (payee C (rd_shares r) (rd_total_shares r) pubkeys) order. unat (fst p))
    \<le> 15691500"
proof -
  let ?n = "\<lambda>a. or_default 0 (rd_shares r a)" and ?T = "unat (rd_total_shares r)"
  have r: "(\<Sum>a\<in>dom (rd_shares r). unat (the (rd_shares r a))) = ?T" "finite (dom (rd_shares r))"
    and f: "?T * 15691500 < 2 ^ 64"
    using assms(1) by (simp_all add: round_fits_def round_ok_def)
  have n: "?n a = the (rd_shares r a)" if "a \<in> set order" for a
    using that assms(3) by (auto simp: or_default_def)
  have sum: "(\<Sum>a\<leftarrow>order. unat (?n a)) = ?T"
    using r n assms(2,3) by (simp add: sum_list_distinct_conv_sum_set)
  have le: "unat (?n a) \<le> ?T" if "a \<in> set order" for a
    using member_le_sum [of a "dom (rd_shares r)" "\<lambda>a. unat (the (rd_shares r a))"] r n that assms(3)
    by simp
  have "(\<Sum>a\<leftarrow>order. unat (to_distribute * ?n a div rd_total_shares r))
      = (\<Sum>a\<leftarrow>order. 15691500 * unat (?n a) div ?T)"
    using le payout_value [OF _ f] by (intro arg_cong [where f = sum_list] map_cong) auto
  also have "\<dots> \<le> 15691500"
  proof (rule sum_div_le)
    show "(\<Sum>a\<leftarrow>order. 15691500 * unat (?n a)) \<le> 15691500 * ?T"
      by (simp add: sum_list_const_mult sum)
    show "0 < ?T" using assms(4) by (simp add: unat_gt_0)
  qed
  finally show ?thesis using payee_sum [of C "rd_shares r" "rd_total_shares r" pubkeys order] by linarith
qed

text \<open>What \<open>build_payout_txs\<close> returns: a run of payouts whose sum is bounded.\<close>

lemma build_payout_run:
  assumes "round_fits (ps_round P)" "distinct order" "set order = dom (rd_shares (ps_round P))"
  obtains ps where "fst (build_payout_txs C E order account i start P) = payout_run C (pe_now E) (ps_wallet P)
      (na_sequence (or_default \<lparr>na_sequence = 0, na_balance = 0\<rparr> account) + 1) ps"
    "(\<Sum>p\<leftarrow>ps. unat (fst p)) \<le> 15691500" "length ps \<le> length order"
proof (cases "rd_total_shares (ps_round P) = 0
    \<or> miner_pubkeys_in_round (pe_read_ok E) (pe_tie E) (ps_db P) start = None")
  case True
  then have "fst (build_payout_txs C E order account i start P) = []"
    by (auto simp: build_payout_txs_def Let_def)
  then show ?thesis using that [of "[]"] by simp
next
  case False
  then obtain m where m: "miner_pubkeys_in_round (pe_read_ok E) (pe_tie E) (ps_db P) start = Some m"
      "rd_total_shares (ps_round P) \<noteq> 0" by auto
  show ?thesis
    by (rule that [of "List.map_filter (payee C (rd_shares (ps_round P)) (rd_total_shares (ps_round P)) m) order"])
      (simp_all add: build_payout_txs_def Let_def m split_def payout_loop_run payee_count
        round_payouts [OF assms m(2)])
qed

section \<open>Applying the payouts\<close>

lemma payout_run_applies:
  assumes "ledger_fits L" "public_key C w \<in> dom L" "seq = ledger_sequence L (public_key C w) + 1"
    "(\<Sum>p\<leftarrow>ps. unat (fst p)) + length ps \<le> unat (ledger_balance L (public_key C w))"
  shows "\<exists>M. apply_txs (apply_tx C) (payout_run C now w seq ps) L = (Inr (), M)"
  using assms
proof (induction ps arbitrary: L seq)
  case (Cons p ps)
  let ?t = "payout_tx C now w seq p" and ?k = "public_key C w"
  let ?L = "tx_effect C L ?t"
  have b: "unat (fst p) + 1 \<le> unat (ledger_balance L ?k)" using Cons.prems(4) by simp
  then have cost: "unat (total_cost ?t) = unat (fst p) + 1"
    using unat_less_64 [of "ledger_balance L ?k"] by (simp add: unat_total_cost)
  then have le: "total_cost ?t \<le> ledger_balance L (tx_sender ?t)" using b by (simp add: word_le_nat_alt)
  have step: "apply_tx C L ?t = (Inr (), ?L)"
    using Cons.prems(2,3) le by (simp add: apply_tx_cases not_less)
  note eff = tx_effect_supply [OF Cons.prems(1) le]
  have sub: "unat (ledger_balance L ?k - total_cost ?t) = unat (ledger_balance L ?k) - (unat (fst p) + 1)"
    using le cost by (simp add: unat_sub_no_underflow)
  have "unat (ledger_balance L ?k) - (unat (fst p) + 1) \<le> unat (ledger_balance ?L ?k)"
  proof (cases "snd p = ?k")
    case True
    then have "unat (ledger_balance L ?k - total_cost ?t) + unat (fst p) < 2 ^ 64"
      using eff(3) by simp
    then show ?thesis using True sub by (simp add: tx_effect_obs unat_add_no_overflow)
  next
    case False
    then show ?thesis using sub by (auto simp: tx_effect_obs)
  qed
  then have "(\<Sum>p\<leftarrow>ps. unat (fst p)) + length ps \<le> unat (ledger_balance ?L ?k)"
    using Cons.prems(4) by simp
  moreover have "?k \<in> dom ?L" "ledger_sequence ?L ?k = seq"
    by (auto simp: dom_tx_effect tx_effect_obs)
  ultimately obtain M where "apply_txs (apply_tx C) (payout_run C now w (seq + 1) ps) ?L = (Inr (), M)"
    using Cons.IH [OF eff(1)] by force
  then show ?case using step by simp
qed simp

lemma payouts_apply:
  assumes "(\<Sum>p\<leftarrow>ps. unat (fst p)) \<le> 15691500" "length ps \<le> 158500"
    and "finite (dom L)" "supply_of L + unat TESTNET_REWARD < 2 ^ 64"
  shows "\<exists>M. apply_txs (apply_tx C) (payout_run C now w (ledger_sequence L (public_key C w) + 1) ps)
      (apply_coinbase C L (public_key C w) TESTNET_REWARD) = (Inr (), M)"
proof (rule payout_run_applies)
  let ?k = "public_key C w"
  let ?L = "apply_coinbase C L ?k TESTNET_REWARD"
  show "ledger_fits ?L" by (rule apply_coinbase_supply(2) [OF assms(3,4)])
  show "?k \<in> dom ?L" by (simp add: apply_coinbase_def Let_def)
  show "ledger_sequence L ?k + 1 = ledger_sequence ?L ?k + 1" by (simp add: apply_coinbase_obs)
  have "unat (ledger_balance L ?k) + unat TESTNET_REWARD < 2 ^ 64"
    using balance_le_supply [OF assms(3), of ?k] assms(4) by linarith
  then have "unat (ledger_balance ?L ?k) = unat (ledger_balance L ?k) + 15850000"
    by (simp add: apply_coinbase_obs unat_add_no_overflow TESTNET_REWARD_def)
  then show "(\<Sum>p\<leftarrow>ps. unat (fst p)) + length ps \<le> unat (ledger_balance ?L ?k)"
    using assms(1,2) by linarith
qed

section \<open>Properties\<close>

lemma payout_run_sum: "(\<Sum>t\<leftarrow>payout_run C now w seq ps. unat (tx_amount t)) = (\<Sum>p\<leftarrow>ps. unat (fst p))"
  by (induction ps arbitrary: seq) auto

lemma payout_run_nth: "k < length ps \<Longrightarrow> tx_sequence (payout_run C now w seq ps ! k) = seq + of_nat k"
proof (induction ps arbitrary: seq k)
  case (Cons p ps)
  then show ?case by (cases k) (auto simp: algebra_simps)
qed simp

lemma payout_run_fields:
  "t \<in> set (payout_run C now w seq ps) \<Longrightarrow> tx_sender t = public_key C w \<and> tx_fee t = 1"
  by (induction ps arbitrary: seq) auto

lemma round_default_fits [simp]: "round_fits round_default"
  by (simp add: round_fits_def round_ok_def round_default_def)

text \<open>
  C26: the payouts of a round never exceed the reward less the fee of one percent, however many
  miners it has; they are transactions of the pool with a fee of one, signed, at most one per
  miner, and their sequence numbers are consecutive from the one after the account's.
\<close>
theorem payouts_within_reward:
  assumes "ed_ok C" "round_fits (ps_round P)" "distinct order" "set order = dom (rd_shares (ps_round P))"
    and "ts = fst (build_payout_txs C E order (Some acc) i start P)"
  shows "(\<Sum>t\<leftarrow>ts. unat (tx_amount t)) \<le> unat TESTNET_REWARD * 99 div 100
    \<and> length ts \<le> length order
    \<and> (\<forall>t \<in> set ts. tx_sender t = public_key C (ps_wallet P) \<and> tx_fee t = 1 \<and> tx_verify_signature C t = Inr ())
    \<and> (\<forall>k < length ts. tx_sequence (ts ! k) = na_sequence acc + 1 + of_nat k)"
proof -
  obtain ps where ps: "ts = payout_run C (pe_now E) (ps_wallet P) (na_sequence acc + 1) ps"
      "(\<Sum>p\<leftarrow>ps. unat (fst p)) \<le> 15691500" "length ps \<le> length order"
    using build_payout_run [OF assms(2-4), of C E "Some acc" i start] assms(5)
    by (auto simp: or_default_def)
  then show ?thesis
    using payout_run_signed [OF assms(1)] payout_run_fields
    by (auto simp: payout_run_sum payout_run_nth TESTNET_REWARD_def)
qed

text \<open>A pool with one row in its table, for the witnesses.\<close>

definition paid_pool :: "int pool_state" where
  "paid_pool = share_effect toy_crypto int_floats toy_pool_env toy_pool (toy_request 5 ''rig'')"

lemma paid_pool_round [simp]:
  "ps_round paid_pool = \<lparr>rd_shares = [address_from_pubkey toy_crypto 5 \<mapsto> 1], rd_total_shares = 1\<rparr>"
  by (simp add: paid_pool_def count_share_def round_default_def or_default_def)

lemma paid_pool_fits [simp]: "round_fits (ps_round paid_pool)"
  by (simp add: round_fits_def round_ok_def)

theorem payouts_within_reward_witness:
  "(\<Sum>t\<leftarrow>fst (build_payout_txs toy_crypto toy_pool_env [address_from_pubkey toy_crypto 5]
      (Some \<lparr>na_sequence = 4, na_balance = 0\<rparr>) 1 0 paid_pool). unat (tx_amount t)) \<le> 15691500"
  using payouts_within_reward [OF toy_ed_ok paid_pool_fits, of "[address_from_pubkey toy_crypto 5]" _
      toy_pool_env "\<lparr>na_sequence = 4, na_balance = 0\<rparr>" 1 0]
  by (simp add: TESTNET_REWARD_def)

text \<open>
  C23: a found block pays for itself: on any ledger whose supply leaves room for one reward, when
  the node reported the pool's current sequence number and the round has at most 158500 miners,
  crediting the reward and then applying all the payouts succeeds, even if the pool held nothing
  before.
\<close>
theorem payout_block_applies:
  assumes "round_fits (ps_round P)" "distinct order" "set order = dom (rd_shares (ps_round P))"
    and "length order \<le> 158500" "finite (dom L)" "supply_of L + unat TESTNET_REWARD < 2 ^ 64"
    and "na_sequence acc = ledger_sequence L (public_key C (ps_wallet P))"
  shows "\<exists>M. apply_txs (apply_tx C) (fst (build_payout_txs C E order (Some acc) i start P))
      (apply_coinbase C L (public_key C (ps_wallet P)) TESTNET_REWARD) = (Inr (), M)"
proof -
  obtain ps where ps: "fst (build_payout_txs C E order (Some acc) i start P)
        = payout_run C (pe_now E) (ps_wallet P) (ledger_sequence L (public_key C (ps_wallet P)) + 1) ps"
      "(\<Sum>p\<leftarrow>ps. unat (fst p)) \<le> 15691500" "length ps \<le> length order"
    using build_payout_run [OF assms(1-3), of C E "Some acc" i start] assms(7)
    by (auto simp: or_default_def)
  then show ?thesis using payouts_apply [OF ps(2) _ assms(5,6)] assms(4) by simp
qed

theorem payout_block_applies_witness:
  "\<exists>M. apply_txs (apply_tx toy_crypto) (fst (build_payout_txs toy_crypto toy_pool_env
       [address_from_pubkey toy_crypto 5] (Some \<lparr>na_sequence = 0, na_balance = 0\<rparr>) 1 0 paid_pool))
      (apply_coinbase toy_crypto Map.empty (public_key toy_crypto (ps_wallet paid_pool)) TESTNET_REWARD)
    = (Inr (), M)"
  by (rule payout_block_applies [OF paid_pool_fits])
    (simp_all add: supply_of_def TESTNET_REWARD_def ledger_sequence_def account_mut_def acc_new_def)

lemma payout_loop_recorded:
  "(\<And>r. pe_payout_ok E r) \<Longrightarrow>
   length (pd_payouts (snd (payout_loop C E w i shares total_shares pubkeys order seq D)))
     = length (pd_payouts D) + length (fst (payout_loop C E w i shares total_shares pubkeys order seq D))"
  by (induction order arbitrary: seq D)
    (auto simp: Let_def insert_payout_def or_default_def split_def split: option.split sum.split)

lemma build_payout_recorded:
  assumes "\<And>r. pe_payout_ok E r"
  shows "length (pd_payouts (ps_db (snd (build_payout_txs C E order account i start P))))
     = length (pd_payouts (ps_db P)) + length (fst (build_payout_txs C E order account i start P))"
  using payout_loop_recorded [OF assms]
  by (auto simp: build_payout_txs_def Let_def split_def split: option.split)

text \<open>
  C22: payouts are recorded before the node has answered: when a block is refused, the database
  holds a record for each payout of the block all the same, exactly what it would hold had the
  block been accepted, so the payouts of a refused block stay in the table the paid totals are
  computed from.
\<close>
theorem payouts_recorded_when_refused:
  assumes "\<And>r. pe_payout_ok E r"
    and "block_submitter C E order account txs (\<lambda>_. False) (i, P) = (Some (b, False), j, P')"
  shows "length (pd_payouts (ps_db P')) + length txs
      = length (pd_payouts (ps_db P)) + length (blk_transactions b)
    \<and> ps_db P' = ps_db (snd (snd (block_submitter C E order account txs (\<lambda>_. True) (i, P))))"
proof -
  obtain f q where q: "ps_queue P = f # q" and new: "\<not> blk_index (fb_candidate f) \<le> i"
    using assms(2) by (auto simp: block_submitter_def Let_def split: list.splits if_splits)
  let ?r = "build_payout_txs C E order account (blk_index (fb_candidate f)) (ps_round_start_ms P)
    (P\<lparr>ps_queue := q\<rparr>)"
  have "b = final_block f (fst ?r) txs" "P' = snd ?r"
    using assms(2) by (simp_all add: block_submitter_def Let_def q new split_def)
  moreover have "ps_db (snd (snd (block_submitter C E order account txs (\<lambda>_. True) (i, P)))) = ps_db (snd ?r)"
    by (simp add: block_submitter_def Let_def q new split_def)
  ultimately show ?thesis
    using build_payout_recorded [OF assms(1), of C order account "blk_index (fb_candidate f)"
        "ps_round_start_ms P" "P\<lparr>ps_queue := q\<rparr>"]
    by (simp add: final_block_def)
qed

theorem payouts_recorded_when_refused_witness:
  "\<exists>b j P'. block_submitter toy_crypto toy_pool_env [address_from_pubkey toy_crypto 5] None []
       (\<lambda>_. False) (0, paid_pool) = (Some (b, False), j, P')
    \<and> length (pd_payouts (ps_db P')) = length (pd_payouts (ps_db paid_pool)) + length (blk_transactions b)"
proof -
  have "ps_queue paid_pool = [\<lparr>fb_candidate = share_candidate toy_crypto toy_pool (toy_request 5 ''rig''), fb_hash = 1\<rparr>]"
    by (simp add: paid_pool_def share_effect_def)
  then obtain b j P' where run: "block_submitter toy_crypto toy_pool_env [address_from_pubkey toy_crypto 5] None []
       (\<lambda>_. False) (0, paid_pool) = (Some (b, False), j, P')"
    by (simp add: block_submitter_def Let_def split_def)
  then show ?thesis
    using payouts_recorded_when_refused [OF _ run] by auto
qed

end
