(* ===== verification/Pool_System.thy ===== *)
theory Pool_System
  imports Pool_Payout
begin

text \<open>
  The pool as a system of events: shares, work requests, polls of the node and turns of the block
  submitter in any order. The accounts of the round, the duplicate guard and the stored rows are
  kept in order by every event; a round from its start to its payout pays every miner.
\<close>

section \<open>Events\<close>

record 'f pool_system =
  sy_pool :: "'f pool_state"
  sy_watch :: pool_watch
  sy_last_submitted :: u64

datatype pool_sys_event =
    Share_Posted pool_env share_request
  | Work_Requested u64 "string option" "string option"
  | Node_Polled u64 "node_status_reply option"
  | Submitter_Turn pool_env "string list" "node_account_reply option" "transaction list" "block \<Rightarrow> bool"

fun pool_sys_step :: "crypto \<Rightarrow> 'f floats \<Rightarrow> 'f pool_system \<Rightarrow> pool_sys_event \<Rightarrow> 'f pool_system" where
  "pool_sys_step C F s (Share_Posted E q) = s\<lparr>sy_pool := snd (submit_share C F E q (sy_pool s))\<rparr>"
| "pool_sys_step C F s (Work_Requested now address worker) =
     s\<lparr>sy_pool := snd (get_work C F now address worker (sy_pool s))\<rparr>"
| "pool_sys_step C F s (Node_Polled now reply) =
     (case pool_watcher C now reply (sy_watch s, sy_pool s) of
        (wa, P) \<Rightarrow> s\<lparr>sy_watch := wa, sy_pool := P\<rparr>)"
| "pool_sys_step C F s (Submitter_Turn E order account mempool_txs submit) =
     (case block_submitter C E order account mempool_txs submit (sy_last_submitted s, sy_pool s) of
        (_, last_index, P) \<Rightarrow> s\<lparr>sy_last_submitted := last_index, sy_pool := P\<rparr>)"

text \<open>The state \<open>main\<close> starts its tasks with.\<close>

definition pool_sys_start ::
    "crypto \<Rightarrow> 'f floats \<Rightarrow> pool_env \<Rightarrow> wallet \<Rightarrow> node_status_reply \<Rightarrow> 'f pool_db \<Rightarrow> 'f pool_system" where
  "pool_sys_start C F E w status D =
     \<lparr>sy_pool = pool_start C F E w status D,
      sy_watch = \<lparr>wa_last_height = 0, wa_last_hash = ''''\<rparr>, sy_last_submitted = 0\<rparr>"

section \<open>The invariant\<close>

text \<open>A stored row names a key that hashes to its address.\<close>

definition row_wf :: "crypto \<Rightarrow> string \<Rightarrow> string \<Rightarrow> bool" where
  "row_wf C address pubkey \<longleftrightarrow>
     (\<exists>pk. decode_pubkey C pubkey = Some pk \<and> address = address_from_pubkey C pk)"

definition rows_wf :: "crypto \<Rightarrow> 'f pool_db \<Rightarrow> bool" where
  "rows_wf C D \<longleftrightarrow> (\<forall>r \<in> set (pd_shares D). row_wf C (sr_miner_address r) (sr_miner_pubkey r))"

definition pool_inv :: "crypto \<Rightarrow> nat \<Rightarrow> 'f pool_system \<Rightarrow> bool" where
  "pool_inv C n s \<longleftrightarrow> round_ok n (ps_round (sy_pool s)) \<and> tg_inv (ps_dedup (sy_pool s))
     \<and> rows_wf C (ps_db (sy_pool s))"

fun pool_event_cost :: "pool_sys_event \<Rightarrow> nat" where
  "pool_event_cost (Share_Posted _ _) = 1"
| "pool_event_cost _ = 0"

lemma round_ok_mono: "round_ok m r \<Longrightarrow> n \<le> m \<Longrightarrow> round_ok n r"
  by (simp add: round_ok_def)

lemma round_ok_default: "n < 2 ^ 64 \<Longrightarrow> round_ok n round_default"
  by (simp add: round_ok_def round_default_def)

lemma count_share_ok:
  assumes "round_ok (Suc n) r"
  shows "round_ok n (count_share a r)"
proof -
  let ?m = "rd_shares r" and ?n = "or_default 0 (rd_shares r a)"
  have r: "finite (dom ?m)" "(\<Sum>a\<in>dom ?m. unat (the (?m a))) = unat (rd_total_shares r)"
    "unat (rd_total_shares r) + Suc n < 2 ^ 64" using assms by (simp_all add: round_ok_def)
  have "unat ?n \<le> unat (rd_total_shares r)"
    using member_le_sum [of a "dom ?m" "\<lambda>a. unat (the (?m a))"] r(1,2)
    by (cases "?m a") (auto simp: or_default_def)
  then have n: "unat (?n + 1) = unat ?n + 1" and t: "unat (rd_total_shares r + 1) = unat (rd_total_shares r) + 1"
    using r(3) by (simp_all add: unat_add_no_overflow)
  have "(case ?m a of None \<Rightarrow> 0 | Some w \<Rightarrow> unat w) = unat ?n"
    by (simp add: or_default_def split: option.split)
  then have "(\<Sum>x\<in>dom (?m(a \<mapsto> ?n + 1)). unat (the ((?m(a \<mapsto> ?n + 1)) x)))
      = unat (rd_total_shares r) + 1"
    using sum_map_upd [OF r(1), of unat a "?n + 1"] r(2) n by linarith
  then show ?thesis using r t by (simp add: round_ok_def count_share_def)
qed

lemma share_dup_inv: "tg_inv g \<Longrightarrow> tg_inv (snd (share_dup E q g))"
  using tg_step_inv [of g "(pe_now E, sq_block_index q, sq_nonce q, share_key q)"]
  by (simp add: share_dup_def)

lemma owns_row_wf: "owns_key C q \<Longrightarrow> row_wf C (sq_miner_address q) (sq_miner_pubkey q)"
  by (auto simp: owns_key_def row_wf_def)

lemma share_rows_wf: "rows_wf C (ps_db P) \<Longrightarrow> rows_wf C (ps_db (snd (submit_share C F E q P)))"
proof (rule submit_share_cases [of C F E q P])
  fix r assume "rows_wf C (ps_db P)" "submit_share C F E q P = (Some r, share_effect C F E P q)"
    "share_valid C E P q"
  then show ?thesis
    by (auto simp: share_effect_def rows_wf_def share_row_def share_valid_def owns_row_wf)
qed auto

lemma payout_loop_shares: "pd_shares (snd (payout_loop C E w i shares t pubkeys order seq D)) = pd_shares D"
  by (induction order arbitrary: seq D)
    (auto simp: Let_def insert_payout_def or_default_def split: option.splits sum.splits prod.splits
      dest!: arg_cong [where f = snd])

lemma build_payout_rest:
  "snd (build_payout_txs C E order account i start P) = P\<lparr>ps_db := ps_db (snd (build_payout_txs C E order account i start P))\<rparr>"
  "pd_shares (ps_db (snd (build_payout_txs C E order account i start P))) = pd_shares (ps_db P)"
  by (auto simp: build_payout_txs_def Let_def payout_loop_shares split_def split: option.split)

lemma block_submitter_rest:
  "ps_round (snd (snd (block_submitter C E order account txs submit (i, P)))) = ps_round P
   \<and> ps_dedup (snd (snd (block_submitter C E order account txs submit (i, P)))) = ps_dedup P
   \<and> pd_shares (ps_db (snd (snd (block_submitter C E order account txs submit (i, P))))) = pd_shares (ps_db P)"
proof (cases "ps_queue P")
  case (Cons f q)
  let ?b = "build_payout_txs C E order account (blk_index (fb_candidate f)) (ps_round_start_ms P) (P\<lparr>ps_queue := q\<rparr>)"
  obtain ts P' where b: "?b = (ts, P')" by fastforce
  note rest = build_payout_rest [of C E order account "blk_index (fb_candidate f)" "ps_round_start_ms P"
      "P\<lparr>ps_queue := q\<rparr>", unfolded b snd_conv]
  have "ps_round P' = ps_round P" "ps_dedup P' = ps_dedup P"
    using arg_cong [OF rest(1), of ps_round] arg_cong [OF rest(1), of ps_dedup] by simp_all
  moreover have "pd_shares (ps_db P') = pd_shares (ps_db P)" using rest(2) by simp
  ultimately show ?thesis by (simp add: block_submitter_def Cons Let_def b)
qed (simp add: block_submitter_def)

lemma pool_sys_step_inv:
  assumes "pool_inv C (pool_event_cost e + n) s"
  shows "pool_inv C n (pool_sys_step C F s e)"
proof (cases e)
  case (Share_Posted E q)
  let ?P = "sy_pool s"
  have i: "round_ok (Suc n) (ps_round ?P)" "tg_inv (ps_dedup ?P)" "rows_wf C (ps_db ?P)"
    using assms by (simp_all add: Share_Posted pool_inv_def)
  have "round_ok n (ps_round (snd (submit_share C F E q ?P)))
      \<and> tg_inv (ps_dedup (snd (submit_share C F E q ?P)))"
    using count_share_ok [OF i(1)] round_ok_mono [OF i(1), of n] share_dup_inv [OF i(2), of E q] i(2)
    by (rule_tac submit_share_cases [of C F E q ?P]) auto
  then show ?thesis using share_rows_wf [OF i(3), of F E q] by (simp add: Share_Posted pool_inv_def)
next
  case (Work_Requested now address worker)
  then show ?thesis using assms by (simp add: pool_inv_def get_work_def Let_def split_def)
next
  case (Node_Polled now reply)
  have "n < 2 ^ 64" using assms by (simp add: Node_Polled pool_inv_def round_ok_def)
  then show ?thesis using assms round_ok_default [of n]
    by (auto simp: Node_Polled pool_inv_def pool_watcher_def Let_def split: option.split)
next
  case (Submitter_Turn E order account txs submit)
  then show ?thesis
    using assms block_submitter_rest [of C E order account txs submit "sy_last_submitted s" "sy_pool s"]
    by (auto simp: pool_inv_def rows_wf_def split: prod.split)
qed

interpretation pool_sys: budget_machine "pool_sys_step C F" pool_event_cost "pool_inv C" for C F
  by unfold_locales (rule pool_sys_step_inv)

lemma pool_start_inv:
  assumes "rows_wf C D" "n < 2 ^ 64"
  shows "pool_inv C n (pool_sys_start C F E w status D)"
  using assms tg_inv_new [of "pe_now E"]
  by (simp add: pool_inv_def pool_sys_start_def pool_start_def round_ok_default)

lemma cost_le_length: "sum_list (map pool_event_cost es) \<le> length es"
proof (induction es)
  case (Cons e es)
  then show ?case by (cases e) auto
qed simp

lemma pool_run_inv:
  assumes "rows_wf C D" "length es < 2 ^ 64"
  shows "pool_inv C 0 (foldl (pool_sys_step C F) (pool_sys_start C F E w status D) es)"
proof (rule pool_sys.run_budget)
  show "pool_inv C (sum_list (map pool_event_cost es) + 0) (pool_sys_start C F E w status D)"
    using assms cost_le_length [of es] by (intro pool_start_inv) auto
qed

section \<open>A round is paid in full\<close>

text \<open>The submissions of one round, each with the environment of its handler.\<close>

definition share_run ::
    "crypto \<Rightarrow> 'f floats \<Rightarrow> 'f pool_state \<Rightarrow> (pool_env \<times> share_request) list \<Rightarrow> 'f pool_state" where
  "share_run C F P qs = foldl (\<lambda>P (E, q). snd (submit_share C F E q P)) P qs"

definition round_known :: "'f pool_state \<Rightarrow> bool" where
  "round_known P \<longleftrightarrow> (\<forall>a \<in> dom (rd_shares (ps_round P)). \<exists>r \<in> set (pd_shares (ps_db P)).
     sr_miner_address r = a \<and> sint (ps_round_start_ms P) \<le> sint (sr_timestamp_ms r))"

lemma round_known_step:
  assumes "round_known P" "pe_write_ok E" "sint (ps_round_start_ms P) \<le> sint (pe_now E)"
  shows "round_known (snd (submit_share C F E q P))"
proof (rule submit_share_cases [of C F E q P])
  fix r assume "submit_share C F E q P = (Some r, share_effect C F E P q)"
  then show ?thesis
    using assms by (auto simp: round_known_def share_effect_def share_row_def count_share_def)
qed (use assms(1) in \<open>auto simp: round_known_def\<close>)

lemma submit_share_start: "ps_round_start_ms (snd (submit_share C F E q P)) = ps_round_start_ms P"
  by (rule submit_share_cases [of C F E q P]) auto

lemma submit_share_wallet: "ps_wallet (snd (submit_share C F E q P)) = ps_wallet P"
  by (rule submit_share_cases [of C F E q P]) auto

lemma share_run_known:
  assumes "round_known P" "rows_wf C (ps_db P)" "round_ok (length qs) (ps_round P)"
    "\<forall>(E, q) \<in> set qs. pe_write_ok E \<and> sint (ps_round_start_ms P) \<le> sint (pe_now E)"
  shows "round_known (share_run C F P qs) \<and> rows_wf C (ps_db (share_run C F P qs))
    \<and> round_ok 0 (ps_round (share_run C F P qs)) \<and> ps_round_start_ms (share_run C F P qs) = ps_round_start_ms P"
  using assms
proof (induction qs arbitrary: P)
  case (Cons e qs)
  obtain E q where e: "e = (E, q)" by (cases e)
  let ?P = "snd (submit_share C F E q P)"
  have "round_ok (length qs) (ps_round ?P)"
  proof -
    have "round_ok (Suc (length qs)) (ps_round P)" using Cons.prems(3) by simp
    then show ?thesis using count_share_ok [of "length qs"] round_ok_mono
      by (rule_tac submit_share_cases [of C F E q P]) (auto intro: round_ok_mono)
  qed
  moreover have "round_known ?P" using round_known_step Cons.prems(1,4) by (auto simp: e)
  moreover have "rows_wf C (ps_db ?P)" by (rule share_rows_wf [OF Cons.prems(2)])
  ultimately show ?case
    using Cons.IH [of ?P] Cons.prems(4) by (simp add: share_run_def e submit_share_start)
qed (simp add: share_run_def)

lemma payout_run_mem: "p \<in> set ps \<Longrightarrow> \<exists>seq. payout_tx C now w seq p \<in> set (payout_run C now w sq ps)"
proof (induction ps arbitrary: sq)
  case (Cons a ps)
  then show ?case by (cases "p = a") auto
qed simp

text \<open>A miner of the round with a well-formed row and a payout of at least one is paid it.\<close>

lemma miner_paid:
  assumes "round_fits (ps_round P)" "round_known P" "rows_wf C (ps_db P)" "tie_ok (pe_tie E)" "pe_read_ok E"
    "a \<in> set order" "rd_shares (ps_round P) a = Some n"
    "n \<noteq> 0" "unat (rd_total_shares (ps_round P)) \<le> 15691500 * unat n"
  shows "\<exists>t \<in> set (fst (build_payout_txs C E order account i (ps_round_start_ms P) P)).
    address_from_pubkey C (tx_recipient t) = a
    \<and> unat (tx_amount t) = 15691500 * unat n div unat (rd_total_shares (ps_round P))"
proof -
  let ?r = "ps_round P" and ?start = "ps_round_start_ms P"
  let ?T = "rd_total_shares ?r"
  have r: "(\<Sum>a\<in>dom (rd_shares ?r). unat (the (rd_shares ?r a))) = unat ?T" "finite (dom (rd_shares ?r))"
    "unat ?T * 15691500 < 2 ^ 64" using assms(1) by (simp_all add: round_fits_def round_ok_def)
  have "unat n \<le> unat ?T"
    using member_le_sum [of a "dom (rd_shares ?r)" "\<lambda>a. unat (the (rd_shares ?r a))"] r(1,2) assms(7)
    by (auto simp: dom_def)
  then have v: "unat (to_distribute * n div ?T) = 15691500 * unat n div unat ?T"
    using payout_value r(3) by blast
  have "0 < unat n" by (rule unat_gt_0 [THEN iffD2, OF assms(8)])
  then have nT: "0 < unat n" "0 < unat ?T" using \<open>unat n \<le> unat ?T\<close> by linarith+
  have T: "?T \<noteq> 0" using nT(2) by auto
  have nz: "to_distribute * n div ?T \<noteq> 0"
    using v assms(9) nT by (metis div_greater_zero_iff less_numeral_extra(3) unat_0)
  obtain m where m: "miner_pubkeys_in_round (pe_read_ok E) (pe_tie E) (ps_db P) ?start = Some m"
      "m = key_of (pick_row (pe_tie E)) (ps_db P) ?start"
    using assms(5) key_of_pick_row [OF assms(4), of "ps_db P" ?start]
    by (simp add: key_of_def miner_pubkeys_in_round_def)
  obtain row where "row \<in> set (pd_shares (ps_db P))" "sr_miner_address row = a"
      "sint ?start \<le> sint (sr_timestamp_ms row)"
    using assms(2,7) unfolding round_known_def by blast
  then obtain p where p: "m a = Some p" using directory.key_complete m(2) by blast
  then have "row_wf C a p"
    using directory.key_checked assms(3) unfolding m(2) rows_wf_def by blast
  then obtain pk where pk: "decode_pubkey C p = Some pk" "a = address_from_pubkey C pk"
    by (auto simp: row_wf_def)
  have "payee C (rd_shares ?r) ?T m a = Some (to_distribute * n div ?T, pk)"
    using assms(7) nz p pk(1) by (simp add: payee_def or_default_def)
  then have "(to_distribute * n div ?T, pk) \<in> set (List.map_filter (payee C (rd_shares ?r) ?T m) order)"
    using assms(6) by (force simp: List.map_filter_def)
  then obtain sq where "payout_tx C (pe_now E) (ps_wallet P) sq (to_distribute * n div ?T, pk)
      \<in> set (fst (build_payout_txs C E order account i ?start P))"
    using payout_run_mem T
    by (fastforce simp: build_payout_txs_def Let_def m(1) split_def payout_loop_run)
  then show ?thesis using pk(2) v by (intro bexI) simp_all
qed

lemma submit_share_total:
  "unat (rd_total_shares (ps_round (snd (submit_share C F E q P)))) \<le> unat (rd_total_shares (ps_round P)) + 1"
proof (rule submit_share_cases [of C F E q P])
  fix r assume "submit_share C F E q P = (Some r, share_effect C F E P q)"
  then show ?thesis by (simp add: count_share_def unat_word_ariths mod_less_eq_dividend)
qed auto

lemma share_run_total:
  "unat (rd_total_shares (ps_round (share_run C F P qs))) \<le> unat (rd_total_shares (ps_round P)) + length qs"
proof (induction qs arbitrary: P)
  case (Cons e qs)
  obtain E q where e: "e = (E, q)" by (cases e)
  show ?case
    using Cons.IH [of "snd (submit_share C F E q P)"] submit_share_total [of C F E q P]
    by (simp add: share_run_def e)
qed (simp add: share_run_def)

section \<open>Properties\<close>

text \<open>
  the accounts of the pool are in order after any history: whatever shares, work requests, polls and
  submissions have happened since the start, the total of the round is the sum of the miners'
  counts, exactly, and the duplicate guard has its three buckets.
\<close>
theorem pool_round_counts:
  assumes "rows_wf C D" "length es < 2 ^ 64"
    and "P = sy_pool (foldl (pool_sys_step C F) (pool_sys_start C F E w status D) es)"
  shows "(\<Sum>a\<in>dom (rd_shares (ps_round P)). unat (the (rd_shares (ps_round P) a)))
      = unat (rd_total_shares (ps_round P))
    \<and> finite (dom (rd_shares (ps_round P))) \<and> tg_inv (ps_dedup P)"
  using pool_run_inv [OF assms(1,2), of F E w status] by (simp add: pool_inv_def round_ok_def assms(3))

definition empty_db :: "int pool_db" where
  "empty_db = \<lparr>pd_shares = [], pd_payouts = [], pd_snapshots = []\<rparr>"

definition toy_status :: node_status_reply where
  "toy_status = \<lparr>nr_chain_height = 0, nr_best_hash = hex_encode toy_crypto (bytes32 0), nr_difficulty = 14\<rparr>"

definition toy_history :: "pool_sys_event list" where
  "toy_history = [Work_Requested 5 None None, Share_Posted toy_pool_env (toy_request 5 ''rig''),
     Share_Posted toy_pool_env (toy_request 5 ''rig''), Node_Polled 7 None]"

lemma empty_rows_wf: "rows_wf C empty_db"
  by (simp add: rows_wf_def empty_db_def)

theorem pool_round_counts_witness:
  "let P = sy_pool (foldl (pool_sys_step toy_crypto int_floats)
       (pool_sys_start toy_crypto int_floats toy_pool_env \<lparr>wl_signing_key = 3\<rparr> toy_status empty_db) toy_history)
   in (\<Sum>a\<in>dom (rd_shares (ps_round P)). unat (the (rd_shares (ps_round P) a)))
      = unat (rd_total_shares (ps_round P)) \<and> tg_inv (ps_dedup P)"
  using pool_round_counts [OF empty_rows_wf _ refl, of toy_history toy_crypto int_floats toy_pool_env
      "\<lparr>wl_signing_key = 3\<rparr>" toy_status]
  by (simp add: toy_history_def Let_def)

text \<open>
  C25: the rows of the share table are well-formed after any history: each names a public key of 32
  bytes whose address is the miner the share is counted for, so a payout can only go to the key of
  the miner it is computed for, and no request can redirect it.
\<close>
theorem stored_shares_well_formed:
  assumes "rows_wf C D" "length es < 2 ^ 64"
    and "r \<in> set (pd_shares (ps_db (sy_pool (foldl (pool_sys_step C F) (pool_sys_start C F E w status D) es))))"
  shows "\<exists>pk. decode_pubkey C (sr_miner_pubkey r) = Some pk \<and> sr_miner_address r = address_from_pubkey C pk"
  using pool_run_inv [OF assms(1,2), of F E w status] assms(3)
  by (auto simp: pool_inv_def rows_wf_def row_wf_def)

theorem stored_shares_well_formed_witness:
  "\<exists>pk. decode_pubkey toy_crypto (hex_encode toy_crypto (bytes32 5)) = Some pk
     \<and> address_from_pubkey toy_crypto 5 = address_from_pubkey toy_crypto pk"
proof -
  let ?r = "share_row toy_crypto toy_pool_env toy_pool (toy_request 5 ''rig'')"
  let ?start = "pool_sys_start toy_crypto int_floats toy_pool_env \<lparr>wl_signing_key = 3\<rparr> toy_status empty_db"
  have "sy_pool ?start = toy_pool"
    by (simp add: pool_sys_start_def toy_pool_def toy_pool_env_def toy_status_def empty_db_def)
  then have "?r \<in> set (pd_shares (ps_db (sy_pool (foldl (pool_sys_step toy_crypto int_floats) ?start
      [Share_Posted toy_pool_env (toy_request 5 ''rig'')]))))"
    by (simp add: share_taken_effect [OF toy_share_taken], simp add: share_effect_def)
  from stored_shares_well_formed [OF empty_rows_wf _ this] show ?thesis
    by (simp add: share_row_def)
qed

text \<open>
  C8: a round is paid in full: from a fresh round, after any shares stored by a database that
  answers, every miner whose proportional part of 99 percent of the reward is at least one unit
  is paid exactly that part, rounded down, to the key its address was derived from, whichever
  order the round is paid in.
\<close>
theorem round_paid_in_full:
  assumes "ps_round P0 = round_default" "rows_wf C (ps_db P0)" "length qs * 15691500 < 2 ^ 64"
    and "\<forall>(E, q) \<in> set qs. pe_write_ok E \<and> sint (ps_round_start_ms P0) \<le> sint (pe_now E)"
    and "P = share_run C F P0 qs" "tie_ok (pe_tie E)" "pe_read_ok E"
    and "distinct order" "set order = dom (rd_shares (ps_round P))" "rd_shares (ps_round P) a = Some n"
    and "0 < 15691500 * unat n div unat (rd_total_shares (ps_round P))"
  shows "\<exists>t \<in> set (fst (build_payout_txs C E order account i (ps_round_start_ms P0) P)).
    address_from_pubkey C (tx_recipient t) = a
    \<and> unat (tx_amount t) = 15691500 * unat n div unat (rd_total_shares (ps_round P))"
proof -
  have r0: "round_ok (length qs) (ps_round P0)" using assms(1,3) round_ok_default by simp
  have k0: "round_known P0" by (simp add: round_known_def assms(1) round_default_def)
  have inv: "round_known P" "rows_wf C (ps_db P)" "round_ok 0 (ps_round P)"
      "ps_round_start_ms P = ps_round_start_ms P0"
    using share_run_known [OF k0 assms(2) r0 assms(4), of F] by (simp_all add: assms(5))
  have "unat (rd_total_shares (ps_round P)) \<le> length qs"
    using share_run_total [of C F P0 qs] by (simp add: assms(1,5) round_default_def)
  then have "unat (rd_total_shares (ps_round P)) * 15691500 < 2 ^ 64" using assms(3) by linarith
  then have "round_fits (ps_round P)" using inv(3) by (simp add: round_fits_def)
  moreover have "n \<noteq> 0" using assms(11) by (cases "n = 0") auto
  moreover have "unat (rd_total_shares (ps_round P)) \<le> 15691500 * unat n"
    using assms(11) by (simp only: div_greater_zero_iff)
  moreover have "a \<in> set order" using assms(9,10) by auto
  ultimately show ?thesis
    using miner_paid [OF _ inv(1,2) assms(6,7) _ assms(10)] inv(4) by metis
qed

theorem round_paid_in_full_witness:
  "\<exists>t \<in> set (fst (build_payout_txs toy_crypto toy_pool_env [address_from_pubkey toy_crypto 5] None 1
      1772975700000 paid_pool)).
    address_from_pubkey toy_crypto (tx_recipient t) = address_from_pubkey toy_crypto 5
    \<and> unat (tx_amount t) = 15691500"
proof -
  have P: "paid_pool = share_run toy_crypto int_floats toy_pool [(toy_pool_env, toy_request 5 ''rig'')]"
    using share_taken_effect [OF toy_share_taken] by (simp add: share_run_def paid_pool_def)
  have "tie_ok (pe_tie toy_pool_env)" by (simp add: tie_ok_def)
  then show ?thesis
    using round_paid_in_full [OF _ _ _ _ P, of toy_pool_env "[address_from_pubkey toy_crypto 5]"
        "address_from_pubkey toy_crypto 5" 1 None 1]
    by (simp add: rows_wf_def)
qed

end
