(* ===== verification/Pool_Races.thy ===== *)
theory Pool_Races
  imports Pool_System
begin

text \<open>
  The handlers of the pool as the locks cut them (pool/src/main.rs). \<open>submit_share\<close> keeps the lock
  on the template from its checks to its answer, and takes the locks of the duplicate guard,
  the share difficulties and the round one after the other; the watcher replaces the template, the round, the
  base difficulty and the start of the round under four separate locks. Between two sections any other thread
  may run. Run alone, the sections are the atomic handlers of the theory \<open>Pool\<close>; together
  they keep the accounts in order, but a share can fall between two sections of the watcher.
\<close>

section \<open>The sections of a submission\<close>

datatype share_pc =
    At_Check | At_Dedup | At_Vardiff | At_Count | At_Store | At_Send
  | Answered "share_response option"

record share_task =
  tk_env :: pool_env
  tk_request :: share_request
  tk_pc :: share_pc

definition share_checks :: "crypto \<Rightarrow> pool_env \<Rightarrow> share_request \<Rightarrow> block_template \<Rightarrow> share_message option" where
  "share_checks C E q T = (case decode_pubkey C (sq_miner_pubkey q) of
     None \<Rightarrow> Some Invalid_Pubkey_Format
   | Some pubkey_bytes \<Rightarrow>
       if address_from_pubkey C pubkey_bytes \<noteq> sq_miner_address q then Some Address_Pubkey_Mismatch
       else if sq_block_index q \<noteq> bt_index T then Some (Stale_Block (bt_index T) (sq_block_index q))
       else if sq_prev_hash q \<noteq> hex_encode C (bytes32 (bt_prev_hash T)) then Some Prev_Hash_Mismatch
       else if (if sq_timestamp q > pe_now E then sq_timestamp q - pe_now E
                else pe_now E - sq_timestamp q) > 90000 then Some Stale_Share_Timestamp
       else None)"

definition dedup_section :: "crypto \<Rightarrow> pool_env \<Rightarrow> share_request \<Rightarrow> 'f pool_state \<Rightarrow> 'f pool_state \<times> share_pc" where
  "dedup_section C E q P =
     (let T = ps_template P;
          h = hash_header C (share_candidate C P q);
          key = worker_key (sq_miner_address q) (sq_worker_name q);
          (dup, guard) = is_duplicate (pe_now E) (sq_block_index q) (sq_nonce q) key (ps_dedup P)
      in (P\<lparr>ps_dedup := guard\<rparr>,
          if dup then Answered (Some (share_refused Duplicate_Share))
          else if \<not> meets_difficulty h (bt_share_difficulty T)
          then Answered (Some (share_refused (Below_Minimum (bt_share_difficulty T))))
          else At_Vardiff))"

definition vardiff_section ::
    "'f floats \<Rightarrow> pool_env \<Rightarrow> share_request \<Rightarrow> 'f pool_state \<Rightarrow> 'f pool_state \<times> share_pc" where
  "vardiff_section F E q P =
     (let key = worker_key (sq_miner_address q) (sq_worker_name q);
          (d, R) = vr_on_share F (pe_now E) key (bt_difficulty (ps_template P)) (ps_vardiff P)
      in (P\<lparr>ps_vardiff := R\<rparr>, case d of None \<Rightarrow> Answered None | Some _ \<Rightarrow> At_Count))"

definition count_section :: "share_request \<Rightarrow> 'f pool_state \<Rightarrow> 'f pool_state \<times> share_pc" where
  "count_section q P = (P\<lparr>ps_round := count_share (sq_miner_address q) (ps_round P)\<rparr>, At_Store)"

definition store_section ::
    "crypto \<Rightarrow> pool_env \<Rightarrow> share_request \<Rightarrow> 'f pool_state \<Rightarrow> 'f pool_state \<times> share_pc" where
  "store_section C E q P =
     (let h = hash_header C (share_candidate C P q);
          share_rec = \<lparr>sr_timestamp_ms = pe_now E, sr_miner_address = sq_miner_address q,
            sr_miner_pubkey = sq_miner_pubkey q, sr_worker_name = sq_worker_name q,
            sr_nonce = sq_nonce q, sr_block_index = sq_block_index q,
            sr_is_block = meets_difficulty h (bt_difficulty (ps_template P))\<rparr>
      in (P\<lparr>ps_db := or_default (ps_db P) (insert_share (pe_write_ok E) share_rec (ps_db P))\<rparr>, At_Send))"

definition send_section :: "crypto \<Rightarrow> share_request \<Rightarrow> 'f pool_state \<Rightarrow> 'f pool_state \<times> share_pc" where
  "send_section C q P =
     (let candidate = share_candidate C P q; h = hash_header C candidate in
      if meets_difficulty h (bt_difficulty (ps_template P))
      then (P\<lparr>ps_queue := ps_queue P @ [\<lparr>fb_candidate = candidate, fb_hash = h\<rparr>]\<rparr>,
            Answered (Some \<lparr>sp_status = OK_200, sp_accepted = True, sp_is_block = True,
              sp_message = Found_And_Submitted (sq_block_index q)\<rparr>))
      else (P, Answered (Some \<lparr>sp_status = OK_200, sp_accepted = True, sp_is_block = False,
              sp_message = Share_Accepted\<rparr>)))"

definition share_section ::
    "crypto \<Rightarrow> 'f floats \<Rightarrow> 'f pool_state \<times> share_task \<Rightarrow> 'f pool_state \<times> share_task" where
  "share_section C F = (\<lambda>(P, t).
     let E = tk_env t; q = tk_request t;
         (P', pc) = (case tk_pc t of
            At_Check \<Rightarrow> (P, case share_checks C E q (ps_template P) of
                Some m \<Rightarrow> Answered (Some (share_refused m)) | None \<Rightarrow> At_Dedup)
          | At_Dedup \<Rightarrow> dedup_section C E q P
          | At_Vardiff \<Rightarrow> vardiff_section F E q P
          | At_Count \<Rightarrow> count_section q P
          | At_Store \<Rightarrow> store_section C E q P
          | At_Send \<Rightarrow> send_section C q P
          | Answered r \<Rightarrow> (P, Answered r))
     in (P', t\<lparr>tk_pc := pc\<rparr>))"

definition new_task :: "pool_env \<Rightarrow> share_request \<Rightarrow> share_task" where
  "new_task E q = \<lparr>tk_env = E, tk_request = q, tk_pc = At_Check\<rparr>"

text \<open>The handlers that hold the lock on the template.\<close>

definition holds_template :: "share_task \<Rightarrow> bool" where
  "holds_template t \<longleftrightarrow> tk_pc t \<in> {At_Dedup, At_Vardiff, At_Count, At_Store, At_Send}"

section \<open>The sections of the watcher\<close>

datatype watch_pc =
    Idle
  | Set_Template node_status_reply block_template
  | Reset_Round node_status_reply block_template
  | Set_Base node_status_reply block_template
  | Set_Start node_status_reply

definition watch_poll :: "crypto \<Rightarrow> u64 \<Rightarrow> node_status_reply option \<Rightarrow> pool_watch \<Rightarrow> watch_pc" where
  "watch_poll C now reply wa = (case reply of
     None \<Rightarrow> Idle
   | Some status \<Rightarrow>
       if nr_chain_height status > wa_last_height wa \<or> nr_best_hash status \<noteq> wa_last_hash wa
       then Set_Template status (template_of_status C now status) else Idle)"

fun watch_section :: "u64 \<Rightarrow> watch_pc \<times> pool_watch \<times> 'f pool_state \<Rightarrow> watch_pc \<times> pool_watch \<times> 'f pool_state" where
  "watch_section now (Idle, wa, P) = (Idle, wa, P)"
| "watch_section now (Set_Template st T, wa, P) = (Reset_Round st T, wa, P\<lparr>ps_template := T\<rparr>)"
| "watch_section now (Reset_Round st T, wa, P) = (Set_Base st T, wa, P\<lparr>ps_round := round_default\<rparr>)"
| "watch_section now (Set_Base st T, wa, P) = (Set_Start st, wa, P\<lparr>ps_vardiff :=
     set_base_difficulty (saturating_sub (bt_difficulty T) SHARE_DIFF_OFFSET) (ps_vardiff P)\<rparr>)"
| "watch_section now (Set_Start st, wa, P) =
     (Idle, \<lparr>wa_last_height = nr_chain_height st, wa_last_hash = nr_best_hash st\<rparr>, P\<lparr>ps_round_start_ms := now\<rparr>)"

section \<open>Threads\<close>

record 'f pool_threads =
  ct_sys :: "'f pool_system"
  ct_tasks :: "share_task list"
  ct_watch :: watch_pc

text \<open>
  A request arrives, a handler or the watcher runs its next section, the watcher has polled the
  node, or another handler runs. A thread whose lock is taken waits.
\<close>

datatype thread_event =
    Arrive pool_env share_request
  | Share_Turn nat
  | Poll u64 "node_status_reply option"
  | Watch_Turn u64
  | Work_Turn u64 "string option" "string option"
  | Block_Turn pool_env "string list" "node_account_reply option" "transaction list" "block \<Rightarrow> bool"

definition watcher_waits :: "'f pool_threads \<Rightarrow> bool" where
  "watcher_waits s \<longleftrightarrow> (\<exists>st T. ct_watch s = Set_Template st T) \<and> list_ex holds_template (ct_tasks s)"

fun threads_step :: "crypto \<Rightarrow> 'f floats \<Rightarrow> 'f pool_threads \<Rightarrow> thread_event \<Rightarrow> 'f pool_threads" where
  "threads_step C F s (Arrive E q) = s\<lparr>ct_tasks := ct_tasks s @ [new_task E q]\<rparr>"
| "threads_step C F s (Share_Turn i) =
     (if i < length (ct_tasks s)
      then (case share_section C F (sy_pool (ct_sys s), ct_tasks s ! i) of
              (P, t) \<Rightarrow> s\<lparr>ct_sys := (ct_sys s)\<lparr>sy_pool := P\<rparr>, ct_tasks := (ct_tasks s)[i := t]\<rparr>)
      else s)"
| "threads_step C F s (Poll now reply) =
     (if ct_watch s = Idle then s\<lparr>ct_watch := watch_poll C now reply (sy_watch (ct_sys s))\<rparr> else s)"
| "threads_step C F s (Watch_Turn now) =
     (if watcher_waits s then s
      else case watch_section now (ct_watch s, sy_watch (ct_sys s), sy_pool (ct_sys s)) of
        (pc, wa, P) \<Rightarrow> s\<lparr>ct_watch := pc, ct_sys := (ct_sys s)\<lparr>sy_watch := wa, sy_pool := P\<rparr>\<rparr>)"
| "threads_step C F s (Work_Turn now address worker) =
     s\<lparr>ct_sys := pool_sys_step C F (ct_sys s) (Work_Requested now address worker)\<rparr>"
| "threads_step C F s (Block_Turn E order account txs submit) =
     s\<lparr>ct_sys := pool_sys_step C F (ct_sys s) (Submitter_Turn E order account txs submit)\<rparr>"

section \<open>Run alone\<close>

lemma section_answered [simp]: "tk_pc t = Answered r \<Longrightarrow> share_section C F (P, t) = (P, t)"
  by (simp add: share_section_def)

lemma sections_answered: "tk_pc t = Answered r \<Longrightarrow> (share_section C F ^^ n) (P, t) = (P, t)"
  by (induction n) auto

lemmas share_sections = share_section_def dedup_section_def vardiff_section_def count_section_def
  store_section_def send_section_def new_task_def

lemma section_first: "(share_section C F ^^ Suc n) x = (share_section C F ^^ n) (share_section C F x)"
  by (simp add: funpow_swap1)

lemma checks_pass:
  assumes "share_checks C E q (ps_template P) = None"
  shows "submit_share C F E q P =
    (let T = ps_template P; candidate = share_candidate C P q; h = hash_header C candidate;
         key = worker_key (sq_miner_address q) (sq_worker_name q);
         (dup, guard) = is_duplicate (pe_now E) (sq_block_index q) (sq_nonce q) key (ps_dedup P);
         P = P\<lparr>ps_dedup := guard\<rparr>
     in if dup then (Some (share_refused Duplicate_Share), P)
        else if \<not> meets_difficulty h (bt_share_difficulty T)
        then (Some (share_refused (Below_Minimum (bt_share_difficulty T))), P)
        else
          let (d, R) = vr_on_share F (pe_now E) key (bt_difficulty T) (ps_vardiff P);
              P = P\<lparr>ps_vardiff := R\<rparr>
          in case d of
               None \<Rightarrow> (None, P)
             | Some _ \<Rightarrow> (case accept_share C E q candidate h P of (r, P) \<Rightarrow> (Some r, P)))"
  using assms unfolding submit_share_def share_checks_def Let_def by (auto split: option.splits if_splits)

lemma checks_fail:
  "share_checks C E q (ps_template P) = Some m \<Longrightarrow> submit_share C F E q P = (Some (share_refused m), P)"
  unfolding submit_share_def share_checks_def Let_def by (auto split: option.splits if_splits)

text \<open>Undisturbed, the sections of a handler do what the atomic handler does; its answer is the last.\<close>

lemma share_sections_atomic:
  "(share_section C F ^^ 6) (P, new_task E q)
     = (snd (submit_share C F E q P), (new_task E q)\<lparr>tk_pc := Answered (fst (submit_share C F E q P))\<rparr>)"
proof (cases "share_checks C E q (ps_template P)")
  case (Some m)
  let ?t = "(new_task E q)\<lparr>tk_pc := Answered (Some (share_refused m))\<rparr>"
  have one: "share_section C F (P, new_task E q) = (P, ?t)"
    using Some by (simp add: share_section_def new_task_def)
  have "(share_section C F ^^ 5) (P, ?t) = (P, ?t)" by (rule sections_answered) simp
  then have "(share_section C F ^^ Suc 5) (P, new_task E q) = (P, ?t)"
    unfolding section_first one .
  then show ?thesis using checks_fail [OF Some, of F] by simp
next
  case None
  obtain dup g where dup: "is_duplicate (pe_now E) (sq_block_index q) (sq_nonce q)
      (worker_key (sq_miner_address q) (sq_worker_name q)) (ps_dedup P) = (dup, g)" by fastforce
  obtain d R where vr: "vr_on_share F (pe_now E) (worker_key (sq_miner_address q) (sq_worker_name q))
      (bt_difficulty (ps_template P)) (ps_vardiff P) = (d, R)" by fastforce
  have six: "(6 :: nat) = Suc (Suc (Suc (Suc (Suc (Suc 0)))))" by simp
  have cand: "share_candidate C (P\<lparr>ps_dedup := g, ps_vardiff := R, ps_round := r\<rparr>) q = share_candidate C P q"
    "share_candidate C (P\<lparr>ps_dedup := g, ps_vardiff := R, ps_round := r, ps_db := D\<rparr>) q = share_candidate C P q" for r D
    by (simp_all add: share_candidate_def)
  show ?thesis
    unfolding six section_first checks_pass [OF None]
    by (cases dup; cases d; cases "meets_difficulty (hash_header C (share_candidate C P q)) (bt_share_difficulty (ps_template P))")
      (simp_all add: share_sections None dup vr accept_share_def Let_def cand)
qed

text \<open>So do the sections of the watcher.\<close>

lemma watch_sections_atomic:
  "(watch_section now ^^ 4) (watch_poll C now reply wa, wa, P) = (Idle, pool_watcher C now reply (wa, P))"
  by (auto simp: watch_poll_def pool_watcher_def Let_def numeral_eq_Suc template_of_status_def split: option.split)

section \<open>The invariant of all schedules\<close>

text \<open>
  A handler past its checks works on the template in force: it names the key of its miner, the
  index and the hash before.
\<close>

definition on_template :: "crypto \<Rightarrow> 'f pool_state \<Rightarrow> share_task \<Rightarrow> bool" where
  "on_template C P t \<longleftrightarrow> (holds_template t \<longrightarrow> owns_key C (tk_request t)
     \<and> sq_block_index (tk_request t) = bt_index (ps_template P)
     \<and> sq_prev_hash (tk_request t) = hex_encode C (bytes32 (bt_prev_hash (ps_template P))))"

definition threads_inv :: "crypto \<Rightarrow> nat \<Rightarrow> 'f pool_threads \<Rightarrow> bool" where
  "threads_inv C n s \<longleftrightarrow> pool_inv C n (ct_sys s)
     \<and> (\<forall>t \<in> set (ct_tasks s). on_template C (sy_pool (ct_sys s)) t)"

fun thread_cost :: "thread_event \<Rightarrow> nat" where
  "thread_cost (Share_Turn _) = 1"
| "thread_cost _ = 0"

lemma on_template_cong: "ps_template P' = ps_template P \<Longrightarrow> on_template C P' = on_template C P"
  by (simp add: on_template_def fun_eq_iff)

lemma not_holding: "\<not> holds_template t \<Longrightarrow> on_template C P t"
  by (simp add: on_template_def)

lemma checks_current:
  "share_checks C E q T = None \<Longrightarrow> owns_key C q \<and> sq_block_index q = bt_index T
     \<and> sq_prev_hash q = hex_encode C (bytes32 (bt_prev_hash T))"
  by (auto simp: share_checks_def owns_key_def split: option.splits if_splits)

lemma section_pool_inv:
  assumes "share_section C F (P, t) = (P', t')" "on_template C P t"
    "round_ok (Suc n) (ps_round P)" "tg_inv (ps_dedup P)" "rows_wf C (ps_db P)"
  shows "round_ok n (ps_round P') \<and> tg_inv (ps_dedup P') \<and> rows_wf C (ps_db P')
    \<and> ps_template P' = ps_template P \<and> on_template C P' t'"
proof (cases "tk_pc t")
  case At_Check
  then show ?thesis
    using assms round_ok_mono [OF assms(3), of n] checks_current [of C "tk_env t" "tk_request t" "ps_template P"]
    by (auto simp: share_section_def on_template_def holds_template_def split: option.splits)
next
  case At_Dedup
  have "tg_inv (snd (share_dup (tk_env t) (tk_request t) (ps_dedup P)))" using share_dup_inv [OF assms(4)] .
  then show ?thesis
    using At_Dedup assms round_ok_mono [OF assms(3), of n]
    by (auto simp: share_section_def dedup_section_def on_template_def holds_template_def share_dup_def
        share_key_def Let_def split: prod.splits if_splits)
next
  case At_Vardiff
  then show ?thesis
    using assms round_ok_mono [OF assms(3), of n]
    by (auto simp: share_section_def vardiff_section_def on_template_def holds_template_def Let_def
        split: prod.splits option.splits)
next
  case At_Count
  then show ?thesis
    using assms count_share_ok [OF assms(3)]
    by (auto simp: share_section_def count_section_def on_template_def holds_template_def)
next
  case At_Store
  then show ?thesis
    using assms round_ok_mono [OF assms(3), of n] owns_row_wf [of C "tk_request t"]
    by (auto simp: share_section_def store_section_def on_template_def holds_template_def Let_def
        insert_share_def or_default_def rows_wf_def split: if_splits)
next
  case At_Send
  then show ?thesis
    using assms round_ok_mono [OF assms(3), of n]
    by (auto simp: share_section_def send_section_def on_template_def holds_template_def Let_def split: if_splits)
next
  case (Answered r)
  then show ?thesis
    using assms round_ok_mono [OF assms(3), of n] by (auto simp: on_template_def)
qed

lemma watch_pool_inv:
  assumes "watch_section now (pc, wa, P) = (pc', wa', P')"
    "round_ok n (ps_round P)" "tg_inv (ps_dedup P)" "rows_wf C (ps_db P)"
  shows "round_ok n (ps_round P') \<and> tg_inv (ps_dedup P') \<and> rows_wf C (ps_db P')
    \<and> ((\<forall>st T. pc \<noteq> Set_Template st T) \<longrightarrow> ps_template P' = ps_template P)"
proof -
  have "n < 2 ^ 64" using assms(2) by (simp add: round_ok_def)
  then show ?thesis using assms round_ok_default [of n] by (cases pc) auto
qed

lemma submitter_template:
  "ps_template (snd (snd (block_submitter C E order account txs submit (i, P)))) = ps_template P"
proof (cases "ps_queue P")
  case (Cons f q)
  let ?b = "build_payout_txs C E order account (blk_index (fb_candidate f)) (ps_round_start_ms P) (P\<lparr>ps_queue := q\<rparr>)"
  obtain ts P' where b: "?b = (ts, P')" by fastforce
  have "ps_template P' = ps_template P"
    using arg_cong [OF build_payout_rest(1) [of C E order account "blk_index (fb_candidate f)" "ps_round_start_ms P"
      "P\<lparr>ps_queue := q\<rparr>", unfolded b snd_conv], of ps_template] by simp
  then show ?thesis by (simp add: block_submitter_def Cons Let_def b)
qed (simp add: block_submitter_def)

lemma other_template:
  "ps_template (sy_pool (pool_sys_step C F s (Work_Requested now address worker))) = ps_template (sy_pool s)"
  "ps_template (sy_pool (pool_sys_step C F s (Submitter_Turn E order account txs submit))) = ps_template (sy_pool s)"
  using submitter_template [of C E order account txs submit "sy_last_submitted s" "sy_pool s"]
  by (simp_all add: get_work_def Let_def split_def)

lemma threads_step_inv:
  assumes "threads_inv C (thread_cost e + n) s"
  shows "threads_inv C n (threads_step C F s e)"
proof (cases e)
  case (Arrive E q)
  then show ?thesis using assms
    by (auto simp: threads_inv_def on_template_def holds_template_def new_task_def)
next
  case (Share_Turn i)
  show ?thesis
  proof (cases "i < length (ct_tasks s)")
    case True
    obtain P' t' where sec: "share_section C F (sy_pool (ct_sys s), ct_tasks s ! i) = (P', t')" by fastforce
    have tasks: "\<forall>t \<in> set (ct_tasks s). on_template C (sy_pool (ct_sys s)) t"
      and inv: "round_ok (Suc n) (ps_round (sy_pool (ct_sys s)))" "tg_inv (ps_dedup (sy_pool (ct_sys s)))"
        "rows_wf C (ps_db (sy_pool (ct_sys s)))"
      using assms by (simp_all add: Share_Turn threads_inv_def pool_inv_def)
    have "on_template C (sy_pool (ct_sys s)) (ct_tasks s ! i)" using tasks True by simp
    note new = section_pool_inv [OF sec this inv]
    have "on_template C P' t" if "t \<in> set ((ct_tasks s)[i := t'])" for t
    proof -
      have "t = t' \<or> t \<in> set (ct_tasks s)" using that set_update_subset_insert [of "ct_tasks s" i t'] by auto
      then show ?thesis using new tasks on_template_cong [of P' "sy_pool (ct_sys s)" C] by auto
    qed
    then show ?thesis using new True by (simp add: Share_Turn sec threads_inv_def pool_inv_def)
  next
    case False
    have "threads_inv C n s" using assms round_ok_mono [of "Suc n" _ n]
      by (auto simp: Share_Turn threads_inv_def pool_inv_def)
    then show ?thesis using False by (simp add: Share_Turn)
  qed
next
  case (Poll now reply)
  then show ?thesis using assms by (simp add: threads_inv_def)
next
  case (Watch_Turn now)
  obtain pc wa P where w: "watch_section now (ct_watch s, sy_watch (ct_sys s), sy_pool (ct_sys s)) = (pc, wa, P)"
    by (metis prod_cases3)
  have inv: "round_ok n (ps_round (sy_pool (ct_sys s)))" "tg_inv (ps_dedup (sy_pool (ct_sys s)))"
      "rows_wf C (ps_db (sy_pool (ct_sys s)))"
      and tasks: "\<forall>t \<in> set (ct_tasks s). on_template C (sy_pool (ct_sys s)) t"
    using assms by (simp_all add: Watch_Turn threads_inv_def pool_inv_def)
  note new = watch_pool_inv [OF w inv]
  have "on_template C P t" if "\<not> watcher_waits s" "t \<in> set (ct_tasks s)" for t
  proof (cases "\<exists>st T. ct_watch s = Set_Template st T")
    case True
    then have "\<not> holds_template t" using that by (auto simp: watcher_waits_def list_ex_iff)
    then show ?thesis by (rule not_holding)
  next
    case False
    then have "ps_template P = ps_template (sy_pool (ct_sys s))" using new by blast
    from on_template_cong [OF this] show ?thesis using that tasks by simp
  qed
  then show ?thesis
    using new inv tasks by (simp add: Watch_Turn w threads_inv_def pool_inv_def)
next
  case (Work_Turn now address worker)
  then show ?thesis
    using assms pool_sys_step_inv [of C "Work_Requested now address worker" n "ct_sys s" F]
      on_template_cong [OF other_template(1) [of C F "ct_sys s" now address worker], of C]
    by (simp add: threads_inv_def del: pool_sys_step.simps)
next
  case (Block_Turn E order account txs submit)
  then show ?thesis
    using assms pool_sys_step_inv [of C "Submitter_Turn E order account txs submit" n "ct_sys s" F]
      on_template_cong [OF other_template(2) [of C F "ct_sys s" E order account txs submit], of C]
    by (simp add: threads_inv_def del: pool_sys_step.simps)
qed

interpretation threads: budget_machine "threads_step C F" thread_cost "threads_inv C" for C F
  by unfold_locales (rule threads_step_inv)

section \<open>What every schedule keeps\<close>

definition threads_start :: "'f pool_system \<Rightarrow> 'f pool_threads" where
  "threads_start s = \<lparr>ct_sys = s, ct_tasks = [], ct_watch = Idle\<rparr>"

lemma thread_cost_length: "sum_list (map thread_cost es) \<le> length es"
proof (induction es)
  case (Cons e es)
  then show ?case by (cases e) auto
qed simp

text \<open>
  C32: whatever the order in which the sections of the handlers and of the watcher run, the total of the
  round is the sum of the counts of its miners, stored rows are paid to the miner they name, and a
  share that is about to be counted names the block the template asks for at that moment: the lock on the
  template keeps the watcher from replacing it under a handler.
\<close>
theorem schedules_keep_accounts:
  assumes "rows_wf C D" "length es < 2 ^ 64"
    and "s = foldl (threads_step C F) (threads_start (pool_sys_start C F E w status D)) es"
    and "P = sy_pool (ct_sys s)"
  shows "(\<Sum>a\<in>dom (rd_shares (ps_round P)). unat (the (rd_shares (ps_round P) a)))
      = unat (rd_total_shares (ps_round P))
    \<and> rows_wf C (ps_db P)
    \<and> (\<forall>t \<in> set (ct_tasks s). tk_pc t = At_Count \<longrightarrow>
        owns_key C (tk_request t) \<and> sq_block_index (tk_request t) = bt_index (ps_template P))"
proof -
  have "threads_inv C (sum_list (map thread_cost es) + 0) (threads_start (pool_sys_start C F E w status D))"
    using pool_start_inv [OF assms(1)] thread_cost_length [of es] assms(2)
    by (simp add: threads_inv_def threads_start_def)
  from threads.run_budget [OF this, of F] have "threads_inv C 0 s" by (simp add: assms(3))
  then show ?thesis
    by (auto simp: threads_inv_def pool_inv_def round_ok_def assms(4) on_template_def holds_template_def)
qed

section \<open>The start of the pool\<close>

text \<open>\<open>main\<close> asks the node until it answers, and starts its tasks with the answer.\<close>

fun wait_for_node :: "node_status_reply option list \<Rightarrow> node_status_reply option" where
  "wait_for_node [] = None"
| "wait_for_node (None # rs) = wait_for_node rs"
| "wait_for_node (Some status # rs) = Some status"

definition pool_boot ::
    "crypto \<Rightarrow> 'f floats \<Rightarrow> pool_env \<Rightarrow> wallet \<Rightarrow> node_status_reply option list \<Rightarrow> 'f pool_db \<Rightarrow> 'f pool_threads option" where
  "pool_boot C F E w replies D =
     map_option (\<lambda>status. threads_start (pool_sys_start C F E w status D)) (wait_for_node replies)"

lemma share_events_watch:
  "sy_watch (foldl (pool_sys_step C F) s (map (\<lambda>(E, q). Share_Posted E q) qs)) = sy_watch s"
  by (induction qs arbitrary: s) auto

text \<open>
  the first poll resets the round even when nothing has changed: the watcher starts with an empty
  hash and not with the answer the pool was started with, so the shares accepted before its first turn are
  forgotten while the same block is still being worked on.
\<close>
theorem first_poll_drops_shares:
  assumes "pool_boot C F E w replies D = Some s" "wait_for_node replies = Some status" "nr_best_hash status \<noteq> []"
    and "P = sy_pool (foldl (pool_sys_step C F) (ct_sys s)
      (map (\<lambda>(E, q). Share_Posted E q) qs @ [Node_Polled now (Some status)]))"
  shows "ps_round P = round_default \<and> ps_template P = template_of_status C now status"
proof -
  have s: "ct_sys s = pool_sys_start C F E w status D" using assms(1,2) by (auto simp: pool_boot_def threads_start_def)
  let ?t = "foldl (pool_sys_step C F) (pool_sys_start C F E w status D) (map (\<lambda>(E, q). Share_Posted E q) qs)"
  have "wa_last_hash (sy_watch ?t) = []" unfolding share_events_watch by (simp add: pool_sys_start_def)
  then show ?thesis using assms(3,4) by (simp add: s pool_watcher_def Let_def)
qed

section \<open>Shares between the sections of the watcher\<close>

lemma share_turns:
  "ct_tasks s = [t] \<Longrightarrow> (share_section C F ^^ n) (sy_pool (ct_sys s), t) = (P, u) \<Longrightarrow>
    foldl (threads_step C F) s (replicate n (Share_Turn 0))
      = s\<lparr>ct_sys := (ct_sys s)\<lparr>sy_pool := P\<rparr>, ct_tasks := [u]\<rparr>"
proof (induction n arbitrary: s t)
  case (Suc n)
  obtain P' t' where one: "share_section C F (sy_pool (ct_sys s), t) = (P', t')" by fastforce
  let ?s = "s\<lparr>ct_sys := (ct_sys s)\<lparr>sy_pool := P'\<rparr>, ct_tasks := [t']\<rparr>"
  have "(share_section C F ^^ n) (sy_pool (ct_sys ?s), t') = (P, u)"
    using Suc.prems(2) unfolding section_first one by simp
  from Suc.IH [OF _ this] show ?case using Suc.prems(1) by (simp add: one)
qed auto

lemma watch_turns:
  "ct_tasks s = [] \<Longrightarrow> (watch_section now ^^ n) (ct_watch s, sy_watch (ct_sys s), sy_pool (ct_sys s)) = (pc, wa, P) \<Longrightarrow>
    foldl (threads_step C F) s (replicate n (Watch_Turn now))
      = s\<lparr>ct_watch := pc, ct_sys := (ct_sys s)\<lparr>sy_watch := wa, sy_pool := P\<rparr>\<rparr>"
proof (induction n arbitrary: s)
  case (Suc n)
  obtain pc' wa' P' where one: "watch_section now (ct_watch s, sy_watch (ct_sys s), sy_pool (ct_sys s)) = (pc', wa', P')"
    by (metis prod_cases3)
  let ?s = "s\<lparr>ct_watch := pc', ct_sys := (ct_sys s)\<lparr>sy_watch := wa', sy_pool := P'\<rparr>\<rparr>"
  have "(watch_section now ^^ n) (ct_watch ?s, sy_watch (ct_sys ?s), sy_pool (ct_sys ?s)) = (pc, wa, P)"
    using Suc.prems(2) by (simp add: funpow_swap1 one)
  from Suc.IH [OF _ this] show ?case using Suc.prems(1) by (simp add: one watcher_waits_def)
qed auto

text \<open>
  the atomic handlers are what the sections do when nothing comes between them: a request followed by
  the six sections of its handler is one event of the pool as a system, with the same answer, and a
  poll followed by the four sections of the watcher is one event too.
\<close>
theorem sections_alone_atomic:
  "foldl (threads_step C F) (threads_start s) (Arrive E q # replicate 6 (Share_Turn 0))
     = (threads_start (pool_sys_step C F s (Share_Posted E q)))
         \<lparr>ct_tasks := [(new_task E q)\<lparr>tk_pc := Answered (fst (submit_share C F E q (sy_pool s)))\<rparr>]\<rparr>
   \<and> foldl (threads_step C F) (threads_start s) (Poll now reply # replicate 4 (Watch_Turn now))
     = threads_start (pool_sys_step C F s (Node_Polled now reply))"
proof
  let ?s = "(threads_start s)\<lparr>ct_tasks := [new_task E q]\<rparr>"
  show "foldl (threads_step C F) (threads_start s) (Arrive E q # replicate 6 (Share_Turn 0))
     = (threads_start (pool_sys_step C F s (Share_Posted E q)))
         \<lparr>ct_tasks := [(new_task E q)\<lparr>tk_pc := Answered (fst (submit_share C F E q (sy_pool s)))\<rparr>]\<rparr>"
    using share_turns [of ?s "new_task E q" 6 C F, OF _ share_sections_atomic] by (simp add: threads_start_def)
  obtain wa P where w: "pool_watcher C now reply (sy_watch s, sy_pool s) = (wa, P)" by fastforce
  let ?s = "(threads_start s)\<lparr>ct_watch := watch_poll C now reply (sy_watch s)\<rparr>"
  show "foldl (threads_step C F) (threads_start s) (Poll now reply # replicate 4 (Watch_Turn now))
     = threads_start (pool_sys_step C F s (Node_Polled now reply))"
    using watch_turns [of ?s 4 now Idle wa P C F] watch_sections_atomic [of now C reply "sy_watch s" "sy_pool s"]
    by (simp add: threads_start_def w)
qed

text \<open>The share handler runs as a whole, six turns, after the first or the second section of the watcher.\<close>

definition lost_share :: "u64 \<Rightarrow> node_status_reply \<Rightarrow> pool_env \<Rightarrow> share_request \<Rightarrow> u64 \<Rightarrow> thread_event list" where
  "lost_share now status E q later = [Poll now (Some status), Watch_Turn now, Arrive E q]
     @ replicate 6 (Share_Turn 0) @ [Watch_Turn later, Watch_Turn later, Watch_Turn later]"

definition unpaid_share :: "u64 \<Rightarrow> node_status_reply \<Rightarrow> pool_env \<Rightarrow> share_request \<Rightarrow> u64 \<Rightarrow> thread_event list" where
  "unpaid_share now status E q later = [Poll now (Some status), Watch_Turn now, Watch_Turn now, Arrive E q]
     @ replicate 6 (Share_Turn 0) @ [Watch_Turn later, Watch_Turn later]"

definition node_changed :: "node_status_reply \<Rightarrow> pool_watch \<Rightarrow> bool" where
  "node_changed status wa \<longleftrightarrow> nr_chain_height status > wa_last_height wa \<or> nr_best_hash status \<noteq> wa_last_hash wa"

lemma six_sections:
  "share_taken (fst (submit_share C F E q P)) \<Longrightarrow> (share_section C F ^^ 6) (P, new_task E q)
     = (share_effect C F E P q, (new_task E q)\<lparr>tk_pc := Answered (fst (submit_share C F E q P))\<rparr>)"
  by (simp add: share_sections_atomic share_taken_effect)

text \<open>
  an accepted share can be lost: when a handler runs after the watcher has set the new template and
  before it resets the round, the miner is told that the share was accepted and its row is stored, but the round of
  the new block starts without it.
\<close>
theorem accepted_share_lost:
  assumes "node_changed status (sy_watch sy)"
    and taken: "share_taken (fst (submit_share C F E q ((sy_pool sy)\<lparr>ps_template := template_of_status C now status\<rparr>)))"
    and s: "s = foldl (threads_step C F) (threads_start sy) (lost_share now status E q later)"
  shows "(\<exists>r. map tk_pc (ct_tasks s) = [Answered r] \<and> share_taken r)
    \<and> ps_round (sy_pool (ct_sys s)) = round_default
    \<and> (pe_write_ok E \<longrightarrow> (\<exists>r \<in> set (pd_shares (ps_db (sy_pool (ct_sys s)))). sr_nonce r = sq_nonce q
        \<and> sr_miner_address r = sq_miner_address q \<and> sr_block_index r = sq_block_index q))"
proof -
  let ?T = "template_of_status C now status" and ?P = "(sy_pool sy)\<lparr>ps_template := template_of_status C now status\<rparr>"
  let ?t = "(new_task E q)\<lparr>tk_pc := Answered (fst (submit_share C F E q ?P))\<rparr>"
  let ?s1 = "\<lparr>ct_sys = sy\<lparr>sy_pool := ?P\<rparr>, ct_tasks = [new_task E q], ct_watch = Reset_Round status ?T\<rparr>"
  have start: "foldl (threads_step C F) (threads_start sy) [Poll now (Some status), Watch_Turn now, Arrive E q] = ?s1"
    using assms(1) by (simp add: threads_start_def watch_poll_def node_changed_def watcher_waits_def)
  have "foldl (threads_step C F) ?s1 (replicate 6 (Share_Turn 0))
      = ?s1\<lparr>ct_sys := (sy\<lparr>sy_pool := ?P\<rparr>)\<lparr>sy_pool := share_effect C F E ?P q\<rparr>, ct_tasks := [?t]\<rparr>"
    using share_turns [of ?s1 "new_task E q" 6 C F] six_sections [OF taken] by simp
  then have "s = foldl (threads_step C F) (?s1\<lparr>ct_sys := sy\<lparr>sy_pool := share_effect C F E ?P q\<rparr>, ct_tasks := [?t]\<rparr>)
      [Watch_Turn later, Watch_Turn later, Watch_Turn later]"
    unfolding s lost_share_def foldl_append start by simp
  then show ?thesis
    using taken by (simp add: watcher_waits_def share_effect_def share_row_def)
qed


section \<open>A counted share without a row\<close>

lemma newest_row_Nil: "newest_row tie [] = None"
  by simp

text \<open>
  C35: a share can be counted and still not be paid: when a handler runs after the watcher has reset the
  round and before it sets the start of the round, the miner's share opens the new round, but its row is older
  than the start the payouts look for, so a block found next pays the miner nothing, whatever the
  database and the node answer.
\<close>
theorem counted_share_unpaid:
  assumes "node_changed status (sy_watch sy)"
    and taken: "share_taken (fst (submit_share C F E q ((sy_pool sy)
      \<lparr>ps_template := template_of_status C now status, ps_round := round_default\<rparr>)))"
    and s: "s = foldl (threads_step C F) (threads_start sy) (unpaid_share now status E q later)"
    and P: "P = sy_pool (ct_sys s)"
    and "sint (pe_now E) < sint later"
    and "\<And>r. r \<in> set (pd_shares (ps_db (sy_pool sy))) \<Longrightarrow> sint (sr_timestamp_ms r) < sint later"
  shows "rd_shares (ps_round P) = [sq_miner_address q \<mapsto> 1]
    \<and> fst (build_payout_txs C E' [sq_miner_address q] account i (ps_round_start_ms P) P) = []"
proof -
  let ?T = "template_of_status C now status"
  let ?P = "(sy_pool sy)\<lparr>ps_template := ?T, ps_round := round_default\<rparr>"
  let ?t = "(new_task E q)\<lparr>tk_pc := Answered (fst (submit_share C F E q ?P))\<rparr>"
  let ?s1 = "\<lparr>ct_sys = sy\<lparr>sy_pool := ?P\<rparr>, ct_tasks = [new_task E q], ct_watch = Set_Base status ?T\<rparr>"
  have start: "foldl (threads_step C F) (threads_start sy)
      [Poll now (Some status), Watch_Turn now, Watch_Turn now, Arrive E q] = ?s1"
    using assms(1) by (simp add: threads_start_def watch_poll_def node_changed_def watcher_waits_def)
  have "foldl (threads_step C F) ?s1 (replicate 6 (Share_Turn 0))
      = ?s1\<lparr>ct_sys := (sy\<lparr>sy_pool := ?P\<rparr>)\<lparr>sy_pool := share_effect C F E ?P q\<rparr>, ct_tasks := [?t]\<rparr>"
    using share_turns [of ?s1 "new_task E q" 6 C F] six_sections [OF taken] by simp
  then have "s = foldl (threads_step C F) (?s1\<lparr>ct_sys := sy\<lparr>sy_pool := share_effect C F E ?P q\<rparr>, ct_tasks := [?t]\<rparr>)
      [Watch_Turn later, Watch_Turn later]"
    unfolding s unpaid_share_def foldl_append start by simp
  then have new: "ps_round P = count_share (sq_miner_address q) round_default" "ps_round_start_ms P = later"
      "ps_db P = ps_db (share_effect C F E ?P q)"
    by (simp_all add: P watcher_waits_def share_effect_def)
  have "rows_since later (pd_shares (ps_db P)) = []"
    using assms(5,6) by (auto simp: new(3) share_effect_def share_row_def rows_since_def filter_empty_conv not_le)
  then show ?thesis
    by (simp add: new(1,2) newest_row_Nil build_payout_txs_def miner_pubkeys_in_round_def count_share_def round_default_def
        or_default_def Let_def split_def)
qed

section \<open>The schedules on a small pool\<close>

definition toy_sys :: "int pool_system" where
  "toy_sys = pool_sys_start toy_crypto int_floats toy_pool_env \<lparr>wl_signing_key = 3\<rparr> toy_status empty_db"

definition toy_schedule :: "thread_event list" where
  "toy_schedule = [Arrive toy_pool_env (toy_request 5 ''rig''), Arrive toy_pool_env (toy_request 6 ''thief''),
     Share_Turn 0, Share_Turn 1, Poll 7 (Some toy_status), Watch_Turn 7, Share_Turn 0, Share_Turn 0, Share_Turn 1]"

lemma toy_sys_pool [simp]: "sy_pool toy_sys = toy_pool"
  by (simp add: toy_sys_def pool_sys_start_def toy_pool_def toy_pool_env_def toy_status_def empty_db_def)

lemma toy_sys_changed: "node_changed toy_status (sy_watch toy_sys)"
  by (simp add: node_changed_def toy_sys_def pool_sys_start_def toy_status_def) code_simp

theorem schedules_keep_accounts_witness:
  "let P = sy_pool (ct_sys (foldl (threads_step toy_crypto int_floats) (threads_start toy_sys) toy_schedule))
   in (\<Sum>a\<in>dom (rd_shares (ps_round P)). unat (the (rd_shares (ps_round P) a)))
      = unat (rd_total_shares (ps_round P))"
  unfolding toy_sys_def Let_def
  by (rule conjunct1 [OF schedules_keep_accounts [OF empty_rows_wf _ refl refl]]) (simp add: toy_schedule_def)

lemma toy_status_template: "template_of_status toy_crypto 1772975700000 toy_status = ps_template toy_pool"
  by (simp add: toy_pool_def toy_status_def pool_start_def)

lemma same_fields:
  "P\<lparr>ps_template := ps_template P\<rparr> = P" "P\<lparr>ps_round := ps_round P\<rparr> = P"
  for P :: "'f pool_state"
  by (cases P; simp)+

lemmas toy_same_template = same_fields [of toy_pool, unfolded toy_pool_simps(2)]

theorem accepted_share_lost_witness:
  "ps_round (sy_pool (ct_sys (foldl (threads_step toy_crypto int_floats) (threads_start toy_sys)
      (lost_share 1772975700000 toy_status toy_pool_env (toy_request 5 ''rig'') 1772975700001)))) = round_default"
proof -
  have "share_taken (fst (submit_share toy_crypto int_floats toy_pool_env (toy_request 5 ''rig'')
      ((sy_pool toy_sys)\<lparr>ps_template := template_of_status toy_crypto 1772975700000 toy_status\<rparr>)))"
    unfolding toy_sys_pool toy_status_template toy_same_template by (rule toy_share_taken)
  from accepted_share_lost [OF toy_sys_changed this refl, of 1772975700001] show ?thesis by blast
qed

theorem counted_share_unpaid_witness:
  "let P = sy_pool (ct_sys (foldl (threads_step toy_crypto int_floats) (threads_start toy_sys)
      (unpaid_share 1772975700000 toy_status toy_pool_env (toy_request 5 ''rig'') 1772975700001)))
   in rd_shares (ps_round P) = [address_from_pubkey toy_crypto 5 \<mapsto> 1]
    \<and> fst (build_payout_txs toy_crypto toy_pool_env [address_from_pubkey toy_crypto 5] None 1
        (ps_round_start_ms P) P) = []"
proof -
  have "share_taken (fst (submit_share toy_crypto int_floats toy_pool_env (toy_request 5 ''rig'')
      ((sy_pool toy_sys)\<lparr>ps_template := template_of_status toy_crypto 1772975700000 toy_status, ps_round := round_default\<rparr>)))"
    unfolding toy_sys_pool toy_status_template toy_same_template by (rule toy_share_taken)
  from counted_share_unpaid [OF toy_sys_changed this refl refl, of 1772975700001 toy_pool_env None 1]
  show ?thesis by (simp add: toy_pool_env_def toy_request_def Let_def)
qed

theorem first_poll_drops_shares_witness:
  "\<exists>s. pool_boot toy_crypto int_floats toy_pool_env \<lparr>wl_signing_key = 3\<rparr> [None, Some toy_status] empty_db = Some s
    \<and> ps_round (sy_pool (foldl (pool_sys_step toy_crypto int_floats) (ct_sys s)
        [Share_Posted toy_pool_env (toy_request 5 ''rig'')])) \<noteq> round_default
    \<and> ps_round (sy_pool (foldl (pool_sys_step toy_crypto int_floats) (ct_sys s)
        [Share_Posted toy_pool_env (toy_request 5 ''rig''), Node_Polled 1772975700001 (Some toy_status)])) = round_default"
proof -
  have boot: "pool_boot toy_crypto int_floats toy_pool_env \<lparr>wl_signing_key = 3\<rparr> [None, Some toy_status] empty_db
      = Some (threads_start toy_sys)"
    by (simp add: pool_boot_def toy_sys_def)
  have h: "nr_best_hash toy_status \<noteq> []" by (simp add: toy_status_def) code_simp
  have f: "wait_for_node [None, Some toy_status] = Some toy_status" by simp
  have counted: "ps_round (sy_pool (pool_sys_step toy_crypto int_floats toy_sys (Share_Posted toy_pool_env (toy_request 5 ''rig''))))
      \<noteq> round_default"
    by (simp add: share_taken_effect [OF toy_share_taken], simp add: share_effect_def count_share_def round_default_def)
  note first_poll_drops_shares [OF boot f h refl, of "[(toy_pool_env, toy_request 5 ''rig'')]" 1772975700001]
  then have "ps_round (sy_pool (foldl (pool_sys_step toy_crypto int_floats) toy_sys
        [Share_Posted toy_pool_env (toy_request 5 ''rig''), Node_Polled 1772975700001 (Some toy_status)])) = round_default"
    by (simp add: threads_start_def del: pool_sys_step.simps)
  then show ?thesis
    using counted unfolding boot by (simp add: threads_start_def del: pool_sys_step.simps)
qed

end
