(* ===== verification/Pool_Node.thy ===== *)
theory Pool_Node
  imports Pool_System Node_Effects
begin

text \<open>
  The pool and the node together: the submitter's question to the node is \<open>submit_mined_block\<close> on
  the node's own state. A block found at the node's tip is accepted with all its payouts when no
  pending transactions are put in; with a transaction the node has admitted by gossip it is refused.
\<close>

section \<open>The node's answer\<close>

text \<open>
  The route that takes a block: the layer in front of it answers a request whose body is longer than
  \<open>MAX_BODY_BYTES\<close> itself. \<open>body_len\<close> is the length of what \<open>serde_json\<close> writes for a block; the block
  that is read back is the one that was written.
\<close>

definition MAX_BODY_BYTES :: nat where "MAX_BODY_BYTES = 512 * 1024"

definition submit_block_request ::
    "(block \<Rightarrow> nat) \<Rightarrow> crypto \<Rightarrow> ('d, 'v) storage \<Rightarrow> env \<Rightarrow> block \<Rightarrow> 'd node
       \<Rightarrow> bool partial \<times> 'd node \<times> effect list" where
  "submit_block_request body_len C S NE b st =
     (if body_len b > MAX_BODY_BYTES then (Inr False, st, []) else submit_mined_block C S NE b st)"

definition node_accepts ::
    "(block \<Rightarrow> nat) \<Rightarrow> crypto \<Rightarrow> ('d, 'v) storage \<Rightarrow> env \<Rightarrow> 'd node \<Rightarrow> block \<Rightarrow> bool" where
  "node_accepts body_len C S NE st b = (case submit_block_request body_len C S NE b st of
     (Inr accepted, _, _) \<Rightarrow> accepted | (Inl _, _, _) \<Rightarrow> False)"

lemma node_accepts_iff:
  "node_accepts body_len C S NE st b \<longleftrightarrow> body_len b \<le> MAX_BODY_BYTES \<and> blk_index b = nd_chain_height st + 1
     \<and> is_ok (fst (apply_block C S (ev_unix_ms NE) (nd_chain st) b (nd_ledger st)))"
  by (auto simp: node_accepts_def submit_block_request_def submit_mined_block_def Let_def
      split: prod.splits sum.splits fault.splits)

text \<open>The template the pool has when it polled the node after its last block.\<close>

definition follows_tip :: "'f pool_state \<Rightarrow> block list \<Rightarrow> bool" where
  "follows_tip P bs \<longleftrightarrow> bt_index (ps_template P) = blk_index (last bs) + 1
     \<and> bt_prev_hash (ps_template P) = blk_hash (last bs) \<and> bt_difficulty (ps_template P) = diff_of bs"

lemma submitted_block_applies:
  assumes "hex_ok C" "ed_ok C" "storage_ok S" "chain_rep S ch bs" "length bs + 1 < 2 ^ 64"
    and "share_current C E P q" "meets_difficulty (share_hash C P q) (bt_difficulty (ps_template P))"
    and "follows_tip P bs" "\<forall>(h, _) \<in> set CHECKPOINTS. h \<noteq> sq_block_index q"
    and "unat clock \<le> unat (pe_now E) + 30000" "unat (pe_now E) \<le> unat clock + 30000"
    and "list_all (\<lambda>t. is_ok (tx_verify_signature C t)) ts"
    and "apply_txs (apply_tx C) ts (apply_coinbase C L (public_key C (ps_wallet P)) TESTNET_REWARD) = (Inr (), M)"
    and "b = final_block \<lparr>fb_candidate = share_candidate C P q, fb_hash = share_hash C P q\<rparr> ts []"
  shows "\<exists>ch'. apply_block C S clock ch b L = (Inr (), ch', M) \<and> chain_rep S ch' (bs @ [b])"
proof -
  let ?c = "share_candidate C P q"
  have b: "b = ?c\<lparr>blk_hash := share_hash C P q, blk_transactions := ts\<rparr>"
    using assms(14) by (simp add: final_block_def)
  have "links_to C b (last bs) (diff_of bs)"
    using assms(1,6,7,8) unfolding b
    by (simp add: links_to_def share_hash_def share_current_def follows_tip_def)
  moreover have "find (\<lambda>(h, _). h = blk_index b) CHECKPOINTS = None"
    using assms(9) by (auto simp: b find_None_iff)
  then have "\<not> checkpoint_mismatch C b" by (simp add: checkpoint_mismatch_def)
  moreover have "timely clock b"
    using assms(6,10,11) by (simp add: b timely_def share_current_def)
  ultimately have "chain_append C (apply_tx C) (timely clock) (bs, L) b = Some (bs @ [b], M)"
    using assms(12,13) by (simp add: chain_append_def admissible_def b)
  moreover obtain r ch' L' where "apply_block C S clock ch b L = (r, ch', L')" by (metis prod_cases3)
  ultimately show ?thesis using apply_block_refines [OF assms(3-5)] by fastforce
qed

section \<open>Properties\<close>

text \<open>The pool has the node's tip as its template, and nothing is queued.\<close>

definition pool_synced ::
    "('d, 'v) storage \<Rightarrow> 'd node \<Rightarrow> block list \<Rightarrow> 'f pool_state \<Rightarrow> bool" where
  "pool_synced S st bs P \<longleftrightarrow> chain_rep S (nd_chain st) bs \<and> length bs + 1 < 2 ^ 64
     \<and> nd_chain_height st = bc_height (nd_chain st) \<and> follows_tip P bs \<and> ps_queue P = []"

lemma synced_index:
  assumes "pool_synced S st bs P"
  shows "bt_index (ps_template P) = nd_chain_height st + 1"
proof -
  have rep: "chain_rep S (nd_chain st) bs" using assms by (simp add: pool_synced_def)
  have "unat (blk_index (last bs)) = length bs - 1"
    using chain_repD(1,5) [OF rep] by (simp add: last_conv_nth)
  then have "unat (blk_index (last bs)) = unat (bc_height (nd_chain st))"
    using chain_repD(3) [OF rep] by simp
  then have "blk_index (last bs) = bc_height (nd_chain st)" by (rule unat_eqI)
  then show ?thesis using assms by (simp add: pool_synced_def follows_tip_def)
qed

lemma build_payout_queue:
  "fst (build_payout_txs C E order account i start (P\<lparr>ps_queue := q\<rparr>))
     = fst (build_payout_txs C E order account i start P)"
  by (simp add: build_payout_txs_def Let_def split_def split: option.split)

lemma build_payout_length:
  "length (fst (build_payout_txs C E order account i start P)) \<le> length order"
  by (simp add: build_payout_txs_def Let_def split_def payout_loop_run payee_count split: option.split)

lemma build_payout_keeps:
  assumes "build_payout_txs C E order account i start P = (ts, P')"
  shows "ps_blocks_found P' = ps_blocks_found P" "ps_queue P' = ps_queue P"
  using assms by (auto simp: build_payout_txs_def Let_def split_def split: option.splits if_splits)

text \<open>A submitter whose blocks are refused counts none of them.\<close>

lemma submitter_refused:
  assumes "block_submitter C E order account pending submit (i, P) = (r, j, P')"
    and "\<And>f ts. length ts \<le> length order \<Longrightarrow> \<not> submit (final_block f ts pending)"
  shows "j = i \<and> ps_blocks_found P' = ps_blocks_found P \<and> (\<forall>b ok. r = Some (b, ok) \<longrightarrow> \<not> ok)"
proof (cases r)
  case None
  then show ?thesis
    using assms(1) by (auto simp: block_submitter_def Let_def split_def split: list.splits if_splits)
next
  case (Some x)
  obtain f q where q: "ps_queue P = f # q" and new: "\<not> blk_index (fb_candidate f) \<le> i"
    using assms(1) Some by (auto simp: block_submitter_def Let_def split: list.splits if_splits)
  let ?r = "build_payout_txs C E order account (blk_index (fb_candidate f)) (ps_round_start_ms P)
    (P\<lparr>ps_queue := q\<rparr>)"
  have "\<not> submit (final_block f (fst ?r) pending)" by (rule assms(2)) (rule build_payout_length)
  moreover have "ps_blocks_found (snd ?r) = ps_blocks_found P"
    by (simp add: build_payout_txs_def Let_def split_def split: option.split)
  ultimately show ?thesis
    using assms(1) by (auto simp: block_submitter_def Let_def q new split_def)
qed

text \<open>
  C7: from share to chain, and where it stops: a share that meets the chain difficulty is accepted
  by a pool whose template is the node's tip, and the node reports the pool's sequence number. The
  next turn of the submitter, with no pending transactions, sends a block with all the payouts of
  the round, and the node accepts it exactly when its body has at most 512 KB: then it is the new
  tip of the node's chain, the pool counts it and has submitted its height. When the round has so
  many miners that the body is longer, the block found is lost: the node stays as it is, the pool
  counts no block, and its queue is empty. The clocks may differ by 30 seconds, the payouts are
  within the arithmetic of the ledger (158500 miners, more than fit in a body), and the height is
  not that of a checkpoint.
\<close>
theorem pool_block_accepted:
  assumes "hex_ok C" "ed_ok C" "storage_ok S" "pool_synced S st bs P"
    and "share_taken (fst (submit_share C F E q P))"
      "meets_difficulty (share_hash C P q) (bt_difficulty (ps_template P))"
      "\<forall>(h, _) \<in> set CHECKPOINTS. h \<noteq> sq_block_index q" "i < sq_block_index q"
    and "unat (ev_unix_ms NE) \<le> unat (pe_now E) + 30000" "unat (pe_now E) \<le> unat (ev_unix_ms NE) + 30000"
    and "P1 = snd (submit_share C F E q P)" "round_fits (ps_round P1)" "distinct order"
      "set order = dom (rd_shares (ps_round P1))" "length order \<le> 158500"
    and "finite (dom (nd_ledger st))" "supply_of (nd_ledger st) + unat TESTNET_REWARD < 2 ^ 64"
      "na_sequence acc = ledger_sequence (nd_ledger st) (public_key C (ps_wallet P))"
  shows "\<exists>b P2. block_submitter C E2 order (Some acc) [] (node_accepts body_len C S NE st) (i, P1)
        = (Some (b, body_len b \<le> MAX_BODY_BYTES), if body_len b \<le> MAX_BODY_BYTES then sq_block_index q else i, P2)
    \<and> blk_transactions b = fst (build_payout_txs C E2 order (Some acc) (sq_block_index q) (ps_round_start_ms P) P1)
    \<and> (if body_len b \<le> MAX_BODY_BYTES
       then ps_blocks_found P2 = ps_blocks_found P + 1
         \<and> chain_rep S (nd_chain (fst (snd (submit_block_request body_len C S NE b st)))) (bs @ [b])
       else ps_blocks_found P2 = ps_blocks_found P \<and> ps_queue P2 = []
         \<and> fst (snd (submit_block_request body_len C S NE b st)) = st)"
proof -
  let ?f = "\<lparr>fb_candidate = share_candidate C P q, fb_hash = share_hash C P q\<rparr>"
  let ?idx = "sq_block_index q"
  have P1: "P1 = share_effect C F E P q" using share_taken_effect [OF assms(5)] assms(11) by simp
  have sync: "chain_rep S (nd_chain st) bs" "length bs + 1 < 2 ^ 64" "follows_tip P bs" "ps_queue P = []"
    using assms(4) by (simp_all add: pool_synced_def)
  have cur: "share_current C E P q" using assms(5) by (simp add: share_taken_iff share_valid_def)
  have queue: "ps_queue P1 = [?f]" using assms(6) sync(4) by (simp add: P1 share_effect_def)
  let ?Q = "P1\<lparr>ps_queue := []\<rparr>"
  obtain ts P' where build: "build_payout_txs C E2 order (Some acc) ?idx (ps_round_start_ms P1) ?Q = (ts, P')"
    by fastforce
  have same: "fst (build_payout_txs C E2 order (Some acc) ?idx (ps_round_start_ms P) P1) = ts"
    using build build_payout_queue [of C E2 order "Some acc" ?idx "ps_round_start_ms P1" "[]" P1]
    by (simp add: P1)
  obtain ps where ps: "ts = payout_run C (pe_now E2) (ps_wallet P)
        (ledger_sequence (nd_ledger st) (public_key C (ps_wallet P)) + 1) ps"
      "(\<Sum>p\<leftarrow>ps. unat (fst p)) \<le> 15691500" "length ps \<le> length order"
    using build_payout_run [of ?Q order C E2 "Some acc" ?idx "ps_round_start_ms P1"] assms(12-14,18) build
    by (auto simp: or_default_def P1)
  obtain M where M: "apply_txs (apply_tx C) ts
      (apply_coinbase C (nd_ledger st) (public_key C (ps_wallet P)) TESTNET_REWARD) = (Inr (), M)"
    using payouts_apply [OF ps(2) le_trans [OF ps(3) assms(15)] assms(16,17)] ps(1) by blast
  have signed: "list_all (\<lambda>t. is_ok (tx_verify_signature C t)) ts"
    using payout_run_signed [OF assms(2)] by (simp add: ps(1) list_all_iff)
  let ?b = "final_block ?f ts []"
  obtain ch' where app: "apply_block C S (ev_unix_ms NE) (nd_chain st) ?b (nd_ledger st) = (Inr (), ch', M)"
      "chain_rep S ch' (bs @ [?b])"
    using submitted_block_applies [OF assms(1-3) sync(1,2) cur assms(6) sync(3) assms(7,9,10) signed M refl]
    by blast
  have idx: "blk_index ?b = nd_chain_height st + 1"
    using synced_index [OF assms(4)] cur by (simp add: final_block_def share_current_def)
  then have ok: "node_accepts body_len C S NE st ?b \<longleftrightarrow> body_len ?b \<le> MAX_BODY_BYTES"
    using app(1) by (simp add: node_accepts_iff)
  have P': "ps_blocks_found P' = ps_blocks_found P" "ps_queue P' = []"
    using build_payout_keeps [OF build] by (simp_all add: P1 share_effect_def)
  have "\<not> ?idx \<le> i" using assms(8) by simp
  then have run: "block_submitter C E2 order (Some acc) [] (node_accepts body_len C S NE st) (i, P1)
      = (Some (?b, body_len ?b \<le> MAX_BODY_BYTES), if body_len ?b \<le> MAX_BODY_BYTES then ?idx else i,
         if body_len ?b \<le> MAX_BODY_BYTES
         then P'\<lparr>ps_blocks_found := ps_blocks_found P' + 1, ps_queue := drain_queue ?idx (ps_queue P')\<rparr> else P')"
    using ok build by (simp add: block_submitter_def queue Let_def)
  have tip: "chain_rep S (nd_chain (fst (snd (submit_mined_block C S NE ?b st)))) (bs @ [?b])"
    using app idx by (simp add: submit_mined_block_def Let_def purge_def store_caches_def)
  show ?thesis
  proof (rule exI [of _ ?b], rule exI, intro conjI, rule run)
    show "blk_transactions ?b = fst (build_payout_txs C E2 order (Some acc) ?idx (ps_round_start_ms P) P1)"
      using same by (simp add: final_block_def)
  qed (use P' tip in \<open>simp add: submit_block_request_def\<close>)
qed

theorem pool_block_accepted_witness:
  "(\<exists>b P2. block_submitter toy_crypto toy_pool_env [address_from_pubkey toy_crypto 5]
        (Some \<lparr>na_sequence = 0, na_balance = 0\<rparr>) [] (node_accepts (\<lambda>_. 900) toy_crypto toy_storage toy_env toy_node)
        (0, paid_pool) = (Some (b, True), 1, P2)
      \<and> chain_rep toy_storage
          (nd_chain (fst (snd (submit_block_request (\<lambda>_. 900) toy_crypto toy_storage toy_env b toy_node))))
          [genesis_block toy_crypto, b])
    \<and> (\<exists>b P2. block_submitter toy_crypto toy_pool_env [address_from_pubkey toy_crypto 5]
        (Some \<lparr>na_sequence = 0, na_balance = 0\<rparr>) [] (node_accepts (\<lambda>_. 600000) toy_crypto toy_storage toy_env toy_node)
        (0, paid_pool) = (Some (b, False), 0, P2) \<and> ps_queue P2 = [])"
proof -
  have sync: "pool_synced toy_storage toy_node [genesis_block toy_crypto] toy_pool"
    using toy_chain_rep chain_repD(3) [OF toy_chain_rep]
    by (simp add: pool_synced_def follows_tip_def unat_eq_0)
  have P1: "paid_pool = snd (submit_share toy_crypto int_floats toy_pool_env (toy_request 5 ''rig'') toy_pool)"
    using share_taken_effect [OF toy_share_taken] by (simp add: paid_pool_def)
  have ledger: "finite (dom toy_ledger)" "ledger_sequence toy_ledger 3 = 0"
    by (simp_all add: toy_ledger_def ledger_sequence_def account_mut_def acc_new_def)
  have key: "public_key toy_crypto \<lparr>wl_signing_key = 3\<rparr> = 3" by (simp add: public_key_def toy_crypto_def)
  let ?order = "[address_from_pubkey toy_crypto 5]" and ?acc = "\<lparr>na_sequence = 0, na_balance = 0\<rparr>"
  have *: "\<exists>b P2. block_submitter toy_crypto toy_pool_env ?order (Some ?acc) []
          (node_accepts body_len toy_crypto toy_storage toy_env toy_node) (0, paid_pool)
        = (Some (b, body_len b \<le> MAX_BODY_BYTES),
           if body_len b \<le> MAX_BODY_BYTES then sq_block_index (toy_request 5 ''rig'') else 0, P2)
    \<and> blk_transactions b = fst (build_payout_txs toy_crypto toy_pool_env ?order (Some ?acc)
        (sq_block_index (toy_request 5 ''rig'')) (ps_round_start_ms toy_pool) paid_pool)
    \<and> (if body_len b \<le> MAX_BODY_BYTES
       then ps_blocks_found P2 = ps_blocks_found toy_pool + 1
         \<and> chain_rep toy_storage
             (nd_chain (fst (snd (submit_block_request body_len toy_crypto toy_storage toy_env b toy_node))))
             ([genesis_block toy_crypto] @ [b])
       else ps_blocks_found P2 = ps_blocks_found toy_pool \<and> ps_queue P2 = []
         \<and> fst (snd (submit_block_request body_len toy_crypto toy_storage toy_env b toy_node)) = toy_node)" for body_len
    by (rule pool_block_accepted [OF toy_hex_ok toy_ed_ok toy_storage_ok sync toy_share_taken _ _ _ _ _ P1])
      (use ledger key paid_pool_fits [unfolded paid_pool_round] in \<open>simp_all add: CHECKPOINTS_def TESTNET_REWARD_def\<close>)
  have max: "MAX_BODY_BYTES = 524288" by (simp add: MAX_BODY_BYTES_def)
  show ?thesis using * [of "\<lambda>_. 900"] * [of "\<lambda>_. 600000"] by (simp add: max) blast
qed

text \<open>
  C24: gossip keeps pools from mining: once a node has admitted a transaction by gossip, every block
  a pool submits with that transaction among the pending ones is refused, whatever its share and its
  payouts, and no block is counted as found.
\<close>
theorem pool_block_with_gossip_refused:
  assumes "storage_ok S" "chain_rep S (nd_chain st) bs" "length bs + 1 < 2 ^ 64"
    and "admitted C GE t st cn" "ev_open GE" "handle_tx C GE t st cn = (fl, st', cn', out)"
    and "t \<in> set pending" "length pending + length order < 2 ^ 63"
    and "block_submitter C E order account pending (node_accepts body_len C S NE st') (i, P) = (r, j, P')"
  shows "j = i \<and> ps_blocks_found P' = ps_blocks_found P \<and> (\<forall>b ok. r = Some (b, ok) \<longrightarrow> \<not> ok)"
proof -
  have "\<not> node_accepts body_len C S NE st' (final_block f ts pending)" if "length ts \<le> length order" for f ts
    using admitted_block_refused [OF assms(1-6), of "final_block f ts pending" "ev_unix_ms NE"] that assms(7,8)
    by (auto simp: node_accepts_iff final_block_def)
  then show ?thesis by (rule submitter_refused [OF assms(9)])
qed

theorem pool_block_with_gossip_refused_witness:
  "\<nexists>b. fst (block_submitter toy_crypto toy_pool_env [address_from_pubkey toy_crypto 5] None [good_tx]
      (node_accepts (\<lambda>_. 900) toy_crypto toy_storage toy_env
         (fst (snd (handle_tx toy_crypto toy_env good_tx toy_node toy_conn)))) (0, paid_pool))
    = Some (b, True)"
proof -
  obtain r j P' where run: "block_submitter toy_crypto toy_pool_env [address_from_pubkey toy_crypto 5] None
      [good_tx] (node_accepts (\<lambda>_. 900) toy_crypto toy_storage toy_env
         (fst (snd (handle_tx toy_crypto toy_env good_tx toy_node toy_conn)))) (0, paid_pool) = (r, j, P')"
    by (metis prod_cases3)
  have "\<forall>b ok. r = Some (b, ok) \<longrightarrow> \<not> ok"
    using pool_block_with_gossip_refused [OF toy_storage_ok _ _ toy_admitted _ toy_admitted_run _ _ run,
        of "[genesis_block toy_crypto]"] toy_chain_rep
    by auto
  then show ?thesis by (auto simp: run)
qed

end
