(* ===== verification/Pool_Stats.thy ===== *)
theory Pool_Stats
  imports Pool_System "HOL-Library.Multiset"
begin

text \<open>
  The read side of the pool server (pool/src/main.rs): hashrate estimates, the two background
  tasks that compute them, and the statistics endpoints. A failed query counts as an empty answer.
  The order in which a hash map is iterated is an argument (\<open>order\<close>); it lists the keys once.
\<close>

section \<open>Hashrate\<close>

definition min_u64 :: "u64 list \<Rightarrow> u64" where
  "min_u64 ts = (case ts of [] \<Rightarrow> 0 | t # us \<Rightarrow> foldl min t us)"

definition max_u64 :: "u64 list \<Rightarrow> u64" where
  "max_u64 ts = (case ts of [] \<Rightarrow> 0 | t # us \<Rightarrow> foldl max t us)"

definition hashes_per_share :: "'f floats \<Rightarrow> u32 \<Rightarrow> 'f" where
  "hashes_per_share F share_difficulty = f_u64 F (push_bit (unat (min share_difficulty 63)) 1)"

definition rate_over :: "'f floats \<Rightarrow> 'f \<Rightarrow> u64 \<Rightarrow> 'f" where
  "rate_over F total_hashes span_ms =
     (let span_s = f_div F (f_u64 F span_ms) (f_lit F 1000 0)
      in if f_less F (f_zero F) span_s then f_div F total_hashes span_s else f_zero F)"

definition estimate_hashrate :: "'f floats \<Rightarrow> share_record list \<Rightarrow> u32 \<Rightarrow> u64 \<Rightarrow> 'f" where
  "estimate_hashrate F shares share_difficulty window_ms =
     (if shares = [] then f_zero F
      else
        let total_hashes = f_mul F (f_nat F (length shares)) (hashes_per_share F share_difficulty);
            span_ms =
              (if length shares \<ge> 2
               then let span = saturating_sub (max_u64 (map sr_timestamp_ms shares))
                                 (min_u64 (map sr_timestamp_ms shares))
                    in if span > 0 then span else window_ms
               else window_ms)
        in rate_over F total_hashes span_ms)"

definition row_key :: "share_record \<Rightarrow> string" where
  "row_key r = worker_key (sr_miner_address r) (sr_worker_name r)"

text \<open>One turn of the snapshot task, every five minutes.\<close>

definition snapshot_task ::
    "'f floats \<Rightarrow> pool_env \<Rightarrow> string list \<Rightarrow> 'f pool_state \<Rightarrow> 'f pool_state" where
  "snapshot_task F E order P =
     (let share_difficulty = bt_share_difficulty (ps_template P);
          five_min_ago = saturating_sub (pe_now E) 300000;
          shares = or_default [] (shares_since (pe_read_ok E) (ps_db P) five_min_ago);
          hashrate = foldl (\<lambda>h k. f_add F h
              (estimate_hashrate F (filter (\<lambda>r. row_key r = k) shares) share_difficulty 300000))
            (f_zero F) order;
          active_miners = of_nat (card (sr_miner_address ` set shares));
          snap = \<lparr>hs_timestamp_ms = pe_now E, hs_hashrate_hps = hashrate, hs_active_miners = active_miners\<rparr>
      in P\<lparr>ps_db := or_default (ps_db P) (insert_hashrate_snapshot (pe_write_ok E) snap (ps_db P))\<rparr>)"

text \<open>One turn of the task that refreshes the cached statistics, every five seconds.\<close>

definition stats_cache_task :: "'f floats \<Rightarrow> pool_env \<Rightarrow> 'f pool_state \<Rightarrow> 'f pool_state" where
  "stats_cache_task F E P =
     (let since_2m = saturating_sub (pe_now E) 120000;
          window_ms = 120000;
          up = pe_read_ok E; D = ps_db P;
          hps = hashes_per_share F (bt_share_difficulty (ps_template P));
          pool_hashrate = foldl (\<lambda>h (_, cnt, t_min, t_max).
              let total_hashes = f_mul F (f_nat F cnt) hps;
                  span_ms = (if cnt \<ge> 2
                    then (let span = t_max - t_min in if span > 0 then span else window_ms)
                    else window_ms);
                  span_s = f_div F (f_u64 F span_ms) (f_lit F 1000 0)
              in if f_less F (f_zero F) span_s then f_add F h (f_div F total_hashes span_s) else h)
            (f_zero F) (or_default [] (worker_share_stats_since up D since_2m))
      in P\<lparr>ps_cached_stats :=
            \<lparr>cs_active_miners = or_default 0 (distinct_miners_since up D since_2m),
             cs_active_workers = or_default 0 (distinct_workers_since up D since_2m),
             cs_pool_hashrate = pool_hashrate,
             cs_total_paid = or_default 0 (total_paid up D)\<rparr>\<rparr>)"

section \<open>The status of the pool\<close>

record 'f pool_status =
  pst_pool_address :: string
  pst_pool_pubkey :: string
  pst_current_block :: u64
  pst_difficulty :: u32
  pst_share_difficulty :: u32
  pst_active_miners :: nat
  pst_active_workers :: nat
  pst_pool_hashrate :: 'f
  pst_total_shares_this_round :: u64
  pst_blocks_found :: u64
  pst_fee_percent :: 'f
  pst_total_paid :: u64

definition get_pool_status :: "crypto \<Rightarrow> 'f floats \<Rightarrow> 'f pool_state \<Rightarrow> 'f pool_status" where
  "get_pool_status C F P =
     (let T = ps_template P; stats = ps_cached_stats P
      in \<lparr>pst_pool_address = wallet_address C (ps_wallet P),
          pst_pool_pubkey = hex_encode C (bytes32 (public_key C (ps_wallet P))),
          pst_current_block = bt_index T, pst_difficulty = bt_difficulty T,
          pst_share_difficulty = bt_share_difficulty T,
          pst_active_miners = cs_active_miners stats, pst_active_workers = cs_active_workers stats,
          pst_pool_hashrate = cs_pool_hashrate stats,
          pst_total_shares_this_round = rd_total_shares (ps_round P),
          pst_blocks_found = ps_blocks_found P,
          pst_fee_percent = f_div F (f_u64 F POOL_FEE_PERMILLE) (f_lit F 10 0),
          pst_total_paid = cs_total_paid stats\<rparr>)"

section \<open>The leaderboard\<close>

record 'f miner_entry =
  me_address :: string
  me_shares :: u64
  me_share_percent :: 'f
  me_shares_24h :: u64

text \<open>Counting by key, and the stable sort by descending count.\<close>

definition tally :: "string list \<Rightarrow> string \<rightharpoonup> u64" where
  "tally ks = foldl (\<lambda>m k. m(k \<mapsto> or_default 0 (m k) + 1)) Map.empty ks"

definition get_miners ::
    "'f floats \<Rightarrow> pool_env \<Rightarrow> string list \<Rightarrow> 'f pool_state \<Rightarrow> 'f miner_entry list \<times> u64" where
  "get_miners F E order P =
     (let since_2m = saturating_sub (pe_now E) 120000;
          since_24h = saturating_sub (pe_now E) 86400000;
          recent = or_default [] (shares_since (pe_read_ok E) (ps_db P) since_2m);
          share_map = tally (map sr_miner_address recent);
          total_shares = (\<Sum>a\<leftarrow>order. the (share_map a));
          entry = (\<lambda>a. \<lparr>me_address = a, me_shares = the (share_map a),
             me_share_percent = (if total_shares > 0
               then f_mul F (f_div F (f_u64 F (the (share_map a))) (f_u64 F total_shares)) (f_lit F 100 0)
               else f_zero F),
             me_shares_24h = or_default 0 (shares_by_miner_since (pe_read_ok E) (ps_db P) a since_24h)\<rparr>)
      in (sort_key (\<lambda>m. - int (unat (me_shares m))) (map entry order), total_shares))"

section \<open>One miner\<close>

record 'f miner_stats =
  mst_address :: string
  mst_shares_24h :: u64
  mst_total_paid :: u64
  mst_hashrate :: 'f
  mst_last_share_ms :: u64

definition of_worker :: "string \<Rightarrow> string \<Rightarrow> share_record list \<Rightarrow> share_record list" where
  "of_worker address worker rs =
     filter (\<lambda>r. sr_miner_address r = address \<and> sr_worker_name r = worker) rs"

definition get_miner_stats :: "'f floats \<Rightarrow> pool_env \<Rightarrow> string \<Rightarrow> 'f pool_state \<Rightarrow> 'f miner_stats" where
  "get_miner_stats F E address P =
     (let up = pe_read_ok E; D = ps_db P;
          since_24h = saturating_sub (pe_now E) 86400000;
          since_2m = saturating_sub (pe_now E) 120000;
          share_diff = bt_share_difficulty (ps_template P);
          recent_shares = or_default [] (shares_since up D since_2m);
          worker_list = or_default [] (workers_for_miner up D address);
          hashrate = foldl (\<lambda>h (w, _). f_add F h
             (estimate_hashrate F (of_worker address w recent_shares) share_diff 120000))
            (f_zero F) worker_list
      in \<lparr>mst_address = address,
          mst_shares_24h = or_default 0 (shares_by_miner_since up D address since_24h),
          mst_total_paid = or_default 0 (total_paid_to_miner up D address),
          mst_hashrate = hashrate,
          mst_last_share_ms = or_default 0 (last_share_ms up D address)\<rparr>)"

definition range_ms :: "string option \<Rightarrow> u64" where
  "range_ms rng = (if rng = Some ''7d'' then 7 * 86400000
     else if rng = Some ''30d'' then 30 * 86400000 else 86400000)"

definition range_bucket_ms :: "string option \<Rightarrow> u64" where
  "range_bucket_ms rng = (if rng = Some ''7d'' then 2 * 3600 * 1000
     else if rng = Some ''30d'' then 8 * 3600 * 1000 else 15 * 60 * 1000)"

text \<open>The start of the bucket a time falls in; the buckets of a list, in ascending order.\<close>

definition bucket_start :: "u64 \<Rightarrow> u64 \<Rightarrow> u64" where
  "bucket_start width t = (t div width) * width"

definition get_miner_hashrate ::
    "'f floats \<Rightarrow> pool_env \<Rightarrow> (share_record list \<Rightarrow> string list) \<Rightarrow> string \<Rightarrow> string option
       \<Rightarrow> 'f pool_state \<Rightarrow> (u64 \<times> 'f) list" where
  "get_miner_hashrate F E order address rng P =
     (let bucket_ms = range_bucket_ms rng;
          since_ms = saturating_sub (pe_now E) (range_ms rng);
          share_diff = bt_share_difficulty (ps_template P);
          all_shares = or_default [] (shares_by_miner_since_full (pe_read_ok E) (ps_db P) address since_ms);
          keys = sort_key unat (remdups (map (\<lambda>r. bucket_start bucket_ms (sr_timestamp_ms r)) all_shares));
          point = (\<lambda>k. let shares = filter (\<lambda>r. bucket_start bucket_ms (sr_timestamp_ms r) = k) all_shares
             in (k, foldl (\<lambda>h w. f_add F h (estimate_hashrate F
                    (filter (\<lambda>r. sr_worker_name r = w) shares) share_diff bucket_ms))
                  (f_zero F) (order shares)))
      in map point keys)"

record 'f worker_response =
  wr_name :: string
  wr_online :: bool
  wr_hashrate :: 'f
  wr_shares_24h :: u64
  wr_last_seen :: u64

definition get_miner_workers ::
    "'f floats \<Rightarrow> pool_env \<Rightarrow> string \<Rightarrow> 'f pool_state \<Rightarrow> 'f worker_response list" where
  "get_miner_workers F E address P =
     (let up = pe_read_ok E; D = ps_db P; ONLINE_TIMEOUT_MS = 120000;
          since_24h = saturating_sub (pe_now E) 86400000;
          since_2m = saturating_sub (pe_now E) ONLINE_TIMEOUT_MS;
          share_diff = bt_share_difficulty (ps_template P);
          worker_list = or_default [] (workers_for_miner up D address);
          recent_shares = or_default [] (shares_since up D since_2m)
      in map (\<lambda>(w, last_ms).
           \<lparr>wr_name = w,
            wr_online = (last_ms > 0 \<and> saturating_sub (pe_now E) last_ms < ONLINE_TIMEOUT_MS),
            wr_hashrate = estimate_hashrate F (of_worker address w recent_shares) share_diff ONLINE_TIMEOUT_MS,
            wr_shares_24h = or_default 0 (shares_by_worker_since up D address w since_24h),
            wr_last_seen = last_ms\<rparr>) worker_list)"

section \<open>Earnings and history\<close>

text \<open>Adding an amount to the bucket of a day.\<close>

definition add_bucket :: "(u64 \<rightharpoonup> u64) \<Rightarrow> u64 \<times> u64 \<Rightarrow> u64 \<rightharpoonup> u64" where
  "add_bucket m e = m(fst e \<mapsto> or_default 0 (m (fst e)) + snd e)"

definition get_miner_earnings ::
    "pool_env \<Rightarrow> ((u64 \<rightharpoonup> u64) \<Rightarrow> u64 list) \<Rightarrow> string \<Rightarrow> 'f pool_state \<Rightarrow> (u64 \<times> u64) list" where
  "get_miner_earnings E order address P =
     (let payouts = or_default [] (payouts_by_miner (pe_read_ok E) (ps_db P) address);
          since_30d = saturating_sub (pe_now E) (30 * 86400000);
          day_ms = 86400000;
          buckets = foldl add_bucket Map.empty
            (map (\<lambda>p. (bucket_start day_ms (pr_timestamp_ms p), pr_amount_micro p))
              (filter (\<lambda>p. pr_timestamp_ms p \<ge> since_30d) payouts))
      in sort_key (\<lambda>(date, _). unat date) (map (\<lambda>d. (d, the (buckets d))) (order buckets)))"

definition get_hashrate :: "pool_env \<Rightarrow> string option \<Rightarrow> 'f pool_state \<Rightarrow> (u64 \<times> 'f \<times> u32) list" where
  "get_hashrate E rng P =
     (let since = saturating_sub (pe_now E) (range_ms rng)
      in map (\<lambda>s. (hs_timestamp_ms s, hs_hashrate_hps s, hs_active_miners s))
           (or_default [] (hashrate_snapshots_since (pe_read_ok E) (ps_db P) since)))"

section \<open>Counting\<close>

lemma tally_snoc: "tally (ks @ [k]) = (tally ks)(k \<mapsto> or_default 0 (tally ks k) + 1)"
  by (simp add: tally_def)

lemma tally_count: "or_default 0 (tally ks a) = of_nat (length (filter (\<lambda>k. k = a) ks))"
proof (induction ks rule: rev_induct)
  case (snoc k ks)
  then show ?case by (auto simp: tally_snoc or_default_def)
qed (simp add: tally_def or_default_def)

lemma tally_Nil [simp]: "tally [] = Map.empty"
  by (simp add: tally_def)

lemma dom_tally: "dom (tally ks) = set ks"
proof (induction ks rule: rev_induct)
  case (snoc k ks)
  then show ?case unfolding tally_snoc dom_fun_upd by simp
qed simp

lemma buckets_snoc: "foldl add_bucket m (es @ [e]) = add_bucket (foldl add_bucket m es) e"
  by simp

lemma dom_buckets: "dom (foldl add_bucket Map.empty es) = fst ` set es"
proof (induction es rule: rev_induct)
  case (snoc e es)
  have "dom (add_bucket m e) = insert (fst e) (dom m)" for m unfolding add_bucket_def dom_fun_upd by simp
  then show ?case using snoc by simp
qed simp

lemma buckets_value:
  "or_default 0 (foldl add_bucket Map.empty es d) = (\<Sum>e\<leftarrow>filter (\<lambda>e. fst e = d) es. snd e)"
proof (induction es rule: rev_induct)
  case (snoc e es)
  then show ?case by (auto simp: add_bucket_def or_default_def split: option.splits)
qed (simp add: or_default_def)

lemma sum_by_key:
  fixes es :: "('a \<times> 'b::comm_monoid_add) list"
  assumes "finite A" "fst ` set es \<subseteq> A"
  shows "(\<Sum>d\<in>A. \<Sum>e\<leftarrow>filter (\<lambda>e. fst e = d) es. snd e) = (\<Sum>e\<leftarrow>es. snd e)"
  using assms(2)
proof (induction es)
  case (Cons e es)
  have "(\<Sum>d\<in>A. \<Sum>x\<leftarrow>filter (\<lambda>e. fst e = d) (e # es). snd x)
      = (\<Sum>d\<in>A. (if d = fst e then snd e else 0) + (\<Sum>x\<leftarrow>filter (\<lambda>e. fst e = d) es. snd x))"
    by (rule sum.cong) auto
  then show ?case using Cons assms(1) by (simp add: sum.distrib sum.delta)
qed simp

lemma mset_sum_key: "(\<Sum>x\<leftarrow>sort_key f xs. g x) = (\<Sum>x\<leftarrow>xs. g x)" for g :: "'a \<Rightarrow> 'b::comm_monoid_add"
  by (metis mset_map mset_sort sum_mset_sum_list)

lemma sum_order:
  "distinct ks \<Longrightarrow> set ks = A \<Longrightarrow> (\<Sum>k\<leftarrow>ks. f k) = (\<Sum>k\<in>A. f k)" for f :: "'a \<Rightarrow> 'b::comm_monoid_add"
  by (metis sum_list_distinct_conv_sum_set)

section \<open>Properties\<close>

text \<open>
  the leaderboard counts every recent share once: it has one entry for each miner with a share in
  the last two minutes, with the number of its shares, in descending order, and the total is the
  number of all recent shares.
\<close>
theorem leaderboard_counts:
  assumes "pe_read_ok E"
    and "recent = rows_since (saturating_sub (pe_now E) 120000) (pd_shares (ps_db P))"
    and "distinct order" "set order = sr_miner_address ` set recent"
  shows "snd (get_miners F E order P) = of_nat (length recent)
    \<and> mset (map me_address (fst (get_miners F E order P))) = mset order
    \<and> (\<forall>m \<in> set (fst (get_miners F E order P)).
         me_shares m = of_nat (length (filter (\<lambda>r. sr_miner_address r = me_address m) recent)))
    \<and> sorted (map (\<lambda>m. - int (unat (me_shares m))) (fst (get_miners F E order P)))"
proof -
  let ?m = "tally (map sr_miner_address recent)"
  have rec: "or_default [] (shares_since (pe_read_ok E) (ps_db P) (saturating_sub (pe_now E) 120000)) = recent"
    using assms(1,2) by (simp add: shares_since_def or_default_def)
  have m: "the (?m a) = of_nat (length (filter (\<lambda>r. sr_miner_address r = a) recent))"
    if "a \<in> set order" for a
  proof -
    have "a \<in> dom ?m" using that assms(4) by (simp add: dom_tally)
    then have "the (?m a) = or_default 0 (?m a)" by (auto simp: or_default_def)
    then show ?thesis by (simp add: tally_count filter_map comp_def)
  qed
  have "(\<Sum>a\<leftarrow>order. the (?m a)) = (\<Sum>a\<in>set order. \<Sum>e\<leftarrow>filter (\<lambda>e. fst e = a)
      (map (\<lambda>r. (sr_miner_address r, 1)) recent). snd e)"
    using m by (simp add: sum_order [OF assms(3) refl] filter_map comp_def sum_list_triv)
  also have "\<dots> = (\<Sum>e\<leftarrow>map (\<lambda>r. (sr_miner_address r, 1)) recent. snd e)"
    by (rule sum_by_key) (auto simp: assms(4))
  also have "\<dots> = (of_nat (length recent) :: u64)" by (simp add: comp_def sum_list_triv)
  finally have tot: "(\<Sum>a\<leftarrow>order. the (?m a)) = of_nat (length recent)" .
  show ?thesis
  proof (intro conjI)
    show "snd (get_miners F E order P) = of_nat (length recent)"
      using tot by (simp add: get_miners_def Let_def rec)
    show "mset (map me_address (fst (get_miners F E order P))) = mset order"
      by (simp add: get_miners_def Let_def multiset.map_comp comp_def)
    show "\<forall>m \<in> set (fst (get_miners F E order P)).
         me_shares m = of_nat (length (filter (\<lambda>r. sr_miner_address r = me_address m) recent))"
      using m by (simp add: get_miners_def Let_def rec)
    show "sorted (map (\<lambda>m. - int (unat (me_shares m))) (fst (get_miners F E order P)))"
      by (simp add: get_miners_def Let_def)
  qed
qed

theorem leaderboard_counts_witness:
  "snd (get_miners int_floats toy_pool_env [address_from_pubkey toy_crypto 5] paid_pool) = 1"
proof -
  let ?r = "share_row toy_crypto toy_pool_env toy_pool (toy_request 5 ''rig'')"
  have "rows_since (saturating_sub (pe_now toy_pool_env) 120000) (pd_shares (ps_db paid_pool)) = [?r]"
    by (simp add: paid_pool_def share_effect_def rows_since_def share_row_def saturating_sub_def)
  then show ?thesis
    using leaderboard_counts [of toy_pool_env "[?r]" paid_pool "[address_from_pubkey toy_crypto 5]" int_floats]
    by (simp add: share_row_def)
qed

text \<open>
  the earnings history adds up: its points have ascending dates, one per day, each the start of a
  day, and together they are the sum of all payouts of the miner in the last thirty days.
\<close>
theorem earnings_add_up:
  assumes "pe_read_ok E"
    and "\<And>m. finite (dom m) \<Longrightarrow> distinct (order m) \<and> set (order m) = dom m"
    and "paid = filter (\<lambda>p. pr_to_address p = address
           \<and> saturating_sub (pe_now E) (30 * 86400000) \<le> pr_timestamp_ms p) (pd_payouts (ps_db P))"
  shows "(\<Sum>pt\<leftarrow>get_miner_earnings E order address P. snd pt) = (\<Sum>p\<leftarrow>paid. pr_amount_micro p)
    \<and> sorted (map (\<lambda>pt. unat (fst pt)) (get_miner_earnings E order address P))
    \<and> distinct (map fst (get_miner_earnings E order address P))
    \<and> fst ` set (get_miner_earnings E order address P)
        = (\<lambda>p. bucket_start 86400000 (pr_timestamp_ms p)) ` set paid"
proof -
  let ?day = "\<lambda>p. (bucket_start 86400000 (pr_timestamp_ms p), pr_amount_micro p)"
  define mine where "mine = filter (\<lambda>p. pr_timestamp_ms p \<ge> saturating_sub (pe_now E) (30 * 86400000))
    (or_default [] (payouts_by_miner (pe_read_ok E) (ps_db P) address))"
  define m where "m = foldl add_bucket Map.empty (map ?day mine)"
  have e: "get_miner_earnings E order address P
      = sort_key (\<lambda>(date, _). unat date) (map (\<lambda>d. (d, the (m d))) (order m))"
    by (simp add: get_miner_earnings_def Let_def m_def mine_def)
  have dom: "dom m = fst ` set (map ?day mine)" unfolding m_def by (rule dom_buckets)
  have ord: "distinct (order m)" "set (order m) = dom m" using assms(2) [of m] dom by simp_all
  have perm: "mset mine = mset paid"
    using assms(1) by (simp add: mine_def payouts_by_miner_def or_default_def assms(3) mset_filter conj_commute
        flip: filter_filter)
  have "(\<Sum>pt\<leftarrow>get_miner_earnings E order address P. snd pt) = (\<Sum>d\<in>dom m. the (m d))"
    by (simp add: e mset_sum_key comp_def sum_order [OF ord])
  also have "\<dots> = (\<Sum>d\<in>dom m. or_default 0 (m d))"
    by (rule sum.cong) (auto simp: or_default_def)
  also have "\<dots> = (\<Sum>e\<leftarrow>map ?day mine. snd e)"
    unfolding m_def buckets_value by (rule sum_by_key) (simp_all add: dom [unfolded m_def])
  also have "\<dots> = (\<Sum>p\<leftarrow>mine. pr_amount_micro p)" by (simp add: comp_def)
  also have "\<dots> = (\<Sum>p\<leftarrow>paid. pr_amount_micro p)"
    using perm by (metis mset_map sum_mset_sum_list)
  finally have 1: "(\<Sum>pt\<leftarrow>get_miner_earnings E order address P. snd pt) = (\<Sum>p\<leftarrow>paid. pr_amount_micro p)" .
  have 2: "sorted (map (\<lambda>pt. unat (fst pt)) (get_miner_earnings E order address P))"
    using sorted_sort_key [of "\<lambda>(date, _). unat date" "map (\<lambda>d. (d, the (m d))) (order m)"]
    unfolding e by (simp add: split_def)
  have "mset (map fst (get_miner_earnings E order address P)) = mset (order m)"
    by (simp add: e multiset.map_comp comp_def)
  then have 3: "distinct (map fst (get_miner_earnings E order address P))"
    using ord(1) by (metis mset_eq_imp_distinct_iff)
  have "set mine = set paid" using perm by (metis set_mset_mset)
  then have 4: "fst ` set (get_miner_earnings E order address P)
        = (\<lambda>p. bucket_start 86400000 (pr_timestamp_ms p)) ` set paid"
    using ord(2) dom by (simp add: e image_image)
  show ?thesis using 1 2 3 4 by blast
qed

theorem earnings_add_up_witness:
  "(\<Sum>pt\<leftarrow>get_miner_earnings toy_pool_env (\<lambda>m. sorted_list_of_set (dom m)) ''m''
      (toy_pool\<lparr>ps_db := (ps_db toy_pool)\<lparr>pd_payouts :=
         [\<lparr>pr_timestamp_ms = 1772975700000, pr_to_address = ''m'', pr_amount_micro = 30, pr_tx_hash = '''', pr_block_index = 1\<rparr>,
          \<lparr>pr_timestamp_ms = 1772975600000, pr_to_address = ''m'', pr_amount_micro = 12, pr_tx_hash = '''', pr_block_index = 1\<rparr>,
          \<lparr>pr_timestamp_ms = 5, pr_to_address = ''m'', pr_amount_micro = 900, pr_tx_hash = '''', pr_block_index = 1\<rparr>]\<rparr>\<rparr>).
      snd pt) = 42"
  by (subst earnings_add_up [THEN conjunct1, OF _ _ refl]) (simp_all add: saturating_sub_def)

end
