(* ===== verification/Rpc.thy ===== *)
theory Rpc
  imports Node_Blocks
begin

text \<open>
  The HTTP interface of a node (node/src/rpc.rs): the answers it gives about chain, accounts,
  pool and peers, the submission of transactions and blocks, and the limit on requests. The
  answers are the records the code serialises; status codes follow from the constructors. Lists in the
  order of a hash map take that order from \<open>env\<close> or from an argument.
\<close>

section \<open>Answers\<close>

record status_response =
  sr_chain_height :: u64
  sr_best_hash :: string
  sr_difficulty :: u32
  sr_peer_count :: nat
  sr_inbound_peers :: nat
  sr_outbound_peers :: nat
  sr_mempool_size :: nat
  sr_account_count :: nat
  sr_total_supply :: u64
  sr_total_tx_count :: u64

record block_response =
  br_index :: u64
  br_hash :: string
  br_prev_hash :: string
  br_timestamp :: u64
  br_miner :: string
  br_miner_address :: string
  br_nonce :: u64
  br_reward :: u64
  br_tx_count :: nat

record blocks_response =
  bs_blocks :: "block_response list"
  bs_total :: nat

record tx_response =
  xr_hash :: string
  xr_sender :: string
  xr_sender_address :: string
  xr_recipient :: string
  xr_recipient_address :: string
  xr_amount :: u64
  xr_fee :: u64
  xr_sequence :: u64
  xr_timestamp_ms :: u64
  xr_posc_steps :: u32
  xr_block_index :: "u64 option"

record mempool_response =
  mr_count :: nat
  mr_transactions :: "tx_response list"

text \<open>As \<open>tx_response\<close>, with the index of a block for certain.\<close>

record tx_with_block =
  xb_hash :: string
  xb_sender :: string
  xb_sender_address :: string
  xb_recipient :: string
  xb_recipient_address :: string
  xb_amount :: u64
  xb_fee :: u64
  xb_sequence :: u64
  xb_timestamp_ms :: u64
  xb_posc_steps :: u32
  xb_block_index :: u64

record account_txs_response =
  at_transactions :: "tx_with_block list"
  at_total :: nat

record account_response =
  ar_pubkey :: string
  ar_address :: string
  ar_balance :: u64
  ar_sequence :: u64
  ar_blocks_mined :: u64
  ar_tx_count :: u64
  ar_first_seen :: u64
  ar_last_seen :: u64
  ar_last_tx_hash :: string

record accounts_response =
  as_accounts :: "account_response list"
  as_total :: nat

record peer_response =
  pr_port :: u16
  pr_direction :: peer_direction
  pr_version :: u8
  pr_user_agent :: string
  pr_connected_secs :: nat

record peers_response =
  ps_peer_list :: "peer_response list"
  ps_peer_total :: nat

record supply_point =
  sp_block_index :: u64
  sp_timestamp_ms :: u64
  sp_reward :: u64
  sp_cumulative_supply :: u64

record pagination_params =
  pg_offset :: "u64 option"
  pg_limit :: "u64 option"

section \<open>Conversions\<close>

definition block_to_response :: "crypto \<Rightarrow> block \<Rightarrow> block_response" where
  "block_to_response C b =
     \<lparr>br_index = blk_index b, br_hash = hash_hex C (blk_hash b), br_prev_hash = hash_hex C (blk_prev_hash b),
      br_timestamp = blk_timestamp b, br_miner = hash_hex C (blk_miner b),
      br_miner_address = address_from_pubkey C (blk_miner b), br_nonce = blk_nonce b,
      br_reward = blk_reward b, br_tx_count = length (blk_transactions b)\<rparr>"

definition tx_to_response :: "crypto \<Rightarrow> transaction \<Rightarrow> tx_response" where
  "tx_to_response C t =
     \<lparr>xr_hash = tx_hash_hex C t, xr_sender = hash_hex C (tx_sender t),
      xr_sender_address = sender_address C t, xr_recipient = hash_hex C (tx_recipient t),
      xr_recipient_address = recipient_address C t, xr_amount = tx_amount t, xr_fee = tx_fee t,
      xr_sequence = tx_sequence t, xr_timestamp_ms = tx_timestamp_ms t,
      xr_posc_steps = tx_posc_steps t, xr_block_index = None\<rparr>"

definition tx_with_block_of :: "crypto \<Rightarrow> u64 \<Rightarrow> transaction \<Rightarrow> tx_with_block" where
  "tx_with_block_of C index t =
     \<lparr>xb_hash = tx_hash_hex C t, xb_sender = hash_hex C (tx_sender t),
      xb_sender_address = sender_address C t, xb_recipient = hash_hex C (tx_recipient t),
      xb_recipient_address = recipient_address C t, xb_amount = tx_amount t, xb_fee = tx_fee t,
      xb_sequence = tx_sequence t, xb_timestamp_ms = tx_timestamp_ms t,
      xb_posc_steps = tx_posc_steps t, xb_block_index = index\<rparr>"

text \<open>\<open>Iterator::max_by_key\<close>: the last of the largest elements.\<close>

definition max_by_key :: "('a \<Rightarrow> u64) \<Rightarrow> 'a list \<Rightarrow> 'a option" where
  "max_by_key key xs =
     foldl (\<lambda>m x. case m of None \<Rightarrow> Some x | Some y \<Rightarrow> if key y \<le> key x then Some x else m) None xs"

definition page :: "'a list \<Rightarrow> u64 \<Rightarrow> u64 \<Rightarrow> 'a list" where
  "page xs offset limit = take (unat limit) (drop (unat offset) xs)"

definition or_else :: "'a option \<Rightarrow> 'a \<Rightarrow> 'a" where
  "or_else x d = (case x of None \<Rightarrow> d | Some y \<Rightarrow> y)"

definition account_from_blocks ::
    "crypto \<Rightarrow> hash32 \<Rightarrow> account_state \<Rightarrow> block list \<Rightarrow> (u64 \<times> string) list \<Rightarrow> account_response" where
  "account_from_blocks C pubkey state mined tx_timestamps =
     (let all_timestamps = map blk_timestamp mined @ map fst tx_timestamps;
          latest_tx = map_option snd (max_by_key fst tx_timestamps);
          latest_block = map_option (\<lambda>b. hash_hex C (blk_hash b)) (max_by_key blk_timestamp mined);
          tx_ts_max = or_else (map_option fst (max_by_key fst tx_timestamps)) 0;
          blk_ts_max = or_else (max_by_key id (map blk_timestamp mined)) 0
      in \<lparr>ar_pubkey = hash_hex C pubkey, ar_address = address_from_pubkey C pubkey,
          ar_balance = acc_balance state, ar_sequence = acc_sequence state,
          ar_blocks_mined = of_nat (length mined), ar_tx_count = of_nat (length tx_timestamps),
          ar_first_seen = (case all_timestamps of [] \<Rightarrow> 0 | x # xs \<Rightarrow> foldl min x xs),
          ar_last_seen = (case all_timestamps of [] \<Rightarrow> 0 | x # xs \<Rightarrow> foldl max x xs),
          ar_last_tx_hash = (case (latest_tx, latest_block) of
              (Some tx_h, Some blk_h) \<Rightarrow> if blk_ts_max \<le> tx_ts_max then tx_h else blk_h
            | (Some tx_h, None) \<Rightarrow> tx_h
            | (None, Some blk_h) \<Rightarrow> blk_h
            | (None, None) \<Rightarrow> '''')\<rparr>)"

section \<open>Status and blocks\<close>

definition get_status :: "u16 \<Rightarrow> 'd node \<Rightarrow> status_response" where
  "get_status listen_port st = (let s = nd_status listen_port st in
     \<lparr>sr_chain_height = ns_chain_height s, sr_best_hash = ns_best_hash s, sr_difficulty = ns_difficulty s,
      sr_peer_count = ns_peer_count s, sr_inbound_peers = ns_inbound_count s,
      sr_outbound_peers = ns_outbound_count s, sr_mempool_size = ns_mempool_size s,
      sr_account_count = ns_account_count s, sr_total_supply = ns_total_supply s,
      sr_total_tx_count = ns_chain_height s\<rparr>)"

definition get_blocks :: "crypto \<Rightarrow> ('d, 'v) storage \<Rightarrow> pagination_params \<Rightarrow> 'd node \<Rightarrow> blocks_response" where
  "get_blocks C S params st =
     (let offset = or_else (pg_offset params) 0;
          limit = min (or_else (pg_limit params) 20) 100
      in \<lparr>bs_blocks = map (block_to_response C) (blocks_paginated S (nd_chain st) offset limit),
          bs_total = total_blocks (nd_chain st)\<rparr>)"

definition get_block_by_index ::
    "crypto \<Rightarrow> ('d, 'v) storage \<Rightarrow> u64 \<Rightarrow> 'd node \<Rightarrow> block_response option" where
  "get_block_by_index C S index st = map_option (block_to_response C) (block_at S (nd_chain st) index)"

definition get_block_txs :: "crypto \<Rightarrow> ('d, 'v) storage \<Rightarrow> u64 \<Rightarrow> 'd node \<Rightarrow> tx_response list" where
  "get_block_txs C S index st = (case block_at S (nd_chain st) index of
     None \<Rightarrow> []
   | Some b \<Rightarrow> map (\<lambda>t. (tx_to_response C t)\<lparr>xr_block_index := Some index\<rparr>) (blk_transactions b))"

section \<open>Transactions\<close>

text \<open>The pending transactions in the order of the map.\<close>

definition pending_txs :: "env \<Rightarrow> 'd node \<Rightarrow> transaction list" where
  "pending_txs E st = mp_get_txs (nd_mempool st) (ev_hashes E (mp_tx_hashes (nd_mempool st)))"

text \<open>The search through the blocks \<open>(0..=height).rev()\<close>.\<close>

primrec find_confirmed ::
    "crypto \<Rightarrow> ('d, 'v) storage \<Rightarrow> 'd blockchain \<Rightarrow> string \<Rightarrow> u64 list \<Rightarrow> tx_response option" where
  "find_confirmed C S ch h [] = None"
| "find_confirmed C S ch h (i # is) = (case block_at S ch i of
     None \<Rightarrow> find_confirmed C S ch h is
   | Some b \<Rightarrow>
       (case find (\<lambda>t. tx_hash_hex C t = h) (blk_transactions b) of
          None \<Rightarrow> find_confirmed C S ch h is
        | Some t \<Rightarrow> Some ((tx_to_response C t)\<lparr>xr_block_index := Some (blk_index b)\<rparr>)))"

definition get_tx_by_hash ::
    "crypto \<Rightarrow> ('d, 'v) storage \<Rightarrow> env \<Rightarrow> string \<Rightarrow> 'd node \<Rightarrow> tx_response option" where
  "get_tx_by_hash C S E h st =
     (case find_confirmed C S (nd_chain st) h (rev (u64_range 0 (bc_height (nd_chain st)))) of
        Some r \<Rightarrow> Some r
      | None \<Rightarrow> map_option (tx_to_response C) (find (\<lambda>t. tx_hash_hex C t = h) (pending_txs E st)))"

definition get_mempool :: "crypto \<Rightarrow> env \<Rightarrow> 'd node \<Rightarrow> mempool_response" where
  "get_mempool C E st = (let txs = map (tx_to_response C) (pending_txs E st)
     in \<lparr>mr_count = length txs, mr_transactions = txs\<rparr>)"

definition get_mempool_raw :: "env \<Rightarrow> 'd node \<Rightarrow> transaction list" where
  "get_mempool_raw E st = pending_txs E st"

section \<open>Accounts\<close>

definition newest_first :: "('a \<Rightarrow> u64) \<Rightarrow> 'a list \<Rightarrow> 'a list" where
  "newest_first key xs = sort_key (\<lambda>x. - uint (key x)) xs"

definition get_accounts ::
    "crypto \<Rightarrow> ('d, 'v) storage \<Rightarrow> (hash32 set \<Rightarrow> hash32 list) \<Rightarrow> pagination_params \<Rightarrow> 'd node
       \<Rightarrow> accounts_response" where
  "get_accounts C S listing params st =
     (let keys = listing (dom (nd_ledger st));
          offset = or_else (pg_offset params) 0;
          limit = min (or_else (pg_limit params) 50) 200;
          accounts = map (\<lambda>k. account_from_blocks C k (the (nd_ledger st k))
                            (blocks_by_miner S (nd_chain st) k) []) keys
      in \<lparr>as_accounts = page (newest_first ar_balance accounts) offset limit,
          as_total = card (dom (nd_ledger st))\<rparr>)"

text \<open>The pairs of block and transaction of the chain that involve an account, oldest block first.\<close>

definition chain_txs_of ::
    "('d, 'v) storage \<Rightarrow> 'd blockchain \<Rightarrow> hash32 \<Rightarrow> (block \<times> transaction) list" where
  "chain_txs_of S ch pubkey =
     concat (map (\<lambda>b. map (Pair b) (filter (\<lambda>t. tx_sender t = pubkey \<or> tx_recipient t = pubkey)
               (blk_transactions b)))
       (List.map_filter (block_at S ch) (u64_range 0 (bc_height ch))))"

definition get_account_by_address ::
    "crypto \<Rightarrow> ('d, 'v) storage \<Rightarrow> string \<Rightarrow> 'd node \<Rightarrow> account_response option partial" where
  "get_account_by_address C S address st = (case pubkey_from_address C address of
     Inl e \<Rightarrow> Inl e
   | Inr None \<Rightarrow> Inr None
   | Inr (Some pubkey) \<Rightarrow>
       (case get_account (nd_ledger st) pubkey of
          None \<Rightarrow> Inr None
        | Some state \<Rightarrow> Inr (Some (account_from_blocks C pubkey state
            (blocks_by_miner S (nd_chain st) pubkey)
            (map (\<lambda>(b, t). (tx_timestamp_ms t, tx_hash_hex C t)) (chain_txs_of S (nd_chain st) pubkey))))))"

definition get_account_txs ::
    "crypto \<Rightarrow> ('d, 'v) storage \<Rightarrow> env \<Rightarrow> string \<Rightarrow> pagination_params \<Rightarrow> 'd node
       \<Rightarrow> account_txs_response partial" where
  "get_account_txs C S E address params st = (case pubkey_from_address C address of
     Inl e \<Rightarrow> Inl e
   | Inr None \<Rightarrow> Inr \<lparr>at_transactions = [], at_total = 0\<rparr>
   | Inr (Some pubkey) \<Rightarrow>
       (let all_txs = map (\<lambda>(b, t). tx_with_block_of C (blk_index b) t) (chain_txs_of S (nd_chain st) pubkey)
              @ map (tx_with_block_of C 0)
                  (filter (\<lambda>t. tx_sender t = pubkey \<or> tx_recipient t = pubkey) (pending_txs E st));
            all_txs = newest_first xb_timestamp_ms all_txs;
            offset = or_else (pg_offset params) 0;
            limit = min (or_else (pg_limit params) 20) 100
        in Inr \<lparr>at_transactions = page all_txs offset limit, at_total = length all_txs\<rparr>))"

definition get_account_blocks ::
    "crypto \<Rightarrow> ('d, 'v) storage \<Rightarrow> string \<Rightarrow> pagination_params \<Rightarrow> 'd node \<Rightarrow> blocks_response partial" where
  "get_account_blocks C S address params st = (case pubkey_from_address C address of
     Inl e \<Rightarrow> Inl e
   | Inr key \<Rightarrow>
       (let offset = or_else (pg_offset params) 0;
            limit = min (or_else (pg_limit params) 20) 100;
            all_mined = map (block_to_response C)
              (rev (case key of None \<Rightarrow> [] | Some pk \<Rightarrow> blocks_by_miner S (nd_chain st) pk))
        in Inr \<lparr>bs_blocks = page all_mined offset limit, bs_total = length all_mined\<rparr>))"

section \<open>Peers and supply\<close>

definition peer_to_response :: "nat \<Rightarrow> peer_info \<Rightarrow> peer_response" where
  "peer_to_response now p =
     \<lparr>pr_port = sa_port (pi_addr p), pr_direction = pi_direction p, pr_version = pi_version p,
      pr_user_agent = pi_user_agent p, pr_connected_secs = (now - pi_connected_at p) div 1000\<rparr>"

definition get_peers :: "env \<Rightarrow> 'd node \<Rightarrow> peers_response" where
  "get_peers E st =
     (let peers = map (peer_to_response (ev_now E))
            (List.map_filter (pm_peers (nd_peers st)) (ev_addrs E (all_addrs (nd_peers st))))
      in \<lparr>ps_peer_list = peers, ps_peer_total = length peers\<rparr>)"

text \<open>The range \<open>(1..=height).step_by(step)\<close>.\<close>

definition stepped_range :: "nat \<Rightarrow> nat \<Rightarrow> u64 list" where
  "stepped_range height step = map (\<lambda>j. of_nat (1 + j * step)) [0..<(height + step - 1) div step]"

primrec supply_loop ::
    "('d, 'v) storage \<Rightarrow> 'd blockchain \<Rightarrow> u64 list \<Rightarrow> u64 \<Rightarrow> supply_point list" where
  "supply_loop S ch [] cumulative = []"
| "supply_loop S ch (i # is) cumulative = (case block_at S ch i of
     None \<Rightarrow> supply_loop S ch is cumulative
   | Some b \<Rightarrow>
       (let cumulative = cumulative + blk_reward b
        in \<lparr>sp_block_index = blk_index b, sp_timestamp_ms = blk_timestamp b, sp_reward = blk_reward b,
            sp_cumulative_supply = cumulative\<rparr> # supply_loop S ch is cumulative))"

definition supply_step :: "'d blockchain \<Rightarrow> nat" where
  "supply_step ch = (let n = total_blocks ch in if n \<le> 500 then 1 else n div 500)"

definition get_supply_history :: "('d, 'v) storage \<Rightarrow> 'd node \<Rightarrow> supply_point list" where
  "get_supply_history S st =
     (let ch = nd_chain st in
      (case block_at S ch 0 of
         None \<Rightarrow> []
       | Some b \<Rightarrow> [\<lparr>sp_block_index = 0, sp_timestamp_ms = blk_timestamp b, sp_reward = 0,
                     sp_cumulative_supply = PREMINE_BALANCE\<rparr>])
      @ supply_loop S ch (stepped_range (unat (bc_height ch)) (max (supply_step ch) 1)) PREMINE_BALANCE)"

section \<open>Submissions\<close>

datatype submit_tx_answer =
    Tx_Accepted
  | Duplicate_Transaction
  | Insufficient_Balance u64 u64
  | Invalid_Sequence u64 u64
  | Invalid_Transaction mempool_error

definition rpc_submit_tx :: "crypto \<Rightarrow> transaction \<Rightarrow> 'd node \<Rightarrow> submit_tx_answer \<times> 'd node \<times> effect list" where
  "rpc_submit_tx C t st =
     (let cost = total_cost t;
          balance = ledger_balance (nd_ledger st) (tx_sender t);
          expected_seq = (case get_account (nd_ledger st) (tx_sender t) of
            None \<Rightarrow> 1 | Some a \<Rightarrow> acc_sequence a + 1)
      in if balance < cost then (Insufficient_Balance balance cost, st, [])
         else if tx_sequence t \<noteq> expected_seq then (Invalid_Sequence expected_seq (tx_sequence t), st, [])
         else case mp_insert C t (nd_mempool st) of
           (Inr True, pool) \<Rightarrow> (Tx_Accepted, st\<lparr>nd_mempool := pool\<rparr>, broadcast_tx t)
         | (Inr False, pool) \<Rightarrow> (Duplicate_Transaction, st\<lparr>nd_mempool := pool\<rparr>, [])
         | (Inl e, pool) \<Rightarrow> (Invalid_Transaction e, st\<lparr>nd_mempool := pool\<rparr>, []))"

datatype submit_block_answer = Block_Accepted | Block_Rejected

definition rpc_submit_block ::
    "crypto \<Rightarrow> ('d, 'v) storage \<Rightarrow> env \<Rightarrow> block \<Rightarrow> 'd node
       \<Rightarrow> submit_block_answer partial \<times> 'd node \<times> effect list" where
  "rpc_submit_block C S E b st = (case submit_mined_block C S E b st of
     (Inl e, st, out) \<Rightarrow> (Inl e, st, out)
   | (Inr accepted, st, out) \<Rightarrow> (Inr (if accepted then Block_Accepted else Block_Rejected), st, out))"

section \<open>The limit on requests\<close>

definition RPC_WINDOW :: nat where "RPC_WINDOW = 60000"
definition RPC_MAX_REQ :: u32 where "RPC_MAX_REQ = 600"

type_synonym rate_map = "ip_addr \<rightharpoonup> u32 \<times> nat"

text \<open>The most significant byte of an IPv4 address is its first octet.\<close>

definition octet :: "nat \<Rightarrow> u32 \<Rightarrow> u32" where
  "octet i a = drop_bit (24 - 8 * i) a mod 256"

fun is_loopback :: "ip_addr \<Rightarrow> bool" where
  "is_loopback (IPv4 a) \<longleftrightarrow> octet 0 a = 127"
| "is_loopback (IPv6 a) \<longleftrightarrow> a = 1"

fun is_private :: "ip_addr \<Rightarrow> bool" where
  "is_private (IPv4 a) \<longleftrightarrow> octet 0 a = 10 \<or> octet 0 a = 172 \<or> (octet 0 a = 192 \<and> octet 1 a = 168)"
| "is_private (IPv6 a) \<longleftrightarrow> False"

text \<open>\<open>None\<close> is a request without connection information.\<close>

definition check_rate_limit :: "nat \<Rightarrow> ip_addr option \<Rightarrow> rate_map \<Rightarrow> bool \<times> rate_map" where
  "check_rate_limit now info m =
     (let ip = or_else info (IPv4 0) in
      if is_loopback ip \<or> is_private ip then (True, m)
      else
        let (count, start) = or_else (m ip) (0, now) in
        if now - start > RPC_WINDOW then (True, m(ip \<mapsto> (1, now)))
        else (\<not> count + 1 > RPC_MAX_REQ, m(ip \<mapsto> (count + 1, start))))"

end
