(* ===== verification/Rpc_Reads.thy ===== *)
theory Rpc_Reads
  imports Rpc Node_Props
begin

text \<open>
  What the HTTP interface answers about a chain that is stored in order: the pages of blocks, the
  search for a transaction, the supply history; and which requests it lets through.
\<close>

section \<open>Pages of blocks\<close>

lemma total_blocks_length: "chain_rep S ch bs \<Longrightarrow> total_blocks ch = length bs"
proof -
  assume rep: "chain_rep S ch bs"
  note R = chain_repD [OF rep]
  have "unat (bc_height ch) + 1 = length bs" using R(1,3) by (cases bs) simp_all
  moreover have "unat (bc_height ch + 1) = unat (bc_height ch) + unat (1 :: u64)"
    by (rule unat_plus_simple [THEN iffD1], simp add: no_olen_add_nat) (use calculation R(2) in simp)
  ultimately show ?thesis by (simp add: total_blocks_def)
qed

lemma rev_take_drop:
  "s < length xs \<Longrightarrow> rev (take (Suc s - e) (drop e xs)) = take (Suc s - e) (drop (length xs - Suc s) (rev xs))"
proof (cases "e \<le> s")
  case True
  assume "s < length xs"
  have "rev (take (Suc s - e) (drop e xs)) = rev (drop e (take (Suc s) xs))"
    using True by (simp only: take_drop) simp
  also have "\<dots> = take (min (length xs) (Suc s) - e) (rev (take (Suc s) xs))"
    by (simp only: rev_drop length_take)
  also have "\<dots> = take (Suc s - e) (drop (length xs - Suc s) (rev xs))"
    using \<open>s < length xs\<close> by (simp only: rev_take) simp
  finally show ?thesis .
qed simp

declare unat_saturating_sub [simp]

lemma blocks_paginated_list:
  assumes "chain_rep S ch bs"
  shows "blocks_paginated S ch offset limit =
    (if length bs = 1 \<and> offset > 0 then []
     else take (max 1 (unat limit)) (drop (min (unat offset) (length bs - 1)) (rev bs)))"
proof -
  note R = chain_repD [OF assms]
  let ?s = "saturating_sub (bc_height ch) offset" and ?l = "saturating_sub limit 1"
  let ?e = "saturating_sub ?s ?l"
  have h0: "bc_height ch = 0 \<longleftrightarrow> length bs = 1"
    using R(1,3) unat_eq_zero [of "bc_height ch"] by (cases bs) auto
  have s: "unat ?s < length bs" using R(1,3) by (cases bs) simp_all
  have "List.map_filter (block_at S ch) (rev (u64_range ?e ?s))
      = rev (List.map_filter (block_at S ch) (u64_range ?e ?s))"
    by (simp add: List.map_filter_def rev_map rev_filter)
  also have "\<dots> = take (Suc (unat ?s) - unat ?e) (drop (length bs - Suc (unat ?s)) (rev bs))"
    unfolding blocks_between [OF assms s] by (rule rev_take_drop [OF s])
  also have "\<dots> = take (max 1 (unat limit)) (drop (min (unat offset) (length bs - 1)) (rev bs))"
  proof -
    have d: "length bs - Suc (unat ?s) = min (unat offset) (length bs - 1)"
      using R(1,3) by (cases bs) auto
    have e: "unat ?e = unat ?s - (unat limit - 1)" by simp
    have len: "length (drop (min (unat offset) (length bs - 1)) (rev bs)) = Suc (unat ?s)"
      using d s by simp
    show ?thesis
    proof (cases "unat limit - 1 \<le> unat ?s")
      case True
      then have "Suc (unat ?s) - unat ?e = max 1 (unat limit)" unfolding e by linarith
      then show ?thesis unfolding d by simp
    next
      case False
      then show ?thesis unfolding d e using len by simp
    qed
  qed
  finally show ?thesis using h0 by (simp add: blocks_paginated_def Let_def)
qed

text \<open>
  the blocks of a page are those of the chain, newest first, from the offset on, as many as
  the limit allows (20 by default, 100 at most, and never fewer than one); an offset past the
  end gives the genesis block again, except on a chain of the genesis block alone.
\<close>
theorem blocks_page:
  assumes "chain_rep S (nd_chain st) bs"
    and "offset = unat (or_else (pg_offset params) 0)" "limit = unat (or_else (pg_limit params) 20)"
  shows "bs_total (get_blocks C S params st) = length bs
    \<and> bs_blocks (get_blocks C S params st) =
        (if length bs = 1 \<and> 0 < offset then []
         else map (block_to_response C)
           (take (max 1 (min limit 100)) (drop (min offset (length bs - 1)) (rev bs))))"
  using assms(2,3)
  by (simp add: get_blocks_def Let_def blocks_paginated_list [OF assms(1)] total_blocks_length [OF assms(1)]
      unat_min word_less_nat_alt)

theorem blocks_page_witness:
  "bs_blocks (get_blocks toy_crypto toy_storage \<lparr>pg_offset = None, pg_limit = Some 7\<rparr>
      (the (node_with toy_crypto toy_storage \<lparr>wl_signing_key = 3\<rparr> False toy_chain toy_ledger)))
    = [block_to_response toy_crypto (genesis_block toy_crypto)]"
  using blocks_page [of toy_storage "the (node_with toy_crypto toy_storage \<lparr>wl_signing_key = 3\<rparr> False toy_chain toy_ledger)"
      "[genesis_block toy_crypto]" 0 "\<lparr>pg_offset = None, pg_limit = Some 7\<rparr>" 7 toy_crypto] toy_chain_rep chain_rep_tip [OF toy_chain_rep]
  by (simp add: or_else_def node_with_def)

section \<open>Finding a transaction\<close>

lemma find_confirmed_blocks:
  "find_confirmed C S ch h is =
     (case find (\<lambda>(b, t). tx_hash_hex C t = h)
        (concat (map (\<lambda>b. map (Pair b) (blk_transactions b)) (List.map_filter (block_at S ch) is))) of
        None \<Rightarrow> None
      | Some (b, t) \<Rightarrow> Some ((tx_to_response C t)\<lparr>xr_block_index := Some (blk_index b)\<rparr>))"
proof (induction "is")
  case (Cons i "is")
  have pairs: "find (\<lambda>(b, t). tx_hash_hex C t = h) (map (Pair b) ts @ xs) =
      (case find (\<lambda>t. tx_hash_hex C t = h) ts of
         None \<Rightarrow> find (\<lambda>(b, t). tx_hash_hex C t = h) xs | Some t \<Rightarrow> Some (b, t))" for b ts xs
    by (induction ts) auto
  show ?case by (simp add: Cons.IH List.map_filter_simps pairs split: option.split)
qed (simp add: List.map_filter_simps)

text \<open>The transactions of a chain with their blocks, newest block first.\<close>

definition txs_newest_first :: "block list \<Rightarrow> (block \<times> transaction) list" where
  "txs_newest_first bs = concat (map (\<lambda>b. map (Pair b) (blk_transactions b)) (rev bs))"

lemma all_blocks:
  assumes "chain_rep S ch bs"
  shows "List.map_filter (block_at S ch) (u64_range 0 (bc_height ch)) = bs"
  using blocks_between [OF assms, of "bc_height ch" 0] chain_repD(1,3) [OF assms] by (cases bs) simp_all

lemma get_tx_by_hash_list:
  assumes "chain_rep S (nd_chain st) bs"
  shows "get_tx_by_hash C S E h st =
    (case find (\<lambda>(b, t). tx_hash_hex C t = h) (txs_newest_first bs) of
       Some (b, t) \<Rightarrow> Some ((tx_to_response C t)\<lparr>xr_block_index := Some (blk_index b)\<rparr>)
     | None \<Rightarrow> map_option (tx_to_response C) (find (\<lambda>t. tx_hash_hex C t = h) (pending_txs E st)))"
proof -
  have "List.map_filter (block_at S (nd_chain st)) (rev (u64_range 0 (bc_height (nd_chain st)))) = rev bs"
    unfolding List.map_filter_def rev_map [symmetric] rev_filter [symmetric]
    unfolding List.map_filter_def [symmetric] by (simp add: all_blocks [OF assms])
  then show ?thesis
    by (simp add: get_tx_by_hash_def find_confirmed_blocks txs_newest_first_def split: option.split)
qed

lemma newest_hit:
  assumes "find (\<lambda>(b, t). tx_hash_hex C t = h) (txs_newest_first bs) = Some (b, t)"
  shows "\<exists>i < length bs. bs ! i = b \<and> t \<in> set (blk_transactions b) \<and> tx_hash_hex C t = h
    \<and> (\<forall>c \<in> set (drop (Suc i) bs). \<forall>u \<in> set (blk_transactions c). tx_hash_hex C u \<noteq> h)"
  using assms
proof (induction bs rule: rev_induct)
  case (snoc c bs)
  have split: "find (\<lambda>(b, t). tx_hash_hex C t = h) (map (Pair c) ts @ xs) =
      (case find (\<lambda>t. tx_hash_hex C t = h) ts of
         None \<Rightarrow> find (\<lambda>(b, t). tx_hash_hex C t = h) xs | Some t \<Rightarrow> Some (c, t))" for ts xs
    by (induction ts) auto
  have list: "txs_newest_first (bs @ [c]) = map (Pair c) (blk_transactions c) @ txs_newest_first bs"
    by (simp add: txs_newest_first_def)
  show ?case
  proof (cases "find (\<lambda>t. tx_hash_hex C t = h) (blk_transactions c)")
    case (Some u)
    then have "b = c" "t = u" using snoc.prems by (simp_all add: list split)
    then show ?thesis using Some by (intro exI [of _ "length bs"]) (auto simp: find_Some_iff)
  next
    case None
    then obtain i where i: "i < length bs" "bs ! i = b" "t \<in> set (blk_transactions b)" "tx_hash_hex C t = h"
        "\<forall>c \<in> set (drop (Suc i) bs). \<forall>u \<in> set (blk_transactions c). tx_hash_hex C u \<noteq> h"
      using snoc.IH snoc.prems by (auto simp: list split)
    then show ?thesis using None
      by (intro exI [of _ i]) (auto simp: nth_append find_None_iff)
  qed
qed (simp add: txs_newest_first_def)

text \<open>
  the search for a transaction answers with the newest block of the chain that holds one with
  this hash, and names its index; with a pending one and no index when no block does; and with
  nothing exactly when neither the chain nor the pool has it.
\<close>
theorem tx_lookup:
  assumes "chain_rep S (nd_chain st) bs"
  shows "case get_tx_by_hash C S E h st of
      None \<Rightarrow> \<forall>t \<in> set (pending_txs E st) \<union> (\<Union>b \<in> set bs. set (blk_transactions b)). tx_hash_hex C t \<noteq> h
    | Some r \<Rightarrow> xr_hash r = h \<and> (case xr_block_index r of
          Some i \<Rightarrow> unat i < length bs
            \<and> (\<exists>t \<in> set (blk_transactions (bs ! unat i)). r = (tx_to_response C t)\<lparr>xr_block_index := Some i\<rparr>)
            \<and> (\<forall>b \<in> set (drop (Suc (unat i)) bs). \<forall>t \<in> set (blk_transactions b). tx_hash_hex C t \<noteq> h)
        | None \<Rightarrow> (\<exists>t \<in> set (pending_txs E st). r = tx_to_response C t)
            \<and> (\<forall>b \<in> set bs. \<forall>t \<in> set (blk_transactions b). tx_hash_hex C t \<noteq> h))"
proof (cases "find (\<lambda>(b, t). tx_hash_hex C t = h) (txs_newest_first bs)")
  case None
  then have "\<forall>b \<in> set bs. \<forall>t \<in> set (blk_transactions b). tx_hash_hex C t \<noteq> h"
    by (fastforce simp: find_None_iff txs_newest_first_def)
  then show ?thesis
    unfolding get_tx_by_hash_list [OF assms] None
    by (auto simp: find_None_iff find_Some_iff tx_to_response_def split: option.split)
next
  case (Some p)
  obtain b t where p: "p = (b, t)" by fastforce
  obtain i where i: "i < length bs" "bs ! i = b" "t \<in> set (blk_transactions b)" "tx_hash_hex C t = h"
      "\<forall>c \<in> set (drop (Suc i) bs). \<forall>u \<in> set (blk_transactions c). tx_hash_hex C u \<noteq> h"
    using newest_hit [OF Some [unfolded p]] by blast
  have "unat (blk_index b) = i" using chain_repD(5) [OF assms i(1)] i(2) by simp
  then show ?thesis
    unfolding get_tx_by_hash_list [OF assms] Some p using i by (auto simp: tx_to_response_def)
qed

theorem tx_lookup_witness:
  "get_tx_by_hash toy_crypto toy_storage toy_env ''00''
      (the (node_with toy_crypto toy_storage \<lparr>wl_signing_key = 3\<rparr> False toy_chain toy_ledger)) = None"
proof -
  let ?st = "the (node_with toy_crypto toy_storage \<lparr>wl_signing_key = 3\<rparr> False toy_chain toy_ledger)"
  have st: "nd_chain ?st = toy_chain" "pending_txs toy_env ?st = []"
    using chain_rep_tip [OF toy_chain_rep]
    by (simp_all add: node_with_def pending_txs_def toy_env_def mp_get_txs_def List.map_filter_simps)
  have "blk_transactions (genesis_block toy_crypto) = []" by (simp add: genesis_block_def)
  then show ?thesis
    using tx_lookup [where S = toy_storage and st = ?st and bs = "[genesis_block toy_crypto]" and C = toy_crypto
      and E = toy_env and h = "''00''"] toy_chain_rep st
    by (auto split: option.splits)
qed

section \<open>The supply history\<close>

lemma supply_loop_blocks:
  assumes "list_all (\<lambda>i. block_at S ch i = Some (f i)) is"
  shows "supply_loop S ch is c =
    map (\<lambda>j. \<lparr>sp_block_index = blk_index (f (is ! j)), sp_timestamp_ms = blk_timestamp (f (is ! j)),
              sp_reward = blk_reward (f (is ! j)),
              sp_cumulative_supply = c + (\<Sum>k\<le>j. blk_reward (f (is ! k)))\<rparr>) [0..<length is]"
  using assms
proof (induction "is" arbitrary: c)
  case (Cons i "is")
  show ?case
    using Cons.prems by (simp add: Cons.IH map_upt_Suc sum.atMost_Suc_shift ac_simps del: upt_Suc sum.atMost_Suc)
qed simp

definition sampled :: "nat \<Rightarrow> nat" where
  "sampled n = (let step = (if n \<le> 500 then 1 else n div 500) in (n - 1 + step - 1) div step)"

lemma sampled_small: "n < 1000 \<Longrightarrow> sampled n = n - 1"
proof (cases "n \<le> 500")
  case False
  assume "n < 1000"
  then have "n div 500 = 1" using False by (intro div_nat_eqI) simp_all
  then show ?thesis using False by (simp add: sampled_def)
qed (simp add: sampled_def)

lemma sampled_large: "1000 \<le> n \<Longrightarrow> sampled n \<le> 750"
proof (cases "n < 1000")
  case False
  let ?s = "n div 500"
  have s: "?s \<ge> 2" using False by simp
  have "n < 500 * ?s + 500" by arith
  then have "n - 1 + ?s - 1 < 751 * ?s" using s by simp
  then have "(n - 1 + ?s - 1) div ?s < 751" using s by (simp add: div_less_iff_less_mult)
  then show ?thesis using False by (simp add: sampled_def Let_def)
qed simp

lemma sampled_bound: "sampled n \<le> 998"
  using sampled_small [of n] sampled_large [of n] by (cases "n < 1000") simp_all

lemma sampled_half: "1000 \<le> n \<Longrightarrow> sampled n \<le> n div 2"
proof (cases "n < 1500")
  case True
  assume "1000 \<le> n"
  then have "n div 500 = 2" using True by simp
  then show ?thesis using \<open>1000 \<le> n\<close> by (simp add: sampled_def)
next
  case False
  then show ?thesis using sampled_bound [of n] sampled_large [of n] by simp
qed

lemma sampled_steps:
  assumes "chain_rep S ch bs"
  shows "(unat (bc_height ch) + max (supply_step ch) 1 - 1) div max (supply_step ch) 1 = sampled (length bs)"
proof -
  have "max (supply_step ch) 1 = (if length bs \<le> 500 then 1 else length bs div 500)"
    by (simp add: supply_step_def total_blocks_length [OF assms] max_def) linarith
  then show ?thesis by (simp add: chain_repD(3) [OF assms] sampled_def Let_def)
qed

lemma sampled_in_chain:
  assumes "chain_rep S ch bs" "j < sampled (length bs)"
  shows "Suc (j * max (supply_step ch) 1) < length bs"
proof -
  let ?step = "max (supply_step ch) 1"
  have pos: "0 < ?step" by simp
  have "Suc j * ?step \<le> sampled (length bs) * ?step" using assms(2) by (simp only: mult_le_mono1 Suc_leI)
  also have "\<dots> \<le> unat (bc_height ch) + ?step - 1" unfolding sampled_steps [OF assms(1), symmetric] by simp
  finally have "j * ?step < unat (bc_height ch)" using pos unfolding mult_Suc by linarith
  then show ?thesis using chain_repD(1,3) [OF assms(1)] by (cases bs) simp_all
qed

lemma supply_history_points:
  assumes "chain_rep S (nd_chain st) bs"
  defines "step \<equiv> max (supply_step (nd_chain st)) 1"
  defines "at j \<equiv> bs ! (1 + j * step)"
  shows "get_supply_history S st =
    \<lparr>sp_block_index = 0, sp_timestamp_ms = blk_timestamp (hd bs), sp_reward = 0,
      sp_cumulative_supply = PREMINE_BALANCE\<rparr> #
    map (\<lambda>j. \<lparr>sp_block_index = blk_index (at j), sp_timestamp_ms = blk_timestamp (at j),
              sp_reward = blk_reward (at j),
              sp_cumulative_supply = PREMINE_BALANCE + (\<Sum>k\<le>j. blk_reward (at k))\<rparr>)
      [0..<sampled (length bs)]"
proof -
  note R = chain_repD [OF assms(1)]
  let ?h = "unat (bc_height (nd_chain st))" and ?f = "\<lambda>i :: u64. bs ! unat i"
  have n: "(?h + step - 1) div step = sampled (length bs)"
    unfolding step_def by (rule sampled_steps [OF assms(1)])
  note inb = sampled_in_chain [OF assms(1), folded step_def]
  have u: "unat (of_nat (Suc (j * step)) :: u64) = Suc (j * step)" if "j < sampled (length bs)" for j
    by (rule unat_of_nat_small) (use inb [OF that] R(2) in simp)
  have rng: "stepped_range ?h step = map (\<lambda>j. of_nat (1 + j * step)) [0..<sampled (length bs)]"
    by (simp only: stepped_range_def n)
  have "list_all (\<lambda>i. block_at S (nd_chain st) i = Some (?f i)) (stepped_range ?h step)"
    unfolding rng by (auto simp: list_all_iff R(4) u inb simp del: of_nat_Suc of_nat_add of_nat_mult)
  note L = supply_loop_blocks [OF this, of PREMINE_BALANCE]
  have "supply_loop S (nd_chain st) (stepped_range ?h step) PREMINE_BALANCE =
     map (\<lambda>j. \<lparr>sp_block_index = blk_index (at j), sp_timestamp_ms = blk_timestamp (at j),
              sp_reward = blk_reward (at j),
              sp_cumulative_supply = PREMINE_BALANCE + (\<Sum>k\<le>j. blk_reward (at k))\<rparr>)
      [0..<sampled (length bs)]"
    unfolding L unfolding rng
    by (intro map_cong) (auto simp: u at_def simp del: of_nat_Suc of_nat_add of_nat_mult cong: sum.cong_simp)
  moreover have "block_at S (nd_chain st) 0 = Some (hd bs)" using R(1) by (simp add: R(4) hd_conv_nth)
  ultimately show ?thesis by (simp add: get_supply_history_def Let_def step_def)
qed

text \<open>
  the supply history counts only the blocks it samples. With the fixed reward in every block
  after the first, its last point is exact for chains of less than 1000 blocks, the premine plus one reward
  per block; on a longer chain it reports the rewards of at most half of the blocks. There are never more than 999 points.
\<close>
theorem supply_history_undercounts:
  assumes "chain_rep S (nd_chain st) bs" "\<forall>b \<in> set (tl bs). blk_reward b = TESTNET_REWARD"
  shows "\<exists>n. sp_cumulative_supply (last (get_supply_history S st)) = PREMINE_BALANCE + of_nat n * TESTNET_REWARD
    \<and> length (get_supply_history S st) = Suc n \<and> n \<le> 998
    \<and> (if length bs < 1000 then n = length bs - 1 else n \<le> length bs div 2)"
proof -
  let ?n = "sampled (length bs)" and ?s = "max (supply_step (nd_chain st)) 1"
  have in_tl: "blk_reward (bs ! (1 + j * ?s)) = TESTNET_REWARD" if "Suc (j * ?s) < length bs" for j
  proof -
    have "bs ! (1 + j * ?s) = tl bs ! (j * ?s)" using that by (simp add: nth_tl)
    then show ?thesis using that assms(2) by simp
  qed
  have "sp_cumulative_supply (last (get_supply_history S st)) = PREMINE_BALANCE + of_nat ?n * TESTNET_REWARD"
  proof (cases ?n)
    case 0
    then show ?thesis by (simp add: supply_history_points [OF assms(1)])
  next
    case (Suc m)
    have "(\<Sum>k\<le>m. blk_reward (bs ! (1 + k * ?s))) = (\<Sum>k\<le>m. TESTNET_REWARD)"
      by (intro sum.cong refl in_tl sampled_in_chain [OF assms(1)]) (use Suc in simp)
    then show ?thesis by (simp add: supply_history_points [OF assms(1)] Suc)
  qed
  moreover have "length (get_supply_history S st) = Suc ?n" by (simp add: supply_history_points [OF assms(1)])
  ultimately show ?thesis
    using sampled_bound sampled_small [of "length bs"] sampled_half [of "length bs"] by auto
qed

theorem supply_history_undercounts_witness:
  "length (get_supply_history toy_storage
      (the (node_with toy_crypto toy_storage \<lparr>wl_signing_key = 3\<rparr> False toy_chain toy_ledger))) = 1"
proof -
  let ?st = "the (node_with toy_crypto toy_storage \<lparr>wl_signing_key = 3\<rparr> False toy_chain toy_ledger)"
  have "nd_chain ?st = toy_chain" using chain_rep_tip [OF toy_chain_rep] by (simp add: node_with_def)
  then show ?thesis
    using supply_history_undercounts [of toy_storage ?st "[genesis_block toy_crypto]"] toy_chain_rep by auto
qed

section \<open>Requests per minute\<close>

text \<open>The answers to requests of one address at the given times.\<close>

primrec rate_run :: "ip_addr \<Rightarrow> nat list \<Rightarrow> rate_map \<Rightarrow> bool list \<times> rate_map" where
  "rate_run ip [] m = ([], m)"
| "rate_run ip (t # ts) m = (let (ok, m) = check_rate_limit t (Some ip) m; (oks, m) = rate_run ip ts m
     in (ok # oks, m))"

definition rate_exempt :: "ip_addr \<Rightarrow> bool" where
  "rate_exempt ip \<longleftrightarrow> is_loopback ip \<or> is_private ip"

lemma check_rate_exempt: "rate_exempt ip \<Longrightarrow> check_rate_limit now (Some ip) m = (True, m)"
  by (auto simp: check_rate_limit_def rate_exempt_def or_else_def)

lemma rate_run_exempt: "rate_exempt ip \<Longrightarrow> rate_run ip ts m = (replicate (length ts) True, m)"
  by (induction ts) (simp_all add: check_rate_exempt)

lemma rate_run_window:
  assumes "\<not> rate_exempt ip" "m ip = Some (of_nat c, start)"
    and "\<forall>t \<in> set ts. t - start \<le> RPC_WINDOW" "c + length ts < 2 ^ 32"
  shows "fst (rate_run ip ts m) = map (\<lambda>i. c + i < 600) [0..<length ts]
    \<and> (\<forall>j. j \<noteq> ip \<longrightarrow> snd (rate_run ip ts m) j = m j)"
  using assms(2-4)
proof (induction ts arbitrary: m c)
  case (Cons t ts)
  have add: "(of_nat c + 1 :: u32) = of_nat (Suc c)" by simp
  have c: "unat (of_nat (Suc c) :: u32) = Suc c"
    by (rule unat_of_nat_small) (use Cons.prems(3) in simp)
  let ?m = "m(ip \<mapsto> (of_nat (Suc c), start))"
  have step: "check_rate_limit t (Some ip) m = (c < 600, ?m)"
    using assms(1) Cons.prems(1,2)
    by (simp add: check_rate_limit_def rate_exempt_def or_else_def RPC_MAX_REQ_def word_less_nat_alt add c
        not_less del: of_nat_Suc) auto
  have "fst (rate_run ip ts ?m) = map (\<lambda>i. Suc c + i < 600) [0..<length ts]
      \<and> (\<forall>j. j \<noteq> ip \<longrightarrow> snd (rate_run ip ts ?m) j = ?m j)"
    by (rule Cons.IH) (use Cons.prems in auto)
  then show ?case by (simp add: step split_def map_upt_Suc del: upt_Suc)
qed simp

text \<open>
  of the requests an address sends within a minute of its first one, exactly the first 600
  are answered, and no other address is affected; requests from the machine itself and from
  addresses taken to be private are always answered and never counted. The server listens on
  the loopback address only, so all its requests are of that kind.
\<close>
theorem request_limit:
  assumes "m ip = None" "\<forall>t \<in> set ts. t - hd ts \<le> RPC_WINDOW" "length ts < 2 ^ 32"
  shows "fst (rate_run ip ts m) = map (\<lambda>i. rate_exempt ip \<or> i < 600) [0..<length ts]
    \<and> (\<forall>j. j \<noteq> ip \<or> rate_exempt ip \<longrightarrow> snd (rate_run ip ts m) j = m j)
    \<and> rate_exempt (IPv4 0x7F000001)"
proof -
  have lo: "rate_exempt (IPv4 0x7F000001)" by (simp add: rate_exempt_def) code_simp
  show ?thesis
  proof (cases "rate_exempt ip")
    case True
    then show ?thesis using lo by (simp add: rate_run_exempt map_replicate_const)
  next
    case False
    have first: "rate_run ip ts m = rate_run ip ts (m(ip \<mapsto> (of_nat 0, hd ts)))" if "ts \<noteq> []"
      using that False assms(1)
      by (cases ts) (simp_all add: check_rate_limit_def rate_exempt_def or_else_def)
    have "fst (rate_run ip ts (m(ip \<mapsto> (of_nat 0, hd ts)))) = map (\<lambda>i. 0 + i < 600) [0..<length ts]
        \<and> (\<forall>j. j \<noteq> ip \<longrightarrow> snd (rate_run ip ts (m(ip \<mapsto> (of_nat 0, hd ts)))) j = (m(ip \<mapsto> (of_nat 0, hd ts))) j)"
      by (rule rate_run_window [OF False]) (use assms(2,3) in simp_all)
    then show ?thesis using False first lo by (cases "ts = []") auto
  qed
qed

theorem request_limit_witness:
  "fst (rate_run (IPv4 0x08080808) [5, 7] Map.empty) = [True, True]"
  using request_limit [of Map.empty "IPv4 0x08080808" "[5, 7]"] by (simp add: RPC_WINDOW_def)

end
