(* ===== verification/Rpc_Props.thy ===== *)
theory Rpc_Props
  imports Rpc Pool_Node
begin

text \<open>
  Properties of the HTTP interface: the decision on a submitted transaction, two transactions
  that both get in and stop every block of a pool, the pages of blocks, the search for a
  transaction, the supply history and the limit on requests.
\<close>

section \<open>Submitted transactions\<close>

lemma ledger_sequence_next:
  "(case get_account L k of None \<Rightarrow> 1 | Some a \<Rightarrow> acc_sequence a + 1) = ledger_sequence L k + 1"
  by (simp add: get_account_def ledger_sequence_def account_mut_def acc_new_def split: option.split)

lemma rpc_submit_tx_cases:
  "rpc_submit_tx C t st =
     (if ledger_balance (nd_ledger st) (tx_sender t) < total_cost t
      then (Insufficient_Balance (ledger_balance (nd_ledger st) (tx_sender t)) (total_cost t), st, [])
      else if tx_sequence t \<noteq> ledger_sequence (nd_ledger st) (tx_sender t) + 1
      then (Invalid_Sequence (ledger_sequence (nd_ledger st) (tx_sender t) + 1) (tx_sequence t), st, [])
      else case mp_insert C t (nd_mempool st) of
         (Inr True, pool) \<Rightarrow> (Tx_Accepted, st\<lparr>nd_mempool := pool\<rparr>, [Broadcast (MsgTx t) None])
       | (Inr False, pool) \<Rightarrow> (Duplicate_Transaction, st, [])
       | (Inl e, pool) \<Rightarrow> (Invalid_Transaction e, st, []))"
proof -
  have same: "nd_mempool st = pool" if "mp_insert C t (nd_mempool st) = (r, pool)" "r \<noteq> Inr True" for r pool
    using pool.ins_same [OF that] by simp
  show ?thesis
    unfolding rpc_submit_tx_def Let_def ledger_sequence_next
    by (auto simp: broadcast_tx_def split: prod.split sum.split bool.split dest: same)
qed

text \<open>What a transaction must satisfy to be taken.\<close>

definition submittable :: "crypto \<Rightarrow> 'd node \<Rightarrow> transaction \<Rightarrow> bool" where
  "submittable C st t \<longleftrightarrow> total_cost t \<le> ledger_balance (nd_ledger st) (tx_sender t)
     \<and> tx_sequence t = ledger_sequence (nd_ledger st) (tx_sender t) + 1
     \<and> \<not> mp_contains (nd_mempool st) (tx_hash_hex C t) \<and> tx_good C t"

definition with_pending :: "crypto \<Rightarrow> transaction \<Rightarrow> 'd node \<Rightarrow> 'd node" where
  "with_pending C t st = st\<lparr>nd_mempool := (nd_mempool st)
     \<lparr>mp_txs := (mp_txs (nd_mempool st))(tx_hash_hex C t \<mapsto> t)\<rparr>\<rparr>"

lemma with_pending_simps [simp]:
  "nd_ledger (with_pending C t st) = nd_ledger st" "nd_chain (with_pending C t st) = nd_chain st"
  "nd_chain_height (with_pending C t st) = nd_chain_height st"
  "mp_txs (nd_mempool (with_pending C t st)) = (mp_txs (nd_mempool st))(tx_hash_hex C t \<mapsto> t)"
  by (simp_all add: with_pending_def)

lemma rpc_submit_tx_accepts:
  "submittable C st t \<Longrightarrow> rpc_submit_tx C t st = (Tx_Accepted, with_pending C t st, [Broadcast (MsgTx t) None])"
  by (auto simp: rpc_submit_tx_cases submittable_def mp_insert_def tx_good_def is_ok_iff Let_def
      with_pending_def not_less)

lemma rpc_submit_tx_refuses:
  "\<not> submittable C st t \<Longrightarrow> \<exists>ans. ans \<noteq> Tx_Accepted \<and> rpc_submit_tx C t st = (ans, st, [])"
  by (auto simp: rpc_submit_tx_cases submittable_def mp_insert_def tx_good_def is_ok_iff Let_def not_less
      split: sum.split)

text \<open>What the pool answers, down to the primitives.\<close>

lemma mp_insert_decision:
  "mp_insert C t p =
     (if mp_contains p (tx_hash_hex C t) then (Inr False, p)
      else if \<not> vk_from_bytes_ok C (tx_sender t) then (Inl (Bad_Signature (KeyError None)), p)
      else if \<not> ed_verify C (tx_sender t) (to_bytes_for_signing t) (tx_signature t)
      then (Inl (Bad_Signature InvalidSignature), p)
      else if seq_hash C (to_bytes_for_posc t) (tx_posc_steps t) \<noteq> tx_posc_proof t then (Inl (Bad_Posc InvalidPosc), p)
      else (Inr True, p\<lparr>mp_txs := (mp_txs p)(tx_hash_hex C t \<mapsto> t)\<rparr>))"
  by (simp add: mp_insert_def tx_verify_signature_def Wallet.verify_signature_def posc_verify_def Let_def)

lemma less_total_cost:
  "b < total_cost t \<longleftrightarrow> unat b < min (unat (tx_amount t) + unat (tx_fee t)) (2 ^ 64 - 1)"
  by (simp only: word_less_nat_alt unat_total_cost)

text \<open>
  C34: the answer to a submitted transaction, check by check and in this order: the sender cannot
  pay amount and fee now; the sequence number is not the sender's next; the pool has a transaction of
  this hash; the sender is no public key; the signature is wrong; the proof of sequential computation
  is wrong. Each has its own answer, with the numbers that caused it, and changes nothing. Otherwise
  the transaction enters the pool under its hash and is sent to every peer, and submitting it again is
  answered with \<open>Duplicate_Transaction\<close>. Nothing else is looked at: not that the fee is positive, not
  the timestamp, not the length of the memo.
\<close>
theorem submit_tx_decision:
  "rpc_submit_tx C t st =
     (let balance = ledger_balance (nd_ledger st) (tx_sender t);
          expected = ledger_sequence (nd_ledger st) (tx_sender t) + 1 in
      if unat balance < min (unat (tx_amount t) + unat (tx_fee t)) (2 ^ 64 - 1)
      then (Insufficient_Balance balance (total_cost t), st, [])
      else if tx_sequence t \<noteq> expected then (Invalid_Sequence expected (tx_sequence t), st, [])
      else if mp_contains (nd_mempool st) (tx_hash_hex C t) then (Duplicate_Transaction, st, [])
      else if \<not> vk_from_bytes_ok C (tx_sender t)
      then (Invalid_Transaction (Bad_Signature (KeyError None)), st, [])
      else if \<not> ed_verify C (tx_sender t) (to_bytes_for_signing t) (tx_signature t)
      then (Invalid_Transaction (Bad_Signature InvalidSignature), st, [])
      else if seq_hash C (to_bytes_for_posc t) (tx_posc_steps t) \<noteq> tx_posc_proof t
      then (Invalid_Transaction (Bad_Posc InvalidPosc), st, [])
      else (Tx_Accepted, with_pending C t st, [Broadcast (MsgTx t) None]))
   \<and> (fst (rpc_submit_tx C t st) = Tx_Accepted \<longleftrightarrow> submittable C st t)
   \<and> (fst (rpc_submit_tx C t st) = Tx_Accepted \<longrightarrow>
        rpc_submit_tx C t (fst (snd (rpc_submit_tx C t st))) = (Duplicate_Transaction, with_pending C t st, []))"
proof -
  have again: "rpc_submit_tx C t (with_pending C t st) = (Duplicate_Transaction, with_pending C t st, [])"
    if "submittable C st t"
    using that by (simp add: rpc_submit_tx_cases submittable_def mp_insert_decision mp_contains_def not_less)
  have iff: "fst (rpc_submit_tx C t st) = Tx_Accepted \<longleftrightarrow> submittable C st t"
    using rpc_submit_tx_accepts [of C st t] rpc_submit_tx_refuses [of C st t] by fastforce
  moreover have "fst (rpc_submit_tx C t st) = Tx_Accepted \<longrightarrow>
      rpc_submit_tx C t (fst (snd (rpc_submit_tx C t st))) = (Duplicate_Transaction, with_pending C t st, [])"
    using again rpc_submit_tx_accepts [of C st t] iff by auto
  ultimately show ?thesis
    unfolding rpc_submit_tx_cases mp_insert_decision less_total_cost [symmetric]
    by (simp add: Let_def with_pending_def)
qed

text \<open>A second transaction with the same sender and number, but another recipient and hash.\<close>

definition other_tx :: transaction where "other_tx = good_tx\<lparr>tx_recipient := arr32 (1 # replicate 31 0)\<rparr>"

lemma other_tx_simps [simp]:
  "tx_sender other_tx = 1" "tx_sequence other_tx = 1" "total_cost other_tx = 35"
  using good_tx_simps(6) by (simp_all add: other_tx_def total_cost_def del: good_tx_simps(6))

lemma bytes32_2: "bytes32 2 = replicate 31 0 @ [2]"
  by (simp add: bytes32_def) code_simp

lemma other_tx_good: "tx_good toy_crypto other_tx"
proof -
  obtain s where "seq_hash toy_crypto (to_bytes_for_posc other_tx) (tx_posc_steps other_tx)
      = finalize_state toy_crypto (to_bytes_for_posc other_tx) s"
    using seq_hash_form by blast
  then have "seq_hash toy_crypto (to_bytes_for_posc other_tx) (tx_posc_steps other_tx) = 1"
    by (cases s) (simp add: finalize_state_def sha3_256_def toy_crypto_def to_bytes_for_posc_def other_tx_def
        good_tx_def toy_tx_def byte1_def bytes32_1)
  moreover have "tx_posc_proof other_tx = 1" by (simp add: other_tx_def good_tx_def)
  ultimately show ?thesis
    by (simp add: tx_good_def posc_verify_def tx_verify_signature_def Wallet.verify_signature_def toy_crypto_def
        other_tx_def good_tx_def toy_tx_def)
qed

lemma toy_hash_values: "tx_hash toy_crypto good_tx = 1" "tx_hash toy_crypto other_tx = 257"
  by (simp_all add: tx_hash_def sha3_256_def toy_crypto_def to_bytes_for_hash_def to_bytes_for_signing_def
      to_bytes_for_posc_def other_tx_def good_tx_def toy_tx_def byte1_def bytes32_1 bytes32_2 bytes32_arr32)

lemma toy_hashes_differ: "tx_hash_hex toy_crypto good_tx \<noteq> tx_hash_hex toy_crypto other_tx"
proof
  assume "tx_hash_hex toy_crypto good_tx = tx_hash_hex toy_crypto other_tx"
  then have "bytes32 1 = bytes32 257"
    unfolding tx_hash_hex_def toy_hash_values using hex_decode_encode [OF toy_hex_ok] by (metis option.inject)
  then have "arr32 (bytes32 1) = arr32 (bytes32 257)" by simp
  then show False by simp
qed

lemma toy_submittable: "submittable toy_crypto toy_node good_tx"
  using good_tx_good by (simp add: submittable_def mp_contains_def mp_new_def word_le_nat_alt)

theorem submit_tx_decision_witness:
  "\<exists>st out. rpc_submit_tx toy_crypto good_tx toy_node = (Tx_Accepted, st, out)
     \<and> rpc_submit_tx toy_crypto good_tx st = (Duplicate_Transaction, st, [])"
proof -
  obtain ans st' out where run: "rpc_submit_tx toy_crypto good_tx toy_node = (ans, st', out)"
    by (metis prod_cases3)
  note again = conjunct2 [OF conjunct2 [OF submit_tx_decision [of toy_crypto good_tx toy_node]]]
    and iff = conjunct1 [OF conjunct2 [OF submit_tx_decision [of toy_crypto good_tx toy_node]]]
  have "ans = Tx_Accepted" using iff toy_submittable run by simp
  moreover have "st' = with_pending toy_crypto good_tx toy_node"
    using rpc_submit_tx_accepts [OF toy_submittable] run by simp
  ultimately show ?thesis using again run by auto
qed

section \<open>Two transactions for one number\<close>

lemma conflicting_txs_fail:
  assumes "t \<in> set ts" "u \<in> set ts" "t \<noteq> u" "length ts < 2 ^ 63"
    and "tx_sender u = tx_sender t" "tx_sequence u = tx_sequence t"
  shows "\<exists>e M. apply_txs (apply_tx C) ts L = (Inl e, M)"
proof -
  obtain pre x post y where ts: "ts = pre @ x # post" "y \<in> set post"
      "tx_sender y = tx_sender x" "tx_sequence y = tx_sequence x"
  proof -
    obtain p q where tq: "ts = p @ t # q" using split_list [OF assms(1)] by blast
    show ?thesis
    proof (cases "u \<in> set q")
      case True
      then show ?thesis using that [OF tq] assms(5,6) by simp
    next
      case False
      then have "u \<in> set p" using assms(2,3) tq by auto
      then obtain p1 p2 where "p = p1 @ u # p2" using split_list by fastforce
      then show ?thesis using that [of p1 u "p2 @ t # q" t] tq assms(5,6) by simp
    qed
  qed
  obtain r M where pre: "apply_txs (apply_tx C) pre L = (r, M)" by fastforce
  obtain r1 M1 where x: "apply_tx C M x = (r1, M1)" by fastforce
  show ?thesis
  proof (cases "is_ok r \<and> is_ok r1")
    case True
    then have "M1 = tx_effect C M x" using apply_tx_Inr(4) x by (auto simp: is_ok_iff)
    then have "ledger_sequence M1 (tx_sender y) = tx_sequence y" using ts(3,4) by (simp add: tx_effect_obs)
    then have "\<exists>e N. apply_txs (apply_tx C) post M1 = (Inl e, N)"
      using block_with_spent_tx ts(1,2) assms(4) by auto
    then show ?thesis using True pre x by (auto simp: ts(1) apply_txs_append is_ok_iff)
  next
    case False
    then show ?thesis using pre x
      by (cases r; cases r1) (auto simp: ts(1) apply_txs_append)
  qed
qed

text \<open>Where two such transactions are pending, blocks with both and all blocks of pools are refused.\<close>

lemma conflicting_pending_refused:
  assumes "storage_ok S" "chain_rep S (nd_chain st) bs" "length bs + 1 < 2 ^ 64"
    and "t \<noteq> u" "tx_sender u = tx_sender t" "tx_sequence u = tx_sequence t"
  shows "{t, u} \<subseteq> set (blk_transactions b) \<Longrightarrow> length (blk_transactions b) < 2 ^ 63 \<Longrightarrow>
      \<exists>L. apply_block C S now (nd_chain st) b (nd_ledger st) = (Inl (Err InvalidBlock), nd_chain st, L)"
    and "block_submitter C E order account pending (node_accepts body_len C S NE st) (i, P) = (r, j, P') \<Longrightarrow>
      {t, u} \<subseteq> set pending \<Longrightarrow> length pending + length order < 2 ^ 63 \<Longrightarrow>
      j = i \<and> ps_blocks_found P' = ps_blocks_found P \<and> (\<forall>b ok. r = Some (b, ok) \<longrightarrow> \<not> ok)"
proof -
  show refused: "\<exists>L. apply_block C S now (nd_chain st) b (nd_ledger st) = (Inl (Err InvalidBlock), nd_chain st, L)"
    if both: "{t, u} \<subseteq> set (blk_transactions b)" "length (blk_transactions b) < 2 ^ 63" for b now
  proof -
    obtain e M where "apply_txs (apply_tx C) (blk_transactions b)
        (apply_coinbase C (nd_ledger st) (blk_miner b) (blk_reward b)) = (Inl e, M)"
      using conflicting_txs_fail [OF _ _ assms(4) both(2) assms(5,6)] both(1) by blast
    then show ?thesis by (rule inapplicable_block_refused [OF assms(1-3)])
  qed
  assume run: "block_submitter C E order account pending (node_accepts body_len C S NE st) (i, P) = (r, j, P')"
    and pend: "{t, u} \<subseteq> set pending" "length pending + length order < 2 ^ 63"
  have "\<not> node_accepts body_len C S NE st (final_block f ts pending)" if "length ts \<le> length order" for f ts
    using refused [of "final_block f ts pending" "ev_unix_ms NE"] that pend
    by (auto simp: node_accepts_iff final_block_def)
  then show "j = i \<and> ps_blocks_found P' = ps_blocks_found P \<and> (\<forall>b ok. r = Some (b, ok) \<longrightarrow> \<not> ok)"
    by (rule submitter_refused [OF run])
qed

text \<open>
  C11: the interface lets one account stop every pool: it takes two different transactions of
  one sender for the same number, each of which the balance covers, because it compares them with the
  ledger and not with the pool. From then on every block with both is refused, and pools put all pending
  transactions of the node into their blocks, so nothing they submit is accepted.
\<close>
theorem conflicting_txs_stop_pools:
  assumes "storage_ok S" "chain_rep S (nd_chain st) bs" "length bs + 1 < 2 ^ 64"
    and "submittable C st t" "submittable C st u" "tx_hash_hex C u \<noteq> tx_hash_hex C t"
    and "tx_sender u = tx_sender t" "tx_sequence u = tx_sequence t"
    and "rpc_submit_tx C t st = (ans1, st1, out1)" "rpc_submit_tx C u st1 = (ans2, st2, out2)"
    and "block_submitter C E order account pending (node_accepts body_len C S NE st2) (i, P) = (r, j, P')"
    and "set pending = mp_all_txs (nd_mempool st2)" "length pending + length order < 2 ^ 63"
  shows "ans1 = Tx_Accepted \<and> ans2 = Tx_Accepted
    \<and> (\<forall>b. {t, u} \<subseteq> set (blk_transactions b) \<longrightarrow> length (blk_transactions b) < 2 ^ 63 \<longrightarrow>
         (\<exists>L. apply_block C S now (nd_chain st2) b (nd_ledger st2) = (Inl (Err InvalidBlock), nd_chain st2, L)))
    \<and> j = i \<and> ps_blocks_found P' = ps_blocks_found P \<and> (\<forall>b ok. r = Some (b, ok) \<longrightarrow> \<not> ok)"
proof -
  have 1: "ans1 = Tx_Accepted" "st1 = with_pending C t st"
    using rpc_submit_tx_accepts [OF assms(4)] assms(9) by simp_all
  have "submittable C st1 u" using assms(5,6) by (simp add: submittable_def 1 mp_contains_def)
  then have 2: "ans2 = Tx_Accepted" "st2 = with_pending C u st1"
    using rpc_submit_tx_accepts assms(10) by fastforce+
  have st2: "nd_chain st2 = nd_chain st" by (simp add: 1 2)
  have ne: "t \<noteq> u" using assms(6) by auto
  note refused = conflicting_pending_refused [OF assms(1) _ assms(3) ne assms(7,8), of st2, unfolded st2, OF assms(2)]
  have "{t, u} \<subseteq> set pending"
    using assms(6,12) by (simp add: 1 2 mp_all_txs_def ran_map_upd) (auto simp: ran_def)
  then have "j = i \<and> ps_blocks_found P' = ps_blocks_found P \<and> (\<forall>b ok. r = Some (b, ok) \<longrightarrow> \<not> ok)"
    using refused(2) [OF assms(11)] assms(13) by blast
  then show ?thesis unfolding st2 using 1(1) 2(1) refused(1) by blast
qed

text \<open>The two transactions, submitted one after the other to a fresh node, and a pool that asks it.\<close>

lemma toy_second: "\<exists>st1 out1 st2 out2. rpc_submit_tx toy_crypto good_tx toy_node = (Tx_Accepted, st1, out1)
    \<and> rpc_submit_tx toy_crypto other_tx st1 = (Tx_Accepted, st2, out2)
    \<and> mp_all_txs (nd_mempool st2) = {good_tx, other_tx}"
proof -
  let ?st1 = "with_pending toy_crypto good_tx toy_node"
  have 1: "rpc_submit_tx toy_crypto good_tx toy_node = (Tx_Accepted, ?st1, [Broadcast (MsgTx good_tx) None])"
    by (rule rpc_submit_tx_accepts [OF toy_submittable])
  have "submittable toy_crypto ?st1 other_tx"
    using other_tx_good toy_hashes_differ by (simp add: submittable_def mp_contains_def mp_new_def word_le_nat_alt)
  note 2 = rpc_submit_tx_accepts [OF this]
  have "mp_all_txs (nd_mempool (with_pending toy_crypto other_tx ?st1)) = {good_tx, other_tx}"
    using toy_hashes_differ by (auto simp: mp_all_txs_def mp_new_def ran_map_upd)
  then show ?thesis using 1 2 by blast
qed

theorem conflicting_txs_stop_pools_witness:
  "\<exists>st1 out1 st2 out2. rpc_submit_tx toy_crypto good_tx toy_node = (Tx_Accepted, st1, out1)
    \<and> rpc_submit_tx toy_crypto other_tx st1 = (Tx_Accepted, st2, out2)
    \<and> (\<nexists>b. fst (block_submitter toy_crypto toy_pool_env [address_from_pubkey toy_crypto 5] None
          [good_tx, other_tx] (node_accepts (\<lambda>_. 900) toy_crypto toy_storage toy_env st2) (0, paid_pool)) = Some (b, True))"
proof -
  obtain st1 out1 st2 out2 where subs: "rpc_submit_tx toy_crypto good_tx toy_node = (Tx_Accepted, st1, out1)"
      "rpc_submit_tx toy_crypto other_tx st1 = (Tx_Accepted, st2, out2)"
      "mp_all_txs (nd_mempool st2) = {good_tx, other_tx}"
    using toy_second by blast
  obtain r j P' where run: "block_submitter toy_crypto toy_pool_env [address_from_pubkey toy_crypto 5] None
      [good_tx, other_tx] (node_accepts (\<lambda>_. 900) toy_crypto toy_storage toy_env st2) (0, paid_pool) = (r, j, P')"
    by (metis prod_cases3)
  have "submittable toy_crypto toy_node other_tx"
    using other_tx_good by (simp add: submittable_def mp_contains_def mp_new_def word_le_nat_alt)
  then have "\<forall>b ok. r = Some (b, ok) \<longrightarrow> \<not> ok"
    using conflicting_txs_stop_pools [OF toy_storage_ok _ _ toy_submittable _ toy_hashes_differ [symmetric] _ _
        subs(1,2) run, of "[genesis_block toy_crypto]" 0] toy_chain_rep subs(3)
    by auto
  then show ?thesis using subs by (auto simp: run)
qed

end
