(* ===== verification/Cli.thy ===== *)
theory Cli
  imports Rpc Pool
begin

text \<open>
  The command line program (cli/src/main.rs): the wallet file, the command that sends coins
  through the interface of a running node, the miner threads that work for a pool, the miner threads built into
  a node, and the file in which a node leaves its status (node/src/state_file.rs). A thread is a
  record of its local variables and a step function for one turn of its loop; printing is left
  out. The file system, the JSON library, the random generator and the clock are arguments.
\<close>

section \<open>The wallet file\<close>

text \<open>The \<open>expect\<close>s of \<open>load_or_create_wallet\<close> are the panic \<open>None\<close>; a file is its text.\<close>

record wallet_json =
  wj_print :: "wallet_file \<Rightarrow> string"
  wj_parse :: "string \<Rightarrow> wallet_file option"

definition wallet_json_ok :: "wallet_json \<Rightarrow> bool" where
  "wallet_json_ok J \<longleftrightarrow> (\<forall>f. wj_parse J (wj_print J f) = Some f)"

definition load_or_create_wallet ::
    "crypto \<Rightarrow> wallet_json \<Rightarrow> wallet \<Rightarrow> bool \<Rightarrow> string option \<Rightarrow> wallet option \<times> string option" where
  "load_or_create_wallet C J fresh write_ok file = (case file of
     Some content \<Rightarrow>
       (case wj_parse J content of
          None \<Rightarrow> (None, file)
        | Some f \<Rightarrow>
            (case wallet_from_hex C (wf_private_key_hex f) of
               Inl _ \<Rightarrow> (None, file)
             | Inr w \<Rightarrow> (Some w, file)))
   | None \<Rightarrow>
       if write_ok then (Some fresh, Some (wj_print J (wallet_to_file C fresh))) else (None, None))"

section \<open>Sending coins\<close>

definition parse_tar1_address :: "crypto \<Rightarrow> string \<Rightarrow> hash32 option" where
  "parse_tar1_address C addr =
     (if length addr \<noteq> 68 \<or> take 4 addr \<noteq> ''tar1'' then None
      else case hex_decode C (drop 4 addr) of
        None \<Rightarrow> None
      | Some bs \<Rightarrow> if length bs \<noteq> 32 then None else Some (arr32 bs))"

text \<open>
  The body the node answers with: \<open>None\<close> when it cannot be reached, inside it the account, or
  \<open>null\<close>, in which the sequence is read as zero.
\<close>

datatype send_outcome =
    Invalid_Address
  | Node_Unreachable
  | Build_Failed taron_error
  | Submit (so_tx: transaction)

definition cli_send ::
    "crypto \<Rightarrow> 'f floats \<Rightarrow> u64 \<Rightarrow> wallet \<Rightarrow> string \<Rightarrow> 'f \<Rightarrow> account_response option option \<Rightarrow> send_outcome" where
  "cli_send C F now w dest amount reply =
     (let amount_utar = f_to_u64 F (f_mul F amount (f_lit F 1000000 0)) in
      case parse_tar1_address C dest of
        None \<Rightarrow> Invalid_Address
      | Some recipient_bytes \<Rightarrow>
          (case reply of
             None \<Rightarrow> Node_Unreachable
           | Some body \<Rightarrow>
               let seq = (case body of None \<Rightarrow> 0 | Some r \<Rightarrow> ar_sequence r);
                   b = tb_new w;
                   b = tb_set_recipient recipient_bytes b;
                   b = tb_set_amount amount_utar b;
                   b = tb_set_sequence (seq + 1) b
               in case build_and_prove C now b of
                    Inl e \<Rightarrow> Build_Failed e
                  | Inr tx \<Rightarrow> Submit tx))"

text \<open>The command against a node: the account is asked for, then the transaction is submitted.\<close>

definition send_to_node ::
    "crypto \<Rightarrow> ('d, 'v) storage \<Rightarrow> 'f floats \<Rightarrow> u64 \<Rightarrow> wallet \<Rightarrow> string \<Rightarrow> 'f \<Rightarrow> 'd node
       \<Rightarrow> (transaction \<times> submit_tx_answer) option \<times> 'd node \<times> effect list" where
  "send_to_node C S F now w dest amount st =
     (let reply = (case get_account_by_address C S (wallet_address C w) st of
                     Inl _ \<Rightarrow> None | Inr body \<Rightarrow> Some body) in
      case cli_send C F now w dest amount reply of
        Submit tx \<Rightarrow> (case rpc_submit_tx C tx st of (ans, st, out) \<Rightarrow> (Some (tx, ans), st, out))
      | _ \<Rightarrow> (None, st, []))"

section \<open>Mining for a pool\<close>

text \<open>Whose work it is: the key option, else the wallet; the address option, else what the key gives.\<close>

definition pool_identity ::
    "crypto \<Rightarrow> wallet \<Rightarrow> string option \<Rightarrow> string option \<Rightarrow> string \<times> string" where
  "pool_identity C w pubkey address =
     (let miner_pubkey_hex = or_else pubkey (hex_encode C (bytes32 (public_key C w)));
          miner_address = or_else address
            (case hex_decode C miner_pubkey_hex of
               None \<Rightarrow> wallet_address C w
             | Some bs \<Rightarrow> if length bs = 32 then address_from_pubkey C (arr32 bs) else wallet_address C w)
      in (miner_address, miner_pubkey_hex))"

record pool_thread =
  pt_nonce :: u64
  pt_block_index :: u64
  pt_pool_pubkey :: hash32
  pt_prev_hash :: hash32
  pt_timestamp :: u64
  pt_share_difficulty :: u32
  pt_prev_hash_hex :: string

definition pool_thread_start :: "u32 \<Rightarrow> u32 \<Rightarrow> pool_thread" where
  "pool_thread_start thread_id threads =
     \<lparr>pt_nonce = ucast thread_id * (- 1 div ucast threads), pt_block_index = 0, pt_pool_pubkey = 0,
      pt_prev_hash = 0, pt_timestamp = 0, pt_share_difficulty = 16, pt_prev_hash_hex = []\<rparr>"

text \<open>A text of 32 bytes replaces a key or hash, anything else leaves it.\<close>

definition copy_hex32 :: "crypto \<Rightarrow> string \<Rightarrow> hash32 \<Rightarrow> hash32" where
  "copy_hex32 C s old = (case hex_decode C s of
     None \<Rightarrow> old | Some b \<Rightarrow> if length b = 32 then arr32 b else old)"

text \<open>\<open>None\<close> is work that is locked or not there yet.\<close>

definition take_work :: "crypto \<Rightarrow> work_response option \<Rightarrow> pool_thread \<Rightarrow> pool_thread" where
  "take_work C shared_work m = (case shared_work of
     None \<Rightarrow> m
   | Some w \<Rightarrow>
       if wk_block_index w \<noteq> pt_block_index m
       then m\<lparr>pt_block_index := wk_block_index w, pt_share_difficulty := wk_share_difficulty w,
              pt_timestamp := wk_timestamp w, pt_prev_hash_hex := wk_prev_hash w,
              pt_pool_pubkey := copy_hex32 C (wk_pool_pubkey w) (pt_pool_pubkey m),
              pt_prev_hash := copy_hex32 C (wk_prev_hash w) (pt_prev_hash m)\<rparr>
       else m)"

definition thread_candidate :: "pool_thread \<Rightarrow> block" where
  "thread_candidate m =
     \<lparr>blk_index = pt_block_index m, blk_prev_hash = pt_prev_hash m, blk_timestamp = pt_timestamp m,
      blk_miner = pt_pool_pubkey m, blk_nonce = pt_nonce m, blk_hash = 0, blk_reward = TESTNET_REWARD,
      blk_transactions = []\<rparr>"

definition thread_share :: "string \<Rightarrow> string \<Rightarrow> string \<Rightarrow> pool_thread \<Rightarrow> share_request" where
  "thread_share miner_address miner_pubkey worker m =
     \<lparr>sq_miner_address = miner_address, sq_miner_pubkey = miner_pubkey, sq_worker_name = worker,
      sq_nonce = pt_nonce m, sq_block_index = pt_block_index m, sq_timestamp = pt_timestamp m,
      sq_prev_hash = pt_prev_hash_hex m\<rparr>"

definition pool_thread_step ::
    "crypto \<Rightarrow> string \<Rightarrow> string \<Rightarrow> string \<Rightarrow> work_response option \<Rightarrow> pool_thread
       \<Rightarrow> share_request option \<times> pool_thread" where
  "pool_thread_step C miner_address miner_pubkey worker shared_work m =
     (let m = take_work C shared_work m in
      if pt_block_index m = 0 then (None, m)
      else
        let h = hash_header C (thread_candidate m);
            share = (if meets_difficulty h (pt_share_difficulty m)
                     then Some (thread_share miner_address miner_pubkey worker m) else None)
        in (share, m\<lparr>pt_nonce := pt_nonce m + 1\<rparr>))"

text \<open>The thread that fetches work does not say which worker it is for.\<close>

definition fetch_work ::
    "crypto \<Rightarrow> 'f floats \<Rightarrow> u64 \<Rightarrow> string \<Rightarrow> 'f pool_state \<Rightarrow> work_response \<times> 'f pool_state" where
  "fetch_work C F now miner_address P = get_work C F now (Some miner_address) None P"

section \<open>Mining in the node\<close>

text \<open>Times are milliseconds; \<open>so_refreshed\<close> may lie before the start of the clock.\<close>

record solo_thread =
  so_nonce :: u64
  so_index :: u64
  so_prev_hash :: hash32
  so_difficulty :: u32
  so_txs :: "transaction list"
  so_refreshed :: int

definition solo_thread_start :: "nat \<Rightarrow> u32 \<Rightarrow> u32 \<Rightarrow> solo_thread" where
  "solo_thread_start now thread_id threads =
     \<lparr>so_nonce = ucast thread_id * - 1 div ucast threads, so_index = 0, so_prev_hash = 0,
      so_difficulty = 0, so_txs = [], so_refreshed = int now\<rparr>"

text \<open>The template is taken from the chain and the pool of the node; \<open>None\<close> is the panic of \<open>tip\<close>.\<close>

definition solo_refresh ::
    "('d, 'v) storage \<Rightarrow> env \<Rightarrow> 'd node \<Rightarrow> solo_thread \<Rightarrow> solo_thread option" where
  "solo_refresh S E st m =
     (if int (ev_now E) - so_refreshed m \<ge> 2000 \<or> so_index m = 0
      then (case chain_tip S (nd_chain st) of
              None \<Rightarrow> None
            | Some tip \<Rightarrow> Some (m\<lparr>so_index := blk_index tip + 1, so_prev_hash := blk_hash tip,
                so_difficulty := bc_difficulty (nd_chain st), so_txs := pending_txs E st,
                so_refreshed := int (ev_now E)\<rparr>))
      else Some m)"

definition solo_candidate :: "env \<Rightarrow> hash32 \<Rightarrow> solo_thread \<Rightarrow> block" where
  "solo_candidate E pubkey m =
     \<lparr>blk_index = so_index m, blk_prev_hash = so_prev_hash m, blk_timestamp = ev_unix_ms E,
      blk_miner = pubkey, blk_nonce = so_nonce m, blk_hash = 0, blk_reward = TESTNET_REWARD,
      blk_transactions = so_txs m\<rparr>"

text \<open>A solution is applied to the chain and the ledger of the node, whose caches it does not touch.\<close>

definition solo_apply ::
    "crypto \<Rightarrow> ('d, 'v) storage \<Rightarrow> env \<Rightarrow> block \<Rightarrow> 'd node \<Rightarrow> unit partial \<times> 'd node" where
  "solo_apply C S E candidate st =
     (case apply_block C S (ev_unix_ms E) (nd_chain st) candidate (nd_ledger st) of
        (Inr _, ch, L) \<Rightarrow>
          (Inr (), purge C (blk_transactions candidate) (st\<lparr>nd_chain := ch, nd_ledger := L\<rparr>))
      | (Inl (Err _), ch, L) \<Rightarrow> (Inr (), st\<lparr>nd_chain := ch, nd_ledger := L\<rparr>)
      | (Inl Panic, ch, L) \<Rightarrow> (Inl Panic, st\<lparr>nd_chain := ch, nd_ledger := L\<rparr>))"

text \<open>
  One turn of the loop: the block handed to the relay task, the thread, the node. The code gives the
  locks back between reading the template and applying the block; the turn is one step here, so what
  another task does to the node in between is not part of it. A template that is out of date by
  then is one that \<open>solo_apply\<close> refuses, as it does here for a state older than two seconds.
\<close>

definition solo_step ::
    "crypto \<Rightarrow> ('d, 'v) storage \<Rightarrow> env \<Rightarrow> hash32 \<Rightarrow> solo_thread \<times> 'd node
       \<Rightarrow> block option partial \<times> solo_thread \<times> 'd node" where
  "solo_step C S E pubkey = (\<lambda>(m, st). case solo_refresh S E st m of
     None \<Rightarrow> (Inl Panic, m, st)
   | Some m \<Rightarrow>
       let candidate = solo_candidate E pubkey m;
           h = hash_header C candidate
       in if meets_difficulty h (so_difficulty m)
          then
            let candidate = candidate\<lparr>blk_hash := h\<rparr>
            in case solo_apply C S E candidate st of
                 (Inl f, st) \<Rightarrow> (Inl f, m, st)
               | (Inr _, st) \<Rightarrow>
                   (Inr (Some candidate),
                    m\<lparr>so_refreshed := int (ev_now E) - 2000, so_nonce := so_nonce m + 1\<rparr>, st)
          else (Inr None, m\<lparr>so_nonce := so_nonce m + 1\<rparr>, st))"

text \<open>The relay task saves the node and sends the block to its peers.\<close>

definition relay_mined :: "block \<Rightarrow> 'd node \<Rightarrow> effect list" where
  "relay_mined b st = save_state st @ broadcast_block b"

section \<open>The status file\<close>

record node_state_file =
  sf_chain_height :: u64
  sf_best_hash :: string
  sf_peer_count :: nat
  sf_inbound_count :: nat
  sf_outbound_count :: nat
  sf_mempool_size :: nat
  sf_total_supply :: u64
  sf_uptime_secs :: u64
  sf_updated_at :: u64

record state_json =
  sj_print :: "node_state_file \<Rightarrow> string option"
  sj_parse :: "string \<Rightarrow> node_state_file option"

definition state_json_ok :: "state_json \<Rightarrow> bool" where
  "state_json_ok J \<longleftrightarrow> (\<forall>f s. sj_print J f = Some s \<longrightarrow> sj_parse J s = Some f)"

text \<open>A file that cannot be printed or written stays as it was.\<close>

definition state_file_save :: "state_json \<Rightarrow> bool \<Rightarrow> node_state_file \<Rightarrow> string option \<Rightarrow> string option" where
  "state_file_save J write_ok f file = (case sj_print J f of
     None \<Rightarrow> file | Some data \<Rightarrow> if write_ok then Some data else file)"

definition state_file_load :: "state_json \<Rightarrow> string option \<Rightarrow> node_state_file option" where
  "state_file_load J file = (case file of None \<Rightarrow> None | Some data \<Rightarrow> sj_parse J data)"

text \<open>What the periodic task of a running node writes.\<close>

definition status_snapshot :: "u16 \<Rightarrow> u64 \<Rightarrow> u64 \<Rightarrow> 'd node \<Rightarrow> node_state_file" where
  "status_snapshot listen_port elapsed now st = (let s = nd_status listen_port st in
     \<lparr>sf_chain_height = ns_chain_height s, sf_best_hash = ns_best_hash s, sf_peer_count = ns_peer_count s,
      sf_inbound_count = ns_inbound_count s, sf_outbound_count = ns_outbound_count s,
      sf_mempool_size = ns_mempool_size s, sf_total_supply = ns_total_supply s,
      sf_uptime_secs = elapsed, sf_updated_at = now\<rparr>)"

datatype liveness = Up (lv_uptime: u64) (lv_age: u64) | Last_Seen (lv_age: u64) | Not_Running

definition status_liveness :: "u64 \<Rightarrow> node_state_file option \<Rightarrow> liveness" where
  "status_liveness now live = (case live of
     None \<Rightarrow> Not_Running
   | Some f \<Rightarrow>
       let age = saturating_sub now (sf_updated_at f)
       in if age < 120 then Up (sf_uptime_secs f) age else Last_Seen age)"

end
