(* ===== verification/Cli_Send.thy ===== *)
theory Cli_Send
  imports Cli Rpc_Props Rpc_Reads
begin

text \<open>
  The wallet file, the command that sends coins, and the status file: what a user can rely on, and what two
  commands in a row do.
\<close>

section \<open>The wallet file\<close>

text \<open>
  the first start creates a wallet and every later start, whatever the random generator
  gives it, uses the same one and leaves the file alone.
\<close>
theorem wallet_survives_restart:
  assumes "hex_ok C" "wallet_json_ok J" "load_or_create_wallet C J fresh True None = (w, file)"
  shows "w = Some fresh \<and> load_or_create_wallet C J other ok file = (Some fresh, file)"
  using assms wallet_file_roundtrip [OF assms(1), of fresh]
  by (auto simp: load_or_create_wallet_def wallet_json_ok_def)

definition toy_wallet_json :: wallet_json where
  "toy_wallet_json = \<lparr>wj_print = wf_private_key_hex, wj_parse = (\<lambda>s. Some \<lparr>wf_private_key_hex = s\<rparr>)\<rparr>"

lemma toy_wallet_json_ok: "wallet_json_ok toy_wallet_json"
  by (simp add: wallet_json_ok_def toy_wallet_json_def)

theorem wallet_survives_restart_witness:
  "fst (load_or_create_wallet toy_crypto toy_wallet_json \<lparr>wl_signing_key = 9\<rparr> True
      (snd (load_or_create_wallet toy_crypto toy_wallet_json \<lparr>wl_signing_key = 3\<rparr> True None)))
    = Some \<lparr>wl_signing_key = 3\<rparr>"
  using wallet_survives_restart [OF toy_hex_ok toy_wallet_json_ok prod.collapse [symmetric],
      of "\<lparr>wl_signing_key = 3\<rparr>" "\<lparr>wl_signing_key = 9\<rparr>" True] by simp

section \<open>Addresses\<close>

lemma pubkey_from_own_address:
  "hex_ok C \<Longrightarrow> pubkey_from_address C (address_from_pubkey C pk) = Inr (Some pk)"
  unfolding pubkey_from_address_def address_from_pubkey_def strip_prefix_append
  by (simp add: hex_encode_length)

text \<open>
  the command reads an address exactly as the core library does.
\<close>
theorem parse_address_agrees:
  assumes "hex_ok C"
  shows "pubkey_from_address C a = Inr (parse_tar1_address C a)"
proof (cases "strip_prefix ''tar1'' a")
  case None
  then have "take 4 a \<noteq> ''tar1''" by (auto simp: strip_prefix_def numeral_eq_Suc)
  then show ?thesis using None by (simp add: pubkey_from_address_def parse_tar1_address_def)
next
  case (Some h)
  then have a: "a = ''tar1'' @ h" by (simp add: strip_prefix_Some)
  have f: "length a = 4 + length h" "take 4 a = ''tar1''" "drop 4 a = h" by (simp_all add: a)
  show ?thesis
    using hex_decode_length [OF assms, of h]
    by (auto simp: pubkey_from_address_def parse_tar1_address_def Some f split: option.split)
qed

theorem parse_address_agrees_witness:
  "parse_tar1_address toy_crypto (address_from_pubkey toy_crypto 5) = Some 5"
proof -
  have "pubkey_from_address toy_crypto (address_from_pubkey toy_crypto 5) = Inr (Some 5)"
    by (rule pubkey_from_own_address [OF toy_hex_ok])
  then show ?thesis using parse_address_agrees [OF toy_hex_ok, of "address_from_pubkey toy_crypto 5"] by simp
qed

lemma parse_tar1_own: "hex_ok C \<Longrightarrow> parse_tar1_address C (address_from_pubkey C k) = Some k"
  by (simp add: parse_tar1_address_def address_from_pubkey_def hex_encode_length numeral_eq_Suc)

section \<open>Sending\<close>

lemma own_address: "hex_ok C \<Longrightarrow> pubkey_from_address C (wallet_address C w) = Inr (Some (public_key C w))"
  by (simp add: wallet_address_def pubkey_from_own_address)

text \<open>The sequence the command reads is the one of the ledger.\<close>

lemma account_sequence_read:
  assumes "hex_ok C"
  shows "\<exists>body. get_account_by_address C S (wallet_address C w) st = Inr body
    \<and> (case body of None \<Rightarrow> 0 | Some r \<Rightarrow> ar_sequence r) = ledger_sequence (nd_ledger st) (public_key C w)"
  unfolding get_account_by_address_def own_address [OF assms]
  by (auto simp: get_account_def account_from_blocks_def Let_def ledger_sequence_def account_mut_def acc_new_def
      split: option.split)

text \<open>What is sent: the transaction, built from the ledger's account.\<close>

lemma send_to_node_form:
  assumes "hex_ok C" "ed_ok C"
  shows "send_to_node C S F now w dest amount st =
     (case parse_tar1_address C dest of
        None \<Rightarrow> (None, st, [])
      | Some k \<Rightarrow>
          (let b = tb_set_sequence (ledger_sequence (nd_ledger st) (public_key C w) + 1)
                 (tb_set_amount (f_to_u64 F (f_mul F amount (f_lit F 1000000 0)))
                   (tb_set_recipient k (tb_new w)));
               t = projr (build_and_prove C now b)
           in case rpc_submit_tx C t st of (ans, st, out) \<Rightarrow> (Some (t, ans), st, out)))"
proof -
  obtain body where body: "get_account_by_address C S (wallet_address C w) st = Inr body"
      "(case body of None \<Rightarrow> 0 | Some r \<Rightarrow> ar_sequence r) = ledger_sequence (nd_ledger st) (public_key C w)"
    using account_sequence_read [OF assms(1)] by blast
  have built: "\<exists>t. build_and_prove C now (tb_set_sequence q (tb_set_amount x (tb_set_recipient k (tb_new w)))) = Inr t"
    for q x k
    by (simp add: build_and_prove_def Let_def tb_new_def tb_set_sequence_def tb_set_amount_def
        tb_set_recipient_def MAX_TX_DATA_BYTES_def)
  show ?thesis
  proof (cases "parse_tar1_address C dest")
    case (Some k)
    obtain t where t: "build_and_prove C now (tb_set_sequence (ledger_sequence (nd_ledger st) (public_key C w) + 1)
        (tb_set_amount (f_to_u64 F (f_mul F amount (f_lit F 1000000 0))) (tb_set_recipient k (tb_new w)))) = Inr t"
      using built by blast
    show ?thesis
      by (simp add: Some send_to_node_def cli_send_def Let_def body(1) body(2) t)
  qed (simp add: send_to_node_def cli_send_def Let_def)
qed

lemma send_to_node_Some:
  assumes "hex_ok C" "ed_ok C" "send_to_node C S F now w dest amount st = (Some (t, ans), st', out)"
  shows "rpc_submit_tx C t st = (ans, st', out)" "is_ok (tx_verify_signature C t)" "is_ok (posc_verify C t)"
    "tx_sender t = public_key C w" "parse_tar1_address C dest = Some (tx_recipient t)"
    "tx_amount t = f_to_u64 F (f_mul F amount (f_lit F 1000000 0))" "tx_fee t = 1"
    "tx_sequence t = ledger_sequence (nd_ledger st) (public_key C w) + 1"
proof -
  obtain k where k: "parse_tar1_address C dest = Some k"
    using assms(3) unfolding send_to_node_form [OF assms(1,2)] by (auto split: option.splits)
  let ?b = "tb_set_sequence (ledger_sequence (nd_ledger st) (public_key C w) + 1)
      (tb_set_amount (f_to_u64 F (f_mul F amount (f_lit F 1000000 0))) (tb_set_recipient k (tb_new w)))"
  have ok: "build_and_prove C now ?b = Inr (projr (build_and_prove C now ?b))"
    by (simp add: build_and_prove_def Let_def tb_new_def tb_set_sequence_def tb_set_amount_def
        tb_set_recipient_def MAX_TX_DATA_BYTES_def)
  have t: "t = projr (build_and_prove C now ?b)" and run: "rpc_submit_tx C t st = (ans, st', out)"
    using assms(3) unfolding send_to_node_form [OF assms(1,2)] k Let_def by (auto split: prod.splits)
  show "rpc_submit_tx C t st = (ans, st', out)" by (rule run)
  note good = build_and_prove_good [OF assms(2) ok [folded t]]
  show "is_ok (tx_verify_signature C t)" "is_ok (posc_verify C t)" "tx_sender t = public_key C w"
    "parse_tar1_address C dest = Some (tx_recipient t)"
    "tx_amount t = f_to_u64 F (f_mul F amount (f_lit F 1000000 0))" "tx_fee t = 1"
    "tx_sequence t = ledger_sequence (nd_ledger st) (public_key C w) + 1"
    using good k by (simp_all add: tb_new_def tb_set_sequence_def tb_set_amount_def tb_set_recipient_def)
qed

lemma send_taken:
  assumes "hex_ok C" "ed_ok C" "parse_tar1_address C dest = Some k"
    and "u = f_to_u64 F (f_mul F amount (f_lit F 1000000 0))"
    and "unat u + 1 \<le> unat (ledger_balance (nd_ledger st) (public_key C w))"
  shows "\<exists>t ans st' out. send_to_node C S F now w dest amount st = (Some (t, ans), st', out)
    \<and> tx_recipient t = k \<and> tx_amount t = u \<and> tx_fee t = 1 \<and> tx_sender t = public_key C w
    \<and> tx_sequence t = ledger_sequence (nd_ledger st) (public_key C w) + 1
    \<and> (if mp_contains (nd_mempool st) (tx_hash_hex C t) then ans = Duplicate_Transaction \<and> st' = st
       else ans = Tx_Accepted \<and> mp_contains (nd_mempool st') (tx_hash_hex C t)
         \<and> out = [Broadcast (MsgTx t) None])"
proof -
  let ?t = "projr (build_and_prove C now
      (tb_set_sequence (ledger_sequence (nd_ledger st) (public_key C w) + 1)
        (tb_set_amount (f_to_u64 F (f_mul F amount (f_lit F 1000000 0))) (tb_set_recipient k (tb_new w)))))"
  obtain ans st' out where r: "rpc_submit_tx C ?t st = (ans, st', out)" by (metis prod_cases3)
  obtain t where "t = ?t" by simp
  then have run: "send_to_node C S F now w dest amount st = (Some (t, ans), st', out)"
    by (simp add: send_to_node_form [OF assms(1,2)] assms(3) r)
  note f = send_to_node_Some [OF assms(1,2) run]
  have "unat u + 1 < 2 ^ 64" using assms(5) unat_less_exp [of "ledger_balance (nd_ledger st) (public_key C w)"] by simp
  then have "unat (total_cost t) = unat u + 1"
    using f(6,7) assms(4) by (simp add: total_cost_def unat_saturating_add)
  then have cost: "total_cost t \<le> ledger_balance (nd_ledger st) (tx_sender t)"
    using assms(5) f(4) by (simp add: word_le_nat_alt)
  have good: "tx_good C t" using f(2,3) by (simp add: tx_good_def)
  have "if mp_contains (nd_mempool st) (tx_hash_hex C t) then ans = Duplicate_Transaction \<and> st' = st
       else ans = Tx_Accepted \<and> mp_contains (nd_mempool st') (tx_hash_hex C t)
         \<and> out = [Broadcast (MsgTx t) None]"
  proof (cases "mp_contains (nd_mempool st) (tx_hash_hex C t)")
    case True
    then show ?thesis using f(1,4,8) leD [OF cost] pool.ins_known [of "nd_mempool st" C t]
      by (simp add: rpc_submit_tx_cases)
  next
    case False
    then have "submittable C st t" using cost good f(4,8) by (simp add: submittable_def)
    then show ?thesis using f(1) False rpc_submit_tx_accepts [of C st t]
      by (auto simp: mp_contains_def with_pending_def)
  qed
  then show ?thesis using run f assms(3,4) by (intro exI [of _ t] exI [of _ ans] exI [of _ st'] exI [of _ out]) auto
qed

text \<open>
  sending works: with a valid address and an account that covers the amount and the fee of one,
  the command builds a transaction of that amount to that key with the account's next number,
  and the node takes it, unless it already has that very transaction.
\<close>
theorem send_accepted:
  assumes "hex_ok C" "ed_ok C" "parse_tar1_address C dest = Some k"
    and "u = f_to_u64 F (f_mul F amount (f_lit F 1000000 0))"
    and "unat u + 1 \<le> unat (ledger_balance (nd_ledger st) (public_key C w))"
  shows "\<exists>t ans st' out. send_to_node C S F now w dest amount st = (Some (t, ans), st', out)
    \<and> tx_recipient t = k \<and> tx_amount t = u \<and> tx_fee t = 1 \<and> tx_sender t = public_key C w
    \<and> tx_sequence t = ledger_sequence (nd_ledger st) (public_key C w) + 1
    \<and> (if mp_contains (nd_mempool st) (tx_hash_hex C t) then ans = Duplicate_Transaction \<and> st' = st
       else ans = Tx_Accepted \<and> mp_contains (nd_mempool st') (tx_hash_hex C t)
         \<and> out = [Broadcast (MsgTx t) None])"
  by (rule send_taken [OF assms])

text \<open>A node on which the wallet with key 1 owns five coins.\<close>

definition rich_node :: "(bytes \<rightharpoonup> stored) node" where
  "rich_node = toy_node\<lparr>nd_ledger := Map.empty(1 \<mapsto> acc_new 5000000)\<rparr>"

lemma rich_node_simps [simp]:
  "ledger_balance (nd_ledger rich_node) 1 = 5000000" "nd_chain rich_node = toy_chain"
  "nd_mempool rich_node = mp_new" "public_key toy_crypto \<lparr>wl_signing_key = 1\<rparr> = 1"
  by (simp_all add: rich_node_def ledger_balance_def acc_new_def public_key_def toy_crypto_def)

lemma toy_parse: "parse_tar1_address toy_crypto (address_from_pubkey toy_crypto k) = Some k"
  using parse_tar1_own [OF toy_hex_ok] .

theorem send_accepted_witness:
  "\<exists>t st' out. send_to_node toy_crypto toy_storage int_floats 7 \<lparr>wl_signing_key = 1\<rparr>
      (address_from_pubkey toy_crypto 9) 2 rich_node = (Some (t, Tx_Accepted), st', out)
    \<and> tx_amount t = 2000000 \<and> tx_recipient t = 9"
  using send_accepted [OF toy_hex_ok toy_ed_ok toy_parse refl,
      of int_floats 2 rich_node "\<lparr>wl_signing_key = 1\<rparr>" toy_storage 7 9]
  by (fastforce simp: int_floats_def mp_contains_def mp_new_def)

section \<open>Sending twice\<close>

text \<open>
  two payments in a row, sent before a block is mined, carry the same number, because the
  command reads it from the ledger and submitting changes only the pool. When the node has
  taken both, every block with both is refused, and so is everything pools submit to that node.
\<close>
theorem send_twice_conflicts:
  assumes "hex_ok C" "ed_ok C" "storage_ok S" "chain_rep S (nd_chain st) bs" "length bs + 1 < 2 ^ 64"
    and "send_to_node C S F now1 w dest1 amount1 st = (Some (t, Tx_Accepted), st1, out1)"
    and "send_to_node C S F now2 w dest2 amount2 st1 = (Some (u, Tx_Accepted), st2, out2)"
  shows "tx_sender u = tx_sender t \<and> tx_sequence u = tx_sequence t
    \<and> {t, u} \<subseteq> mp_all_txs (nd_mempool st2)
    \<and> ({t, u} \<subseteq> set (blk_transactions b) \<longrightarrow> length (blk_transactions b) < 2 ^ 63 \<longrightarrow>
        (\<exists>L. apply_block C S now (nd_chain st2) b (nd_ledger st2) = (Inl (Err InvalidBlock), nd_chain st2, L)))
    \<and> (block_submitter C E order account pending (node_accepts body_len C S NE st2) (i, P) = (r, j, P') \<longrightarrow>
        {t, u} \<subseteq> set pending \<longrightarrow> length pending + length order < 2 ^ 63 \<longrightarrow>
        j = i \<and> ps_blocks_found P' = ps_blocks_found P \<and> (\<forall>b ok. r = Some (b, ok) \<longrightarrow> \<not> ok))"
proof -
  note f = send_to_node_Some [OF assms(1,2,6)] and g = send_to_node_Some [OF assms(1,2,7)]
  have sub1: "submittable C st t" "st1 = with_pending C t st"
    using f(1) rpc_submit_tx_accepts [of C st t] rpc_submit_tx_refuses [of C st t] by (cases "submittable C st t"; auto)+
  have sub2: "submittable C st1 u" "st2 = with_pending C u st1"
    using g(1) rpc_submit_tx_accepts [of C st1 u] rpc_submit_tx_refuses [of C st1 u] by (cases "submittable C st1 u"; auto)+
  have same: "tx_sender u = tx_sender t" "tx_sequence u = tx_sequence t"
    using f(4,8) g(4,8) by (simp_all add: sub1(2))
  have hash: "tx_hash_hex C u \<noteq> tx_hash_hex C t"
    using sub2(1) by (simp add: submittable_def sub1(2) mp_contains_def)
  then have ne: "t \<noteq> u" by auto
  have pend: "{t, u} \<subseteq> mp_all_txs (nd_mempool st2)"
    using hash by (simp add: sub1 sub2 mp_all_txs_def) (auto simp: ran_def)
  have rep: "chain_rep S (nd_chain st2) bs" using assms(4) by (simp add: sub1 sub2)
  note refused = conflicting_pending_refused [OF assms(3) rep assms(5) ne same]
  show ?thesis
    by (intro conjI impI same pend; (erule (1) refused(1) | erule (2) refused(2) [THEN conjunct1]
        | erule (2) refused(2) [THEN conjunct2, THEN conjunct1]
        | erule (2) refused(2) [THEN conjunct2, THEN conjunct2]))
qed

lemma toy_hash_by_recipient:
  "tx_sender t = 1 \<Longrightarrow> tx_hash toy_crypto t = of_nat (le_val (1 # take 7 (bytes32 (tx_recipient t))))"
  by (simp add: tx_hash_def sha3_256_def toy_crypto_def to_bytes_for_hash_def to_bytes_for_signing_def
      to_bytes_for_posc_def byte1_def bytes32_1)

lemma bytes32_9: "bytes32 9 = replicate 31 0 @ [9]"
  by (simp add: bytes32_def) code_simp

lemma toy_hex_differ: "hex_encode toy_crypto (bytes32 257) \<noteq> hex_encode toy_crypto (bytes32 1)"
proof
  assume "hex_encode toy_crypto (bytes32 257) = hex_encode toy_crypto (bytes32 1)"
  then have "bytes32 257 = bytes32 1" using hex_decode_encode [OF toy_hex_ok] by (metis option.inject)
  then have "arr32 (bytes32 257) = arr32 (bytes32 1)" by simp
  then show False by simp
qed

theorem send_twice_conflicts_witness:
  "\<exists>t st1 out1 u st2 out2.
     send_to_node toy_crypto toy_storage int_floats 7 \<lparr>wl_signing_key = 1\<rparr>
       (address_from_pubkey toy_crypto 9) 2 rich_node = (Some (t, Tx_Accepted), st1, out1)
   \<and> send_to_node toy_crypto toy_storage int_floats 8 \<lparr>wl_signing_key = 1\<rparr>
       (address_from_pubkey toy_crypto (arr32 (1 # replicate 31 0))) 1 st1 = (Some (u, Tx_Accepted), st2, out2)
   \<and> tx_sequence u = tx_sequence t"
proof -
  let ?w = "\<lparr>wl_signing_key = 1\<rparr> :: wallet" and ?k = "arr32 (1 # replicate 31 0) :: hash32"
  have acc: "\<exists>t out. send_to_node toy_crypto toy_storage int_floats now ?w (address_from_pubkey toy_crypto k)
        amount st = (Some (t, Tx_Accepted), with_pending toy_crypto t st, out)
      \<and> tx_hash toy_crypto t = of_nat (le_val (1 # take 7 (bytes32 k)))"
    if am: "amount \<in> {1, 2}" and bal: "ledger_balance (nd_ledger st) 1 = 5000000"
      and fresh: "\<And>t. tx_hash toy_crypto t = of_nat (le_val (1 # take 7 (bytes32 k))) \<Longrightarrow>
        \<not> mp_contains (nd_mempool st) (tx_hash_hex toy_crypto t)" for now amount k st
  proof -
    have "unat (f_to_u64 int_floats (f_mul int_floats amount (f_lit int_floats 1000000 0))) \<le> 2000000"
      using am by (auto simp: int_floats_def)
    then obtain t ans st' out where r: "send_to_node toy_crypto toy_storage int_floats now ?w
        (address_from_pubkey toy_crypto k) amount st = (Some (t, ans), st', out)" "tx_recipient t = k" "tx_sender t = 1"
        "\<not> mp_contains (nd_mempool st) (tx_hash_hex toy_crypto t) \<Longrightarrow> ans = Tx_Accepted"
      using send_taken [OF toy_hex_ok toy_ed_ok toy_parse refl, of int_floats amount st ?w toy_storage now k] bal
      by fastforce
    have h: "tx_hash toy_crypto t = of_nat (le_val (1 # take 7 (bytes32 k)))"
      using toy_hash_by_recipient [OF r(3)] r(2) by simp
    then have "ans = Tx_Accepted" using r(4) fresh by blast
    moreover from this have "st' = with_pending toy_crypto t st"
      using send_to_node_Some(1) [OF toy_hex_ok toy_ed_ok r(1)] rpc_submit_tx_accepts [of toy_crypto st t]
        rpc_submit_tx_refuses [of toy_crypto st t] by (cases "submittable toy_crypto st t") auto
    ultimately show ?thesis using r(1) h by blast
  qed
  obtain t out1 where run1: "send_to_node toy_crypto toy_storage int_floats 7 ?w (address_from_pubkey toy_crypto 9)
        2 rich_node = (Some (t, Tx_Accepted), with_pending toy_crypto t rich_node, out1)"
      "tx_hash toy_crypto t = of_nat (le_val (1 # take 7 (bytes32 9)))"
    using acc [of 2 rich_node 9 7] by (auto simp: mp_contains_def mp_new_def)
  have hashes: "of_nat (le_val (1 # take 7 (bytes32 9))) = (1 :: hash32)"
    "of_nat (le_val (1 # take 7 (bytes32 ?k))) = (257 :: hash32)"
    by (simp_all add: bytes32_9 bytes32_arr32)
  have fr: "\<not> mp_contains (nd_mempool (with_pending toy_crypto t rich_node)) (tx_hash_hex toy_crypto v)"
    if "tx_hash toy_crypto v = of_nat (le_val (1 # take 7 (bytes32 ?k)))" for v
    using that [unfolded hashes] run1(2) [unfolded hashes] toy_hex_differ
    by (simp add: mp_contains_def mp_new_def tx_hash_hex_def)
  have bal: "ledger_balance (nd_ledger (with_pending toy_crypto t rich_node)) 1 = 5000000" by simp
  obtain u out2 where run2: "send_to_node toy_crypto toy_storage int_floats 8 ?w (address_from_pubkey toy_crypto ?k)
        1 (with_pending toy_crypto t rich_node) = (Some (u, Tx_Accepted),
          with_pending toy_crypto u (with_pending toy_crypto t rich_node), out2)"
    using acc [where now = 8 and k = ?k, OF insertI1 bal fr] by blast
  show ?thesis
    using send_twice_conflicts [OF toy_hex_ok toy_ed_ok toy_storage_ok _ _ run1(1) run2, of "[genesis_block toy_crypto]"]
      toy_chain_rep run1(1) run2 by fastforce
qed

section \<open>The status file\<close>

text \<open>
  the status command sees what the node wrote: the file read back is the snapshot, its figures
  are those of the HTTP interface at that moment, and the node counts as running for two minutes
  after it wrote.
\<close>
theorem status_file_roundtrip:
  assumes J: "state_json_ok J" and s: "sj_print J (status_snapshot port up t st) = Some s"
    and f: "f = status_snapshot port up t st"
  shows "state_file_load J (state_file_save J True f file) = Some f
    \<and> sf_chain_height f = sr_chain_height (get_status port st) \<and> sf_best_hash f = sr_best_hash (get_status port st)
    \<and> sf_peer_count f = sr_peer_count (get_status port st) \<and> sf_mempool_size f = sr_mempool_size (get_status port st)
    \<and> sf_total_supply f = sr_total_supply (get_status port st)
    \<and> status_liveness now (Some f) =
        (if unat now < unat t + 120 then Up up (saturating_sub now t) else Last_Seen (saturating_sub now t))"
proof -
  have "saturating_sub now t < 120 \<longleftrightarrow> unat now < unat t + 120"
    by (auto simp: word_less_nat_alt unat_saturating_sub)
  moreover have "sj_parse J s = Some f"
    using J s f by (simp add: state_json_ok_def)
  ultimately show ?thesis
    using s by (simp add: state_file_load_def state_file_save_def status_liveness_def Let_def
        f status_snapshot_def get_status_def)
qed

theorem status_file_roundtrip_witness:
  "state_file_load \<lparr>sj_print = (\<lambda>f. if f = status_snapshot 8333 90 1000 toy_node then Some ''{}'' else None),
      sj_parse = (\<lambda>_. Some (status_snapshot 8333 90 1000 toy_node))\<rparr>
    (Some ''{}'') = Some (status_snapshot 8333 90 1000 toy_node)
   \<and> status_liveness 1119 (Some (status_snapshot 8333 90 1000 toy_node)) = Up 90 119"
proof -
  define J where "J = \<lparr>sj_print = (\<lambda>f. if f = status_snapshot 8333 90 1000 toy_node then Some ''{}'' else None),
      sj_parse = (\<lambda>_. Some (status_snapshot 8333 90 1000 toy_node))\<rparr>"
  have J: "state_json_ok J" "sj_print J (status_snapshot 8333 90 1000 toy_node) = Some ''{}''"
    by (auto simp: J_def state_json_ok_def split: if_splits)
  have "state_file_save J True (status_snapshot 8333 90 1000 toy_node) None = Some ''{}''"
    using J(2) by (simp add: state_file_save_def)
  moreover have "saturating_sub (1119 :: 64 word) 1000 = 119"
    by (simp add: saturating_sub_def)
  ultimately show ?thesis
    using status_file_roundtrip [OF J refl, of None 1119] unfolding J_def by simp
qed

end
