(* ===== verification/Cli_Mine.thy ===== *)
theory Cli_Mine
  imports Cli Pool_Share Pool_Node Node_Forks
begin

text \<open>
  The miner threads of the command line program against the pool and inside the node: where
  threads start to search, which shares a pool takes, what goes wrong with work that is not
  renewed, with the address option and with named workers, and what a block mined inside a node does to it.
\<close>

section \<open>Where the threads start\<close>

lemma unat_ucast_up [simp]: "unat (ucast k :: u64) = unat k" for k :: u32
  using unat_less_exp [of k] by (simp add: unsigned_ucast_eq take_bit_nat_eq_self)

lemma pool_start_nonce:
  assumes "k < threads"
  shows "unat (pt_nonce (pool_thread_start k threads)) = unat k * ((2 ^ 64 - 1) div unat threads)"
proof -
  let ?q = "- 1 div ucast threads :: u64"
  have q: "unat ?q = (2 ^ 64 - 1) div unat threads"
    by (simp add: unat_div unat_max_word)
  have "unat k * ((2 ^ 64 - 1) div unat threads) \<le> unat threads * ((2 ^ 64 - 1) div unat threads)"
    using assms by (intro mult_le_mono1) (simp add: word_less_nat_alt)
  also have "\<dots> \<le> 2 ^ 64 - 1" by simp
  finally have "unat (ucast k :: u64) * unat ?q < 2 ^ LENGTH(64)"
    unfolding q by simp
  then show ?thesis
    by (simp add: pool_thread_start_def unat_mult_lem [THEN iffD1] q)
qed

lemma solo_start_nonce:
  assumes "0 < k"
  shows "unat (so_nonce (solo_thread_start now k threads)) = (2 ^ 64 - unat k) div unat threads"
proof -
  have "0 < unat k" using assms by (simp add: word_less_nat_alt)
  moreover have "unat k < 2 ^ 64" using unat_less_exp [of k] by simp
  moreover have "(ucast k * - 1 :: u64) = 0 - ucast k" by simp
  ultimately have "unat (ucast k * - 1 :: u64) = 2 ^ 64 - unat k"
    using unat_sub_if_size [of 0 "ucast k :: u64"] by (simp add: word_size)
  then show ?thesis by (simp add: solo_thread_start_def unat_div)
qed

text \<open>
  the threads of a pool miner divide the nonces: each starts a full share of the 64-bit range
  after the one before. Those of the miner in the node do not: the product wraps, so all
  threads but the first start within one of each other and search the same nonces.
\<close>
theorem thread_nonces:
  assumes "i < j" "j < threads"
  shows "unat (pt_nonce (pool_thread_start i threads)) + (2 ^ 64 - 1) div unat threads
      \<le> unat (pt_nonce (pool_thread_start j threads))
    \<and> (i = 0 \<or> (unat (so_nonce (solo_thread_start now j threads))
            \<le> unat (so_nonce (solo_thread_start now i threads))
          \<and> unat (so_nonce (solo_thread_start now i threads))
            \<le> unat (so_nonce (solo_thread_start now j threads)) + 1))"
proof -
  let ?n = "unat threads" and ?q = "(2 ^ 64 - 1) div unat threads"
  have ij: "unat i < unat j" "unat j < ?n" using assms by (simp_all add: word_less_nat_alt)
  have "unat i * ?q + ?q = Suc (unat i) * ?q" by simp
  also have "\<dots> \<le> unat j * ?q" using ij(1) by (intro mult_le_mono1) simp
  finally have pool: "unat (pt_nonce (pool_thread_start i threads)) + ?q
      \<le> unat (pt_nonce (pool_thread_start j threads))"
    using assms by (simp add: pool_start_nonce [OF assms(2)] pool_start_nonce [OF less_trans [OF assms]])
  have "unat (so_nonce (solo_thread_start now j threads)) \<le> unat (so_nonce (solo_thread_start now i threads))
      \<and> unat (so_nonce (solo_thread_start now i threads)) \<le> unat (so_nonce (solo_thread_start now j threads)) + 1"
    if "i \<noteq> 0"
  proof -
    have i: "0 < i" using that by (simp add: word_neq_0_conv)
    have j: "0 < j" using i assms(1) by (rule less_trans)
    have "2 ^ 64 - unat i \<le> (2 ^ 64 - unat j) + ?n" using ij by linarith
    then have "(2 ^ 64 - unat i) div ?n \<le> ((2 ^ 64 - unat j) + ?n) div ?n" by (rule div_le_mono)
    also have "\<dots> = (2 ^ 64 - unat j) div ?n + 1" by (rule div_add_self2) (use ij in simp)
    finally show ?thesis
      unfolding solo_start_nonce [OF i] solo_start_nonce [OF j] using ij(1) by (simp add: div_le_mono)
  qed
  then show ?thesis using pool by blast
qed

theorem thread_nonces_witness:
  "unat (so_nonce (solo_thread_start 0 2 8)) \<le> unat (so_nonce (solo_thread_start 0 5 8)) + 1"
  using thread_nonces [of 2 5 8 0] by simp

section \<open>A share of the pool's work\<close>

text \<open>
  C13: work and shares fit: a thread that takes up the work of a new block and finds a nonce that
  meets the difficulty it was given sends a share that the pool accepts and counts, if it does so
  within ninety seconds, while the template is the same and the nonce has not been sent before under
  its name. The round then has one share more, in total and of this miner, and of no other; the
  share is stored with the miner's address, name and nonce, when the database takes it; the block
  goes to the submitter exactly when the hash meets the chain difficulty, which the answer says; and
  the thread goes on with the next nonce.
\<close>
theorem pool_thread_share_accepted:
  assumes "hex_ok C" "hex_decode C key = Some bs" "length bs = 32"
    and "pool_identity C w (Some key) None = (a, k)"
    and "fetch_work C F now a P = (work, P1)"
    and "wk_block_index work \<noteq> pt_block_index m" "wk_block_index work \<noteq> 0"
    and "pool_thread_step C a k worker (Some work) m = (Some q, m')"
    and "ps_template P2 = ps_template P" "ps_wallet P2 = ps_wallet P"
    and "unat now \<le> unat (pe_now E)" "unat (pe_now E) \<le> unat now + 90000"
    and "\<not> fst (share_dup E q (ps_dedup P2))" "4 \<le> bt_difficulty (ps_template P)"
  shows "case submit_share C F2 E q P2 of (r, P3) \<Rightarrow> pt_nonce m' = pt_nonce m + 1
    \<and> (\<exists>s. r = Some s \<and> sp_accepted s
         \<and> sp_is_block s = meets_difficulty (share_hash C P2 q) (bt_difficulty (ps_template P)))
    \<and> rd_total_shares (ps_round P3) = rd_total_shares (ps_round P2) + 1
    \<and> rd_shares (ps_round P3) = (rd_shares (ps_round P2))
         (a \<mapsto> (case rd_shares (ps_round P2) a of None \<Rightarrow> 0 | Some n \<Rightarrow> n) + 1)
    \<and> pd_shares (ps_db P3) = pd_shares (ps_db P2) @
         (if pe_write_ok E
          then [\<lparr>sr_timestamp_ms = pe_now E, sr_miner_address = a, sr_miner_pubkey = k, sr_worker_name = worker,
            sr_nonce = pt_nonce m, sr_block_index = bt_index (ps_template P),
            sr_is_block = meets_difficulty (share_hash C P2 q) (bt_difficulty (ps_template P))\<rparr>] else [])
    \<and> ps_queue P3 = ps_queue P2 @ (if meets_difficulty (share_hash C P2 q) (bt_difficulty (ps_template P))
         then [\<lparr>fb_candidate = share_candidate C P2 q, fb_hash = share_hash C P2 q\<rparr>] else [])"
proof -
  have id: "k = key" "a = address_from_pubkey C (arr32 bs)"
    using assms(2-4) by (auto simp: pool_identity_def Let_def or_else_def)
  have work: "wk_block_index work = bt_index (ps_template P)"
    "wk_prev_hash work = hex_encode C (bytes32 (bt_prev_hash (ps_template P)))" "wk_timestamp work = now"
    "wk_pool_pubkey work = hex_encode C (bytes32 (public_key C (ps_wallet P)))"
    "bt_share_difficulty (ps_template P) \<le> wk_share_difficulty work"
    using assms(5) by (auto simp: fetch_work_def get_work_def Let_def split: prod.splits)
  let ?m = "take_work C (Some work) m"
  have m: "pt_block_index ?m = wk_block_index work" "pt_share_difficulty ?m = wk_share_difficulty work"
    "pt_timestamp ?m = now" "pt_prev_hash_hex ?m = wk_prev_hash work"
    "pt_pool_pubkey ?m = public_key C (ps_wallet P)" "pt_prev_hash ?m = bt_prev_hash (ps_template P)"
    "pt_nonce ?m = pt_nonce m"
    using assms(1,6) work by (simp_all add: take_work_def copy_hex32_def)
  have q: "q = thread_share a k worker ?m" "m' = ?m\<lparr>pt_nonce := pt_nonce ?m + 1\<rparr>"
    "meets_difficulty (hash_header C (thread_candidate ?m)) (wk_share_difficulty work)"
    using assms(7,8) m(1,2) by (auto simp: pool_thread_step_def Let_def split: if_splits)
  have cand: "share_candidate C P2 q = thread_candidate ?m"
    using assms(1,10) work by (simp add: share_candidate_def thread_candidate_def q(1) thread_share_def m)
  have "owns_key C q"
    using assms(2,3) id by (simp add: owns_key_def q(1) thread_share_def decode_pubkey_def)
  moreover have "share_current C E P2 q"
    using assms(9,11,12) work by (simp add: share_current_def q(1) thread_share_def m)
  moreover have "meets_difficulty (share_hash C P2 q) (bt_share_difficulty (ps_template P2))"
    unfolding share_hash_def cand assms(9) by (rule meets_difficulty_mono [OF q(3) work(5)])
  ultimately have "share_valid C E P2 q" using assms(13) by (simp add: share_valid_def)
  then have v: "share_valid C E P2 q" "4 \<le> bt_difficulty (ps_template P2)" using assms(9,14) by simp_all
  show ?thesis
  proof (rule submit_share_cases [of C F2 E q P2])
    fix r
    assume r: "submit_share C F2 E q P2 = (Some r, share_effect C F2 E P2 q)" "sp_accepted r"
      "sp_is_block r = meets_difficulty (share_hash C P2 q) (bt_difficulty (ps_template P2))"
    have fields: "sq_miner_address q = a" "sq_miner_pubkey q = k" "sq_worker_name q = worker"
        "sq_nonce q = pt_nonce m" "sq_block_index q = bt_index (ps_template P)" "pt_nonce m' = pt_nonce m + 1"
      using q(1,2) m work(1) by (simp_all add: thread_share_def)
    show ?thesis unfolding r(1)
      using r(2,3) fields assms(9)
      by (simp add: share_effect_def count_share_def share_row_def or_default_def split: option.split)
  qed (use v in simp_all)
qed

text \<open>
  work is not renewed: a thread looks at the number of the block only, so as long as that
  stays the same it keeps the time of the work it started with, whatever the pool sends. Ninety
  seconds later the pool refuses every share of the thread, until another block is mined.
\<close>
theorem pool_thread_goes_stale:
  assumes "\<forall>work \<in> set works. wk_block_index work = pt_block_index m"
    and "unat (pt_timestamp m) + 90000 < unat (pe_now E)"
  shows "foldl (\<lambda>m work. take_work C (Some work) m) m works = m
    \<and> \<not> share_taken (fst (submit_share C F E (thread_share a k worker (m\<lparr>pt_nonce := n\<rparr>)) P))"
proof -
  have "foldl (\<lambda>m work. take_work C (Some work) m) m works = m"
    using assms(1) by (induction works) (simp_all add: take_work_def)
  moreover have "\<not> share_current C E P (thread_share a k worker (m\<lparr>pt_nonce := n\<rparr>))"
    using assms(2) by (simp add: share_current_def thread_share_def)
  ultimately show ?thesis by (simp add: share_taken_iff share_valid_def)
qed

text \<open>
  the address option cannot be used alone: with an address that is not the wallet's own, and no
  key given, every share is refused because address and key do not belong together.
\<close>
theorem address_option_refused:
  assumes "hex_ok C" "pool_identity C w None (Some address) = (a, k)" "address \<noteq> wallet_address C w"
  shows "submit_share C F E (thread_share a k worker m) P
    = (Some (share_refused Address_Pubkey_Mismatch), P)"
proof -
  have "a = address" "k = hex_encode C (bytes32 (public_key C w))"
    using assms(2) by (simp_all add: pool_identity_def Let_def or_else_def)
  then show ?thesis
    using assms(1,3) by (simp add: submit_share_def thread_share_def wallet_address_def Let_def)
qed

lemma submit_share_vardiff:
  "ps_template (snd (submit_share C F E q P)) = ps_template P
    \<and> (\<exists>d. ps_vardiff (snd (submit_share C F E q P)) = ps_vardiff P
        \<or> ps_vardiff (snd (submit_share C F E q P)) = snd (vr_on_share F (pe_now E) (share_key q) d (ps_vardiff P)))"
  by (auto simp: submit_share_def accept_share_def Let_def share_key_def split_def split: option.split)

text \<open>
  a named worker has a fixed difficulty: the work is fetched without the name of the worker, so
  the difficulty it comes with is that of the worker called default, which no share of a worker of
  another name changes.
\<close>
theorem named_worker_fixed_difficulty:
  assumes "sq_miner_address q = a" "sq_worker_name q \<noteq> ''default''"
  shows "wk_share_difficulty (fst (fetch_work C F now a (snd (submit_share C F E q P))))
    = wk_share_difficulty (fst (fetch_work C F now a P))"
proof -
  let ?P = "snd (submit_share C F E q P)"
  have key: "share_key q \<noteq> worker_key a ''default''"
    using assms by (simp add: share_key_def worker_key_def)
  have diff: "fst (get_difficulty F now (worker_key a ''default'') (snd (vr_on_share F t (share_key q) d R)))
      = fst (get_difficulty F now (worker_key a ''default'') R)" for t d and R :: "'a vardiff_registry"
    using key by (simp add: get_difficulty_def vr_on_share_def vr_entry_def wv_new_def Let_def split_def split: option.split)
  have "ps_template ?P = ps_template P \<and> (\<exists>d. ps_vardiff ?P = ps_vardiff P \<or>
      ps_vardiff ?P = snd (vr_on_share F (pe_now E) (share_key q) d (ps_vardiff P)))"
    by (rule submit_share_vardiff)
  then show ?thesis
    by (auto simp: fetch_work_def get_work_def Let_def or_default_def split_def diff)
qed

theorem pool_thread_share_accepted_witness:
  "\<exists>q. fst (pool_thread_step toy_crypto (address_from_pubkey toy_crypto 5) (hex_encode toy_crypto (bytes32 5)) ''rig''
      (Some (fst (fetch_work toy_crypto int_floats 1772975700000 (address_from_pubkey toy_crypto 5) toy_pool)))
      ((pool_thread_start 0 1)\<lparr>pt_nonce := 42\<rparr>)) = Some q
    \<and> (case submit_share toy_crypto int_floats toy_pool_env q toy_pool of (r, P3) \<Rightarrow>
         (\<exists>s. r = Some s \<and> sp_accepted s) \<and> rd_total_shares (ps_round P3) = 1
         \<and> rd_shares (ps_round P3) (address_from_pubkey toy_crypto 5) = Some 1 \<and> length (pd_shares (ps_db P3)) = 1)"
proof -
  let ?a = "address_from_pubkey toy_crypto 5" and ?k = "hex_encode toy_crypto (bytes32 5)"
  let ?m = "(pool_thread_start 0 1)\<lparr>pt_nonce := 42\<rparr>"
  obtain work P1 where W: "fetch_work toy_crypto int_floats 1772975700000 ?a toy_pool = (work, P1)" by fastforce
  have "vr_workers (ps_vardiff toy_pool) = Map.empty" "vr_base_difficulty (ps_vardiff toy_pool) = 10"
    by (simp_all add: toy_pool_def pool_start_def vr_new_def SHARE_DIFF_OFFSET_def saturating_sub_def)
  then have work: "work = \<lparr>wk_block_index = 1, wk_prev_hash = hex_encode toy_crypto (bytes32 0),
      wk_timestamp = 1772975700000, wk_pool_pubkey = hex_encode toy_crypto (bytes32 3), wk_difficulty = 14,
      wk_share_difficulty = 10, wk_reward = TESTNET_REWARD\<rparr>"
    using W by (auto simp: fetch_work_def get_work_def Let_def get_difficulty_def vr_entry_def wv_new_def
        public_key_def toy_crypto_def split: option.splits)
  have m: "pt_block_index ?m = 0" "pt_nonce ?m = 42" by (simp_all add: pool_thread_start_def)
  obtain m' where step: "pool_thread_step toy_crypto ?a ?k ''rig'' (Some work) ?m = (Some (toy_request 5 ''rig''), m')"
    using toy_hex_ok toy_meets [of 10] m
    by (simp add: pool_thread_step_def take_work_def work copy_hex32_def thread_candidate_def Let_def
        thread_share_def toy_request_def)
  have id: "pool_identity toy_crypto \<lparr>wl_signing_key = 3\<rparr> (Some ?k) None = (?a, ?k)"
    using toy_hex_ok by (simp add: pool_identity_def or_else_def)
  have "rd_total_shares (ps_round toy_pool) = 0" "rd_shares (ps_round toy_pool) ?a = None"
    "pd_shares (ps_db toy_pool) = []" "pe_write_ok toy_pool_env"
    by (simp_all add: toy_pool_def pool_start_def round_default_def)
  then have "case submit_share toy_crypto int_floats toy_pool_env (toy_request 5 ''rig'') toy_pool of (r, P3) \<Rightarrow>
      (\<exists>s. r = Some s \<and> sp_accepted s) \<and> rd_total_shares (ps_round P3) = 1
      \<and> rd_shares (ps_round P3) ?a = Some 1 \<and> length (pd_shares (ps_db P3)) = 1"
    using pool_thread_share_accepted [OF toy_hex_ok _ _ id W _ _ step, of "bytes32 5" toy_pool toy_pool_env int_floats]
      toy_hex_ok m by (simp add: work toy_fresh split_def) blast
  then show ?thesis using step by (auto simp: W)
qed

theorem pool_thread_goes_stale_witness:
  "\<not> share_taken (fst (submit_share toy_crypto int_floats toy_pool_env
      (thread_share (address_from_pubkey toy_crypto 5) (hex_encode toy_crypto (bytes32 5)) ''rig''
        ((pool_thread_start 0 1)\<lparr>pt_block_index := 1, pt_timestamp := 1772975600000, pt_nonce := 42\<rparr>)) toy_pool))"
  using pool_thread_goes_stale [of "[]" "(pool_thread_start 0 1)\<lparr>pt_block_index := 1, pt_timestamp := 1772975600000\<rparr>"
      toy_pool_env toy_crypto int_floats _ _ _ 42 toy_pool] by simp

theorem address_option_refused_witness:
  "fst (submit_share toy_crypto int_floats toy_pool_env (thread_share (address_from_pubkey toy_crypto 5)
      (hex_encode toy_crypto (bytes32 3)) ''rig'' (pool_thread_start 0 1)) toy_pool)
    = Some (share_refused Address_Pubkey_Mismatch)"
proof -
  have pk: "public_key toy_crypto \<lparr>wl_signing_key = 3\<rparr> = 3" by (simp add: public_key_def toy_crypto_def)
  have id: "pool_identity toy_crypto \<lparr>wl_signing_key = 3\<rparr> None (Some (address_from_pubkey toy_crypto 5))
      = (address_from_pubkey toy_crypto 5, hex_encode toy_crypto (bytes32 3))"
    by (simp add: pool_identity_def or_else_def pk)
  have "arr32 (bytes32 5) \<noteq> arr32 (bytes32 3)" by simp
  then have "bytes32 5 \<noteq> bytes32 3" by metis
  then have "hex_encode toy_crypto (bytes32 5) \<noteq> hex_encode toy_crypto (bytes32 3)"
    using hex_decode_encode [OF toy_hex_ok] by (metis option.inject)
  then have "address_from_pubkey toy_crypto 5 \<noteq> wallet_address toy_crypto \<lparr>wl_signing_key = 3\<rparr>"
    by (simp add: wallet_address_def address_from_pubkey_def pk)
  then show ?thesis using address_option_refused [OF toy_hex_ok id, where F = int_floats and P = toy_pool] by simp
qed

theorem named_worker_fixed_difficulty_witness:
  "wk_share_difficulty (fst (fetch_work toy_crypto int_floats 9 (address_from_pubkey toy_crypto 5)
      (snd (submit_share toy_crypto int_floats toy_pool_env (toy_request 5 ''rig'') toy_pool))))
    = wk_share_difficulty (fst (fetch_work toy_crypto int_floats 9 (address_from_pubkey toy_crypto 5) toy_pool))"
  by (rule named_worker_fixed_difficulty) simp_all

section \<open>Mining in the node\<close>

text \<open>A turn of the loop that takes a new template.\<close>

lemma solo_refresh_tip:
  assumes "chain_rep S (nd_chain st) bs" "int (ev_now E) - so_refreshed m \<ge> 2000 \<or> so_index m = 0"
  shows "solo_refresh S E st m = Some (m\<lparr>so_index := blk_index (last bs) + 1, so_prev_hash := blk_hash (last bs),
    so_difficulty := diff_of bs, so_txs := pending_txs E st, so_refreshed := int (ev_now E)\<rparr>)"
  using assms chain_rep_tip [OF assms(1)] chain_repD(6) [OF assms(1)] by (simp add: solo_refresh_def)

text \<open>The block it makes of it, found or not.\<close>

definition solo_block :: "crypto \<Rightarrow> env \<Rightarrow> hash32 \<Rightarrow> 'd node \<Rightarrow> block list \<Rightarrow> u64 \<Rightarrow> block" where
  "solo_block C E pubkey st bs n =
     (let b = \<lparr>blk_index = blk_index (last bs) + 1, blk_prev_hash = blk_hash (last bs), blk_timestamp = ev_unix_ms E,
            blk_miner = pubkey, blk_nonce = n, blk_hash = 0, blk_reward = TESTNET_REWARD,
            blk_transactions = pending_txs E st\<rparr>
      in b\<lparr>blk_hash := hash_header C b\<rparr>)"

lemma solo_step_found:
  assumes "chain_rep S (nd_chain st) bs" "int (ev_now E) - so_refreshed m \<ge> 2000 \<or> so_index m = 0"
    and "b = solo_block C E pubkey st bs (so_nonce m)" "meets_difficulty (blk_hash b) (diff_of bs)"
    and "apply_block C S (ev_unix_ms E) (nd_chain st) b (nd_ledger st) = (r, ch, L)" "r \<noteq> Inl Panic"
  shows "\<exists>m'. solo_step C S E pubkey (m, st) = (Inr (Some b), m',
    (case r of Inr _ \<Rightarrow> purge C (blk_transactions b) (st\<lparr>nd_chain := ch, nd_ledger := L\<rparr>)
     | Inl _ \<Rightarrow> st\<lparr>nd_chain := ch, nd_ledger := L\<rparr>))"
proof -
  have h: "hash_header C (b\<lparr>blk_hash := 0\<rparr>) = blk_hash b"
    by (simp add: assms(3) solo_block_def Let_def)
  let ?m = "m\<lparr>so_index := blk_index (last bs) + 1, so_prev_hash := blk_hash (last bs),
    so_difficulty := diff_of bs, so_txs := pending_txs E st, so_refreshed := int (ev_now E)\<rparr>"
  have c: "solo_candidate E pubkey ?m = b\<lparr>blk_hash := 0\<rparr>"
    by (simp add: assms(3) solo_block_def solo_candidate_def Let_def)
  show ?thesis
    using assms(4-6) h
    by (simp add: solo_step_def solo_refresh_tip [OF assms(1,2)] c Let_def solo_apply_def
        split: sum.split fault.split)
qed

lemma solo_block_admissible:
  assumes "b = solo_block C E pubkey st bs n" "meets_difficulty (blk_hash b) (diff_of bs)"
    and "\<not> checkpoint_mismatch C b" "list_all (\<lambda>t. is_ok (tx_verify_signature C t)) (pending_txs E st)"
  shows "admissible C (last bs) (diff_of bs) b" "timely (ev_unix_ms E) b"
  using assms by (simp_all add: admissible_def links_to_def timely_def solo_block_def Let_def hash_header_def header_bytes_def)

text \<open>
  a solution of the miner in the node becomes the new tip: with a fresh template, and pending
  transactions that are signed and apply, the chain grows by exactly this block, the ledger is the one
  after the reward and the transactions, the transactions leave the pool, and the block is
  handed to the relay task, which sends it to the peers.
\<close>
theorem solo_block_extends:
  assumes "storage_ok S" "chain_rep S (nd_chain st) bs" "length bs + 1 < 2 ^ 64"
    and "int (ev_now E) - so_refreshed m \<ge> 2000 \<or> so_index m = 0"
    and "b = solo_block C E pubkey st bs (so_nonce m)" "meets_difficulty (blk_hash b) (diff_of bs)"
    and "\<not> checkpoint_mismatch C b" "list_all (\<lambda>t. is_ok (tx_verify_signature C t)) (pending_txs E st)"
    and "apply_txs (apply_tx C) (pending_txs E st) (apply_coinbase C (nd_ledger st) pubkey TESTNET_REWARD) = (Inr (), L)"
  shows "\<exists>m' st'. solo_step C S E pubkey (m, st) = (Inr (Some b), m', st')
    \<and> chain_rep S (nd_chain st') (bs @ [b]) \<and> nd_ledger st' = L
    \<and> (\<forall>t \<in> set (pending_txs E st). \<not> mp_contains (nd_mempool st') (tx_hash_hex C t))
    \<and> Broadcast (NewBlock b) None \<in> set (relay_mined b st')"
proof -
  have f: "blk_miner b = pubkey" "blk_reward b = TESTNET_REWARD" "blk_transactions b = pending_txs E st"
    by (simp_all add: assms(5) solo_block_def Let_def)
  have app: "chain_append C (apply_tx C) (timely (ev_unix_ms E)) (bs, nd_ledger st) b = Some (bs @ [b], L)"
    using solo_block_admissible [OF assms(5-8)] assms(9) f by (simp add: chain_append_def)
  obtain r ch L1 where run: "apply_block C S (ev_unix_ms E) (nd_chain st) b (nd_ledger st) = (r, ch, L1)"
    by (metis prod_cases3)
  then have ok: "r = Inr ()" "chain_rep S ch (bs @ [b])" "L1 = L"
    using apply_block_refines [OF assms(1-3) run] app by simp_all
  let ?st = "purge C (blk_transactions b) (st\<lparr>nd_chain := ch, nd_ledger := L1\<rparr>)"
  obtain m' where "solo_step C S E pubkey (m, st) = (Inr (Some b), m', ?st)"
    using solo_step_found [OF assms(2,4-6) run] ok(1) by auto
  moreover have "\<forall>t \<in> set (pending_txs E st). \<not> mp_contains (nd_mempool ?st) (tx_hash_hex C t)"
    by (simp add: purge_def f(3) pool.member_dels)
  ultimately show ?thesis
    using ok by (intro exI [of _ m'] exI [of _ ?st]) (simp add: purge_def relay_mined_def broadcast_block_def)
qed

text \<open>A node whose recorded height is not that of its chain takes no submitted block.\<close>

lemma stale_height_rejects:
  assumes "storage_ok S" "chain_rep S (nd_chain st) bs" "length bs + 1 < 2 ^ 64"
    and "nd_chain_height st \<noteq> bc_height (nd_chain st)"
  shows "fst (rpc_submit_block C S E b st) = Inr Block_Rejected" "\<not> node_accepts body_len C S E st b"
proof -
  have "\<exists>st' out. submit_mined_block C S E b st = (Inr False, st', out)"
  proof (cases "blk_index b = nd_chain_height st + 1")
    case True
    have "unat (blk_index b) \<noteq> length bs"
    proof
      assume "unat (blk_index b) = length bs"
      from height_next(1) [OF assms(2,3) this] True assms(4) show False by simp
    qed
    then have "chain_append C (apply_tx C) (timely (ev_unix_ms E)) (bs, nd_ledger st) b = None"
      using links_to_index [OF _ assms(2,3), of C b "diff_of bs"] by (auto simp: chain_append_def admissible_def)
    moreover obtain r ch L where run: "apply_block C S (ev_unix_ms E) (nd_chain st) b (nd_ledger st) = (r, ch, L)"
      by (metis prod_cases3)
    ultimately have "r = Inl (Err InvalidBlock)" using apply_block_refines [OF assms(1-3) run] by simp
    then show ?thesis using True run by (simp add: submit_mined_block_def)
  qed (simp add: submit_mined_block_def)
  then show "fst (rpc_submit_block C S E b st) = Inr Block_Rejected" "\<not> node_accepts body_len C S E st b"
    by (auto simp: rpc_submit_block_def node_accepts_def submit_block_request_def)
qed

text \<open>
  C12: mining in the node shuts out pools: the first block the miner adds leaves the recorded
  height and best hash of the node as they were, so the status still reports the old tip, and every
  block submitted to the node, on the old tip or the new one, is rejected.
\<close>
theorem solo_mining_locks_out_pools:
  assumes "storage_ok S" "chain_rep S (nd_chain st) bs" "length bs + 2 < 2 ^ 64"
    and "nd_chain_height st = bc_height (nd_chain st)"
    and "solo_step C S E pubkey (m, st) = (Inr (Some b), m', st')" "nd_chain st' \<noteq> nd_chain st"
  shows "sr_chain_height (get_status port st') = sr_chain_height (get_status port st)
    \<and> sr_best_hash (get_status port st') = sr_best_hash (get_status port st)
    \<and> fst (rpc_submit_block C S NE b' st') = Inr Block_Rejected
    \<and> \<not> node_accepts body_len C S NE st' b'"
proof -
  obtain c where "solo_apply C S E c st = (Inr (), st')"
    using assms(5) by (auto simp: solo_step_def Let_def split: option.splits if_splits prod.splits sum.splits)
  moreover obtain r ch L where run: "apply_block C S (ev_unix_ms E) (nd_chain st) c (nd_ledger st) = (r, ch, L)"
    by (metis prod_cases3)
  ultimately have st': "nd_chain st' = ch" "nd_chain_height st' = nd_chain_height st"
      "nd_cached_best_hash st' = nd_cached_best_hash st"
    by (auto simp: solo_apply_def purge_def split: sum.splits fault.splits)
  have room: "length bs + 1 < 2 ^ 64" using assms(3) by simp
  have rep: "chain_rep S ch (bs @ [c])"
    using apply_block_refines [OF assms(1,2) room run] assms(6) st'(1) chain_append_shape
    by (fastforce split: option.splits)
  have "unat (bc_height ch) = length bs" using chain_repD(3) [OF rep] by simp
  moreover have "unat (bc_height (nd_chain st)) = length bs - 1" "bs \<noteq> []" using chain_repD(1,3) [OF assms(2)] by simp_all
  ultimately have "nd_chain_height st' \<noteq> bc_height (nd_chain st')"
    unfolding st' assms(4) by (metis One_nat_def diff_less length_greater_0_conv less_irrefl zero_less_one)
  note out = stale_height_rejects [OF assms(1) _ _ this, unfolded st'(1), OF rep]
  show ?thesis using out assms(3) st' by (simp add: get_status_def nd_status_def Let_def)
qed

text \<open>
  a solution that the chain refuses is sent out all the same: with a pending transaction that cannot be
  paid, each solution credits the reward to the miner in the ledger of the node, adds no block,
  and hands the refused block to the relay task for all peers.
\<close>
theorem solo_relays_refused:
  assumes "chain_rep S (nd_chain st) bs" "int (ev_now E) - so_refreshed m \<ge> 2000 \<or> so_index m = 0"
    and "b = solo_block C E pubkey st bs (so_nonce m)" "bad_spend C (ev_unix_ms E) bs (nd_ledger st) b"
  shows "\<exists>m' st'. solo_step C S E pubkey (m, st) = (Inr (Some b), m', st')
    \<and> nd_chain st' = nd_chain st
    \<and> ledger_balance (nd_ledger st') pubkey = ledger_balance (nd_ledger st) pubkey + TESTNET_REWARD
    \<and> Broadcast (NewBlock b) None \<in> set (relay_mined b st')"
proof -
  have "meets_difficulty (blk_hash b) (diff_of bs)"
    using assms(4) by (auto simp: bad_spend_def admissible_def links_to_def)
  moreover have "blk_miner b = pubkey" by (simp add: assms(3) solo_block_def Let_def)
  ultimately obtain m' where "solo_step C S E pubkey (m, st) = (Inr (Some b), m',
      st\<lparr>nd_chain := nd_chain st, nd_ledger := apply_coinbase C (nd_ledger st) pubkey TESTNET_REWARD\<rparr>)"
    using solo_step_found [OF assms(1,2,3) _ bad_spend_apply [OF assms(1,4)]] by auto
  then show ?thesis by (simp add: apply_coinbase_obs relay_mined_def broadcast_block_def)
qed

text \<open>Witnesses: the toy node mines block 1, once with nothing pending, once with a bad transaction.\<close>

lemma toy_template:
  "chain_rep toy_storage (nd_chain toy_node) [genesis_block toy_crypto]"
  "so_index (solo_thread_start 0 0 1) = 0" "diff_of [genesis_block toy_crypto] = 14"
  "blk_hash (solo_block toy_crypto E 7 st [genesis_block toy_crypto] n) = 1"
  "blk_index (solo_block toy_crypto E 7 st [genesis_block toy_crypto] n) = 1"
  "\<not> checkpoint_mismatch toy_crypto (solo_block toy_crypto E 7 st [genesis_block toy_crypto] n)"
  using toy_chain_rep chain_repD(6) [OF toy_chain_rep]
  by (simp_all add: solo_thread_start_def solo_block_def Let_def genesis_block_def checkpoint_mismatch_def
      CHECKPOINTS_def toy_chain_def)

lemma toy_pending: "pending_txs toy_env st = []"
  by (simp add: pending_txs_def toy_env_def mp_get_txs_def List.map_filter_simps)

lemma toy_solo_run:
  "\<exists>m' st'. solo_step toy_crypto toy_storage toy_env 7 (solo_thread_start 0 0 1, toy_node)
      = (Inr (Some (solo_block toy_crypto toy_env 7 toy_node [genesis_block toy_crypto] 0)), m', st')
    \<and> chain_rep toy_storage (nd_chain st') ([genesis_block toy_crypto]
        @ [solo_block toy_crypto toy_env 7 toy_node [genesis_block toy_crypto] 0])"
proof -
  let ?b = "solo_block toy_crypto toy_env 7 toy_node [genesis_block toy_crypto] 0"
  have n: "so_nonce (solo_thread_start 0 0 1) = 0" by (simp add: solo_thread_start_def)
  have m: "meets_difficulty (blk_hash ?b) (diff_of [genesis_block toy_crypto])"
    using toy_meets [of 14] by (simp add: toy_template)
  have sig: "list_all (\<lambda>t. is_ok (tx_verify_signature toy_crypto t)) (pending_txs toy_env toy_node)"
    by (simp add: toy_pending)
  obtain r ch L where run: "apply_block toy_crypto toy_storage (ev_unix_ms toy_env) (nd_chain toy_node) ?b
      (nd_ledger toy_node) = (r, ch, L)" by (metis prod_cases3)
  have "chain_append toy_crypto (apply_tx toy_crypto) (timely (ev_unix_ms toy_env))
      ([genesis_block toy_crypto], nd_ledger toy_node) ?b
      = Some ([genesis_block toy_crypto] @ [?b], apply_coinbase toy_crypto (nd_ledger toy_node) 7 TESTNET_REWARD)"
    using solo_block_admissible [OF refl m toy_template(6) sig]
    by (simp add: chain_append_def) (simp add: solo_block_def Let_def toy_pending)
  then have ok: "r = Inr ()" "chain_rep toy_storage ch ([genesis_block toy_crypto] @ [?b])"
    using apply_block_refines [OF toy_storage_ok toy_template(1) _ run] by simp_all
  have "\<exists>m'. solo_step toy_crypto toy_storage toy_env 7 (solo_thread_start 0 0 1, toy_node) = (Inr (Some ?b), m',
      purge toy_crypto (blk_transactions ?b) (toy_node\<lparr>nd_chain := ch, nd_ledger := L\<rparr>))"
    using solo_step_found [OF toy_template(1) disjI2 [OF toy_template(2)] _ m run] ok(1) n by simp
  then show ?thesis using ok(2) by (force simp: purge_def)
qed

theorem solo_block_extends_witness:
  "\<exists>m' st'. solo_step toy_crypto toy_storage toy_env 7 (solo_thread_start 0 0 1, toy_node)
      = (Inr (Some (solo_block toy_crypto toy_env 7 toy_node [genesis_block toy_crypto] 0)), m', st')
    \<and> ledger_balance (nd_ledger st') 7 = TESTNET_REWARD"
proof -
  let ?b = "solo_block toy_crypto toy_env 7 toy_node [genesis_block toy_crypto] 0"
  have n: "so_nonce (solo_thread_start 0 0 1) = 0" by (simp add: solo_thread_start_def)
  have m: "meets_difficulty (blk_hash ?b) (diff_of [genesis_block toy_crypto])"
    using toy_meets [of 14] by (simp add: toy_template)
  obtain m' st' where "solo_step toy_crypto toy_storage toy_env 7 (solo_thread_start 0 0 1, toy_node)
      = (Inr (Some ?b), m', st')" "nd_ledger st' = apply_coinbase toy_crypto (nd_ledger toy_node) 7 TESTNET_REWARD"
    using solo_block_extends [OF toy_storage_ok toy_template(1) _ disjI2 [OF toy_template(2)] _ m toy_template(6),
        where E = toy_env and pubkey = 7 and L = "apply_coinbase toy_crypto (nd_ledger toy_node) 7 TESTNET_REWARD"] n
    by (auto simp: toy_pending)
  then show ?thesis
    by (intro exI [of _ m'] exI [of _ st']) (simp add: apply_coinbase_obs ledger_balance_def toy_ledger_def)
qed

theorem solo_mining_locks_out_pools_witness:
  "\<exists>b m' st'. solo_step toy_crypto toy_storage toy_env 7 (solo_thread_start 0 0 1, toy_node) = (Inr (Some b), m', st')
    \<and> (\<forall>b'. fst (rpc_submit_block toy_crypto toy_storage toy_env b' st') = Inr Block_Rejected)"
proof -
  obtain b m' st' where run: "solo_step toy_crypto toy_storage toy_env 7 (solo_thread_start 0 0 1, toy_node)
      = (Inr (Some b), m', st')" "chain_rep toy_storage (nd_chain st') ([genesis_block toy_crypto] @ [b])"
    using toy_solo_run by blast
  have "nd_chain st' \<noteq> nd_chain toy_node"
    using chain_repD(3) [OF run(2)] chain_repD(3) [OF toy_template(1)] by auto
  moreover have "nd_chain_height toy_node = bc_height (nd_chain toy_node)"
    using chain_repD(3) [OF toy_template(1)] by (simp add: unat_eq_0)
  ultimately show ?thesis
    using solo_mining_locks_out_pools [OF toy_storage_ok toy_template(1) _ _ run(1), where NE = toy_env] run(1)
    by auto
qed

theorem solo_relays_refused_witness:
  "\<exists>b m' st'. solo_step toy_crypto toy_storage (toy_env\<lparr>ev_hashes := \<lambda>_. [''00'']\<rparr>) 7
      (solo_thread_start 0 0 1, toy_node\<lparr>nd_mempool := \<lparr>mp_txs = [''00'' \<mapsto> toy_tx 3 4 1 1 1]\<rparr>\<rparr>)
      = (Inr (Some b), m', st') \<and> ledger_balance (nd_ledger st') 7 = TESTNET_REWARD"
proof -
  let ?E = "toy_env\<lparr>ev_hashes := \<lambda>_. [''00'']\<rparr>"
  let ?st = "toy_node\<lparr>nd_mempool := \<lparr>mp_txs = [''00'' \<mapsto> toy_tx 3 4 1 1 1]\<rparr>\<rparr>"
  let ?b = "solo_block toy_crypto ?E 7 ?st [genesis_block toy_crypto] 0"
  have n: "so_nonce (solo_thread_start 0 0 1) = 0" by (simp add: solo_thread_start_def)
  have pend: "pending_txs ?E ?st = [toy_tx 3 4 1 1 1]"
    by (simp add: pending_txs_def mp_get_txs_def List.map_filter_simps)
  have m: "meets_difficulty (blk_hash ?b) (diff_of [genesis_block toy_crypto])"
    using toy_meets [of 14] by (simp add: toy_template)
  have sig: "list_all (\<lambda>t. is_ok (tx_verify_signature toy_crypto t)) (pending_txs ?E ?st)"
    by (simp add: pend)
  have "blk_transactions ?b = [toy_tx 3 4 1 1 1]" "blk_miner ?b = 7"
    using pend by (simp_all add: solo_block_def Let_def)
  then have "bad_spend toy_crypto (ev_unix_ms ?E) [genesis_block toy_crypto] (nd_ledger ?st) ?b"
    using solo_block_admissible [OF refl m toy_template(6) sig] by (simp add: bad_spend_def toy_ledger_def)
  then show ?thesis
    using solo_relays_refused [of toy_storage ?st "[genesis_block toy_crypto]" ?E "solo_thread_start 0 0 1" ?b
        toy_crypto 7] toy_template(1,2) n
    by (fastforce simp: ledger_balance_def toy_ledger_def)
qed

end
