(* ===== verification/Decimal.thy ===== *)
theory Decimal
  imports Prelude
begin

text \<open>
  Text as lists of bytes: decimal numbers as the standard library prints and reads them, the
  lines and words of a text, and the tables of the proc file system.
\<close>

text \<open>A number as \<open>format!\<close> prints it: decimal digits, without leading zeros.\<close>

fun dec_digits :: "nat \<Rightarrow> bytes" where
  "dec_digits n = (if n < 10 then [48 + of_nat n] else dec_digits (n div 10) @ [48 + of_nat (n mod 10)])"

declare dec_digits.simps [simp del]

text \<open>
  \<open>str::parse\<close> of an unsigned type: an optional plus sign, then at least one digit, each step
  checked for overflow.
\<close>

primrec parse_digits :: "nat \<Rightarrow> nat \<Rightarrow> bytes \<Rightarrow> nat option" where
  "parse_digits limit acc [] = Some acc"
| "parse_digits limit acc (c # cs) =
     (if 48 \<le> c \<and> c \<le> 57 \<and> acc * 10 + unat (c - 48) < limit
      then parse_digits limit (acc * 10 + unat (c - 48)) cs else None)"

definition parse_unsigned :: "nat \<Rightarrow> bytes \<Rightarrow> nat option" where
  "parse_unsigned limit s = (let ds = (case s of c # cs \<Rightarrow> if c = 43 then cs else s | [] \<Rightarrow> s) in
     if ds = [] then None else parse_digits limit 0 ds)"

text \<open>
  \<open>str::parse::<i32>\<close>: a sign, then at least one digit; the magnitude may reach one more when
  the sign is a minus.
\<close>

definition parse_i32 :: "bytes \<Rightarrow> i32 option" where
  "parse_i32 s = (case s of
     [] \<Rightarrow> None
   | c # cs \<Rightarrow>
       if c = 45 then (if cs = [] then None
         else map_option (\<lambda>n. - of_nat n) (parse_digits 2147483649 0 cs))
       else map_option of_nat (parse_unsigned 2147483648 s))"

text \<open>\<open>str::trim\<close> on ASCII text.\<close>

definition is_space :: "u8 \<Rightarrow> bool" where
  "is_space c \<longleftrightarrow> c \<in> {9, 10, 11, 12, 13, 32}"

definition trim_ascii :: "bytes \<Rightarrow> bytes" where
  "trim_ascii s = rev (dropWhile is_space (rev (dropWhile is_space s)))"

text \<open>The lines of a text, and the words of a line.\<close>

fun split_when :: "(u8 \<Rightarrow> bool) \<Rightarrow> bytes \<Rightarrow> bytes list" where
  "split_when p [] = [[]]"
| "split_when p (c # cs) = (if p c then [] # split_when p cs
     else (case split_when p cs of [] \<Rightarrow> [[c]] | l # ls \<Rightarrow> (c # l) # ls))"

definition text_lines :: "bytes \<Rightarrow> bytes list" where
  "text_lines s = (let ls = split_when (\<lambda>c. c = 10) s in
     map (\<lambda>l. if l \<noteq> [] \<and> hd (rev l) = 13 then butlast l else l)
       (if hd (rev ls) = [] then butlast ls else ls))"

definition split_whitespace :: "bytes \<Rightarrow> bytes list" where
  "split_whitespace s = filter (\<lambda>w. w \<noteq> []) (split_when is_space s)"

text \<open>
  The value after the first colon of the first line that starts with a key, as the proc file system
  writes its tables; lines without a colon are passed over.
\<close>

fun first_value :: "bytes \<Rightarrow> bytes list \<Rightarrow> bytes option" where
  "first_value key [] = None"
| "first_value key (l # ls) =
     (if take (length key) l = key
      then (case split_when (\<lambda>c. c = 58) l of _ # v # _ \<Rightarrow> Some (trim_ascii v) | _ \<Rightarrow> first_value key ls)
      else first_value key ls)"

section \<open>Reading what was printed\<close>

lemma parse_digits_append:
  "parse_digits limit acc (xs @ ys) = (case parse_digits limit acc xs of None \<Rightarrow> None | Some a \<Rightarrow> parse_digits limit a ys)"
  by (induction xs arbitrary: acc) auto

lemma digit_value: "n < 10 \<Longrightarrow> unat (48 + of_nat n - 48 :: u8) = n"
  by (simp add: unat_of_nat_small)

lemma digit_range:
  assumes "n < 10"
  shows "48 \<le> (48 + of_nat n :: u8)" "(48 + of_nat n :: u8) \<le> 57" "(48 + of_nat n :: u8) \<noteq> 43"
proof -
  have u: "unat (48 + of_nat n :: u8) = 48 + n"
    using assms by (simp add: unat_word_ariths unat_of_nat_small)
  show "48 \<le> (48 + of_nat n :: u8)" "(48 + of_nat n :: u8) \<le> 57"
    using assms u by (simp_all add: word_le_nat_alt)
  show "(48 + of_nat n :: u8) \<noteq> 43"
  proof
    assume "(48 + of_nat n :: u8) = 43"
    then have "unat (48 + of_nat n :: u8) = unat (43 :: u8)" by (rule arg_cong)
    then show False using u by simp
  qed
qed

lemma dec_digits_not_empty [simp]: "dec_digits n \<noteq> []"
  by (subst dec_digits.simps) simp

lemma hd_dec_digits: "hd (dec_digits n) \<noteq> 43"
proof (induction n rule: dec_digits.induct)
  case (1 n)
  then show ?case
    using digit_range(3) [of n] by (subst dec_digits.simps) (simp add: hd_append)
qed

lemma parse_digits_dec: "n < limit \<Longrightarrow> parse_digits limit 0 (dec_digits n) = Some n"
proof (induction n rule: dec_digits.induct)
  case (1 n)
  show ?case
  proof (cases "n < 10")
    case True
    then show ?thesis
      using 1(2) digit_range [of n] digit_value [of n] by (subst dec_digits.simps) simp
  next
    case False
    then have "parse_digits limit 0 (dec_digits (n div 10)) = Some (n div 10)"
      using 1 by simp
    then show ?thesis
      using False 1(2) digit_range [of "n mod 10"] digit_value [of "n mod 10"]
      by (subst dec_digits.simps) (simp add: parse_digits_append)
  qed
qed

lemma parse_unsigned_dec:
  assumes "n < limit"
  shows "parse_unsigned limit (dec_digits n) = Some n"
proof -
  obtain c cs where "dec_digits n = c # cs" "c \<noteq> 43"
    using hd_dec_digits [of n] by (cases "dec_digits n") auto
  then show ?thesis
    using parse_digits_dec [OF assms] by (auto simp: parse_unsigned_def Let_def)
qed

lemma length_dec_digits: "n < 65536 \<Longrightarrow> length (dec_digits n) \<le> 5"
proof -
  have "n < 10 ^ Suc k \<Longrightarrow> length (dec_digits n) \<le> Suc k" for k n
  proof (induction k arbitrary: n)
    case 0
    then show ?case by (subst dec_digits.simps) simp
  next
    case (Suc k)
    then have "n div 10 < 10 ^ Suc k" by (simp add: less_mult_imp_div_less)
    from Suc.IH [OF this] show ?case by (subst dec_digits.simps) simp
  qed
  from this [of n 4] show "n < 65536 \<Longrightarrow> length (dec_digits n) \<le> 5" by simp
qed

section \<open>Lines with a key\<close>

lemma split_when_Cons_ex: "\<exists>l ls. split_when p s = l # ls"
proof (induction s)
  case (Cons c s)
  then show ?case by (auto split: list.splits)
qed simp

lemma hd_split_when: "hd (split_when p s) = takeWhile (\<lambda>c. \<not> p c) s"
proof (induction s)
  case (Cons c s)
  then show ?case using split_when_Cons_ex [of p s] by auto
qed simp

lemma split_when_append:
  "(\<And>c. c \<in> set xs \<Longrightarrow> \<not> p c) \<Longrightarrow> p c \<Longrightarrow> split_when p (xs @ c # ys) = xs # split_when p ys"
  by (induction xs) simp_all

text \<open>
  the value of a key is what stands after the first colon of its line, up to the next one.
\<close>
lemma first_value_read:
  assumes "58 \<notin> set key" "58 \<notin> set pad"
  shows "first_value key ((key @ pad @ 58 # v) # ls) = Some (trim_ascii (takeWhile (\<lambda>c. c \<noteq> 58) v))"
proof -
  obtain w ws where w: "split_when (\<lambda>c. c = 58) v = w # ws" using split_when_Cons_ex by blast
  have "split_when (\<lambda>c. c = 58) ((key @ pad) @ 58 # v) = (key @ pad) # w # ws"
    using assms w by (subst split_when_append) auto
  moreover have "w = takeWhile (\<lambda>c. c \<noteq> 58) v"
    using hd_split_when [of "\<lambda>c. c = 58" v] w by simp
  ultimately show ?thesis by simp
qed

end
