(* ===== verification/Discovery.thy ===== *)
theory Discovery
  imports Protocol Decimal
begin

text \<open>
  Discovery of peers on the local network (node/src/discovery.rs): the answer of the listener to
  a datagram, the reading of an answer, and the loop that collects answers until its deadline.
  Datagrams are lists of bytes; the receive buffer keeps the first 256 of them. The text of an
  answer is compared byte by byte: the prefix and the digits are ASCII, and a datagram that is not
  UTF-8, or that has other characters after the prefix, fails to parse either way.
\<close>

section \<open>The messages\<close>

definition DISCOVERY_REQUEST :: bytes where
  "DISCOVERY_REQUEST = string_bytes ''TARON_DISCOVERY''"

definition DISCOVERY_RESPONSE_PREFIX :: bytes where
  "DISCOVERY_RESPONSE_PREFIX = string_bytes ''TARON_NODE:''"

definition parse_u16 :: "bytes \<Rightarrow> u16 option" where
  "parse_u16 s = map_option of_nat (parse_unsigned 65536 s)"

section \<open>The listener\<close>

definition discovery_response :: "u16 \<Rightarrow> bytes" where
  "discovery_response tcp_port = DISCOVERY_RESPONSE_PREFIX @ dec_digits (unat tcp_port)"

definition discovery_reply :: "u16 \<Rightarrow> bytes \<Rightarrow> bytes option" where
  "discovery_reply tcp_port datagram =
     (if take 256 datagram = DISCOVERY_REQUEST then Some (discovery_response tcp_port) else None)"

text \<open>
  What the socket gives: a datagram and its source, an error, or nothing before the deadline. The
  listener ends with its first error; an answer that cannot be sent is dropped.
\<close>

datatype udp_event = Datagram bytes socket_addr | Recv_Error | Recv_Timeout

fun discovery_listener :: "u16 \<Rightarrow> udp_event list \<Rightarrow> (bytes \<times> socket_addr) list" where
  "discovery_listener tcp_port [] = []"
| "discovery_listener tcp_port (Datagram d src # es) =
     (case discovery_reply tcp_port d of
        Some r \<Rightarrow> (r, src) # discovery_listener tcp_port es
      | None \<Rightarrow> discovery_listener tcp_port es)"
| "discovery_listener tcp_port (Recv_Timeout # es) = discovery_listener tcp_port es"
| "discovery_listener tcp_port (Recv_Error # es) = []"

section \<open>The search\<close>

definition strip_bytes :: "bytes \<Rightarrow> bytes \<Rightarrow> bytes option" where
  "strip_bytes p s = (if take (length p) s = p then Some (drop (length p) s) else None)"

definition answer_addr :: "bytes \<Rightarrow> socket_addr \<Rightarrow> socket_addr option" where
  "answer_addr d src =
     (case strip_bytes DISCOVERY_RESPONSE_PREFIX (take 256 d) of
        None \<Rightarrow> None
      | Some port_str \<Rightarrow> map_option (\<lambda>port. \<lparr>sa_ip = sa_ip src, sa_port = port\<rparr>) (parse_u16 port_str))"

text \<open>
  Every round first looks at the clock: each element of the list is the time of that look and
  what the socket gives after it. The list ends where the search does at the latest, since the
  socket is waited on no longer than until the deadline.
\<close>

fun discover_loop :: "nat \<Rightarrow> (nat \<times> udp_event) list \<Rightarrow> socket_addr list \<Rightarrow> socket_addr list" where
  "discover_loop deadline [] found = found"
| "discover_loop deadline ((now, e) # es) found =
     (if deadline \<le> now then found
      else (case e of
          Datagram d src \<Rightarrow>
            (case answer_addr d src of
               Some a \<Rightarrow> discover_loop deadline es (if a \<in> set found then found else found @ [a])
             | None \<Rightarrow> discover_loop deadline es found)
        | _ \<Rightarrow> found))"

definition discover_peers :: "bool \<Rightarrow> nat \<Rightarrow> u64 \<Rightarrow> (nat \<times> udp_event) list \<Rightarrow> socket_addr list" where
  "discover_peers socket_ok start timeout_ms es =
     (if socket_ok then discover_loop (start + unat timeout_ms) es [] else [])"

section \<open>What the search finds\<close>

lemma parse_u16_dec: "parse_u16 (dec_digits (unat p)) = Some p"
  using parse_unsigned_dec [of "unat p" 65536] unat_less_exp [of p] by (simp add: parse_u16_def)

lemma answer_addr_response:
  "answer_addr (discovery_response p) src = Some \<lparr>sa_ip = sa_ip src, sa_port = p\<rparr>"
proof -
  have "take 256 (discovery_response p) = discovery_response p"
    using length_dec_digits [of "unat p"] unat_less_exp [of p]
    by (simp add: discovery_response_def DISCOVERY_RESPONSE_PREFIX_def string_bytes_def)
  then show ?thesis
    by (simp add: answer_addr_def discovery_response_def strip_bytes_def parse_u16_dec)
qed

text \<open>The addresses in the answers that arrive before the deadline and before the first failure.\<close>

fun answers :: "nat \<Rightarrow> (nat \<times> udp_event) list \<Rightarrow> socket_addr list" where
  "answers deadline ((now, Datagram d src) # es) =
     (if deadline \<le> now then []
      else (case answer_addr d src of Some a \<Rightarrow> [a] | None \<Rightarrow> []) @ answers deadline es)"
| "answers deadline _ = []"

lemma discover_loop_answers:
  "distinct found \<Longrightarrow> distinct (discover_loop deadline es found)
    \<and> set (discover_loop deadline es found) = set found \<union> set (answers deadline es)"
proof (induction deadline es found rule: discover_loop.induct)
  case (2 deadline now e es found)
  then show ?case
    by (cases e) (auto split: option.splits)
qed simp

text \<open>
  the answer of a node to a search is read back as the address it listens on, whatever its
  port, and the search returns every address that answers in time, once, and no other.
\<close>
theorem discovery_roundtrip:
  "discovery_reply p DISCOVERY_REQUEST = Some (discovery_response p)
    \<and> answer_addr (discovery_response p) src = Some \<lparr>sa_ip = sa_ip src, sa_port = p\<rparr>
    \<and> distinct (discover_peers ok start ms es)
    \<and> set (discover_peers ok start ms es) = (if ok then set (answers (start + unat ms) es) else {})"
proof -
  have "take 256 DISCOVERY_REQUEST = DISCOVERY_REQUEST"
    by (simp add: DISCOVERY_REQUEST_def string_bytes_def)
  then show ?thesis
    using discover_loop_answers [of "[]"]
    by (simp add: discovery_reply_def answer_addr_response discover_peers_def)
qed

end
