(* ===== verification/Burst.thy ===== *)
theory Burst
  imports Floats Extern
begin

text \<open>
  The burst pattern of the miner (miner/src/burst.rs): configurations and their presets, the
  controller that alternates between bursts and pauses, and its adaptation to the thermal
  intensity. Instants and durations are nanoseconds; \<open>F\<close> is the arithmetic of \<open>f64\<close> and \<open>G\<close> that of
  \<open>f32\<close>. Sleeping has no effect of its own.
\<close>

section \<open>Configurations\<close>

definition DEFAULT_BURST_MS :: u64 where "DEFAULT_BURST_MS = 20"
definition DEFAULT_SLEEP_MS :: u64 where "DEFAULT_SLEEP_MS = 10"
definition MIN_BURST_MS :: u64 where "MIN_BURST_MS = 1"
definition MAX_BURST_MS :: u64 where "MAX_BURST_MS = 1000"
definition MIN_SLEEP_MS :: u64 where "MIN_SLEEP_MS = 1"
definition MAX_SLEEP_MS :: u64 where "MAX_SLEEP_MS = 1000"

record burst_config =
  bc_burst_ms :: u64
  bc_sleep_ms :: u64
  bc_adaptive :: bool

definition clamp_u64 :: "u64 \<Rightarrow> u64 \<Rightarrow> u64 \<Rightarrow> u64" where
  "clamp_u64 x lo hi = (if x < lo then lo else if hi < x then hi else x)"

definition burst_default :: burst_config where
  "burst_default = \<lparr>bc_burst_ms = DEFAULT_BURST_MS, bc_sleep_ms = DEFAULT_SLEEP_MS, bc_adaptive = True\<rparr>"

definition burst_new :: "u64 \<Rightarrow> u64 \<Rightarrow> burst_config" where
  "burst_new burst_ms sleep_ms = \<lparr>bc_burst_ms = clamp_u64 burst_ms MIN_BURST_MS MAX_BURST_MS,
     bc_sleep_ms = clamp_u64 sleep_ms MIN_SLEEP_MS MAX_SLEEP_MS, bc_adaptive = False\<rparr>"

definition burst_low_power :: burst_config where
  "burst_low_power = \<lparr>bc_burst_ms = 15, bc_sleep_ms = 25, bc_adaptive = True\<rparr>"

definition burst_balanced :: burst_config where
  "burst_balanced = \<lparr>bc_burst_ms = 20, bc_sleep_ms = 10, bc_adaptive = True\<rparr>"

definition burst_performance :: burst_config where
  "burst_performance = \<lparr>bc_burst_ms = 40, bc_sleep_ms = 10, bc_adaptive = True\<rparr>"

definition duty_cycle :: "'f floats \<Rightarrow> burst_config \<Rightarrow> 'f" where
  "duty_cycle F c = (let n = bc_burst_ms c + bc_sleep_ms c in
     if n = 0 then f_zero F
     else f_mul F (f_div F (f_u64 F (bc_burst_ms c)) (f_u64 F n)) (f_lit F 100 0))"

definition hashrate_efficiency :: "'f floats \<Rightarrow> burst_config \<Rightarrow> 'f" where
  "hashrate_efficiency F c = (let duty = f_div F (duty_cycle F c) (f_lit F 100 0) in
     f_min F (f_mul F duty (f_lit F 105 (- 2))) (f_lit F 1 0))"

definition power_efficiency :: "'f floats \<Rightarrow> burst_config \<Rightarrow> 'f" where
  "power_efficiency F c = (let hashrate_eff = hashrate_efficiency F c;
       power_usage = f_div F (duty_cycle F c) (f_lit F 100 0) in
     if f_eq F power_usage (f_zero F) then f_zero F else f_div F hashrate_eff power_usage)"

section \<open>Statistics\<close>

record burst_stats =
  bs_total_bursts :: u64
  bs_total_idles :: u64
  bs_total_burst_time :: nat
  bs_total_idle_time :: nat
  bs_adaptive_adjustments :: u64

definition burst_stats_default :: burst_stats where
  "burst_stats_default = \<lparr>bs_total_bursts = 0, bs_total_idles = 0, bs_total_burst_time = 0,
     bs_total_idle_time = 0, bs_adaptive_adjustments = 0\<rparr>"

text \<open>\<open>Duration::as_secs_f64\<close> (and \<open>as_secs_f32\<close>, with the other arithmetic).\<close>

definition as_secs :: "'f floats \<Rightarrow> nat \<Rightarrow> 'f" where
  "as_secs F d = f_add F (f_nat F (d div 10 ^ 9)) (f_div F (f_nat F (d mod 10 ^ 9)) (f_lit F 1 9))"

definition actual_duty_cycle :: "'f floats \<Rightarrow> burst_stats \<Rightarrow> 'f" where
  "actual_duty_cycle F s = (let n = bs_total_burst_time s + bs_total_idle_time s in
     if n = 0 then f_zero F
     else f_mul F (f_div F (as_secs F (bs_total_burst_time s)) (as_secs F n)) (f_lit F 100 0))"

text \<open>The count is cut to 32 bits before the division, which panics when that leaves zero.\<close>

definition average_duration :: "nat \<Rightarrow> u64 \<Rightarrow> nat partial" where
  "average_duration d count = (if count = 0 then Inr 0
     else (let n = unat (ucast (max count 1) :: u32) in if n = 0 then Inl Panic else Inr (d div n)))"

definition avg_burst_duration :: "burst_stats \<Rightarrow> nat partial" where
  "avg_burst_duration s = average_duration (bs_total_burst_time s) (bs_total_bursts s)"

definition avg_idle_duration :: "burst_stats \<Rightarrow> nat partial" where
  "avg_idle_duration s = average_duration (bs_total_idle_time s) (bs_total_idles s)"

section \<open>The controller\<close>

record burst_controller =
  bu_config :: burst_config
  bu_stats :: burst_stats
  bu_last_burst_start :: "nat option"
  bu_in_burst_phase :: bool

definition burst_with_config :: "burst_config \<Rightarrow> burst_controller" where
  "burst_with_config c = \<lparr>bu_config = c, bu_stats = burst_stats_default, bu_last_burst_start = None,
     bu_in_burst_phase = False\<rparr>"

definition burst_controller_new :: burst_controller where
  "burst_controller_new = burst_with_config burst_default"

definition update_config :: "burst_config \<Rightarrow> burst_controller \<Rightarrow> burst_controller" where
  "update_config new_config b =
     (if bc_adaptive (bu_config b)
      then b\<lparr>bu_config := new_config, bu_stats := (bu_stats b)
             \<lparr>bs_adaptive_adjustments := bs_adaptive_adjustments (bu_stats b) + 1\<rparr>\<rparr>
      else b)"

definition adapted_config :: "'g floats \<Rightarrow> 'g \<Rightarrow> burst_config" where
  "adapted_config G thermal_intensity =
     (let intensity = f_clamp G thermal_intensity (f_lit G 1 (- 1)) (f_lit G 1 0);
          base_burst = f_u64 G DEFAULT_BURST_MS; base_sleep = f_u64 G DEFAULT_SLEEP_MS;
          burst_ms = f_to_u64 G (f_round G (f_mul G base_burst intensity));
          sleep_ms = f_to_u64 G (f_round G (f_mul G base_sleep (f_sub G (f_lit G 2 0) intensity))) in
      \<lparr>bc_burst_ms = clamp_u64 burst_ms MIN_BURST_MS MAX_BURST_MS,
       bc_sleep_ms = clamp_u64 sleep_ms MIN_SLEEP_MS MAX_SLEEP_MS, bc_adaptive = True\<rparr>)"

definition adapt_to_thermal_intensity :: "'g floats \<Rightarrow> 'g \<Rightarrow> burst_controller \<Rightarrow> burst_controller" where
  "adapt_to_thermal_intensity G thermal_intensity b =
     (if \<not> bc_adaptive (bu_config b) then b
      else (let new_config = adapted_config G thermal_intensity in
        if bc_burst_ms new_config \<noteq> bc_burst_ms (bu_config b)
           \<or> bc_sleep_ms new_config \<noteq> bc_sleep_ms (bu_config b)
        then update_config new_config b else b))"

definition millis :: "u64 \<Rightarrow> nat" where "millis ms = unat ms * 1000000"

definition cycle_blocking :: "nat \<Rightarrow> burst_controller \<Rightarrow> bool \<times> burst_controller" where
  "cycle_blocking now b =
     (let b' = (if bu_in_burst_phase b
        then (case bu_last_burst_start b of
            None \<Rightarrow> b
          | Some burst_start \<Rightarrow>
              (let burst_duration = now - burst_start in
               if millis (bc_burst_ms (bu_config b)) \<le> burst_duration
               then b\<lparr>bu_in_burst_phase := False,
                      bu_stats := (bu_stats b)
                        \<lparr>bs_total_bursts := bs_total_bursts (bu_stats b) + 1,
                         bs_total_burst_time := bs_total_burst_time (bu_stats b) + burst_duration,
                         bs_total_idles := bs_total_idles (bu_stats b) + 1,
                         bs_total_idle_time := bs_total_idle_time (bu_stats b)
                           + millis (bc_sleep_ms (bu_config b))\<rparr>\<rparr>
               else b))
        else b\<lparr>bu_in_burst_phase := True, bu_last_burst_start := Some now\<rparr>)
      in (bu_in_burst_phase b', b'))"

text \<open>
  \<open>cycle\<close> waits where \<open>cycle_blocking\<close> sleeps: what happens before the pause, with its length, and what
  is counted when it is over.
\<close>

definition cycle_start :: "nat \<Rightarrow> burst_controller \<Rightarrow> burst_controller \<times> nat option" where
  "cycle_start now b =
     (if bu_in_burst_phase b
      then (case bu_last_burst_start b of
          None \<Rightarrow> (b, None)
        | Some burst_start \<Rightarrow>
            (let burst_duration = now - burst_start in
             if millis (bc_burst_ms (bu_config b)) \<le> burst_duration
             then (b\<lparr>bu_in_burst_phase := False,
                    bu_stats := (bu_stats b)
                      \<lparr>bs_total_bursts := bs_total_bursts (bu_stats b) + 1,
                       bs_total_burst_time := bs_total_burst_time (bu_stats b) + burst_duration\<rparr>\<rparr>,
                   Some (millis (bc_sleep_ms (bu_config b))))
             else (b, None)))
      else (b\<lparr>bu_in_burst_phase := True, bu_last_burst_start := Some now\<rparr>, None))"

definition cycle_resume :: "nat \<Rightarrow> burst_controller \<Rightarrow> burst_controller" where
  "cycle_resume sleep_duration b = b\<lparr>bu_stats := (bu_stats b)
     \<lparr>bs_total_idles := bs_total_idles (bu_stats b) + 1,
      bs_total_idle_time := bs_total_idle_time (bu_stats b) + sleep_duration\<rparr>\<rparr>"

definition cycle :: "nat \<Rightarrow> burst_controller \<Rightarrow> bool \<times> burst_controller" where
  "cycle now b = (case cycle_start now b of
     (b, None) \<Rightarrow> (bu_in_burst_phase b, b)
   | (b, Some sleep_duration) \<Rightarrow>
       (let b = cycle_resume sleep_duration b in (bu_in_burst_phase b, b)))"

definition burst_reset_stats :: "burst_controller \<Rightarrow> burst_controller" where
  "burst_reset_stats b = b\<lparr>bu_stats := burst_stats_default\<rparr>"

section \<open>Well-formedness\<close>

text \<open>Both times lie between one millisecond and a second.\<close>

definition burst_wf :: "burst_config \<Rightarrow> bool" where
  "burst_wf c \<longleftrightarrow> 1 \<le> bc_burst_ms c \<and> bc_burst_ms c \<le> 1000 \<and> 1 \<le> bc_sleep_ms c \<and> bc_sleep_ms c \<le> 1000"

lemma clamp_u64_bounds: "lo \<le> hi \<Longrightarrow> lo \<le> clamp_u64 x lo hi \<and> clamp_u64 x lo hi \<le> hi"
  by (auto simp: clamp_u64_def)

lemma adapted_config_wf: "burst_wf (adapted_config G i)"
  using clamp_u64_bounds [of 1 1000]
  by (simp add: adapted_config_def Let_def burst_wf_def MIN_BURST_MS_def MAX_BURST_MS_def
      MIN_SLEEP_MS_def MAX_SLEEP_MS_def)

lemma burst_new_wf: "burst_wf (burst_new x y)"
  using clamp_u64_bounds [of 1 1000]
  by (simp add: burst_new_def burst_wf_def MIN_BURST_MS_def MAX_BURST_MS_def
      MIN_SLEEP_MS_def MAX_SLEEP_MS_def)

lemma presets_wf: "burst_wf burst_default" "burst_wf burst_low_power" "burst_wf burst_balanced"
    "burst_wf burst_performance"
  by (simp_all add: burst_wf_def burst_default_def burst_low_power_def burst_balanced_def
      burst_performance_def DEFAULT_BURST_MS_def DEFAULT_SLEEP_MS_def)

lemma adapt_config:
  "bc_adaptive (bu_config b) \<Longrightarrow> bu_config (adapt_to_thermal_intensity G i b) = adapted_config G i"
  "\<not> bc_adaptive (bu_config b) \<Longrightarrow> adapt_to_thermal_intensity G i b = b"
  by (auto simp: adapt_to_thermal_intensity_def update_config_def Let_def adapted_config_def)

lemma cycle_config [simp]: "bu_config (snd (cycle_blocking now b)) = bu_config b"
  by (auto simp: cycle_blocking_def Let_def split: option.splits)

text \<open>
  A burst lasts at least as long as it was configured, and each one that ends is followed by one
  pause: the time burnt is at least that of the bursts counted.
\<close>

definition burst_inv :: "burst_controller \<Rightarrow> bool" where
  "burst_inv b \<longleftrightarrow> burst_wf (bu_config b)
     \<and> (bu_in_burst_phase b \<longrightarrow> bu_last_burst_start b \<noteq> None)
     \<and> bs_total_bursts (bu_stats b) = bs_total_idles (bu_stats b)
     \<and> unat (bs_total_bursts (bu_stats b)) * 1000000 \<le> bs_total_burst_time (bu_stats b)
     \<and> unat (bs_total_idles (bu_stats b)) * 1000000 \<le> bs_total_idle_time (bu_stats b)"

lemma unat_inc_le: "unat (x + 1) \<le> unat x + 1" for x :: "'a::len word"
  by (simp add: unat_word_ariths)

lemma burst_inv_new: "burst_wf c \<Longrightarrow> burst_inv (burst_with_config c)"
  by (simp add: burst_inv_def burst_with_config_def burst_stats_default_def)

lemma burst_inv_adapt: "burst_inv b \<Longrightarrow> burst_inv (adapt_to_thermal_intensity G i b)"
  using adapted_config_wf [of G i]
  by (auto simp: burst_inv_def adapt_to_thermal_intensity_def update_config_def Let_def)

lemma burst_inv_update: "burst_inv b \<Longrightarrow> burst_wf c \<Longrightarrow> burst_inv (update_config c b)"
  by (auto simp: burst_inv_def update_config_def)

lemma burst_inv_cycle:
  assumes "burst_inv b"
  shows "burst_inv (snd (cycle_blocking now b))"
proof -
  have ms: "1000000 \<le> millis (bc_burst_ms (bu_config b))" "1000000 \<le> millis (bc_sleep_ms (bu_config b))"
    using assms by (simp_all add: burst_inv_def burst_wf_def millis_def word_le_nat_alt)
  have "unat (bs_total_idles (bu_stats b) + 1) * 1000000 \<le> (unat (bs_total_idles (bu_stats b)) + 1) * 1000000"
    using unat_inc_le by (rule mult_le_mono1)
  then show ?thesis
    using assms ms by (auto simp: cycle_blocking_def burst_inv_def Let_def split: option.splits)
qed

text \<open>
  the two forms of the cycle do the same when they run to their end. But a cycle that is given up during
  its pause, as a branch of a \<open>select!\<close> is when another one completes, leaves a burst without its pause
  in the statistics.
\<close>
theorem cycle_same:
  assumes "cycle_start now b = (b', pause)"
  shows "cycle now b = cycle_blocking now b
    \<and> (pause \<noteq> None \<longrightarrow> bs_total_bursts (bu_stats b') = bs_total_bursts (bu_stats b) + 1
        \<and> bs_total_idles (bu_stats b') = bs_total_idles (bu_stats b) \<and> \<not> bu_in_burst_phase b')"
  using assms
  by (auto simp: cycle_def cycle_start_def cycle_resume_def cycle_blocking_def Let_def
      split: option.splits if_splits)

theorem cycle_same_witness:
  "cycle 5 burst_controller_new = cycle_blocking 5 burst_controller_new"
  using cycle_same [of 5 burst_controller_new "fst (cycle_start 5 burst_controller_new)"
      "snd (cycle_start 5 burst_controller_new)"] by simp

text \<open>The controller as a machine over its calls; a new configuration is one made by \<open>new\<close>.\<close>

datatype 'g burst_call = Call_Adapt 'g | Call_Update u64 u64 | Call_Cycle nat

fun burst_step :: "'g floats \<Rightarrow> burst_controller \<Rightarrow> 'g burst_call \<Rightarrow> burst_controller" where
  "burst_step G b (Call_Adapt i) = adapt_to_thermal_intensity G i b"
| "burst_step G b (Call_Update burst_ms sleep_ms) = update_config (burst_new burst_ms sleep_ms) b"
| "burst_step G b (Call_Cycle now) = snd (cycle_blocking now b)"

interpretation burst_machine: invariant_machine "burst_step G" burst_inv for G
proof
  fix b and c :: "'a burst_call"
  assume "burst_inv b"
  then show "burst_inv (burst_step G b c)"
    by (cases c) (simp_all add: burst_inv_adapt burst_inv_update burst_new_wf burst_inv_cycle)
qed

text \<open>
  whatever calls a controller of a preset gets, a burst takes at least a millisecond
  and at most a second before it may end, and the time it counts as idle is at least a millisecond for
  each burst.
\<close>
theorem burst_runs_bounded:
  "let b = foldl (burst_step G) (burst_with_config burst_performance) calls in
     burst_wf (bu_config b) \<and> bs_total_bursts (bu_stats b) = bs_total_idles (bu_stats b)
     \<and> unat (bs_total_bursts (bu_stats b)) * 1000000 \<le> bs_total_idle_time (bu_stats b)"
  using burst_machine.run_inv [OF burst_inv_new [OF presets_wf(4)], of G calls]
  by (simp add: burst_inv_def Let_def)

text \<open>
  the presets make no difference. Every preset is adaptive, and the first adaptation sets
  both times from the intensity and the built-in base times alone: whatever two adaptive
  configurations the controllers started from, they continue with the same times.
\<close>
theorem presets_forgotten:
  "bu_config (adapt_to_thermal_intensity G i (burst_with_config burst_low_power)) = adapted_config G i
   \<and> bu_config (adapt_to_thermal_intensity G i (burst_with_config burst_performance)) = adapted_config G i
   \<and> bu_config (adapt_to_thermal_intensity G i (burst_with_config burst_balanced)) = adapted_config G i
   \<and> bu_config (adapt_to_thermal_intensity G i (update_config (c\<lparr>bc_adaptive := True\<rparr>)
       (burst_with_config burst_balanced))) = adapted_config G i
   \<and> update_config c (burst_with_config (burst_new x y)) = burst_with_config (burst_new x y)"
  by (simp add: adapt_config burst_with_config_def burst_low_power_def burst_performance_def
      burst_balanced_def update_config_def burst_new_def)

end
