(* ===== verification/Thermal.thy ===== *)
theory Thermal
  imports Burst Decimal "HOL-Library.Signed_Division"
begin

text \<open>
  The thermal governor of the miner (miner/src/thermal.rs): the temperature read from the thermal
  zones, the PID controller, and the update of the shared state. \<open>G\<close> is the arithmetic of \<open>f32\<close>;
  what the files of the zones hold at one moment is an argument (\<open>None\<close> is a file that cannot be
  read); instants are nanoseconds.
\<close>

definition DEFAULT_TARGET_TEMP :: i32 where "DEFAULT_TARGET_TEMP = 55000"
definition CRITICAL_TEMP :: i32 where "CRITICAL_TEMP = 85000"
definition KP :: "'g floats \<Rightarrow> 'g" where "KP G = f_lit G 8 (- 1)"
definition KI :: "'g floats \<Rightarrow> 'g" where "KI G = f_lit G 1 (- 1)"
definition KD :: "'g floats \<Rightarrow> 'g" where "KD G = f_lit G 2 (- 1)"
definition MIN_INTENSITY :: "'g floats \<Rightarrow> 'g" where "MIN_INTENSITY G = f_lit G 1 (- 1)"
definition MAX_INTENSITY :: "'g floats \<Rightarrow> 'g" where "MAX_INTENSITY G = f_lit G 1 0"

section \<open>State\<close>

record 'g thermal_state =
  th_current_temp :: i32
  th_target_temp :: i32
  th_intensity :: 'g
  th_is_critical :: bool
  th_last_update :: nat

definition thermal_state_default :: "'g floats \<Rightarrow> nat \<Rightarrow> 'g thermal_state" where
  "thermal_state_default G now = \<lparr>th_current_temp = 0, th_target_temp = DEFAULT_TARGET_TEMP,
     th_intensity = f_lit G 1 0, th_is_critical = False, th_last_update = now\<rparr>"

record 'g pid_controller =
  pid_previous_error :: 'g
  pid_integral :: 'g
  pid_last_time :: nat

definition pid_new :: "'g floats \<Rightarrow> nat \<Rightarrow> 'g pid_controller" where
  "pid_new G now = \<lparr>pid_previous_error = f_zero G, pid_integral = f_zero G, pid_last_time = now\<rparr>"

definition pid_compute :: "'g floats \<Rightarrow> nat \<Rightarrow> 'g \<Rightarrow> 'g pid_controller \<Rightarrow> 'g \<times> 'g pid_controller" where
  "pid_compute G now error pid =
     (let dt = as_secs G (now - pid_last_time pid) in
      if f_less G dt (f_lit G 1 (- 3)) then (f_zero G, pid)
      else
        (let proportional = f_mul G (KP G) error;
             i = f_clamp G (f_add G (pid_integral pid) (f_mul G error dt)) (f_lit G (- 10) 0) (f_lit G 10 0);
             integral = f_mul G (KI G) i;
             derivative = f_div G (f_mul G (KD G) (f_sub G error (pid_previous_error pid))) dt in
         (f_add G (f_add G proportional integral) derivative,
          \<lparr>pid_previous_error = error, pid_integral = i, pid_last_time = now\<rparr>)))"

text \<open>
  A governor: the shared state is kept apart, since every clone refers to the same one; the zones
  are the numbers of the files that exist.
\<close>

record 'g thermal_governor =
  gv_pid :: "'g pid_controller"
  gv_thermal_zones :: "nat list"

definition discover_thermal_zones :: "(nat \<Rightarrow> bool) \<Rightarrow> nat list" where
  "discover_thermal_zones zone_exists = filter zone_exists [0..<32]"

definition governor_new ::
  "'g floats \<Rightarrow> nat \<Rightarrow> (nat \<Rightarrow> bool) \<Rightarrow> 'g thermal_governor \<times> 'g thermal_state" where
  "governor_new G now zone_exists =
     (\<lparr>gv_pid = pid_new G now, gv_thermal_zones = discover_thermal_zones zone_exists\<rparr>,
      thermal_state_default G now)"

definition set_target_temp :: "'g floats \<Rightarrow> 'g \<Rightarrow> 'g thermal_state \<Rightarrow> 'g thermal_state" where
  "set_target_temp G temp_celsius st =
     st\<lparr>th_target_temp := f_to_i32 G (f_mul G temp_celsius (f_lit G 1000 0))\<rparr>"

definition with_target_temp ::
  "'g floats \<Rightarrow> nat \<Rightarrow> (nat \<Rightarrow> bool) \<Rightarrow> 'g \<Rightarrow> 'g thermal_governor \<times> 'g thermal_state" where
  "with_target_temp G now zone_exists target_temp_celsius =
     (let (governor, st) = governor_new G now zone_exists in
      (governor, st\<lparr>th_target_temp := f_to_i32 G (f_mul G target_temp_celsius (f_lit G 1000 0))\<rparr>))"

definition governor_clone :: "'g floats \<Rightarrow> nat \<Rightarrow> 'g thermal_governor \<Rightarrow> 'g thermal_governor" where
  "governor_clone G now g = g\<lparr>gv_pid := pid_new G now\<rparr>"

section \<open>Reading the temperature\<close>

definition valid_temp :: "i32 \<Rightarrow> bool" where
  "valid_temp t \<longleftrightarrow> 0 < sint t \<and> sint t < 120000"

definition zone_temp :: "bytes option \<Rightarrow> i32 option" where
  "zone_temp content = (case content of
     None \<Rightarrow> None
   | Some text \<Rightarrow> (case parse_i32 (trim_ascii text) of
         None \<Rightarrow> None
       | Some temp \<Rightarrow> if valid_temp temp then Some temp else None))"

definition read_temperature :: "(nat \<Rightarrow> bytes option) \<Rightarrow> 'g thermal_governor \<Rightarrow> i32 option" where
  "read_temperature files g =
     (if gv_thermal_zones g = [] then None
      else (let temps = List.map_filter (\<lambda>z. zone_temp (files z)) (gv_thermal_zones g) in
        if temps = [] then None
        else Some (of_int (sint (sum_list temps) sdiv sint (of_nat (length temps) :: i32)))))"

section \<open>The update\<close>

definition thermal_update ::
  "'g floats \<Rightarrow> nat \<Rightarrow> (nat \<Rightarrow> bytes option) \<Rightarrow> 'g thermal_governor \<Rightarrow> 'g thermal_state
   \<Rightarrow> 'g thermal_governor \<times> 'g thermal_state" where
  "thermal_update G now files g st =
     (case read_temperature files g of
        None \<Rightarrow> (g, st\<lparr>th_intensity := MAX_INTENSITY G, th_is_critical := False, th_last_update := now\<rparr>)
      | Some current_temp \<Rightarrow>
          (let st1 = st\<lparr>th_current_temp := current_temp, th_last_update := now\<rparr> in
           if sint CRITICAL_TEMP \<le> sint current_temp
           then (g, st1\<lparr>th_intensity := MIN_INTENSITY G, th_is_critical := True\<rparr>)
           else
             (let temp_error = f_div G (f_of_int G (sint (current_temp - th_target_temp st1))) (f_lit G 1000 0);
                  (pid_output, pid') = pid_compute G now temp_error (gv_pid g) in
              (g\<lparr>gv_pid := pid'\<rparr>,
               st1\<lparr>th_is_critical := False,
                   th_intensity := f_clamp G (f_sub G (th_intensity st1) (f_mul G pid_output (f_lit G 1 (- 1))))
                     (MIN_INTENSITY G) (MAX_INTENSITY G)\<rparr>))))"

definition governor_intensity :: "'g floats \<Rightarrow> 'g thermal_state \<Rightarrow> 'g" where
  "governor_intensity G st = f_clamp G (th_intensity st) (MIN_INTENSITY G) (MAX_INTENSITY G)"

definition governor_is_critical :: "'g thermal_state \<Rightarrow> bool" where
  "governor_is_critical st = th_is_critical st"

text \<open>The monitoring task: an update of its own clone with every tick.\<close>

fun monitoring ::
  "'g floats \<Rightarrow> (nat \<times> (nat \<Rightarrow> bytes option)) list \<Rightarrow> 'g thermal_governor \<Rightarrow> 'g thermal_state
   \<Rightarrow> 'g thermal_governor \<times> 'g thermal_state" where
  "monitoring G [] g st = (g, st)"
| "monitoring G ((now, files) # ticks) g st =
     (let (g', st') = thermal_update G now files g st in monitoring G ticks g' st')"

definition start_monitoring ::
  "'g floats \<Rightarrow> nat \<Rightarrow> (nat \<times> (nat \<Rightarrow> bytes option)) list \<Rightarrow> 'g thermal_governor \<Rightarrow> 'g thermal_state
   \<Rightarrow> 'g thermal_governor \<times> 'g thermal_state" where
  "start_monitoring G now ticks g st = monitoring G ticks (governor_clone G now g) st"

section \<open>Readings\<close>

lemma zone_temp_valid: "zone_temp r = Some t \<Longrightarrow> valid_temp t"
  by (auto simp: zone_temp_def split: option.splits if_splits)

lemma map_filter_all: "(\<And>x. x \<in> set xs \<Longrightarrow> f x = None) \<Longrightarrow> List.map_filter f xs = []"
  by (induction xs) (auto simp: List.map_filter_simps)

lemma no_reading:
  "(\<And>z. z \<in> set (gv_thermal_zones g) \<Longrightarrow> zone_temp (files z) = None) \<Longrightarrow> read_temperature files g = None"
  by (simp add: read_temperature_def map_filter_all)

definition in_limits :: "'g floats \<Rightarrow> 'g \<Rightarrow> bool" where
  "in_limits G x \<longleftrightarrow> \<not> f_less G x (MIN_INTENSITY G) \<and> \<not> f_less G (MAX_INTENSITY G) x"

text \<open>The comparison is one of numbers: irreflexive, and a tenth is less than one.\<close>

definition less_ok :: "'g floats \<Rightarrow> bool" where
  "less_ok G \<longleftrightarrow> (\<forall>x. \<not> f_less G x x) \<and> \<not> f_less G (MAX_INTENSITY G) (MIN_INTENSITY G)"

lemma clamp_in_limits: "less_ok G \<Longrightarrow> in_limits G (f_clamp G x (MIN_INTENSITY G) (MAX_INTENSITY G))"
  by (auto simp: less_ok_def in_limits_def f_clamp_def)

lemma thermal_update_in_limits: "less_ok G \<Longrightarrow> in_limits G (th_intensity (snd (thermal_update G now files g st)))"
  using clamp_in_limits [of G]
  by (auto simp: thermal_update_def Let_def less_ok_def in_limits_def split: option.splits prod.splits)

lemma monitoring_in_limits:
  "less_ok G \<Longrightarrow> in_limits G (th_intensity st) \<Longrightarrow> in_limits G (th_intensity (snd (monitoring G ticks g st)))"
proof (induction G ticks g st rule: monitoring.induct)
  case (2 G now files ticks g st)
  obtain g' st' where u: "thermal_update G now files g st = (g', st')" by fastforce
  then have "in_limits G (th_intensity st')"
    using thermal_update_in_limits [OF 2(2), of now files g st] by simp
  then show ?case using 2 u by simp
qed simp

lemma critical_update:
  assumes "read_temperature files g = Some t" "85000 \<le> sint t"
  shows "snd (thermal_update G now files g st) =
    st\<lparr>th_current_temp := t, th_last_update := now, th_intensity := MIN_INTENSITY G, th_is_critical := True\<rparr>"
  using assms by (simp add: thermal_update_def Let_def CRITICAL_TEMP_def)

lemma single_zone:
  assumes "gv_thermal_zones g = [z]" "zone_temp (files z) = Some t"
  shows "read_temperature files g = Some t"
  using assms
  by (simp add: read_temperature_def List.map_filter_simps)

text \<open>
  the emergency throttle has a ceiling. With one thermal zone, a reading from 85 degrees up to
  120 is critical and brings the intensity down to its minimum, but a reading of 120 degrees or
  more is thrown away as implausible: the update then takes the miner back to full intensity and
  lifts the alarm that was raised before.
\<close>
theorem overheating_runs_full:
  assumes zone: "gv_thermal_zones g = [z]" and r: "files z = Some text" "parse_i32 (trim_ascii text) = Some t"
    and hot: "85000 \<le> sint t"
  shows "thermal_update G now files g st =
    (if sint t < 120000
     then (g, st\<lparr>th_current_temp := t, th_last_update := now, th_intensity := MIN_INTENSITY G, th_is_critical := True\<rparr>)
     else (g, st\<lparr>th_intensity := MAX_INTENSITY G, th_is_critical := False, th_last_update := now\<rparr>))"
proof (cases "sint t < 120000")
  case True
  then have "read_temperature files g = Some t"
    using r hot by (intro single_zone [OF zone]) (simp add: zone_temp_def valid_temp_def)
  then show ?thesis using True hot by (simp add: thermal_update_def Let_def CRITICAL_TEMP_def)
next
  case False
  then have "read_temperature files g = None"
    using zone r by (intro no_reading) (simp add: zone_temp_def valid_temp_def)
  then show ?thesis using False by (simp add: thermal_update_def)
qed

theorem overheating_runs_full_witness:
  "let g = \<lparr>gv_pid = pid_new int_floats 0, gv_thermal_zones = [0]\<rparr>;
       st = \<lparr>th_current_temp = 90000, th_target_temp = 55000, th_intensity = 0, th_is_critical = True, th_last_update = 0\<rparr>
   in th_is_critical (snd (thermal_update int_floats 7 (\<lambda>_. Some [49, 49, 57, 48, 48, 48, 10]) g st))
    \<and> snd (thermal_update int_floats 7 (\<lambda>_. Some [49, 50, 53, 48, 48, 48, 10]) g st)
      = \<lparr>th_current_temp = 90000, th_target_temp = 55000, th_intensity = 1, th_is_critical = False, th_last_update = 7\<rparr>"
proof -
  have p: "parse_i32 (trim_ascii [49, 49, 57, 48, 48, 48, 10]) = Some 119000"
    "parse_i32 (trim_ascii [49, 50, 53, 48, 48, 48, 10]) = Some 125000"
    by (simp_all add: trim_ascii_def is_space_def parse_i32_def parse_unsigned_def Let_def)
  show ?thesis
    using overheating_runs_full [where files = "\<lambda>_. Some [49, 49, 57, 48, 48, 48, 10]" and z = 0, OF _ refl p(1),
        of "\<lparr>gv_pid = pid_new int_floats 0, gv_thermal_zones = [0]\<rparr>" int_floats 7]
      overheating_runs_full [where files = "\<lambda>_. Some [49, 50, 53, 48, 48, 48, 10]" and z = 0, OF _ refl p(2),
        of "\<lparr>gv_pid = pid_new int_floats 0, gv_thermal_zones = [0]\<rparr>" int_floats 7]
    by (simp add: Let_def MAX_INTENSITY_def int_floats_def)
qed

end
