(* ===== verification/Scratchpad.thy ===== *)
theory Scratchpad
  imports Hash
begin

text \<open>
  The aligned scratchpad and the optimised hasher of the miner (miner/src/aligned.rs). \<open>usize\<close> is
  64 bits and the product of the allocation size wraps, as it does in a release build. The
  allocator is an argument: the address it returns for a layout, 0 when it fails. The memory of
  a scratchpad is the list of its words; prefetching reads and writes nothing and is left out.
\<close>

definition CACHE_LINE_SIZE :: u64 where "CACHE_LINE_SIZE = 64"
definition SCRATCHPAD_SIZE :: u64 where "SCRATCHPAD_SIZE = 4 * 1024 * 1024"
definition ALIGNED_U64S :: u64 where "ALIGNED_U64S = 524288"

datatype aligned_error = InvalidSize | LayoutError | AllocationFailed

record mem_layout =
  ly_size :: u64
  ly_align :: u64

record aligned_scratchpad =
  asp_ptr :: u64
  asp_layout :: mem_layout
  asp_size_u64s :: u64
  asp_data :: "u64 list"

text \<open>
  \<open>Layout::from_size_align\<close>: the size, rounded up to the alignment, must not exceed the largest
  \<open>isize\<close>.
\<close>

definition from_size_align :: "u64 \<Rightarrow> u64 \<Rightarrow> mem_layout option" where
  "from_size_align nbytes align =
     (if unat nbytes \<le> 2 ^ 63 - unat align then Some \<lparr>ly_size = nbytes, ly_align = align\<rparr> else None)"

definition asp_clear :: "aligned_scratchpad \<Rightarrow> aligned_scratchpad" where
  "asp_clear s = s\<lparr>asp_data := replicate (unat (asp_size_u64s s)) 0\<rparr>"

definition asp_with_size :: "(mem_layout \<Rightarrow> u64) \<Rightarrow> u64 \<Rightarrow> aligned_error + aligned_scratchpad" where
  "asp_with_size alloc size_u64s =
     (if size_u64s = 0 then Inl InvalidSize
      else
        (let size_bytes = size_u64s * 8 in
         case from_size_align size_bytes CACHE_LINE_SIZE of
           None \<Rightarrow> Inl LayoutError
         | Some layout \<Rightarrow>
             (let p = alloc layout in
              if p = 0 then Inl AllocationFailed
              else Inr (asp_clear \<lparr>asp_ptr = p, asp_layout = layout, asp_size_u64s = size_u64s, asp_data = []\<rparr>))))"

definition asp_new :: "(mem_layout \<Rightarrow> u64) \<Rightarrow> aligned_error + aligned_scratchpad" where
  "asp_new alloc = asp_with_size alloc ALIGNED_U64S"

definition asp_len :: "aligned_scratchpad \<Rightarrow> u64" where "asp_len s = asp_size_u64s s"

definition asp_is_empty :: "aligned_scratchpad \<Rightarrow> bool" where "asp_is_empty s \<longleftrightarrow> asp_size_u64s s = 0"

text \<open>An access out of bounds is undefined in a release build: \<open>None\<close>.\<close>

definition read_with_prefetch :: "aligned_scratchpad \<Rightarrow> u64 \<Rightarrow> u64 option" where
  "read_with_prefetch s index = (if index < asp_size_u64s s then Some (asp_data s ! unat index) else None)"

definition write_with_prefetch :: "u64 \<Rightarrow> u64 \<Rightarrow> aligned_scratchpad \<Rightarrow> aligned_scratchpad option" where
  "write_with_prefetch index v s =
     (if index < asp_size_u64s s then Some (s\<lparr>asp_data := (asp_data s)[unat index := v]\<rparr>) else None)"

definition asp_is_aligned :: "aligned_scratchpad \<Rightarrow> bool" where
  "asp_is_aligned s \<longleftrightarrow> asp_ptr s mod CACHE_LINE_SIZE = 0"

record memory_info =
  mi_size_bytes :: u64
  mi_alignment :: u64
  mi_base_address :: u64
  mi_is_aligned :: bool

definition asp_memory_info :: "aligned_scratchpad \<Rightarrow> memory_info" where
  "asp_memory_info s = \<lparr>mi_size_bytes = asp_size_u64s s * 8, mi_alignment = CACHE_LINE_SIZE,
     mi_base_address = asp_ptr s, mi_is_aligned = asp_is_aligned s\<rparr>"

definition cache_lines :: "memory_info \<Rightarrow> u64" where
  "cache_lines m = (mi_size_bytes m + CACHE_LINE_SIZE - 1) div CACHE_LINE_SIZE"

section \<open>The optimised hasher\<close>

record optimized_sequal = os_scratchpad :: aligned_scratchpad

definition optimized_new :: "(mem_layout \<Rightarrow> u64) \<Rightarrow> aligned_error + optimized_sequal" where
  "optimized_new alloc = (case asp_new alloc of
     Inl e \<Rightarrow> Inl e | Inr s \<Rightarrow> Inr \<lparr>os_scratchpad = s\<rparr>)"

text \<open>The scratchpad of the hasher is not used: the hash is computed by the standard one.\<close>

definition hash_optimized :: "crypto \<Rightarrow> optimized_sequal \<Rightarrow> bytes \<Rightarrow> u32 \<Rightarrow> hash32 option" where
  "hash_optimized C h seed steps = sequal_hash C seed steps"

definition mine_step_with_steps ::
  "crypto \<Rightarrow> optimized_sequal \<Rightarrow> bytes \<Rightarrow> u64 \<Rightarrow> u32 \<Rightarrow> hash32 option" where
  "mine_step_with_steps C h block_header nonce steps =
     (let inp = block_header @ le64 nonce in hash_optimized C h inp steps)"

definition mine_step_optimized :: "crypto \<Rightarrow> optimized_sequal \<Rightarrow> bytes \<Rightarrow> u64 \<Rightarrow> hash32 option" where
  "mine_step_optimized C h block_header nonce = mine_step_with_steps C h block_header nonce MINING_STEPS"

section \<open>Accesses and sizes\<close>

text \<open>The allocation holds the words of the scratchpad.\<close>

definition asp_fits :: "aligned_scratchpad \<Rightarrow> bool" where
  "asp_fits s \<longleftrightarrow> 8 * unat (asp_size_u64s s) \<le> unat (ly_size (asp_layout s))"

definition asp_wf :: "aligned_scratchpad \<Rightarrow> bool" where
  "asp_wf s \<longleftrightarrow> length (asp_data s) = unat (asp_size_u64s s)"

lemma with_size_wf: "asp_with_size alloc n = Inr s \<Longrightarrow> asp_wf s"
  by (auto simp: asp_with_size_def Let_def asp_wf_def asp_clear_def split: option.splits if_splits)

lemma write_wf: "asp_wf s \<Longrightarrow> write_with_prefetch i v s = Some s' \<Longrightarrow> asp_wf s'"
  by (auto simp: write_with_prefetch_def asp_wf_def split: if_splits)

lemma read_write:
  assumes "asp_wf s" "write_with_prefetch i v s = Some s'"
  shows "read_with_prefetch s' j = (if j = i then Some v else read_with_prefetch s j)"
proof -
  have s': "i < asp_size_u64s s" "s' = s\<lparr>asp_data := (asp_data s)[unat i := v]\<rparr>"
    using assms(2) by (simp_all add: write_with_prefetch_def split: if_splits)
  then have "unat i < length (asp_data s)"
    using assms(1) by (simp add: asp_wf_def word_less_nat_alt)
  moreover have "unat j \<noteq> unat i" if "j \<noteq> i"
    using that unat_eqI by blast
  ultimately show ?thesis using s' by (auto simp: read_with_prefetch_def)
qed

lemma mine_step_with_steps_standard: "mine_step_with_steps C h header nonce steps = mine_step C header nonce steps"
  by (simp add: mine_step_with_steps_def hash_optimized_def mine_step_def)

text \<open>
  a scratchpad that could be created has room for its words exactly when the product of its
  size did not wrap around. From 2 to the power of 61 words on it does: the size of
  the allocation is then the rest, and clearing the new scratchpad writes far beyond it.
\<close>
theorem with_size_fits:
  assumes "asp_with_size alloc n = Inr s"
  shows "asp_fits s \<longleftrightarrow> unat n < 2 ^ 61"
proof -
  have n: "n \<noteq> 0" "asp_size_u64s s = n" "ly_size (asp_layout s) = n * 8"
    using assms by (auto simp: asp_with_size_def Let_def from_size_align_def asp_clear_def
        split: option.splits if_splits)
  have "unat (n * 8) = (8 * unat n) mod 2 ^ 64"
    by (simp add: unat_word_ariths mult.commute)
  moreover have "0 < unat n" using n(1) by (simp add: unat_gt_0)
  moreover have "(8 * m) mod 2 ^ 64 < 8 * m" if "2 ^ 61 \<le> m" for m :: nat
    using that by (intro less_le_trans [OF mod_less_divisor]) auto
  ultimately show ?thesis
    using n unfolding asp_fits_def by (cases "unat n < 2 ^ 61") (auto simp: not_le)
qed

theorem with_size_fits_witness:
  "(\<exists>s. asp_with_size (\<lambda>_. 4096) 2 = Inr s \<and> asp_fits s)
   \<and> (\<exists>s. asp_with_size (\<lambda>_. 4096) 2305843009213693953 = Inr s \<and> asp_size_u64s s = 2305843009213693953
      \<and> ly_size (asp_layout s) = 8 \<and> \<not> asp_fits s)"
proof -
  obtain s where s: "asp_with_size (\<lambda>_. 4096) 2 = Inr s"
    by (simp add: asp_with_size_def Let_def from_size_align_def CACHE_LINE_SIZE_def)
  obtain t where t: "asp_with_size (\<lambda>_. 4096) 2305843009213693953 = Inr t"
    "asp_size_u64s t = 2305843009213693953" "ly_size (asp_layout t) = 8"
    by (simp add: asp_with_size_def Let_def from_size_align_def CACHE_LINE_SIZE_def asp_clear_def)
  show ?thesis
    using with_size_fits [OF s] with_size_fits [OF t(1)] s t by auto
qed

end
