(* ===== verification/Miner.thy ===== *)
theory Miner
  imports Burst Thermal Scratchpad
begin

text \<open>
  The mining engine (miner/src/engine.rs, and the two start-up functions of miner/src/lib.rs):
  configuration, statistics, commands and events, one round of the mining loop and one mining
  iteration. The engine is shared by its clones, except for the PID controller of the governor,
  which every clone has anew; each spawned loop therefore carries a governor of its own, the
  header it mines and the hasher of its thread.

  A round of the loop is a \<open>tokio::select!\<close>: the branches are polled from a random first one on
  and the first one that is ready is taken. The command branch is always ready; the timer of the
  statistics is ready when a tick is due; the pause of a millisecond is created anew in every
  round and is ready only if it has already elapsed when it is first polled. These readings, the
  clock, the files of the thermal zones and the allocator are what a round finds around it; the
  clock is read once a round. \<open>F\<close> is the arithmetic of \<open>f64\<close>, \<open>G\<close> that of \<open>f32\<close> and \<open>wd\<close> the
  conversion from \<open>f32\<close> to \<open>f64\<close>.
\<close>

section \<open>Configuration\<close>

definition DEFAULT_DIFFICULTY :: u32 where "DEFAULT_DIFFICULTY = 16"

record 'g mining_config =
  mc_difficulty :: u32
  mc_steps :: u32
  mc_thermal_enabled :: bool
  mc_burst_config :: burst_config
  mc_target_temp_celsius :: 'g
  mc_worker_threads :: nat

definition mining_config_default :: "'g floats \<Rightarrow> 'g mining_config" where
  "mining_config_default G = \<lparr>mc_difficulty = DEFAULT_DIFFICULTY, mc_steps = MINING_STEPS,
     mc_thermal_enabled = True, mc_burst_config = burst_balanced, mc_target_temp_celsius = f_lit G 55 0,
     mc_worker_threads = 0\<rparr>"

definition mining_config_low_power :: "'g floats \<Rightarrow> nat \<Rightarrow> 'g mining_config" where
  "mining_config_low_power G num_cpus = \<lparr>mc_difficulty = DEFAULT_DIFFICULTY, mc_steps = MINING_STEPS,
     mc_thermal_enabled = True, mc_burst_config = burst_low_power, mc_target_temp_celsius = f_lit G 50 0,
     mc_worker_threads = min num_cpus 2\<rparr>"

definition mining_config_performance :: "'g floats \<Rightarrow> nat \<Rightarrow> 'g mining_config" where
  "mining_config_performance G num_cpus = \<lparr>mc_difficulty = DEFAULT_DIFFICULTY, mc_steps = MINING_STEPS,
     mc_thermal_enabled = True, mc_burst_config = burst_performance, mc_target_temp_celsius = f_lit G 70 0,
     mc_worker_threads = num_cpus\<rparr>"

definition mining_config_benchmark :: "'g floats \<Rightarrow> 'g mining_config" where
  "mining_config_benchmark G = \<lparr>mc_difficulty = 0, mc_steps = MINING_STEPS,
     mc_thermal_enabled = True, mc_burst_config = burst_balanced, mc_target_temp_celsius = f_lit G 60 0,
     mc_worker_threads = 1\<rparr>"

definition detect_optimal_config :: "'g floats \<Rightarrow> nat \<Rightarrow> nat \<Rightarrow> 'g mining_config" where
  "detect_optimal_config G cpu_count physical_cores =
     (let is_laptop_like = physical_cores \<le> 4 \<and> cpu_count \<le> 8;
          is_high_end = physical_cores \<ge> 8 \<and> cpu_count \<ge> 16 in
      if is_laptop_like
      then (mining_config_default G)\<lparr>mc_target_temp_celsius := f_lit G 50 0,
        mc_burst_config := burst_low_power, mc_worker_threads := min physical_cores 2\<rparr>
      else if is_high_end
      then (mining_config_default G)\<lparr>mc_target_temp_celsius := f_lit G 70 0,
        mc_burst_config := burst_performance, mc_worker_threads := physical_cores\<rparr>
      else (mining_config_default G)\<lparr>mc_target_temp_celsius := f_lit G 60 0,
        mc_burst_config := burst_balanced, mc_worker_threads := physical_cores\<rparr>)"

section \<open>Statistics\<close>

record ('f, 'g) mining_stats =
  mg_total_hashes :: u64
  mg_valid_hashes :: u64
  mg_runtime :: nat
  mg_hashrate :: 'f
  mg_effective_hashrate :: 'f
  mg_temperature :: i32
  mg_thermal_intensity :: 'g
  mg_power_efficiency :: 'f
  mg_burst_duty_cycle :: 'f

definition mining_stats_default :: "'f floats \<Rightarrow> 'g floats \<Rightarrow> ('f, 'g) mining_stats" where
  "mining_stats_default F G = \<lparr>mg_total_hashes = 0, mg_valid_hashes = 0, mg_runtime = 0,
     mg_hashrate = f_zero F, mg_effective_hashrate = f_zero F, mg_temperature = 0,
     mg_thermal_intensity = f_zero G, mg_power_efficiency = f_zero F, mg_burst_duty_cycle = f_zero F\<rparr>"

definition calculate_hashrate :: "'f floats \<Rightarrow> ('f, 'g) mining_stats \<Rightarrow> ('f, 'g) mining_stats" where
  "calculate_hashrate F s =
     (if mg_runtime s = 0 then s
      else (let rate = f_div F (f_u64 F (mg_total_hashes s)) (as_secs F (mg_runtime s)) in
        s\<lparr>mg_hashrate := rate,
          mg_effective_hashrate := f_mul F rate (f_div F (mg_burst_duty_cycle s) (f_lit F 100 0))\<rparr>))"

definition estimated_watts :: "'f floats \<Rightarrow> ('g \<Rightarrow> 'f) \<Rightarrow> ('f, 'g) mining_stats \<Rightarrow> 'f" where
  "estimated_watts F wd s = f_mul F (f_lit F 65 0) (wd (mg_thermal_intensity s))"

definition hashes_per_watt :: "'f floats \<Rightarrow> ('g \<Rightarrow> 'f) \<Rightarrow> ('f, 'g) mining_stats \<Rightarrow> 'f" where
  "hashes_per_watt F wd s = (let watts = estimated_watts F wd s in
     if f_less F (f_zero F) watts then f_div F (mg_hashrate s) watts else f_zero F)"

section \<open>Commands, events and errors\<close>

record mining_result =
  mr_hash :: hash32
  mr_nonce :: u64
  mr_difficulty :: u32
  mr_steps :: u32
  mr_timestamp :: nat

datatype 'g mining_command =
    Cmd_Start (start_header: bytes)
  | Cmd_Stop
  | Cmd_Update_Config "'g mining_config"
  | Cmd_Get_Stats
  | Cmd_Pause
  | Cmd_Resume

datatype ('f, 'g) mining_event =
    Ev_Started
  | Ev_Stopped
  | Ev_Hash_Found mining_result
  | Ev_Stats_Update "('f, 'g) mining_stats"
  | Ev_Error string
  | Ev_Paused
  | Ev_Resumed

datatype mining_engine_error =
    Already_Running
  | Not_Running
  | Scratchpad_Error aligned_error
  | Config_Error string
  | Channel_Error

fun aligned_error_text :: "aligned_error \<Rightarrow> string" where
  "aligned_error_text InvalidSize = ''Invalid scratchpad size''"
| "aligned_error_text LayoutError = ''Failed to create memory layout''"
| "aligned_error_text AllocationFailed = ''Memory allocation failed''"

fun engine_error_text :: "mining_engine_error \<Rightarrow> string" where
  "engine_error_text Already_Running = ''Mining engine is already running''"
| "engine_error_text Not_Running = ''Mining engine is not running''"
| "engine_error_text (Scratchpad_Error e) = ''Scratchpad error: '' @ aligned_error_text e"
| "engine_error_text (Config_Error msg) = ''Configuration error: '' @ msg"
| "engine_error_text Channel_Error = ''Channel communication error''"

section \<open>The engine\<close>

record ('f, 'g) mining_engine =
  me_config :: "'g mining_config"
  me_stats :: "('f, 'g) mining_stats"
  me_thermal_state :: "'g thermal_state"
  me_governor :: "'g thermal_governor"
  me_burst :: burst_controller
  me_is_running :: bool
  me_is_paused :: bool
  me_current_nonce :: u64
  me_start_time :: "nat option"
  me_commands :: "'g mining_command list"
  me_events :: "('f, 'g) mining_event list"

definition engine_with_config ::
  "'f floats \<Rightarrow> 'g floats \<Rightarrow> nat \<Rightarrow> (nat \<Rightarrow> bool) \<Rightarrow> 'g mining_config \<Rightarrow> ('f, 'g) mining_engine" where
  "engine_with_config F G now zone_exists config =
     (let (governor, thermal) = (if mc_thermal_enabled config
        then with_target_temp G now zone_exists (mc_target_temp_celsius config)
        else governor_new G now zone_exists) in
      \<lparr>me_config = config, me_stats = mining_stats_default F G, me_thermal_state = thermal,
       me_governor = governor, me_burst = burst_with_config (mc_burst_config config),
       me_is_running = False, me_is_paused = False, me_current_nonce = 0, me_start_time = None,
       me_commands = [], me_events = []\<rparr>)"

definition engine_new ::
  "'f floats \<Rightarrow> 'g floats \<Rightarrow> nat \<Rightarrow> (nat \<Rightarrow> bool) \<Rightarrow> ('f, 'g) mining_engine" where
  "engine_new F G now zone_exists = engine_with_config F G now zone_exists (mining_config_default G)"

definition send_command ::
  "'g mining_command \<Rightarrow> ('f, 'g) mining_engine \<Rightarrow> ('f, 'g) mining_engine" where
  "send_command c e = e\<lparr>me_commands := me_commands e @ [c]\<rparr>"

definition emit :: "('f, 'g) mining_event \<Rightarrow> ('f, 'g) mining_engine \<Rightarrow> ('f, 'g) mining_engine" where
  "emit v e = e\<lparr>me_events := me_events e @ [v]\<rparr>"

record 'g mining_loop =
  ml_header :: "bytes option"
  ml_governor :: "'g thermal_governor"
  ml_hasher :: "optimized_sequal option"
  ml_stopped :: bool

definition start_mining_loop :: "'g floats \<Rightarrow> nat \<Rightarrow> ('f, 'g) mining_engine \<Rightarrow> 'g mining_loop" where
  "start_mining_loop G now e = \<lparr>ml_header = None, ml_governor = governor_clone G now (me_governor e),
     ml_hasher = None, ml_stopped = False\<rparr>"

text \<open>The governor of the monitoring task and the loop that are spawned.\<close>

definition start_async ::
  "'g floats \<Rightarrow> nat \<Rightarrow> ('f, 'g) mining_engine \<Rightarrow> mining_engine_error + 'g thermal_governor \<times> 'g mining_loop" where
  "start_async G now e =
     (if me_is_running e then Inl Already_Running
      else Inr (governor_clone G now (me_governor e), start_mining_loop G now e))"

definition mine_with_optimized_scratchpad ::
  "crypto \<Rightarrow> (mem_layout \<Rightarrow> u64) \<Rightarrow> optimized_sequal option \<Rightarrow> bytes \<Rightarrow> u64 \<Rightarrow> u32
   \<Rightarrow> (aligned_error + hash32 option) \<times> optimized_sequal option" where
  "mine_with_optimized_scratchpad C alloc hasher block_header nonce steps =
     (case (case hasher of None \<Rightarrow> optimized_new alloc | Some h \<Rightarrow> Inr h) of
        Inl e \<Rightarrow> (Inl e, hasher)
      | Inr h \<Rightarrow> (Inr (mine_step_with_steps C h block_header nonce steps), Some h))"

text \<open>
  What a round finds around it: the branch that is polled first, whether the statistics tick and the
  pause of a millisecond that was just created are due at their first poll, and, when no branch is
  ready then and the round has to wait, whether the tick becomes due before the pause does.
\<close>

record round_env =
  le_first :: nat
  le_tick_due :: bool
  le_sleep_due :: bool
  le_tick_first :: bool
  le_now :: nat
  le_files :: "nat \<Rightarrow> bytes option"
  le_alloc :: "mem_layout \<Rightarrow> u64"

definition mine_iteration ::
  "crypto \<Rightarrow> 'g floats \<Rightarrow> round_env \<Rightarrow> bytes \<Rightarrow> 'g mining_loop \<Rightarrow> ('f, 'g) mining_engine
   \<Rightarrow> (mining_engine_error + unit) \<times> 'g mining_loop \<times> ('f, 'g) mining_engine" where
  "mine_iteration C G env block_header l e =
     (let config = me_config e;
          (governor, thermal_state) = thermal_update G (le_now env) (le_files env) (ml_governor l) (me_thermal_state e);
          adapted = adapt_to_thermal_intensity G (th_intensity thermal_state) (me_burst e);
          (should_mine, burst) = cycle_blocking (le_now env) adapted;
          l1 = l\<lparr>ml_governor := governor\<rparr>;
          e1 = e\<lparr>me_thermal_state := thermal_state, me_burst := burst\<rparr> in
      if \<not> should_mine \<or> th_is_critical thermal_state then (Inr (), l1, e1)
      else
        (let nonce = me_current_nonce e1;
             e2 = e1\<lparr>me_current_nonce := nonce + 1\<rparr>;
             (outcome, hasher) = mine_with_optimized_scratchpad C (le_alloc env) (ml_hasher l1)
               block_header nonce (mc_steps config);
             l2 = l1\<lparr>ml_hasher := hasher\<rparr>;
             result = (case outcome of Inr h \<Rightarrow> h | Inl _ \<Rightarrow> mine_step C block_header nonce (mc_steps config)) in
         case result of
           None \<Rightarrow> (Inr (), l2, e2)
         | Some h \<Rightarrow>
             (let e3 = e2\<lparr>me_stats := (me_stats e2)\<lparr>mg_total_hashes := mg_total_hashes (me_stats e2) + 1\<rparr>\<rparr> in
              if meets_difficulty h (mc_difficulty config)
              then (Inr (), l2, emit (Ev_Hash_Found \<lparr>mr_hash = h, mr_nonce = nonce,
                  mr_difficulty = mc_difficulty config, mr_steps = mc_steps config, mr_timestamp = le_now env\<rparr>)
                (e3\<lparr>me_stats := (me_stats e3)\<lparr>mg_valid_hashes := mg_valid_hashes (me_stats e3) + 1\<rparr>\<rparr>))
              else (Inr (), l2, e3))))"

definition update_stats ::
  "'f floats \<Rightarrow> ('g \<Rightarrow> 'f) \<Rightarrow> nat \<Rightarrow> ('f, 'g) mining_engine \<Rightarrow> ('f, 'g) mining_engine" where
  "update_stats F wd now e =
     (let s0 = me_stats e;
          s1 = (case me_start_time e of Some t \<Rightarrow> s0\<lparr>mg_runtime := now - t\<rparr> | None \<Rightarrow> s0);
          s2 = s1\<lparr>mg_temperature := th_current_temp (me_thermal_state e),
                  mg_thermal_intensity := th_intensity (me_thermal_state e)\<rparr>;
          s3 = calculate_hashrate F (s2\<lparr>mg_burst_duty_cycle := actual_duty_cycle F (bu_stats (me_burst e))\<rparr>) in
      e\<lparr>me_stats := s3\<lparr>mg_power_efficiency := hashes_per_watt F wd s3\<rparr>\<rparr>)"

section \<open>The loop\<close>

fun handle_command ::
  "nat \<Rightarrow> 'g mining_command \<Rightarrow> 'g mining_loop \<Rightarrow> ('f, 'g) mining_engine
   \<Rightarrow> 'g mining_loop \<times> ('f, 'g) mining_engine" where
  "handle_command now (Cmd_Start block_header) l e =
     (l\<lparr>ml_header := Some block_header\<rparr>,
      emit Ev_Started (e\<lparr>me_is_running := True, me_start_time := Some now\<rparr>))"
| "handle_command now Cmd_Stop l e =
     (l\<lparr>ml_stopped := True\<rparr>, emit Ev_Stopped (e\<lparr>me_is_running := False\<rparr>))"
| "handle_command now Cmd_Pause l e = (l, emit Ev_Paused (e\<lparr>me_is_paused := True\<rparr>))"
| "handle_command now Cmd_Resume l e = (l, emit Ev_Resumed (e\<lparr>me_is_paused := False\<rparr>))"
| "handle_command now (Cmd_Update_Config new_config) l e =
     (l, e\<lparr>me_config := new_config, me_burst := update_config (mc_burst_config new_config) (me_burst e)\<rparr>)"
| "handle_command now Cmd_Get_Stats l e = (l, emit (Ev_Stats_Update (me_stats e)) e)"

datatype select_branch = Commands | Stats_Tick | Mine

text \<open>
  The block of the command branch: it takes a command from the queue with \<open>try_recv\<close>, and completes
  with \<open>None\<close> when there is none. The result is \<open>None\<close> for a block that is still pending.
\<close>

definition poll_command :: "('f, 'g) mining_engine \<Rightarrow> ('g mining_command option \<times> ('f, 'g) mining_engine) option" where
  "poll_command e = (case me_commands e of
     [] \<Rightarrow> Some (None, e)
   | c # cs \<Rightarrow> Some (Some c, e\<lparr>me_commands := cs\<rparr>))"

text \<open>
  \<open>select!\<close> polls its branches once around from a random one and takes the first that is ready. If
  none is, it waits for the first of the timers, and the pause that was created for this round does
  become due.
\<close>

fun branch_ready :: "round_env \<Rightarrow> ('f, 'g) mining_engine \<Rightarrow> select_branch \<Rightarrow> bool" where
  "branch_ready env e Commands = (poll_command e \<noteq> None)"
| "branch_ready env e Stats_Tick = le_tick_due env"
| "branch_ready env e Mine = le_sleep_due env"

definition selected_branch :: "round_env \<Rightarrow> ('f, 'g) mining_engine \<Rightarrow> select_branch" where
  "selected_branch env e =
     (case filter (branch_ready env e) (rotate (le_first env) [Commands, Stats_Tick, Mine]) of
        b # _ \<Rightarrow> b
      | [] \<Rightarrow> if le_tick_first env then Stats_Tick else Mine)"

definition loop_round ::
  "crypto \<Rightarrow> 'f floats \<Rightarrow> 'g floats \<Rightarrow> ('g \<Rightarrow> 'f) \<Rightarrow> round_env \<Rightarrow> 'g mining_loop \<Rightarrow> ('f, 'g) mining_engine
   \<Rightarrow> 'g mining_loop \<times> ('f, 'g) mining_engine" where
  "loop_round C F G wd env l e =
     (if ml_stopped l then (l, e)
      else (case selected_branch env e of
          Commands \<Rightarrow>
            (case poll_command e of
               Some (Some c, e') \<Rightarrow> handle_command (le_now env) c l e'
             | _ \<Rightarrow> (l, e))
        | Stats_Tick \<Rightarrow>
            (if me_is_running e
             then (let e' = update_stats F wd (le_now env) e in (l, emit (Ev_Stats_Update (me_stats e')) e'))
             else (l, e))
        | Mine \<Rightarrow>
            (if me_is_running e \<and> \<not> me_is_paused e
             then (case ml_header l of
                 None \<Rightarrow> (l, e)
               | Some header \<Rightarrow>
                   (let (r, l', e') = mine_iteration C G env header l e in
                    case r of Inl err \<Rightarrow> (l', emit (Ev_Error (engine_error_text err)) e') | Inr _ \<Rightarrow> (l', e')))
             else (l, e))))"

text \<open>\<open>quick_mine\<close>: an engine, its tasks, and the command that starts it.\<close>

definition quick_mine ::
  "'f floats \<Rightarrow> 'g floats \<Rightarrow> nat \<Rightarrow> (nat \<Rightarrow> bool) \<Rightarrow> bytes
   \<Rightarrow> mining_engine_error + ('f, 'g) mining_engine \<times> 'g thermal_governor \<times> 'g mining_loop" where
  "quick_mine F G now zone_exists block_header =
     (let e = engine_new F G now zone_exists in
      case start_async G now e of
        Inl err \<Rightarrow> Inl err
      | Inr (monitor, l) \<Rightarrow> Inr (send_command (Cmd_Start block_header) e, monitor, l))"

end
