(* ===== verification/Miner_Props.thy ===== *)
theory Miner_Props
  imports Miner
begin

text \<open>
  The mining engine as a system: an engine, the loops and monitoring tasks spawned for it, and
  the commands sent to it, interleaved in any order. What every reported hash satisfies, what
  the loop never does, and what starting twice does.
\<close>

section \<open>Runs\<close>

record ('f, 'g) miner_system =
  ms_engine :: "('f, 'g) mining_engine"
  ms_loops :: "'g mining_loop list"
  ms_monitors :: "'g thermal_governor list"

text \<open>
  \<open>miner_run C F G wd ok cfg cmds n s\<close>: \<open>s\<close> is reached from a new engine with configuration \<open>cfg\<close>
  by \<open>n\<close> rounds of loops, each in surroundings that satisfy \<open>ok\<close>, after the commands \<open>cmds\<close> were
  sent.
\<close>

inductive miner_run ::
  "crypto \<Rightarrow> 'f floats \<Rightarrow> 'g floats \<Rightarrow> ('g \<Rightarrow> 'f) \<Rightarrow> (round_env \<Rightarrow> bool) \<Rightarrow> 'g mining_config
   \<Rightarrow> 'g mining_command set \<Rightarrow> nat \<Rightarrow> ('f, 'g) miner_system \<Rightarrow> bool"
  for C F G wd ok cfg where
  run_new: "miner_run C F G wd ok cfg {} 0
     \<lparr>ms_engine = engine_with_config F G now zone_exists cfg, ms_loops = [], ms_monitors = []\<rparr>"
| run_send: "miner_run C F G wd ok cfg cmds n s \<Longrightarrow>
     miner_run C F G wd ok cfg (insert c cmds) n (s\<lparr>ms_engine := send_command c (ms_engine s)\<rparr>)"
| run_start: "miner_run C F G wd ok cfg cmds n s \<Longrightarrow> start_async G now (ms_engine s) = Inr (m, l) \<Longrightarrow>
     miner_run C F G wd ok cfg cmds n (s\<lparr>ms_loops := ms_loops s @ [l], ms_monitors := ms_monitors s @ [m]\<rparr>)"
| run_monitor: "miner_run C F G wd ok cfg cmds n s \<Longrightarrow> i < length (ms_monitors s) \<Longrightarrow>
     thermal_update G now files (ms_monitors s ! i) (me_thermal_state (ms_engine s)) = (m, t) \<Longrightarrow>
     miner_run C F G wd ok cfg cmds n (s\<lparr>ms_monitors := (ms_monitors s)[i := m],
       ms_engine := (ms_engine s)\<lparr>me_thermal_state := t\<rparr>\<rparr>)"
| run_round: "miner_run C F G wd ok cfg cmds n s \<Longrightarrow> i < length (ms_loops s) \<Longrightarrow> ok env \<Longrightarrow>
     loop_round C F G wd env (ms_loops s ! i) (ms_engine s) = (l, e) \<Longrightarrow>
     miner_run C F G wd ok cfg cmds (Suc n) (s\<lparr>ms_loops := (ms_loops s)[i := l], ms_engine := e\<rparr>)"

text \<open>The hashes reported so far.\<close>

fun event_result :: "('f, 'g) mining_event \<Rightarrow> mining_result option" where
  "event_result (Ev_Hash_Found r) = Some r"
| "event_result _ = None"

definition found_results :: "('f, 'g) mining_engine \<Rightarrow> mining_result list" where
  "found_results e = List.map_filter event_result (me_events e)"

lemma filter_results_append: "List.map_filter f (xs @ ys) = List.map_filter f xs @ List.map_filter f ys"
  by (induction xs) (auto simp: List.map_filter_simps split: option.splits)

lemma found_emit [simp]: "found_results (emit v e) = found_results e @ (case event_result v of Some r \<Rightarrow> [r] | None \<Rightarrow> [])"
  by (simp add: found_results_def emit_def filter_results_append List.map_filter_simps split: option.splits)

lemma found_cong: "me_events e' = me_events e \<Longrightarrow> found_results e' = found_results e"
  by (simp add: found_results_def)

lemma emit_simps [simp]:
  "me_config (emit v e) = me_config e" "me_commands (emit v e) = me_commands e"
  "me_current_nonce (emit v e) = me_current_nonce e" "me_stats (emit v e) = me_stats e"
  by (simp_all add: emit_def)

section \<open>One iteration\<close>

lemma optimized_is_standard:
  "mine_with_optimized_scratchpad C alloc hasher header nonce steps = (r, hasher')
   \<Longrightarrow> (case r of Inr h \<Rightarrow> h | Inl _ \<Rightarrow> mine_step C header nonce steps) = mine_step C header nonce steps"
  by (auto simp: mine_with_optimized_scratchpad_def mine_step_with_steps_standard split: sum.splits option.splits)

text \<open>
  An iteration either computes no hash, or takes the next nonce and reports its hash exactly when
  it meets the difficulty.
\<close>

definition reported :: "crypto \<Rightarrow> bytes \<Rightarrow> 'g mining_config \<Rightarrow> u64 \<Rightarrow> mining_result \<Rightarrow> bool" where
  "reported C header cfg nonce r \<longleftrightarrow>
     mr_nonce r = nonce \<and> mr_difficulty r = mc_difficulty cfg \<and> mr_steps r = mc_steps cfg
     \<and> mine_step C header (mr_nonce r) (mr_steps r) = Some (mr_hash r)
     \<and> meets_difficulty (mr_hash r) (mr_difficulty r)"

lemma mine_iteration_frame:
  assumes "mine_iteration C G env header l e = (r, l', e')"
  shows "r = Inr () \<and> me_config e' = me_config e \<and> me_commands e' = me_commands e
    \<and> ml_header l' = ml_header l \<and> ml_stopped l' = ml_stopped l \<and> me_is_running e' = me_is_running e"
  using assms
  by (auto simp: mine_iteration_def Let_def emit_def split: prod.splits if_splits option.splits)

lemma mine_iteration_result:
  assumes "mine_iteration C G env header l e = (r, l', e')"
  shows "(me_current_nonce e' = me_current_nonce e \<and> found_results e' = found_results e)
    \<or> (me_current_nonce e' = me_current_nonce e + 1
       \<and> (found_results e' = found_results e
          \<or> (\<exists>x. found_results e' = found_results e @ [x] \<and> reported C header (me_config e) (me_current_nonce e) x)))"
proof -
  obtain gov t where u: "thermal_update G (le_now env) (le_files env) (ml_governor l) (me_thermal_state e) = (gov, t)"
    by fastforce
  obtain m b where b: "cycle_blocking (le_now env) (adapt_to_thermal_intensity G (th_intensity t) (me_burst e)) = (m, b)"
    by fastforce
  obtain out hs where o: "mine_with_optimized_scratchpad C (le_alloc env) (ml_hasher l) header
      (me_current_nonce e) (mc_steps (me_config e)) = (out, hs)"
    by fastforce
  show ?thesis
  proof (cases "\<not> m \<or> th_is_critical t")
    case True
    then show ?thesis
      using assms u b by (auto simp: mine_iteration_def Let_def intro: found_cong)
  next
    case False
    show ?thesis
    proof (cases "mine_step C header (me_current_nonce e) (mc_steps (me_config e))")
      case None
      then show ?thesis
        using assms u b False o optimized_is_standard [OF o]
        by (auto simp: mine_iteration_def Let_def intro: found_cong)
    next
      case (Some h)
      then show ?thesis
        using assms u b False o optimized_is_standard [OF o]
        by (auto simp: mine_iteration_def Let_def reported_def found_results_def emit_def
            filter_results_append List.map_filter_simps split: if_splits)
    qed
  qed
qed

section \<open>Rounds\<close>

text \<open>The block of the command branch never waits.\<close>

lemma poll_command_ready: "\<exists>c e'. poll_command e = Some (c, e')"
  by (simp add: poll_command_def split: list.split)


lemma handle_command_frame:
  "handle_command now c l e = (l', e') \<Longrightarrow> me_current_nonce e' = me_current_nonce e
    \<and> me_commands e' = me_commands e \<and> mg_total_hashes (me_stats e') = mg_total_hashes (me_stats e)
    \<and> found_results e' = found_results e
    \<and> (me_config e' = me_config e \<or> c = Cmd_Update_Config (me_config e'))
    \<and> (ml_header l' = ml_header l \<or> (\<exists>h. ml_header l' = Some h \<and> c = Cmd_Start h))"
  by (cases c) (auto simp: emit_def found_results_def filter_results_append List.map_filter_simps)

lemma update_stats_frame [simp]:
  "me_current_nonce (update_stats F wd now e) = me_current_nonce e"
  "me_commands (update_stats F wd now e) = me_commands e"
  "me_config (update_stats F wd now e) = me_config e"
  "me_events (update_stats F wd now e) = me_events e"
  "mg_total_hashes (me_stats (update_stats F wd now e)) = mg_total_hashes (me_stats e)"
  by (auto simp: update_stats_def Let_def calculate_hashrate_def split: option.splits)

text \<open>What a round does to the parts the properties are about.\<close>

lemma loop_round_effect:
  assumes "loop_round C F G wd env l e = (l', e')"
  shows "set (me_commands e') \<subseteq> set (me_commands e)
    \<and> (me_config e' = me_config e \<or> Cmd_Update_Config (me_config e') \<in> set (me_commands e))
    \<and> (ml_header l' = ml_header l \<or> (\<exists>h. ml_header l' = Some h \<and> Cmd_Start h \<in> set (me_commands e)))
    \<and> ((me_current_nonce e' = me_current_nonce e \<and> found_results e' = found_results e)
       \<or> (me_current_nonce e' = me_current_nonce e + 1 \<and> selected_branch env e = Mine
          \<and> (found_results e' = found_results e
             \<or> (\<exists>h x. ml_header l = Some h \<and> found_results e' = found_results e @ [x]
                  \<and> reported C h (me_config e) (me_current_nonce e) x))))"
proof (cases "ml_stopped l")
  case True
  then show ?thesis using assms by (simp add: loop_round_def)
next
  case run: False
  show ?thesis
  proof (cases "selected_branch env e")
    case Commands
    show ?thesis
    proof (cases "me_commands e")
      case Nil
      then show ?thesis using assms run Commands by (simp add: loop_round_def poll_command_def)
    next
      case (Cons c cs)
      then have h: "handle_command (le_now env) c l (e\<lparr>me_commands := cs\<rparr>) = (l', e')"
        using assms run Commands by (simp add: loop_round_def poll_command_def)
      have "found_results (e\<lparr>me_commands := cs\<rparr>) = found_results e" by (rule found_cong) simp
      then show ?thesis using handle_command_frame [OF h] Cons by auto
    qed
  next
    case Stats_Tick
    then show ?thesis
      using assms run
      by (auto simp: loop_round_def Let_def found_results_def emit_def filter_results_append
          List.map_filter_simps split: if_splits)
  next
    case Mine
    show ?thesis
    proof (cases "me_is_running e \<and> \<not> me_is_paused e \<and> ml_header l \<noteq> None")
      case False
      then show ?thesis using assms run Mine by (auto simp: loop_round_def split: option.splits if_splits)
    next
      case True
      then obtain h where h: "ml_header l = Some h" by auto
      obtain r l1 e1 where m: "mine_iteration C G env h l e = (r, l1, e1)" by (metis prod_cases3)
      have "l' = l1" "e' = e1"
        using assms run Mine True h m mine_iteration_frame [OF m] by (auto simp: loop_round_def)
      then show ?thesis
        using mine_iteration_frame [OF m] mine_iteration_result [OF m] h Mine by auto
    qed
  qed
qed

section \<open>What is reported\<close>

definition run_configs :: "'g mining_config \<Rightarrow> 'g mining_command set \<Rightarrow> 'g mining_config set" where
  "run_configs cfg cmds = insert cfg {c. Cmd_Update_Config c \<in> cmds}"

definition reported_in :: "crypto \<Rightarrow> 'g mining_config \<Rightarrow> 'g mining_command set \<Rightarrow> mining_result \<Rightarrow> bool" where
  "reported_in C cfg cmds r \<longleftrightarrow> (\<exists>header c. Cmd_Start header \<in> cmds \<and> c \<in> run_configs cfg cmds
     \<and> reported C header c (mr_nonce r) r)"

definition run_inv ::
  "crypto \<Rightarrow> 'g mining_config \<Rightarrow> 'g mining_command set \<Rightarrow> nat \<Rightarrow> ('f, 'g) miner_system \<Rightarrow> bool" where
  "run_inv C cfg cmds n s \<longleftrightarrow>
     set (me_commands (ms_engine s)) \<subseteq> cmds
     \<and> me_config (ms_engine s) \<in> run_configs cfg cmds
     \<and> (\<forall>l \<in> set (ms_loops s). \<forall>h. ml_header l = Some h \<longrightarrow> Cmd_Start h \<in> cmds)
     \<and> (\<forall>r \<in> set (found_results (ms_engine s)). reported_in C cfg cmds r)
     \<and> unat (me_current_nonce (ms_engine s)) \<le> n
     \<and> (n < 2 ^ 64 \<longrightarrow> sorted_wrt (<) (map mr_nonce (found_results (ms_engine s)))
          \<and> (\<forall>r \<in> set (found_results (ms_engine s)). mr_nonce r < me_current_nonce (ms_engine s)))"

lemma run_invI:
  assumes "set (me_commands (ms_engine s)) \<subseteq> cmds"
    "me_config (ms_engine s) \<in> run_configs cfg cmds"
    "\<And>l h. l \<in> set (ms_loops s) \<Longrightarrow> ml_header l = Some h \<Longrightarrow> Cmd_Start h \<in> cmds"
    "\<And>r. r \<in> set (found_results (ms_engine s)) \<Longrightarrow> reported_in C cfg cmds r"
    "unat (me_current_nonce (ms_engine s)) \<le> n"
    "n < 2 ^ 64 \<Longrightarrow> sorted_wrt (<) (map mr_nonce (found_results (ms_engine s)))
       \<and> (\<forall>r \<in> set (found_results (ms_engine s)). mr_nonce r < me_current_nonce (ms_engine s))"
  shows "run_inv C cfg cmds n s"
  using assms by (simp add: run_inv_def)

lemma run_inv_more_commands: "run_inv C cfg cmds n s \<Longrightarrow> cmds \<subseteq> cmds' \<Longrightarrow> run_inv C cfg cmds' n s"
  unfolding run_inv_def run_configs_def reported_in_def by blast

lemma run_inv_round:
  assumes inv: "run_inv C cfg cmds n s" and i: "i < length (ms_loops s)"
    and r: "loop_round C F G wd env (ms_loops s ! i) (ms_engine s) = (l, e)"
  shows "run_inv C cfg cmds (Suc n) (s\<lparr>ms_loops := (ms_loops s)[i := l], ms_engine := e\<rparr>)"
proof -
  let ?e = "ms_engine s" and ?l = "ms_loops s ! i"
  have cmds: "set (me_commands ?e) \<subseteq> cmds" and cfg: "me_config ?e \<in> run_configs cfg cmds"
    and hdr: "\<And>l h. l \<in> set (ms_loops s) \<Longrightarrow> ml_header l = Some h \<Longrightarrow> Cmd_Start h \<in> cmds"
    and rep: "\<And>r. r \<in> set (found_results ?e) \<Longrightarrow> reported_in C cfg cmds r"
    and nn: "unat (me_current_nonce ?e) \<le> n"
    and srt: "n < 2 ^ 64 \<Longrightarrow> sorted_wrt (<) (map mr_nonce (found_results ?e))
       \<and> (\<forall>r \<in> set (found_results ?e). mr_nonce r < me_current_nonce ?e)"
    using inv by (auto simp: run_inv_def)
  note eff = loop_round_effect [OF r]
  have li: "?l \<in> set (ms_loops s)" using i by simp
  have hdr': "Cmd_Start h \<in> cmds" if "k \<in> set ((ms_loops s)[i := l])" "ml_header k = Some h" for k h
  proof (cases "k \<in> set (ms_loops s)")
    case True
    then show ?thesis using hdr that(2) by blast
  next
    case False
    then have "k = l" using set_update_subset_insert [of "ms_loops s" i l] that(1) by blast
    then have "ml_header ?l = Some h \<or> Cmd_Start h \<in> set (me_commands ?e)" using eff that(2) by auto
    then show ?thesis using hdr [OF li] cmds by blast
  qed
  have cmds': "set (me_commands e) \<subseteq> cmds" using eff cmds by blast
  have cfg': "me_config e \<in> run_configs cfg cmds"
    using eff cfg cmds by (auto simp: run_configs_def)
  consider (same) "me_current_nonce e = me_current_nonce ?e" "found_results e = found_results ?e"
    | (next_nonce) "me_current_nonce e = me_current_nonce ?e + 1" "found_results e = found_results ?e"
    | (found) h x where "me_current_nonce e = me_current_nonce ?e + 1" "ml_header ?l = Some h"
        "found_results e = found_results ?e @ [x]" "reported C h (me_config ?e) (me_current_nonce ?e) x"
    using eff by blast
  then show ?thesis
  proof cases
    case same
    then show ?thesis using eff cmds cfg' hdr' rep nn srt by (intro run_invI) auto
  next
    case next_nonce
    have "me_current_nonce ?e < me_current_nonce ?e + 1" if "Suc n < 2 ^ 64"
      using nn that by (simp add: word_less_nat_alt unat_word_ariths)
    moreover have "unat (me_current_nonce ?e + 1) \<le> Suc n" using unat_inc_le [of "me_current_nonce ?e"] nn by simp
    ultimately show ?thesis
      using next_nonce eff cmds cfg' hdr' rep srt by (intro run_invI) (auto dest: order.strict_trans)
  next
    case found
    have lt: "me_current_nonce ?e < me_current_nonce ?e + 1" if "Suc n < 2 ^ 64"
      using nn that by (simp add: word_less_nat_alt unat_word_ariths)
    have n': "unat (me_current_nonce ?e + 1) \<le> Suc n" using unat_inc_le [of "me_current_nonce ?e"] nn by simp
    have x2: "mr_nonce x = me_current_nonce ?e" using found(4) by (simp add: reported_def)
    then have x1: "reported_in C cfg cmds x"
      using found(4) hdr [OF li found(2)] cfg unfolding reported_in_def by metis
    note x = x1 x2
    have below: "mr_nonce y < me_current_nonce ?e + 1"
      if "Suc n < 2 ^ 64" "y = x \<or> y \<in> set (found_results ?e)" for y
      using that x(2) srt lt by (auto dest: order.strict_trans)
    have "sorted_wrt (<) (map mr_nonce (found_results ?e @ [x]))" if "Suc n < 2 ^ 64"
      using that srt x(2) by (simp add: sorted_wrt_append)
    then show ?thesis
    proof (intro run_invI, goal_cases)
      case 1
      show ?case using cmds' by simp
    next
      case 2
      show ?case using cfg' by simp
    next
      case (3 k h)
      then show ?case using hdr' by simp
    next
      case (4 y)
      then show ?case using rep x(1) found(3) by auto
    next
      case 5
      show ?case using n' found(1) by simp
    next
      case 6
      then show ?case using found below by auto
    qed
  qed
qed

lemma miner_run_keeps: "miner_run C F G wd ok cfg cmds n s \<Longrightarrow> run_inv C cfg cmds n s"
proof (induction rule: miner_run.induct)
  case (run_new now zone_exists)
  show ?case
    by (rule run_invI) (auto simp: engine_with_config_def run_configs_def found_results_def Let_def
        List.map_filter_simps split: prod.splits)
next
  case (run_send cmds n s c)
  from run_send.IH have "run_inv C cfg (insert c cmds) n s" by (rule run_inv_more_commands) blast
  then show ?case by (auto simp: run_inv_def send_command_def found_results_def)
next
  case (run_start cmds n s now m l)
  then show ?case
    by (auto simp: run_inv_def start_async_def start_mining_loop_def split: if_splits)
next
  case (run_monitor cmds n s i now files m t)
  then show ?case by (simp add: run_inv_def found_results_def)
next
  case (run_round cmds n s i env l e)
  then show ?case by (blast intro: run_inv_round)
qed

text \<open>
  C36: what the engine reports is work done. However commands, loops and monitoring tasks
  interleave, every hash reported is the standard hash of the header of some start command that
  was sent and of its nonce, with the steps of a configuration that was set, and it meets that
  configuration's difficulty; in fewer than 2 to the power of 64 rounds no nonce is reported
  twice, whichever of several loops found it.
\<close>
theorem hash_found_sound:
  assumes "miner_run C F G wd ok cfg cmds n s"
  shows "(\<forall>r \<in> set (found_results (ms_engine s)). reported_in C cfg cmds r)
    \<and> (n < 2 ^ 64 \<longrightarrow> sorted_wrt (<) (map mr_nonce (found_results (ms_engine s))))"
  using miner_run_keeps [OF assms] by (auto simp: run_inv_def)

text \<open>A run that starts an engine on a header and mines once.\<close>

definition quiet_env :: "nat \<Rightarrow> bool \<Rightarrow> round_env" where
  "quiet_env first sleep_due = \<lparr>le_first = first, le_tick_due = False, le_sleep_due = sleep_due, le_tick_first = False,
     le_now = 1000000, le_files = (\<lambda>_. None), le_alloc = (\<lambda>_. 4096)\<rparr>"

lemma quiet_env_selects:
  "selected_branch (quiet_env 0 b) e = Commands" "selected_branch (quiet_env 2 True) e = Mine"
  by (simp_all add: selected_branch_def poll_command_ready quiet_env_def numeral_2_eq_2)

definition started_system :: "(int, int) miner_system" where
  "started_system = (let cfg = mining_config_benchmark int_floats;
       e = engine_with_config int_floats int_floats 0 (\<lambda>_. False) cfg;
       (l, e1) = loop_round toy_crypto int_floats int_floats id (quiet_env 0 False)
         (start_mining_loop int_floats 0 e) (send_command (Cmd_Start [1]) e) in
     \<lparr>ms_engine = e1, ms_loops = [l], ms_monitors = [governor_clone int_floats 0 (me_governor e)]\<rparr>)"

lemma started_system_run:
  "ok (quiet_env 0 False) \<Longrightarrow> miner_run toy_crypto int_floats int_floats id ok (mining_config_benchmark int_floats)
     {Cmd_Start [1]} 1 started_system"
proof -
  assume ok: "ok (quiet_env 0 False)"
  let ?cfg = "mining_config_benchmark int_floats"
  let ?e = "engine_with_config int_floats int_floats 0 (\<lambda>_. False) ?cfg"
  let ?c = "Cmd_Start [1] :: int mining_command"
  obtain l e1 where r: "loop_round toy_crypto int_floats int_floats id (quiet_env 0 False)
      (start_mining_loop int_floats 0 ?e) (send_command ?c ?e) = (l, e1)" by fastforce
  have "miner_run toy_crypto int_floats int_floats id ok ?cfg {?c} 0
     \<lparr>ms_engine = send_command ?c ?e, ms_loops = [], ms_monitors = []\<rparr>"
    using run_send [OF run_new [of toy_crypto int_floats int_floats id ok ?cfg 0 "\<lambda>_. False"], of ?c] by simp
  moreover have "start_async int_floats 0 (send_command ?c ?e) =
      Inr (governor_clone int_floats 0 (me_governor ?e), start_mining_loop int_floats 0 ?e)"
    by (simp add: start_async_def send_command_def start_mining_loop_def engine_with_config_def Let_def
        split: prod.splits)
  ultimately have *: "miner_run toy_crypto int_floats int_floats id ok ?cfg {?c} 0
     \<lparr>ms_engine = send_command ?c ?e, ms_loops = [start_mining_loop int_floats 0 ?e],
      ms_monitors = [governor_clone int_floats 0 (me_governor ?e)]\<rparr>"
    using run_start [where now = 0 and m = "governor_clone int_floats 0 (me_governor ?e)"
        and l = "start_mining_loop int_floats 0 ?e"] by fastforce
  from run_round [OF *, of 0 "quiet_env 0 False" l e1] show ?thesis
    using ok r by (simp add: started_system_def Let_def)
qed

lemma started_system_running:
  "me_is_running (ms_engine started_system) \<and> \<not> me_is_paused (ms_engine started_system)
   \<and> (\<exists>l. ms_loops started_system = [l] \<and> ml_header l = Some [1] \<and> \<not> ml_stopped l \<and> gv_thermal_zones (ml_governor l) = [])
   \<and> me_config (ms_engine started_system) = mining_config_benchmark int_floats
   \<and> bu_in_burst_phase (me_burst (ms_engine started_system)) = False
   \<and> me_current_nonce (ms_engine started_system) = 0 \<and> found_results (ms_engine started_system) = []"
  by (simp add: started_system_def Let_def loop_round_def quiet_env_selects send_command_def
      engine_with_config_def poll_command_def start_mining_loop_def governor_clone_def with_target_temp_def governor_new_def
      discover_thermal_zones_def emit_def found_results_def List.map_filter_simps burst_with_config_def
      mining_config_benchmark_def split: prod.splits)

lemma first_iteration:
  assumes "\<not> bu_in_burst_phase (me_burst e)" "gv_thermal_zones (ml_governor l) = []" "me_current_nonce e = 0"
    and "found_results e = []" "mine_step C header 0 (mc_steps (me_config e)) = Some h"
    and "meets_difficulty h (mc_difficulty (me_config e))" "mine_iteration C G env header l e = (r, l', e')"
  shows "\<exists>x. found_results e' = [x] \<and> mr_nonce x = 0"
proof -
  have "read_temperature f (ml_governor l) = None" for f
    using assms(2) by (simp add: read_temperature_def)
  moreover have "bu_in_burst_phase (adapt_to_thermal_intensity G i (me_burst e)) = bu_in_burst_phase (me_burst e)" for i
    by (auto simp: adapt_to_thermal_intensity_def update_config_def Let_def)
  moreover obtain out hs where o: "mine_with_optimized_scratchpad C (le_alloc env) (ml_hasher l) header
      0 (mc_steps (me_config e)) = (out, hs)" by fastforce
  ultimately show ?thesis
    using assms optimized_is_standard [OF o]
    by (auto simp: mine_iteration_def thermal_update_def cycle_blocking_def Let_def found_results_def emit_def
        filter_results_append List.map_filter_simps)
qed

theorem hash_found_sound_witness:
  "\<exists>s r. miner_run toy_crypto int_floats int_floats id (\<lambda>_. True) (mining_config_benchmark int_floats)
       {Cmd_Start [1]} 2 s
     \<and> found_results (ms_engine s) = [r] \<and> mr_nonce r = 0
     \<and> reported_in toy_crypto (mining_config_benchmark int_floats) {Cmd_Start [1]} r"
proof -
  let ?cfg = "mining_config_benchmark int_floats" and ?e = "ms_engine started_system"
  obtain l where l: "ms_loops started_system = [l]" "ml_header l = Some [1]" "\<not> ml_stopped l"
      "gv_thermal_zones (ml_governor l) = []"
    using started_system_running by blast
  obtain h where h: "mine_step toy_crypto [1] 0 MINING_STEPS = Some h"
    using sequal_hash_form [of toy_crypto "[1] @ le64 0" MINING_STEPS] by (auto simp: mine_step_def simp del: split_paired_Ex)
  have d: "meets_difficulty h 0"
    using unat_less_exp [of h] by (simp add: meets_difficulty_def seq_meets_difficulty_value)
  obtain l' e' where r: "loop_round toy_crypto int_floats int_floats id (quiet_env 2 True) l ?e = (l', e')"
    by fastforce
  obtain o1 l1 e1 where m: "mine_iteration toy_crypto int_floats (quiet_env 2 True) [1] l ?e = (o1, l1, e1)"
    by (metis prod_cases3)
  have "e' = e1"
    using r started_system_running l(2,3) m mine_iteration_frame [OF m]
    by (simp add: loop_round_def quiet_env_selects)
  moreover have "\<exists>x. found_results e1 = [x] \<and> mr_nonce x = 0"
    using started_system_running l(4) h d
    by (intro first_iteration [OF _ _ _ _ _ _ m, of h]) (simp_all add: mining_config_benchmark_def)
  ultimately have "\<exists>x. found_results e' = [x] \<and> mr_nonce x = 0" by simp
  then obtain x where x: "found_results e' = [x]" "mr_nonce x = 0" by blast
  from run_round [OF started_system_run, of "\<lambda>_. True" 0 "quiet_env 2 True" l' e'] l(1) r
  have "miner_run toy_crypto int_floats int_floats id (\<lambda>_. True) ?cfg {Cmd_Start [1]} 2
      (started_system\<lparr>ms_loops := [l'], ms_engine := e'\<rparr>)"
    by (simp add: numeral_2_eq_2)
  from this hash_found_sound [OF this] x show ?thesis
    by (intro exI [of _ "started_system\<lparr>ms_loops := [l'], ms_engine := e'\<rparr>"] exI [of _ x]) simp
qed

section \<open>The loop never mines\<close>

text \<open>
  The command branch is ready at every poll, so a round never waits, and the branch that mines is
  taken only if the pause has elapsed when it is first polled, right after it was created.
\<close>

lemma branches_ready: "filter (branch_ready env e) (rotate (le_first env) [Commands, Stats_Tick, Mine]) \<noteq> []"
  using poll_command_ready [of e] by (auto simp: filter_empty_conv)

lemma selected_branch_ready: "branch_ready env e (selected_branch env e)"
proof -
  obtain b bs where bs: "filter (branch_ready env e) (rotate (le_first env) [Commands, Stats_Tick, Mine]) = b # bs"
    using branches_ready by (meson neq_Nil_conv)
  from Cons_eq_filterD [OF bs [symmetric]] have "branch_ready env e b" by blast
  then show ?thesis using bs by (simp add: selected_branch_def)
qed

lemma selected_branch_Mine: "selected_branch env e = Mine \<Longrightarrow> le_sleep_due env"
  using selected_branch_ready [of env e] by simp

lemma loop_round_no_work:
  assumes "loop_round C F G wd env l e = (l', e')" "\<not> le_sleep_due env"
  shows "mg_total_hashes (me_stats e') = mg_total_hashes (me_stats e)"
    "me_current_nonce e' = me_current_nonce e" "found_results e' = found_results e"
proof -
  have sel: "selected_branch env e \<noteq> Mine" using assms(2) selected_branch_Mine by blast
  have "mg_total_hashes (me_stats e') = mg_total_hashes (me_stats e)"
    using assms(1) sel handle_command_frame [of "le_now env" _ l _ l' e']
    by (cases "selected_branch env e")
      (auto simp: loop_round_def poll_command_def Let_def split: if_splits list.splits)
  then show "mg_total_hashes (me_stats e') = mg_total_hashes (me_stats e)"
    "me_current_nonce e' = me_current_nonce e" "found_results e' = found_results e"
    using loop_round_effect [OF assms(1)] sel by auto
qed

lemma no_work_run:
  assumes "miner_run C F G wd ok cfg cmds n s" "\<And>env. ok env \<Longrightarrow> \<not> le_sleep_due env"
  shows "mg_total_hashes (me_stats (ms_engine s)) = 0 \<and> me_current_nonce (ms_engine s) = 0
    \<and> found_results (ms_engine s) = []"
  using assms
proof (induction rule: miner_run.induct)
  case (run_new now zone_exists)
  show ?case
    by (auto simp: engine_with_config_def mining_stats_default_def found_results_def Let_def
        List.map_filter_simps split: prod.splits)
next
  case (run_round cmds n s i env l e)
  then show ?case using loop_round_no_work [OF run_round(4)] by simp
qed (simp_all add: send_command_def found_results_def)

text \<open>
  C37: the mining loop starves its own work. The branch that polls the commands completes at once
  whether or not there is one, so a \<open>select!\<close> never waits, and the pause that triggers an
  iteration is dropped and created anew in every round. As long as a pause of a millisecond is not
  yet over when it is polled for the first time, no hash is computed and no nonce is taken, however
  many rounds the loops run and whatever commands they are sent, although the engine reports that it
  has started. A loop whose command branch waited for a command would get to the pause: a round in
  which nothing is ready ends with the first timer, and that may be the pause.
\<close>
theorem loop_never_mines:
  assumes "miner_run C F G wd ok cfg cmds n s" "\<And>env. ok env \<Longrightarrow> \<not> le_sleep_due env"
  shows "mg_total_hashes (me_stats (ms_engine s)) = 0 \<and> me_current_nonce (ms_engine s) = 0
    \<and> (\<forall>r. Ev_Hash_Found r \<notin> set (me_events (ms_engine s)))"
proof -
  have "Ev_Hash_Found r \<notin> set vs" if "List.map_filter event_result vs = []" for r and vs :: "('a, 'b) mining_event list"
    using that by (induction vs) (auto simp: List.map_filter_simps split: option.splits)
  then show ?thesis using no_work_run [OF assms] by (auto simp: found_results_def)
qed

theorem loop_never_mines_witness:
  "me_is_running (ms_engine started_system) \<and> mg_total_hashes (me_stats (ms_engine started_system)) = 0"
  using started_system_running
    loop_never_mines [OF started_system_run [of "\<lambda>env. \<not> le_sleep_due env"]]
  by (simp add: quiet_env_def)

section \<open>Starting twice\<close>

text \<open>
  starting is not guarded against being repeated. The flag that \<open>start_async\<close> looks at is
  set only when a loop takes the start command from the queue, so two calls in a row both succeed;
  of the two loops that then run, a single stop command ends one, and the other goes on with the
  engine marked as not running.
\<close>
theorem start_twice:
  fixes F :: "'f floats" and G :: "'g floats"
  assumes new: "e = engine_with_config F G now zone_exists cfg"
    and env: "\<And>e :: ('f, 'g) mining_engine. selected_branch env e = Commands"
      "\<And>e :: ('f, 'g) mining_engine. selected_branch env' e = Commands"
  shows "\<exists>m l m' l'. start_async G t e = Inr (m, l) \<and> start_async G t' e = Inr (m', l')
    \<and> (let (k, e1) = loop_round C F G wd env l (send_command (Cmd_Start header) e);
           (k', e2) = loop_round C F G wd env' l' (send_command Cmd_Stop e1) in
       me_is_running e1 \<and> ml_header k = Some header \<and> \<not> ml_stopped k
       \<and> ml_stopped k' \<and> \<not> me_is_running e2 \<and> me_commands e2 = [] \<and> start_async G t e1 = Inl Already_Running)"
proof -
  have "\<not> me_is_running e" "me_commands e = []"
    by (simp_all add: new engine_with_config_def Let_def split: prod.splits)
  then show ?thesis
    using env by (simp add: start_async_def start_mining_loop_def loop_round_def poll_command_def send_command_def emit_def)
qed

theorem start_twice_witness:
  "\<exists>m l m' l'. start_async int_floats 3 (engine_new int_floats int_floats 0 (\<lambda>_. False)) = Inr (m, l)
    \<and> start_async int_floats 4 (engine_new int_floats int_floats 0 (\<lambda>_. False)) = Inr (m', l')"
  using start_twice [OF refl quiet_env_selects(1) quiet_env_selects(1), where G = int_floats and F = int_floats
      and now = 0 and zone_exists = "\<lambda>_. False" and cfg = "mining_config_default int_floats" and t = 3 and t' = 4]
  unfolding engine_new_def by blast

end
