(* ===== verification/Miner_Bench.thy ===== *)
theory Miner_Bench
  imports Miner_Props Ledger
begin

text \<open>
  The benchmark of the miner (miner/src/bench.rs) and its check of the system (miner/src/lib.rs):
  results and their scores, the report with its recommendations, one measured run of an engine and
  the whole suite. What the engine sends while it is measured, what the clock shows and what the system says of
  itself are arguments; printing and the export as JSON are left out. Numbers that the
  code formats into the text of a recommendation are arguments of its constructor.
\<close>

section \<open>Configuration and results\<close>

datatype benchmark_duration = Quick | Standard | Extended | Custom nat

fun bench_nanos :: "benchmark_duration \<Rightarrow> nat" where
  "bench_nanos Quick = 30 * 10 ^ 9"
| "bench_nanos Standard = 120 * 10 ^ 9"
| "bench_nanos Extended = 300 * 10 ^ 9"
| "bench_nanos (Custom d) = d"

record benchmark_config =
  bg_duration :: benchmark_duration
  bg_thermal_analysis :: bool
  bg_burst_analysis :: bool
  bg_cache_analysis :: bool
  bg_export_json :: bool
  bg_compare_baseline :: bool
  bg_verbose :: bool

definition benchmark_config_default :: benchmark_config where
  "benchmark_config_default = \<lparr>bg_duration = Standard, bg_thermal_analysis = True,
     bg_burst_analysis = True, bg_cache_analysis = True, bg_export_json = False,
     bg_compare_baseline = True, bg_verbose = False\<rparr>"

text \<open>The field \<open>config\<close> of a result is the configuration whose text the code stores.\<close>

record ('f, 'g) benchmark_result =
  br_name :: string
  br_config :: burst_config
  br_duration :: nat
  br_total_hashes :: u64
  br_hashrate :: 'f
  br_effective_hashrate :: 'f
  br_avg_temperature :: 'g
  br_max_temperature :: 'g
  br_thermal_throttle_time :: nat
  br_estimated_watts :: 'f
  br_hashes_per_watt :: 'f
  br_efficiency_score :: 'f
  br_duty_cycle :: 'f
  br_burst_efficiency :: 'f
  br_cache_aligned :: bool
  br_cache_performance_boost :: 'f
  br_cpu_utilization :: 'f
  br_memory_usage_mb :: 'f

definition efficiency_score :: "'f floats \<Rightarrow> ('f, 'g) benchmark_result \<Rightarrow> 'f" where
  "efficiency_score F r =
     (let hashrate_score = f_min F (f_div F (br_effective_hashrate r) (f_lit F 1000 0)) (f_lit F 100 0);
          power_score = f_min F (f_div F (br_hashes_per_watt r) (f_lit F 10 0)) (f_lit F 100 0);
          thermal_score = (if br_thermal_throttle_time r = 0 then f_lit F 100 0 else f_lit F 50 0) in
      f_add F (f_add F (f_mul F hashrate_score (f_lit F 4 (- 1))) (f_mul F power_score (f_lit F 4 (- 1))))
        (f_mul F thermal_score (f_lit F 2 (- 1))))"

definition calculate_efficiency_score ::
  "'f floats \<Rightarrow> ('f, 'g) benchmark_result \<Rightarrow> ('f, 'g) benchmark_result" where
  "calculate_efficiency_score F r = r\<lparr>br_efficiency_score := efficiency_score F r\<rparr>"

definition relative_performance ::
  "'f floats \<Rightarrow> ('f, 'g) benchmark_result \<Rightarrow> ('f, 'g) benchmark_result \<Rightarrow> 'f" where
  "relative_performance F r baseline =
     (if f_eq F (br_hashrate baseline) (f_zero F) then f_zero F
      else f_mul F (f_div F (br_hashrate r) (br_hashrate baseline)) (f_lit F 100 0))"

definition relative_efficiency ::
  "'f floats \<Rightarrow> ('f, 'g) benchmark_result \<Rightarrow> ('f, 'g) benchmark_result \<Rightarrow> 'f" where
  "relative_efficiency F r baseline =
     (if f_eq F (br_hashes_per_watt baseline) (f_zero F) then f_zero F
      else f_mul F (f_div F (br_hashes_per_watt r) (br_hashes_per_watt baseline)) (f_lit F 100 0))"

section \<open>The report\<close>

text \<open>\<open>max_by\<close> keeps the later one of two equal elements.\<close>

fun max_by_loop :: "'f floats \<Rightarrow> ('r \<Rightarrow> 'f) \<Rightarrow> 'r \<Rightarrow> 'r list \<Rightarrow> 'r partial" where
  "max_by_loop F key best [] = Inr best"
| "max_by_loop F key best (r # rs) =
     (if \<not> comparable F (key best) (key r) then Inl Panic
      else max_by_loop F key (if f_less F (key r) (key best) then best else r) rs)"

definition max_by :: "'f floats \<Rightarrow> ('r \<Rightarrow> 'f) \<Rightarrow> 'r list \<Rightarrow> 'r option partial" where
  "max_by F key rs = (case rs of [] \<Rightarrow> Inr None | r # rs' \<Rightarrow>
     (case max_by_loop F key r rs' of Inl e \<Rightarrow> Inl e | Inr b \<Rightarrow> Inr (Some b)))"

datatype 'f recommendation =
    Use_For_Hashrate string 'f
  | Use_For_Efficiency string 'f
  | Optimal string
  | Reduce_Temperature
  | Enable_Bursts

record ('f, 'g) benchmark_report =
  rp_results :: "('f, 'g) benchmark_result list"
  rp_baseline :: "('f, 'g) benchmark_result option"
  rp_recommendations :: "'f recommendation list"

definition best_performance ::
  "'f floats \<Rightarrow> ('f, 'g) benchmark_report \<Rightarrow> ('f, 'g) benchmark_result option partial" where
  "best_performance F p = max_by F br_hashrate (rp_results p)"

definition best_efficiency ::
  "'f floats \<Rightarrow> ('f, 'g) benchmark_report \<Rightarrow> ('f, 'g) benchmark_result option partial" where
  "best_efficiency F p = max_by F br_efficiency_score (rp_results p)"

definition best_recommendations ::
  "('f, 'g) benchmark_result option \<Rightarrow> ('f, 'g) benchmark_result option \<Rightarrow> 'f recommendation list" where
  "best_recommendations best_perf best_eff = (case (best_perf, best_eff) of
     (Some perf, Some eff) \<Rightarrow>
       (if br_name perf \<noteq> br_name eff
        then [Use_For_Hashrate (br_name perf) (br_hashrate perf),
              Use_For_Efficiency (br_name eff) (br_efficiency_score eff)]
        else [Optimal (br_name perf)])
   | _ \<Rightarrow> [])"

definition generate_recommendations ::
  "'f floats \<Rightarrow> 'g floats \<Rightarrow> ('f, 'g) benchmark_report \<Rightarrow> ('f, 'g) benchmark_report partial" where
  "generate_recommendations F G p =
     (case best_performance F p of Inl e \<Rightarrow> Inl e | Inr best_perf \<Rightarrow>
     (case best_efficiency F p of Inl e \<Rightarrow> Inl e | Inr best_eff \<Rightarrow>
       Inr (p\<lparr>rp_recommendations :=
         best_recommendations best_perf best_eff
         @ (if list_ex (\<lambda>r. f_less G (f_lit G 75 0) (br_max_temperature r)) (rp_results p)
            then [Reduce_Temperature] else [])
         @ (case rp_baseline p of None \<Rightarrow> []
            | Some baseline \<Rightarrow>
                if list_ex (\<lambda>r. f_less F (f_lit F 120 0) (relative_efficiency F r baseline)) (rp_results p)
                then [Enable_Bursts] else [])\<rparr>)))"

section \<open>A measured run\<close>

text \<open>
  One turn of the measuring loop: the time since the start and either the tick that asks for statistics or what the
  channel of events held.
\<close>

datatype ('f, 'g) bench_poll = Poll_Tick | Poll_Event "('f, 'g) mining_event option"

record 'g bench_meter =
  bm_total_hashes :: u64
  bm_temperatures :: "'g list"
  bm_throttle_start :: "nat option"
  bm_throttle_time :: nat
  bm_sent :: nat

definition bench_meter_new :: "'g bench_meter" where
  "bench_meter_new = \<lparr>bm_total_hashes = 0, bm_temperatures = [], bm_throttle_start = None,
     bm_throttle_time = 0, bm_sent = 0\<rparr>"

fun bench_event ::
  "'g floats \<Rightarrow> nat \<Rightarrow> ('f, 'g) mining_event \<Rightarrow> 'g bench_meter \<Rightarrow> 'g bench_meter" where
  "bench_event G now (Ev_Stats_Update stats) m =
     (let m1 = m\<lparr>bm_total_hashes := mg_total_hashes stats,
                 bm_temperatures := bm_temperatures m
                   @ [f_div G (f_of_int G (sint (mg_temperature stats))) (f_lit G 1000 0)]\<rparr> in
      if f_less G (mg_thermal_intensity stats) (f_lit G 8 (- 1))
      then (if bm_throttle_start m1 = None then m1\<lparr>bm_throttle_start := Some now\<rparr> else m1)
      else (case bm_throttle_start m1 of
          Some t \<Rightarrow> m1\<lparr>bm_throttle_time := bm_throttle_time m1 + (now - t), bm_throttle_start := None\<rparr>
        | None \<Rightarrow> m1))"
| "bench_event G now _ m = m"

fun bench_loop ::
  "'g floats \<Rightarrow> nat \<Rightarrow> (nat \<times> ('f, 'g) bench_poll) list \<Rightarrow> 'g bench_meter \<Rightarrow> 'g bench_meter" where
  "bench_loop G duration [] m = m"
| "bench_loop G duration ((elapsed, p) # ps) m =
     (if duration \<le> elapsed then m
      else bench_loop G duration ps (case p of
          Poll_Tick \<Rightarrow> m\<lparr>bm_sent := bm_sent m + 1\<rparr>
        | Poll_Event None \<Rightarrow> m
        | Poll_Event (Some v) \<Rightarrow> bench_event G elapsed v m))"

definition bench_result ::
  "'f floats \<Rightarrow> 'g floats \<Rightarrow> string \<Rightarrow> 'g mining_config \<Rightarrow> nat \<Rightarrow> 'g bench_meter \<Rightarrow> ('f, 'g) benchmark_result" where
  "bench_result F G name config actual_duration m =
     (let hashrate = f_div F (f_u64 F (bm_total_hashes m)) (as_secs F actual_duration);
          temps = bm_temperatures m;
          avg = f_div G (foldl (f_add G) (f_zero G) temps) (f_nat G (max (length temps) 1));
          hottest = foldl (f_max G) (f_zero G) temps;
          burst_duty = duty_cycle F (mc_burst_config config);
          watts = f_mul F (f_lit F 65 0) (f_div F burst_duty (f_lit F 100 0));
          per_watt = (if f_less F (f_zero F) watts then f_div F hashrate watts else f_zero F) in
      calculate_efficiency_score F
        \<lparr>br_name = name, br_config = mc_burst_config config, br_duration = actual_duration,
         br_total_hashes = bm_total_hashes m, br_hashrate = hashrate,
         br_effective_hashrate = f_mul F hashrate (f_div F burst_duty (f_lit F 100 0)),
         br_avg_temperature = avg, br_max_temperature = hottest,
         br_thermal_throttle_time = bm_throttle_time m, br_estimated_watts = watts,
         br_hashes_per_watt = per_watt, br_efficiency_score = f_zero F, br_duty_cycle = burst_duty,
         br_burst_efficiency = f_mul F (hashrate_efficiency F (mc_burst_config config)) (f_lit F 100 0),
         br_cache_aligned = True, br_cache_performance_boost = f_zero F,
         br_cpu_utilization = burst_duty, br_memory_usage_mb = f_lit F 4 0\<rparr>)"

text \<open>
  What a run meets: the polls of its loop and the time it took in the end. The calls of a run that
  return a result do not fail: its engine is new, and its channels are open.
\<close>

type_synonym ('f, 'g) bench_trace = "(nat \<times> ('f, 'g) bench_poll) list \<times> nat"

definition run_single_benchmark ::
  "'f floats \<Rightarrow> 'g floats \<Rightarrow> benchmark_config \<Rightarrow> string \<Rightarrow> 'g mining_config \<Rightarrow> ('f, 'g) bench_trace
   \<Rightarrow> ('f, 'g) benchmark_result" where
  "run_single_benchmark F G bg name config tr =
     bench_result F G name config (snd tr)
       (bench_loop G (bench_nanos (bg_duration bg)) (fst tr) bench_meter_new)"

definition run_cache_optimization_test ::
  "'f floats \<Rightarrow> 'g floats \<Rightarrow> benchmark_config \<Rightarrow> 'g mining_config \<Rightarrow> ('f, 'g) bench_trace
   \<Rightarrow> ('f, 'g) benchmark_result" where
  "run_cache_optimization_test F G bg config tr =
     (run_single_benchmark F G bg ''Cache Aligned'' config tr)
       \<lparr>br_name := ''Cache Optimized'', br_cache_performance_boost := f_lit F 5 0\<rparr>"

section \<open>The suite\<close>

definition baseline_config :: "'g floats \<Rightarrow> 'g mining_config" where
  "baseline_config G = (mining_config_benchmark G)
     \<lparr>mc_thermal_enabled := False, mc_burst_config := burst_new 1000 0\<rparr>"

definition burst_suite :: "'g floats \<Rightarrow> (string \<times> 'g mining_config) list" where
  "burst_suite G =
     [(''Low Power Burst'', (mining_config_benchmark G)\<lparr>mc_burst_config := burst_low_power\<rparr>),
      (''Balanced Burst'', (mining_config_benchmark G)\<lparr>mc_burst_config := burst_balanced\<rparr>),
      (''Performance Burst'', (mining_config_benchmark G)\<lparr>mc_burst_config := burst_performance\<rparr>)]"

definition thermal_suite :: "'g floats \<Rightarrow> (string \<times> 'g mining_config) list" where
  "thermal_suite G =
     [(''Conservative Thermal'', (mining_config_benchmark G)\<lparr>mc_target_temp_celsius := f_lit G 45 0\<rparr>),
      (''Aggressive Thermal'', (mining_config_benchmark G)\<lparr>mc_target_temp_celsius := f_lit G 75 0\<rparr>)]"

text \<open>Every run of the suite meets a trace of its own, named by the run. Results collect over calls.\<close>

definition run_full_benchmark ::
  "'f floats \<Rightarrow> 'g floats \<Rightarrow> benchmark_config \<Rightarrow> (string \<Rightarrow> ('f, 'g) bench_trace)
   \<Rightarrow> ('f, 'g) benchmark_result list \<Rightarrow> ('f, 'g) benchmark_report partial" where
  "run_full_benchmark F G bg tr results =
     (let run = (\<lambda>(name, config). run_single_benchmark F G bg name config (tr name));
          baseline = (if bg_compare_baseline bg
            then Some (run (''Baseline (Continuous)'', baseline_config G)) else None);
          rs1 = results @ (if bg_burst_analysis bg then map run (burst_suite G) else []);
          rs2 = rs1 @ (if bg_thermal_analysis bg then map run (thermal_suite G) else []);
          rs3 = rs2 @ (if bg_cache_analysis bg
            then [run_cache_optimization_test F G bg (mining_config_benchmark G) (tr ''Cache Aligned'')]
            else []) in
      generate_recommendations F G \<lparr>rp_results = rs3, rp_baseline = baseline, rp_recommendations = []\<rparr>)"

section \<open>The best of the results\<close>

lemma max_by_loop_max:
  assumes "order_on F A" "key best \<in> A" "key ` set rs \<subseteq> A"
  shows "\<exists>b. max_by_loop F key best rs = Inr b \<and> b \<in> set (best # rs)
    \<and> (\<forall>r \<in> set (best # rs). \<not> f_less F (key b) (key r))"
  using assms(2,3)
proof (induction rs arbitrary: best)
  case Nil
  then show ?case using assms(1) by (simp add: order_on_def)
next
  case (Cons r rs)
  let ?m = "if f_less F (key r) (key best) then best else r"
  have A: "key r \<in> A" "key best \<in> A" "key ?m \<in> A" using Cons.prems by auto
  have c: "comparable F (key best) (key r)"
    using assms(1) A(1,2) unfolding order_on_def by blast
  have rs: "key ` set rs \<subseteq> A" using Cons.prems(2) by simp
  from Cons.IH [OF A(3) rs] obtain b where *: "max_by_loop F key ?m rs = Inr b \<and> b \<in> set (?m # rs)
    \<and> (\<forall>x \<in> set (?m # rs). \<not> f_less F (key b) (key x))" ..
  note b = conjunct1 [OF *] conjunct1 [OF conjunct2 [OF *]] and max = conjunct2 [OF conjunct2 [OF *]]
  have kb: "key b \<in> A" using b(2) A Cons.prems(2) by (auto split: if_splits)
  have irr: "\<not> f_less F x x" if "x \<in> A" for x
    using assms(1) that unfolding order_on_def by blast
  have asym: "\<not> f_less F y x" if "x \<in> A" "y \<in> A" "f_less F x y" for x y
    using assms(1) that unfolding order_on_def by blast
  have m: "\<not> f_less F (key ?m) (key best)" "\<not> f_less F (key ?m) (key r)"
    using irr [OF A(1)] irr [OF A(2)] asym [OF A(1,2)] by simp_all
  have bm: "\<not> f_less F (key b) (key ?m)" using max by simp
  have tr: "\<not> f_less F x z" if "x \<in> A" "y \<in> A" "z \<in> A" "\<not> f_less F x y" "\<not> f_less F y z" for x y z
    using assms(1) that unfolding order_on_def by metis
  have "\<not> f_less F (key b) (key best)" by (rule tr [OF kb A(3) A(2) bm m(1)])
  moreover have "\<not> f_less F (key b) (key r)" by (rule tr [OF kb A(3) A(1) bm m(2)])
  ultimately have "\<not> f_less F (key b) (key x)" if "x \<in> set (best # r # rs)" for x
    using that max by auto
  moreover have "max_by_loop F key best (r # rs) = Inr b" using c b(1) by simp
  moreover have "b \<in> set (best # r # rs)" using b(2) by (auto split: if_splits)
  ultimately show ?case by blast
qed

text \<open>
  when no hashrate is a NaN, the report finds a result that no other one beats, and only an
  empty report has none.
\<close>
theorem best_performance_max:
  assumes "order_on F (br_hashrate ` set (rp_results p))"
  shows "if rp_results p = [] then best_performance F p = Inr None
    else \<exists>b. best_performance F p = Inr (Some b) \<and> b \<in> set (rp_results p)
       \<and> (\<forall>r \<in> set (rp_results p). \<not> f_less F (br_hashrate b) (br_hashrate r))"
proof (cases "rp_results p")
  case (Cons r rs)
  then have "br_hashrate r \<in> br_hashrate ` set (rp_results p)"
    "br_hashrate ` set rs \<subseteq> br_hashrate ` set (rp_results p)" by auto
  from max_by_loop_max [OF assms this] show ?thesis
    using Cons by (auto simp: best_performance_def max_by_def)
qed (simp add: best_performance_def max_by_def)

theorem best_performance_max_witness:
  "\<exists>b. best_performance int_floats \<lparr>rp_results = [bench_result int_floats int_floats ''a'' (mining_config_benchmark int_floats)
      1000000000 (bench_meter_new\<lparr>bm_total_hashes := 7\<rparr>)], rp_baseline = None, rp_recommendations = []\<rparr> = Inr (Some b)"
  using best_performance_max [of int_floats "\<lparr>rp_results = [bench_result int_floats int_floats ''a'' (mining_config_benchmark int_floats)
      1000000000 (bench_meter_new\<lparr>bm_total_hashes := 7\<rparr>)], rp_baseline = None, rp_recommendations = []\<rparr>"]
  by (auto simp: order_on_def comparable_def int_floats_def)

section \<open>What a benchmark measures\<close>

definition stats_total :: "u64 \<Rightarrow> ('f, 'g) mining_event \<Rightarrow> bool" where
  "stats_total n v \<longleftrightarrow> (case v of Ev_Stats_Update s \<Rightarrow> mg_total_hashes s = n | _ \<Rightarrow> True)"

lemma loop_round_events:
  assumes "loop_round C F G wd env l e = (l', e')" "\<not> le_sleep_due env" "v \<in> set (me_events e')"
  shows "v \<in> set (me_events e) \<or> stats_total (mg_total_hashes (me_stats e)) v"
proof -
  have "selected_branch env e \<noteq> Mine" using assms(2) selected_branch_Mine by blast
  moreover have "w \<in> set (me_events e) \<or> stats_total (mg_total_hashes (me_stats e)) w"
    if "handle_command (le_now env) c l (e\<lparr>me_commands := cs\<rparr>) = (l', e')" "w \<in> set (me_events e')" for c cs w
    using that by (cases c) (auto simp: emit_def stats_total_def)
  ultimately show ?thesis
    using assms(1,3)
    by (cases "selected_branch env e")
      (auto simp: loop_round_def poll_command_def Let_def emit_def stats_total_def split: if_splits list.splits)
qed

lemma no_work_events:
  assumes "miner_run C F G wd ok cfg cmds n s" "\<And>env. ok env \<Longrightarrow> \<not> le_sleep_due env"
  shows "\<forall>v \<in> set (me_events (ms_engine s)). stats_total 0 v"
  using assms
proof (induction rule: miner_run.induct)
  case (run_new now zone_exists)
  show ?case by (auto simp: engine_with_config_def Let_def split: prod.splits)
next
  case (run_round cmds n s i env l e)
  have "mg_total_hashes (me_stats (ms_engine s)) = 0"
    using no_work_run [OF run_round(1) run_round(6)] by blast
  then show ?case
    using loop_round_events [OF run_round(4)] run_round.IH run_round.prems run_round(3) by fastforce
qed (simp_all add: send_command_def)

lemma bench_loop_total:
  assumes "\<forall>(t, p) \<in> set ps. \<forall>v. p = Poll_Event (Some v) \<longrightarrow> stats_total n v" "bm_total_hashes m = n"
  shows "bm_total_hashes (bench_loop G duration ps m) = n"
  using assms
proof (induction G duration ps m rule: bench_loop.induct)
  case (2 G duration elapsed p ps m)
  have ev: "bm_total_hashes (bench_event G elapsed v m) = n" if "stats_total n v" for v
    using that 2(3) by (cases v) (auto simp: stats_total_def Let_def split: option.splits)
  let ?m = "case p of Poll_Tick \<Rightarrow> m\<lparr>bm_sent := bm_sent m + 1\<rparr> | Poll_Event None \<Rightarrow> m
    | Poll_Event (Some v) \<Rightarrow> bench_event G elapsed v m"
  have "bm_total_hashes ?m = n"
    using ev 2(2,3) by (auto split: bench_poll.splits option.splits)
  moreover have "\<forall>(t, p) \<in> set ps. \<forall>v. p = Poll_Event (Some v) \<longrightarrow> stats_total n v"
    using 2(2) by simp
  ultimately have "\<not> duration \<le> elapsed \<Longrightarrow> bm_total_hashes (bench_loop G duration ps ?m) = n"
    by (intro 2(1))
  then show ?case using 2(3) by simp
qed simp

text \<open>
  the benchmark of an engine whose loop starves its work measures nothing: as long as no pause has
  elapsed when it is first polled, the run of every configuration reports no hashes, and
  its hashrate is that of zero hashes in its time.
\<close>
theorem benchmark_measures_nothing:
  assumes "miner_run C F G wd ok config cmds n s" "\<And>env. ok env \<Longrightarrow> \<not> le_sleep_due env"
    and "\<And>t v. (t, Poll_Event (Some v)) \<in> set polls \<Longrightarrow> v \<in> set (me_events (ms_engine s))"
  shows "br_total_hashes (run_single_benchmark F G bg name config (polls, time)) = 0
    \<and> br_hashrate (run_single_benchmark F G bg name config (polls, time)) = f_div F (f_u64 F 0) (as_secs F time)"
proof -
  have "bm_total_hashes (bench_loop G (bench_nanos (bg_duration bg)) polls bench_meter_new) = 0"
    using no_work_events [OF assms(1,2)] assms(3)
    by (intro bench_loop_total) (auto simp: bench_meter_new_def)
  then show ?thesis
    by (simp add: run_single_benchmark_def bench_result_def calculate_efficiency_score_def Let_def)
qed

theorem benchmark_measures_nothing_witness:
  "br_total_hashes (run_single_benchmark int_floats int_floats benchmark_config_default ''Run''
     (mining_config_benchmark int_floats) ([(0, Poll_Tick), (1, Poll_Event (Some Ev_Started))], 120 * 10 ^ 9)) = 0"
proof -
  have "Ev_Started \<in> set (me_events (ms_engine started_system))"
    by (simp add: started_system_def Let_def loop_round_def quiet_env_selects poll_command_def send_command_def emit_def
        start_mining_loop_def engine_with_config_def split: prod.splits)
  then show ?thesis
    using benchmark_measures_nothing [OF started_system_run [of "\<lambda>env. \<not> le_sleep_due env"],
        where polls = "[(0, Poll_Tick), (1, Poll_Event (Some Ev_Started))]" and time = "120 * 10 ^ 9"
          and bg = benchmark_config_default and name = "''Run''"]
    by (auto simp: quiet_env_def)
qed

section \<open>The check of the system\<close>

datatype readiness_issue = Single_Core | No_Thermal_Zones | Low_Memory

definition low_memory_line :: "bytes \<Rightarrow> bool" where
  "low_memory_line l \<longleftrightarrow>
     take 13 l = string_bytes ''MemAvailable:'' \<and>
     (case split_whitespace l of
        _ # mem_str # _ \<Rightarrow> (case parse_unsigned (2 ^ 64) mem_str of Some mem_kb \<Rightarrow> mem_kb div 1024 < 100 | None \<Rightarrow> False)
      | _ \<Rightarrow> False)"

definition check_system_readiness :: "nat \<Rightarrow> (nat \<Rightarrow> bool) \<Rightarrow> bytes option \<Rightarrow> readiness_issue list" where
  "check_system_readiness cpu_count zone_exists meminfo =
     (if cpu_count < 2 then [Single_Core] else [])
     @ (if list_ex zone_exists [0..<8] then [] else [No_Thermal_Zones])
     @ (case meminfo of None \<Rightarrow> []
        | Some content \<Rightarrow> map (\<lambda>_. Low_Memory) (filter low_memory_line (text_lines content)))"

text \<open>
  the check and the governor look for different zones: a system whose only zone has a number from
  8 to 31 is warned that thermal management will be disabled, while the governor reads that zone.
\<close>
theorem readiness_misses_zones:
  assumes "8 \<le> z" "z < 32"
  shows "No_Thermal_Zones \<in> set (check_system_readiness cpus (\<lambda>i. i = z) mem)
    \<and> discover_thermal_zones (\<lambda>i. i = z) = [z]"
proof -
  have "[0..<32] = [0..<z] @ z # [Suc z..<32]"
    using assms(2) upt_add_eq_append [of 0 z "32 - z"] by (simp add: upt_conv_Cons)
  moreover have "filter (\<lambda>i. i = z) [0..<z] = []" "filter (\<lambda>i. i = z) [Suc z..<32] = []"
    by (auto simp: filter_empty_conv)
  ultimately have "discover_thermal_zones (\<lambda>i. i = z) = [z]"
    unfolding discover_thermal_zones_def by simp
  moreover have "\<not> list_ex (\<lambda>i. i = z) [0..<8]"
    using assms(1) by (auto simp: list_ex_iff)
  ultimately show ?thesis by (simp add: check_system_readiness_def)
qed

theorem readiness_misses_zones_witness:
  "discover_thermal_zones (\<lambda>i. i = 9) = [9]"
  using readiness_misses_zones [of 9] by simp

end
