(* ===== verification/System_Info.thy ===== *)
theory System_Info
  imports Miner_Bench
begin

text \<open>
  What the benchmark of the miner knows of its machine (miner/src/bench.rs): processor, cache and
  memory, read from the tables of the proc file system; the runner with its quick run
  (miner/src/lib.rs), its errors and the export of a report. The files, the counts of the processor
  library, the JSON library and the parser of fractions are arguments.
\<close>

section \<open>The machine\<close>

record 'f system_info =
  si_cpu_model :: bytes
  si_cpu_cores :: nat
  si_cpu_threads :: nat
  si_cache_size_l3 :: bytes
  si_total_memory_gb :: 'f
  si_os_version :: bytes
  si_rust_version :: bytes

definition get_cpu_model :: "bytes option \<Rightarrow> bytes" where
  "get_cpu_model cpuinfo = (case cpuinfo of
     None \<Rightarrow> string_bytes ''Unknown CPU''
   | Some content \<Rightarrow>
       (case first_value (string_bytes ''model name'') (text_lines content) of
          Some name \<Rightarrow> name | None \<Rightarrow> string_bytes ''Unknown CPU''))"

definition get_cache_info :: "bytes option \<Rightarrow> bytes" where
  "get_cache_info cpuinfo = (case cpuinfo of
     None \<Rightarrow> string_bytes ''Unknown''
   | Some content \<Rightarrow>
       (case first_value (string_bytes ''cache size'') (text_lines content) of
          Some cache_size \<Rightarrow> cache_size | None \<Rightarrow> string_bytes ''Unknown''))"

text \<open>Lines without a number after the key are passed over.\<close>

fun memory_total :: "'f floats \<Rightarrow> (bytes \<Rightarrow> 'f option) \<Rightarrow> bytes list \<Rightarrow> 'f" where
  "memory_total F parse_float [] = f_zero F"
| "memory_total F parse_float (l # ls) =
     (if take 9 l = string_bytes ''MemTotal:''
      then (case split_whitespace l of
              _ # mem_str # _ \<Rightarrow>
                (case parse_float mem_str of
                   Some mem_kb \<Rightarrow> f_div F (f_div F mem_kb (f_lit F 1024 0)) (f_lit F 1024 0)
                 | None \<Rightarrow> memory_total F parse_float ls)
            | _ \<Rightarrow> memory_total F parse_float ls)
      else memory_total F parse_float ls)"

definition get_memory_info :: "'f floats \<Rightarrow> (bytes \<Rightarrow> 'f option) \<Rightarrow> bytes option \<Rightarrow> 'f" where
  "get_memory_info F parse_float meminfo = (case meminfo of
     None \<Rightarrow> f_zero F
   | Some content \<Rightarrow> memory_total F parse_float (text_lines content))"

definition get_os_info :: "bytes \<Rightarrow> bytes \<Rightarrow> bytes" where
  "get_os_info os arch = os @ 32 # arch"

text \<open>The files, the counts of cores and threads, and the names the program was compiled for.\<close>

record machine =
  ma_cpuinfo :: "bytes option"
  ma_meminfo :: "bytes option"
  ma_physical :: nat
  ma_logical :: nat
  ma_os :: bytes
  ma_arch :: bytes

definition system_info_detect :: "'f floats \<Rightarrow> (bytes \<Rightarrow> 'f option) \<Rightarrow> machine \<Rightarrow> 'f system_info" where
  "system_info_detect F parse_float ma =
     \<lparr>si_cpu_model = get_cpu_model (ma_cpuinfo ma), si_cpu_cores = ma_physical ma,
      si_cpu_threads = ma_logical ma, si_cache_size_l3 = get_cache_info (ma_cpuinfo ma),
      si_total_memory_gb = get_memory_info F parse_float (ma_meminfo ma),
      si_os_version = get_os_info (ma_os ma) (ma_arch ma), si_rust_version = string_bytes ''Unknown''\<rparr>"

section \<open>The runner\<close>

record ('f, 'g) benchmark_runner =
  ru_config :: benchmark_config
  ru_results :: "('f, 'g) benchmark_result list"
  ru_system_info :: "'f system_info"

definition runner_new ::
    "'f floats \<Rightarrow> (bytes \<Rightarrow> 'f option) \<Rightarrow> machine \<Rightarrow> benchmark_config \<Rightarrow> ('f, 'g) benchmark_runner" where
  "runner_new F parse_float ma config =
     \<lparr>ru_config = config, ru_results = [], ru_system_info = system_info_detect F parse_float ma\<rparr>"

definition quick_benchmark ::
    "'f floats \<Rightarrow> 'g floats \<Rightarrow> (bytes \<Rightarrow> 'f option) \<Rightarrow> machine \<Rightarrow> (string \<Rightarrow> ('f, 'g) bench_trace)
       \<Rightarrow> ('f, 'g) benchmark_report partial" where
  "quick_benchmark F G parse_float ma tr =
     (let runner = runner_new F parse_float ma (benchmark_config_default\<lparr>bg_duration := Quick\<rparr>)
      in run_full_benchmark F G (ru_config runner) tr (ru_results runner))"

datatype benchmark_error =
    Engine_Failure string
  | Channel_Failure
  | Io_Failure string
  | Serialization_Failure string

fun benchmark_error_text :: "benchmark_error \<Rightarrow> string" where
  "benchmark_error_text (Engine_Failure e) = ''Mining engine error: '' @ e"
| "benchmark_error_text Channel_Failure = ''Communication channel error''"
| "benchmark_error_text (Io_Failure e) = ''I/O error: '' @ e"
| "benchmark_error_text (Serialization_Failure e) = ''Serialization error: '' @ e"

text \<open>The text of the report or the error of the JSON library; the error of writing it, if any.\<close>

definition export_json ::
    "(('f, 'g) benchmark_report \<Rightarrow> string + string) \<Rightarrow> string option \<Rightarrow> ('f, 'g) benchmark_report
       \<Rightarrow> string option \<Rightarrow> (benchmark_error + unit) \<times> string option" where
  "export_json to_json write_error report file = (case to_json report of
     Inl e \<Rightarrow> (Inl (Serialization_Failure e), file)
   | Inr json \<Rightarrow>
       (case write_error of
          Some e \<Rightarrow> (Inl (Io_Failure e), file)
        | None \<Rightarrow> (Inr (), Some json)))"

section \<open>Reading the tables\<close>

lemma text_lines_single: "10 \<notin> set l \<Longrightarrow> 13 \<notin> set l \<Longrightarrow> text_lines (l @ 10 # rest) = l # text_lines rest"
proof -
  assume l: "10 \<notin> set l" "13 \<notin> set l"
  obtain m ms where m: "split_when (\<lambda>c. c = 10) rest = m # ms" using split_when_Cons_ex by blast
  have s: "split_when (\<lambda>c. c = 10) (l @ 10 # rest) = l # m # ms"
    using l m by (subst split_when_append) auto
  have "l \<noteq> [] \<Longrightarrow> hd (rev l) \<noteq> 13" using l(2) by (metis hd_in_set rev_is_Nil_conv set_rev)
  then show ?thesis
    by (cases ms rule: rev_cases) (auto simp: text_lines_def Let_def s m butlast_append)
qed

text \<open>
  the model of the processor is the value of the first line that names one, whatever the
  table says before and after it.
\<close>
theorem cpu_model_found:
  assumes "10 \<notin> set l" "13 \<notin> set l" "l = string_bytes ''model name'' @ pad @ 58 # v" "58 \<notin> set pad"
  shows "get_cpu_model (Some (l @ 10 # rest)) = trim_ascii (takeWhile (\<lambda>c. c \<noteq> 58) v)"
proof -
  have "58 \<notin> set (string_bytes ''model name'')" by (simp add: string_bytes_def)
  then have "first_value (string_bytes ''model name'') (l # ls) = Some (trim_ascii (takeWhile (\<lambda>c. c \<noteq> 58) v))" for ls
    using first_value_read assms(3,4) by blast
  then show ?thesis by (simp add: get_cpu_model_def text_lines_single [OF assms(1,2)])
qed

theorem cpu_model_found_witness:
  "get_cpu_model (Some (string_bytes ''model name: Z80'' @ [10])) = string_bytes ''Z80''"
proof -
  have "get_cpu_model (Some (string_bytes ''model name: Z80'' @ 10 # []))
      = trim_ascii (takeWhile (\<lambda>c. c \<noteq> 58) (string_bytes '' Z80''))"
    by (rule cpu_model_found [where pad = "[]"]) (simp_all add: string_bytes_def)
  then show ?thesis by (simp add: string_bytes_def trim_ascii_def is_space_def)
qed

lemma max_by_Inl: "max_by F key rs = Inl e \<Longrightarrow> e = Panic"
proof -
  have "max_by_loop F key b xs = Inl e \<Longrightarrow> e = Panic" for b xs
    by (induction xs arbitrary: b) (auto split: if_splits)
  then show "max_by F key rs = Inl e \<Longrightarrow> e = Panic"
    by (auto simp: max_by_def split: list.splits sum.splits)
qed

lemma recommendations_keep:
  "case generate_recommendations F G p of Inl e \<Rightarrow> e = Panic
   | Inr q \<Rightarrow> rp_results q = rp_results p \<and> rp_baseline q = rp_baseline p"
  using max_by_Inl
  by (auto simp: generate_recommendations_def best_performance_def best_efficiency_def split: sum.splits)

lemma single_run_name [simp]: "br_name (run_single_benchmark F G bg name config tr) = name"
  by (simp add: run_single_benchmark_def bench_result_def calculate_efficiency_score_def Let_def)

text \<open>
  a quick benchmark measures every part of the suite: three bursts, two temperatures and the cache, in this
  order, against a baseline, each for thirty seconds; it fails only when two figures cannot be compared.
\<close>
theorem quick_benchmark_suite:
  "case quick_benchmark F G parse_float ma tr of
     Inl e \<Rightarrow> e = Panic
   | Inr report \<Rightarrow> map br_name (rp_results report) =
         [''Low Power Burst'', ''Balanced Burst'', ''Performance Burst'', ''Conservative Thermal'',
          ''Aggressive Thermal'', ''Cache Optimized'']
       \<and> rp_baseline report \<noteq> None"
proof -
  let ?p = "\<lparr>rp_results = map (\<lambda>(name, config). run_single_benchmark F G (benchmark_config_default\<lparr>bg_duration := Quick\<rparr>) name config (tr name))
        (burst_suite G @ thermal_suite G)
      @ [run_cache_optimization_test F G (benchmark_config_default\<lparr>bg_duration := Quick\<rparr>) (mining_config_benchmark G) (tr ''Cache Aligned'')],
      rp_baseline = Some (run_single_benchmark F G (benchmark_config_default\<lparr>bg_duration := Quick\<rparr>) ''Baseline (Continuous)''
        (baseline_config G) (tr ''Baseline (Continuous)'')), rp_recommendations = []\<rparr>"
  have "quick_benchmark F G parse_float ma tr = generate_recommendations F G ?p"
    by (simp add: quick_benchmark_def runner_new_def run_full_benchmark_def benchmark_config_default_def Let_def)
  then show ?thesis
    using recommendations_keep [of ?p F G]
    by (auto simp: burst_suite_def thermal_suite_def run_cache_optimization_test_def split: sum.splits)
qed

end
