(* ===== verification/Hybrid.thy ===== *)
theory Hybrid
  imports Wallet
begin

text \<open>
  The hybrid signatures and the encrypted transport of the crypto crate (crypto/src/hybrid.rs,
  crypto/src/noise_transport.rs, crypto/src/error.rs). Ed25519, SHA3 and hexadecimal text are
  those of the other crates; Dilithium3 (\<open>pqcrypto\<close>) and the Noise protocol (\<open>snow\<close>) are records of
  functions, whose documented behaviour is \<open>dil_ok\<close> and \<open>noise_ok\<close>. The text of an error of a
  third-party crate is left out.
\<close>

datatype crypto_error =
    Ed25519_Verify_Failed
  | Dilithium_Verify_Failed
  | Hybrid_Verify_Failed string
  | Invalid_Key string
  | Noise_Handshake_Error string
  | Noise_Transport_Error string
  | Crypto_Serialization string

section \<open>Dilithium3\<close>

text \<open>
  \<open>dil_sign\<close> takes the randomness of one signature, the secret key and the message and gives the
  signed message; \<open>dil_open\<close> takes a public key and a signed message and gives the message.
\<close>

record dilithium =
  dil_keypair :: "nat \<Rightarrow> bytes \<times> bytes"
  dil_sign :: "nat \<Rightarrow> bytes \<Rightarrow> bytes \<Rightarrow> bytes"
  dil_pk_ok :: "bytes \<Rightarrow> bool"
  dil_signed_ok :: "bytes \<Rightarrow> bool"
  dil_open :: "bytes \<Rightarrow> bytes \<Rightarrow> bytes option"

text \<open>
  A signed message is a signature of fixed length followed by the message, and opening it under
  the public key of the signer gives the message.
\<close>

definition dil_ok :: "dilithium \<Rightarrow> nat \<Rightarrow> bool" where
  "dil_ok D n \<longleftrightarrow>
     (\<forall>r sk m. length (dil_sign D r sk m) = n + length m \<and> drop n (dil_sign D r sk m) = m) \<and>
     (\<forall>s pk sk. dil_keypair D s = (pk, sk) \<longrightarrow> dil_pk_ok D pk \<and>
        (\<forall>r m. dil_signed_ok D (dil_sign D r sk m) \<and> dil_open D pk (dil_sign D r sk m) = Some m))"

section \<open>Keys and signatures\<close>

definition ED25519_SIG_SIZE :: nat where "ED25519_SIG_SIZE = 64"
definition DILITHIUM_SIG_SIZE :: nat where "DILITHIUM_SIG_SIZE = 3293"
definition DILITHIUM_PK_SIZE :: nat where "DILITHIUM_PK_SIZE = 1952"

definition HYBRID_SIG_SIZE :: nat where "HYBRID_SIG_SIZE = ED25519_SIG_SIZE + DILITHIUM_SIG_SIZE"

record hybrid_keypair =
  hk_ed_signing :: hash32
  hk_dil_public :: bytes
  hk_dil_secret :: bytes

record hybrid_public_key =
  hp_ed25519_pk :: bytes
  hp_dilithium_pk :: bytes

record hybrid_signature =
  hs_ed25519_sig :: bytes
  hs_dilithium_sig :: bytes

definition hybrid_generate :: "dilithium \<Rightarrow> hash32 \<Rightarrow> nat \<Rightarrow> hybrid_keypair" where
  "hybrid_generate D ed_seed dil_seed = (let (dil_public, dil_secret) = dil_keypair D dil_seed in
     \<lparr>hk_ed_signing = ed_seed, hk_dil_public = dil_public, hk_dil_secret = dil_secret\<rparr>)"

definition ed25519_public_key :: "crypto \<Rightarrow> hybrid_keypair \<Rightarrow> hash32" where
  "ed25519_public_key C k = ed_public C (hk_ed_signing k)"

definition hybrid_public_key_of :: "crypto \<Rightarrow> hybrid_keypair \<Rightarrow> hybrid_public_key" where
  "hybrid_public_key_of C k =
     \<lparr>hp_ed25519_pk = bytes32 (ed25519_public_key C k), hp_dilithium_pk = hk_dil_public k\<rparr>"

text \<open>
  The signature is cut from the signed message by the length of the message (which panics if the
  signed message is shorter; it is not, by what \<open>dil_ok\<close> says).
\<close>

definition hybrid_sign :: "crypto \<Rightarrow> dilithium \<Rightarrow> nat \<Rightarrow> bytes \<Rightarrow> hybrid_keypair \<Rightarrow> hybrid_signature partial" where
  "hybrid_sign C D r message k =
     (let ed_sig = ed_sign C (hk_ed_signing k) message;
          dil_signed = dil_sign D r (hk_dil_secret k) message in
      if length dil_signed < length message then Inl Panic
      else Inr \<lparr>hs_ed25519_sig = bytes64 ed_sig,
                hs_dilithium_sig = take (length dil_signed - length message) dil_signed\<rparr>)"

definition hybrid_address :: "crypto \<Rightarrow> hybrid_keypair \<Rightarrow> string" where
  "hybrid_address C k = (let pubkey = ed25519_public_key C k; h = sha3_digest C (bytes32 pubkey) in
     ''tar1'' @ hex_encode C (take 16 (bytes32 h)))"

definition verify_ed25519 :: "crypto \<Rightarrow> hybrid_signature \<Rightarrow> bytes \<Rightarrow> bytes \<Rightarrow> crypto_error + unit" where
  "verify_ed25519 C s message ed_pk_bytes =
     (if length ed_pk_bytes \<noteq> 32 then Inl (Invalid_Key ''Ed25519 PK must be 32 bytes'')
      else if length (hs_ed25519_sig s) \<noteq> ED25519_SIG_SIZE then Inl Ed25519_Verify_Failed
      else (let vk = arr32 ed_pk_bytes in
        if \<not> vk_from_bytes_ok C vk then Inl (Invalid_Key ''invalid Ed25519 public key'')
        else if ed_verify C vk message (arr64 (hs_ed25519_sig s)) then Inr ()
        else Inl Ed25519_Verify_Failed))"

definition verify_dilithium :: "dilithium \<Rightarrow> hybrid_signature \<Rightarrow> bytes \<Rightarrow> bytes \<Rightarrow> crypto_error + unit" where
  "verify_dilithium D s message dil_pk_bytes =
     (if \<not> dil_pk_ok D dil_pk_bytes then Inl (Invalid_Key ''invalid Dilithium3 public key'')
      else (let signed_msg = hs_dilithium_sig s @ message in
        if \<not> dil_signed_ok D signed_msg then Inl Dilithium_Verify_Failed
        else (case dil_open D dil_pk_bytes signed_msg of
            None \<Rightarrow> Inl Dilithium_Verify_Failed | Some _ \<Rightarrow> Inr ())))"

definition hybrid_verify ::
  "crypto \<Rightarrow> dilithium \<Rightarrow> hybrid_signature \<Rightarrow> bytes \<Rightarrow> hybrid_public_key \<Rightarrow> crypto_error + unit" where
  "hybrid_verify C D s message pk =
     (case verify_ed25519 C s message (hp_ed25519_pk pk) of
        Inl e \<Rightarrow> Inl e
      | Inr _ \<Rightarrow> (case verify_dilithium D s message (hp_dilithium_pk pk) of Inl e \<Rightarrow> Inl e | Inr _ \<Rightarrow> Inr ()))"

definition hybrid_signature_size :: "hybrid_signature \<Rightarrow> nat" where
  "hybrid_signature_size s = length (hs_ed25519_sig s) + length (hs_dilithium_sig s)"

definition hybrid_public_key_size :: "hybrid_public_key \<Rightarrow> nat" where
  "hybrid_public_key_size pk = length (hp_ed25519_pk pk) + length (hp_dilithium_pk pk)"

section \<open>Signing and verifying\<close>

lemma dil_sign_split:
  assumes "dil_ok D n"
  shows "take (length (dil_sign D r sk m) - length m) (dil_sign D r sk m) @ m = dil_sign D r sk m"
proof -
  have "length (dil_sign D r sk m) - length m = n" "drop n (dil_sign D r sk m) = m"
    using assms by (simp_all add: dil_ok_def)
  then show ?thesis using append_take_drop_id [of n "dil_sign D r sk m"] by metis
qed

text \<open>
  a hybrid signature verifies under the public key of its signer, and a signature that
  verifies passes both components: each one alone refuses it otherwise.
\<close>
theorem hybrid_sign_verifies:
  assumes "ed_ok C" "dil_ok D n" "k = hybrid_generate D ed_seed dil_seed"
  shows "(\<exists>s. hybrid_sign C D r m k = Inr s \<and> hybrid_verify C D s m (hybrid_public_key_of C k) = Inr ()
      \<and> hybrid_signature_size s = 64 + n)
    \<and> (hybrid_verify C D t m pk = Inr ()
        \<longleftrightarrow> verify_ed25519 C t m (hp_ed25519_pk pk) = Inr () \<and> verify_dilithium D t m (hp_dilithium_pk pk) = Inr ())"
proof -
  obtain dpk dsk where d: "dil_keypair D dil_seed = (dpk, dsk)" by fastforce
  have k: "hk_ed_signing k = ed_seed" "hk_dil_public k = dpk" "hk_dil_secret k = dsk"
    using assms(3) d by (simp_all add: hybrid_generate_def)
  have D: "length (dil_sign D r dsk m) = n + length m" "dil_pk_ok D dpk"
    "dil_signed_ok D (dil_sign D r dsk m)" "dil_open D dpk (dil_sign D r dsk m) = Some m"
    using assms(2) d unfolding dil_ok_def by blast+
  define s where "s = \<lparr>hs_ed25519_sig = bytes64 (ed_sign C ed_seed m),
    hs_dilithium_sig = take (length (dil_sign D r dsk m) - length m) (dil_sign D r dsk m)\<rparr>"
  have s: "hybrid_sign C D r m k = Inr s"
    using D(1) k by (simp add: hybrid_sign_def Let_def s_def)
  have "verify_ed25519 C s m (bytes32 (ed_public C ed_seed)) = Inr ()"
    using assms(1) by (simp add: verify_ed25519_def ED25519_SIG_SIZE_def s_def ed_ok_def Let_def)
  moreover have "verify_dilithium D s m dpk = Inr ()"
    using D dil_sign_split [OF assms(2), of r dsk m] by (simp add: verify_dilithium_def s_def Let_def)
  ultimately have "hybrid_verify C D s m (hybrid_public_key_of C k) = Inr ()"
    by (simp add: hybrid_verify_def hybrid_public_key_of_def ed25519_public_key_def k)
  moreover have "hybrid_signature_size s = 64 + n"
    using D(1) by (simp add: hybrid_signature_size_def s_def)
  ultimately show ?thesis
    using s by (auto simp: hybrid_verify_def split: sum.splits)
qed

text \<open>
  C38: the Dilithium component is not tied to the message. The check opens the signature joined
  with the message and throws the opened message away, without looking where the signature ends:
  a Dilithium signature made for a longer message \<open>p @ m\<close> is accepted for its tail \<open>m\<close> once \<open>p\<close> is
  moved into the signature.
\<close>
theorem dilithium_accepts_tail:
  assumes "dil_ok D n" "k = hybrid_generate D ed_seed dil_seed" "hybrid_sign C D r (p @ m) k = Inr s"
  shows "verify_dilithium D (s\<lparr>hs_dilithium_sig := hs_dilithium_sig s @ p\<rparr>) m (hk_dil_public k) = Inr ()"
proof -
  obtain dpk dsk where d: "dil_keypair D dil_seed = (dpk, dsk)" by fastforce
  have k: "hk_dil_public k = dpk" "hk_dil_secret k = dsk"
    using assms(2) d by (simp_all add: hybrid_generate_def)
  have D: "dil_pk_ok D dpk" "dil_signed_ok D (dil_sign D r dsk (p @ m))"
    "dil_open D dpk (dil_sign D r dsk (p @ m)) = Some (p @ m)"
    using assms(1) d unfolding dil_ok_def by blast+
  have "hs_dilithium_sig s @ p @ m = dil_sign D r dsk (p @ m)"
    using assms(3) dil_sign_split [OF assms(1), of r dsk "p @ m"] k
    by (auto simp: hybrid_sign_def Let_def split: if_splits)
  then show ?thesis using D k by (simp add: verify_dilithium_def Let_def)
qed

text \<open>
  an address of a hybrid key is no address of the ledger: it has half the digits, so reading
  the public key back from it fails, although it is called backward compatible.
\<close>
theorem hybrid_address_unusable:
  assumes "hex_ok C"
  shows "pubkey_from_address C (hybrid_address C k) = Inr None \<and> length (hybrid_address C k) = 36"
proof -
  obtain hx where addr: "hybrid_address C k = ''tar1'' @ hx" and len: "length hx = 32"
    using assms by (simp only: hybrid_address_def Let_def hex_ok_def) simp
  have p: "strip_prefix ''tar1'' (''tar1'' @ hx) = Some hx" by (rule strip_prefix_append)
  show ?thesis
    unfolding addr pubkey_from_address_def p using len by simp
qed

definition toy_dilithium :: dilithium where
  "toy_dilithium = \<lparr>dil_keypair = (\<lambda>s. ([1], [2])), dil_sign = (\<lambda>r sk m. [7, 7] @ m), dil_pk_ok = (\<lambda>_. True),
     dil_signed_ok = (\<lambda>_. True), dil_open = (\<lambda>pk sm. Some (drop 2 sm))\<rparr>"

lemma toy_dil_ok: "dil_ok toy_dilithium 2"
  by (simp add: dil_ok_def toy_dilithium_def)

theorem hybrid_sign_verifies_witness:
  "\<exists>s. hybrid_sign toy_crypto toy_dilithium 0 [5] (hybrid_generate toy_dilithium 3 0) = Inr s
    \<and> hybrid_verify toy_crypto toy_dilithium s [5] (hybrid_public_key_of toy_crypto (hybrid_generate toy_dilithium 3 0)) = Inr ()
    \<and> hybrid_signature_size s = 66"
  using conjunct1 [OF hybrid_sign_verifies [OF toy_ed_ok toy_dil_ok refl, of 0 "[5]" 3 0]] by simp

theorem dilithium_accepts_tail_witness:
  "\<exists>s. hybrid_sign toy_crypto toy_dilithium 0 ([1] @ [5]) (hybrid_generate toy_dilithium 3 0) = Inr s
    \<and> verify_dilithium toy_dilithium (s\<lparr>hs_dilithium_sig := hs_dilithium_sig s @ [1]\<rparr>) [5] [1] = Inr ()"
proof -
  obtain s where s: "hybrid_sign toy_crypto toy_dilithium 0 ([1] @ [5]) (hybrid_generate toy_dilithium 3 0) = Inr s"
    by (simp add: hybrid_sign_def toy_dilithium_def)
  show ?thesis
    using dilithium_accepts_tail [OF toy_dil_ok refl s] s by (simp add: hybrid_generate_def toy_dilithium_def)
qed

theorem hybrid_address_unusable_witness:
  "pubkey_from_address toy_crypto (hybrid_address toy_crypto (hybrid_generate toy_dilithium 3 0)) = Inr None"
  using hybrid_address_unusable [OF toy_hex_ok] by blast

section \<open>The encrypted transport\<close>

definition MAX_NOISE_MSG_SIZE :: nat where "MAX_NOISE_MSG_SIZE = 65535"

text \<open>
  \<open>snow\<close>: the generation of a key pair (private, public), the two kinds of handshake state and the
  transport state. Writing and reading take the size of the buffer and give the bytes written to
  it and the state after, or \<open>None\<close> for an error.
\<close>

record ('h, 't) noise =
  nz_generate :: "nat \<Rightarrow> (bytes \<times> bytes) option"
  nz_initiator :: "nat \<Rightarrow> bytes \<Rightarrow> 'h option"
  nz_responder :: "nat \<Rightarrow> bytes \<Rightarrow> 'h option"
  nz_finished :: "'h \<Rightarrow> bool"
  nz_hs_write :: "'h \<Rightarrow> bytes \<Rightarrow> nat \<Rightarrow> bytes option \<times> 'h"
  nz_hs_read :: "'h \<Rightarrow> bytes \<Rightarrow> nat \<Rightarrow> bytes option \<times> 'h"
  nz_remote_static :: "'h \<Rightarrow> bytes option"
  nz_into_transport :: "'h \<Rightarrow> 't option"
  nz_tr_write :: "'t \<Rightarrow> bytes \<Rightarrow> nat \<Rightarrow> bytes option \<times> 't"
  nz_tr_read :: "'t \<Rightarrow> bytes \<Rightarrow> nat \<Rightarrow> bytes option \<times> 't"

record noise_identity =
  ni_private_key :: bytes
  ni_public_key :: bytes

record 'h noise_handshake =
  nh_state :: 'h
  nh_is_initiator :: bool

record 't noise_transport =
  nt_state :: 't
  nt_remote_static_key :: "bytes option"

definition noise_generate :: "('h, 't) noise \<Rightarrow> nat \<Rightarrow> crypto_error + noise_identity" where
  "noise_generate N r = (case nz_generate N r of
     None \<Rightarrow> Inl (Noise_Handshake_Error ''keygen failed: '')
   | Some (priv, pub) \<Rightarrow> Inr \<lparr>ni_private_key = priv, ni_public_key = pub\<rparr>)"

definition noise_initiator :: "('h, 't) noise \<Rightarrow> nat \<Rightarrow> noise_identity \<Rightarrow> crypto_error + 'h noise_handshake" where
  "noise_initiator N r i = (case nz_initiator N r (ni_private_key i) of
     None \<Rightarrow> Inl (Noise_Handshake_Error ''init failed: '')
   | Some h \<Rightarrow> Inr \<lparr>nh_state = h, nh_is_initiator = True\<rparr>)"

definition noise_responder :: "('h, 't) noise \<Rightarrow> nat \<Rightarrow> noise_identity \<Rightarrow> crypto_error + 'h noise_handshake" where
  "noise_responder N r i = (case nz_responder N r (ni_private_key i) of
     None \<Rightarrow> Inl (Noise_Handshake_Error ''resp failed: '')
   | Some h \<Rightarrow> Inr \<lparr>nh_state = h, nh_is_initiator = False\<rparr>)"

definition handshake_write ::
  "('h, 't) noise \<Rightarrow> bytes \<Rightarrow> 'h noise_handshake \<Rightarrow> (crypto_error + bytes) \<times> 'h noise_handshake" where
  "handshake_write N payload h =
     (let (r, st) = nz_hs_write N (nh_state h) payload MAX_NOISE_MSG_SIZE in
      (case r of None \<Rightarrow> Inl (Noise_Handshake_Error ''write: '') | Some bs \<Rightarrow> Inr bs, h\<lparr>nh_state := st\<rparr>))"

definition handshake_read ::
  "('h, 't) noise \<Rightarrow> bytes \<Rightarrow> 'h noise_handshake \<Rightarrow> (crypto_error + bytes) \<times> 'h noise_handshake" where
  "handshake_read N msg h =
     (let (r, st) = nz_hs_read N (nh_state h) msg MAX_NOISE_MSG_SIZE in
      (case r of None \<Rightarrow> Inl (Noise_Handshake_Error ''read: '') | Some bs \<Rightarrow> Inr bs, h\<lparr>nh_state := st\<rparr>))"

definition into_transport :: "('h, 't) noise \<Rightarrow> 'h noise_handshake \<Rightarrow> crypto_error + 't noise_transport" where
  "into_transport N h = (case nz_into_transport N (nh_state h) of
     None \<Rightarrow> Inl (Noise_Handshake_Error ''transport: '')
   | Some t \<Rightarrow> Inr \<lparr>nt_state = t, nt_remote_static_key = nz_remote_static N (nh_state h)\<rparr>)"

definition noise_encrypt ::
  "('h, 't) noise \<Rightarrow> bytes \<Rightarrow> 't noise_transport \<Rightarrow> (crypto_error + bytes) \<times> 't noise_transport" where
  "noise_encrypt N plaintext t =
     (let (r, st) = nz_tr_write N (nt_state t) plaintext (length plaintext + 16) in
      (case r of None \<Rightarrow> Inl (Noise_Transport_Error ''encrypt: '') | Some bs \<Rightarrow> Inr bs, t\<lparr>nt_state := st\<rparr>))"

definition noise_decrypt ::
  "('h, 't) noise \<Rightarrow> bytes \<Rightarrow> 't noise_transport \<Rightarrow> (crypto_error + bytes) \<times> 't noise_transport" where
  "noise_decrypt N ciphertext t =
     (let (r, st) = nz_tr_read N (nt_state t) ciphertext (length ciphertext) in
      (case r of None \<Rightarrow> Inl (Noise_Transport_Error ''decrypt: '') | Some bs \<Rightarrow> Inr bs, t\<lparr>nt_state := st\<rparr>))"

text \<open>One message of the handshake: written with an empty payload by one side, read by the other.\<close>

definition handshake_message ::
  "('h, 't) noise \<Rightarrow> 'h noise_handshake \<Rightarrow> 'h noise_handshake
   \<Rightarrow> crypto_error + 'h noise_handshake \<times> 'h noise_handshake" where
  "handshake_message N sender receiver =
     (case handshake_write N [] sender of
        (Inl e, _) \<Rightarrow> Inl e
      | (Inr msg, sender') \<Rightarrow> (case handshake_read N msg receiver of
            (Inl e, _) \<Rightarrow> Inl e
          | (Inr _, receiver') \<Rightarrow> Inr (sender', receiver')))"

definition perform_handshake ::
  "('h, 't) noise \<Rightarrow> nat \<Rightarrow> nat \<Rightarrow> noise_identity \<Rightarrow> noise_identity
   \<Rightarrow> crypto_error + 't noise_transport \<times> 't noise_transport" where
  "perform_handshake N r1 r2 initiator_identity responder_identity =
     (case noise_initiator N r1 initiator_identity of Inl e \<Rightarrow> Inl e | Inr i0 \<Rightarrow>
     (case noise_responder N r2 responder_identity of Inl e \<Rightarrow> Inl e | Inr p0 \<Rightarrow>
     (case handshake_message N i0 p0 of Inl e \<Rightarrow> Inl e | Inr (i1, p1) \<Rightarrow>
     (case handshake_message N p1 i1 of Inl e \<Rightarrow> Inl e | Inr (p2, i2) \<Rightarrow>
     (case handshake_message N i2 p2 of Inl e \<Rightarrow> Inl e | Inr (i3, p3) \<Rightarrow>
     (case into_transport N i3 of Inl e \<Rightarrow> Inl e | Inr it \<Rightarrow>
     (case into_transport N p3 of Inl e \<Rightarrow> Inl e | Inr rt \<Rightarrow> Inr (it, rt))))))))"

text \<open>
  The documented behaviour of the transport: \<open>linked a b\<close> holds of two ends of a channel when
  what \<open>a\<close> writes next is what \<open>b\<close> reads next. A payload whose ciphertext, 16 bytes longer, fits
  the buffer and a Noise message is written and read back; a longer one is refused.
\<close>

definition noise_ok :: "('h, 't) noise \<Rightarrow> ('t \<Rightarrow> 't \<Rightarrow> bool) \<Rightarrow> bool" where
  "noise_ok N linked \<longleftrightarrow>
     (\<forall>a b p n. linked a b \<and> length p + 16 \<le> min n 65535 \<longrightarrow>
        (\<exists>c a'. nz_tr_write N a p n = (Some c, a') \<and> length c = length p + 16
          \<and> (\<forall>k \<ge> length p. \<exists>b'. nz_tr_read N b c k = (Some p, b') \<and> linked a' b'))) \<and>
     (\<forall>a p n. 65535 < length p + 16 \<longrightarrow> fst (nz_tr_write N a p n) = None)"

fun encrypt_all ::
  "('h, 't) noise \<Rightarrow> bytes list \<Rightarrow> 't noise_transport \<Rightarrow> crypto_error + bytes list" where
  "encrypt_all N [] t = Inr []"
| "encrypt_all N (p # ps) t = (case noise_encrypt N p t of
     (Inl e, _) \<Rightarrow> Inl e
   | (Inr c, t') \<Rightarrow> (case encrypt_all N ps t' of Inl e \<Rightarrow> Inl e | Inr cs \<Rightarrow> Inr (c # cs)))"

fun decrypt_all ::
  "('h, 't) noise \<Rightarrow> bytes list \<Rightarrow> 't noise_transport \<Rightarrow> crypto_error + bytes list" where
  "decrypt_all N [] t = Inr []"
| "decrypt_all N (c # cs) t = (case noise_decrypt N c t of
     (Inl e, _) \<Rightarrow> Inl e
   | (Inr p, t') \<Rightarrow> (case decrypt_all N cs t' of Inl e \<Rightarrow> Inl e | Inr ps \<Rightarrow> Inr (p # ps)))"

text \<open>
  the channel carries every sequence of messages of at most 65519 bytes in order; a longer
  message, though the wire protocol allows a mebibyte, is refused before anything is sent.
\<close>
theorem channel_roundtrip:
  assumes N: "noise_ok N linked" and l: "linked (nt_state a) (nt_state b)"
  shows "(case encrypt_all N ps a of
       Inr cs \<Rightarrow> decrypt_all N cs b = Inr ps \<and> (\<forall>p \<in> set ps. length p \<le> 65519)
     | Inl e \<Rightarrow> e = Noise_Transport_Error ''encrypt: '' \<and> (\<exists>p \<in> set ps. 65519 < length p))"
  using l
proof (induction ps arbitrary: a b)
  case (Cons p ps)
  show ?case
  proof (cases "length p \<le> 65519")
    case True
    then have "length p + 16 \<le> min (length p + 16) 65535" by simp
    then obtain c st where w: "nz_tr_write N (nt_state a) p (length p + 16) = (Some c, st)" "length c = length p + 16"
      and r: "\<And>k. length p \<le> k \<Longrightarrow> \<exists>b'. nz_tr_read N (nt_state b) c k = (Some p, b') \<and> linked st b'"
      using N Cons.prems unfolding noise_ok_def by blast
    obtain b' where b': "nz_tr_read N (nt_state b) c (length c) = (Some p, b')" "linked st b'"
      using r [of "length c"] w(2) by auto
    have e: "noise_encrypt N p a = (Inr c, a\<lparr>nt_state := st\<rparr>)"
      using w by (simp add: noise_encrypt_def)
    have d: "noise_decrypt N c b = (Inr p, b\<lparr>nt_state := b'\<rparr>)"
      using b' by (simp add: noise_decrypt_def)
    show ?thesis
      using Cons.IH [of "a\<lparr>nt_state := st\<rparr>" "b\<lparr>nt_state := b'\<rparr>"] b'(2) e d True
      by (auto split: sum.splits)
  next
    case False
    then have "fst (nz_tr_write N (nt_state a) p (length p + 16)) = None"
      using N unfolding noise_ok_def by simp
    then show ?thesis
      using False by (auto simp: noise_encrypt_def split: prod.splits)
  qed
qed simp

definition toy_noise :: "(unit, unit) noise" where
  "toy_noise = \<lparr>nz_generate = (\<lambda>_. Some ([], [])), nz_initiator = (\<lambda>_ _. Some ()), nz_responder = (\<lambda>_ _. Some ()),
     nz_finished = (\<lambda>_. True), nz_hs_write = (\<lambda>h p n. (Some p, h)), nz_hs_read = (\<lambda>h p n. (Some p, h)),
     nz_remote_static = (\<lambda>_. Some []), nz_into_transport = (\<lambda>_. Some ()),
     nz_tr_write = (\<lambda>t p n. (if length p + 16 \<le> min n 65535 then Some (p @ replicate 16 0) else None, t)),
     nz_tr_read = (\<lambda>t c n. (if length c - 16 \<le> n then Some (take (length c - 16) c) else None, t))\<rparr>"

lemma toy_noise_ok: "noise_ok toy_noise (\<lambda>_ _. True)"
  by (auto simp: noise_ok_def toy_noise_def)

theorem channel_roundtrip_witness:
  "\<exists>cs. encrypt_all toy_noise [[1], [2, 3]] \<lparr>nt_state = (), nt_remote_static_key = None\<rparr> = Inr cs
    \<and> decrypt_all toy_noise cs \<lparr>nt_state = (), nt_remote_static_key = None\<rparr> = Inr [[1], [2, 3]]"
  using channel_roundtrip [OF toy_noise_ok TrueI, where a = "\<lparr>nt_state = (), nt_remote_static_key = None\<rparr>"
      and b = "\<lparr>nt_state = (), nt_remote_static_key = None\<rparr>" and ps = "[[1], [2, 3]]"]
  by (auto split: sum.splits)

end
