(* ===== verification/Cli_Bench.thy ===== *)
theory Cli_Bench
  imports Floats Extern
begin

text \<open>
  The benchmark of the command line program (cli/src/bench.rs): the figures that are computed from
  the measured times. What an iteration took, in milliseconds, is an argument.
\<close>

record 'f bench_figures =
  bf_operation :: string
  bf_iterations :: u32
  bf_total_ms :: 'f
  bf_mean_ms :: 'f
  bf_min_ms :: 'f
  bf_max_ms :: 'f
  bf_p50_ms :: 'f
  bf_p95_ms :: 'f
  bf_p99_ms :: 'f
  bf_throughput :: 'f

text \<open>A stable sort by \<open>partial_cmp\<close>; times are never NaN.\<close>

primrec insert_time :: "'f floats \<Rightarrow> 'f \<Rightarrow> 'f list \<Rightarrow> 'f list" where
  "insert_time F x [] = [x]"
| "insert_time F x (y # ys) = (if f_less F y x then y # insert_time F x ys else x # y # ys)"

definition sort_times :: "'f floats \<Rightarrow> 'f list \<Rightarrow> 'f list" where
  "sort_times F ts = foldr (insert_time F) ts []"

definition percentile :: "'f floats \<Rightarrow> u32 \<Rightarrow> 'f \<Rightarrow> 'f list \<Rightarrow> 'f" where
  "percentile F iterations q ts =
     ts ! min (unat (f_to_u64 F (f_mul F (f_of_int F (uint iterations)) q))) (length ts - 1)"

definition bench_operation :: "'f floats \<Rightarrow> string \<Rightarrow> 'f list \<Rightarrow> 'f bench_figures partial" where
  "bench_operation F name measured =
     (let iterations = of_nat (length measured); ts = sort_times F measured;
          total_ms = foldl (f_add F) (f_zero F) ts;
          mean_ms = f_div F total_ms (f_of_int F (uint (iterations :: u32))) in
      if ts = [] then Inl Panic
      else Inr \<lparr>bf_operation = name, bf_iterations = iterations, bf_total_ms = total_ms,
        bf_mean_ms = mean_ms, bf_min_ms = ts ! 0, bf_max_ms = ts ! (length ts - 1),
        bf_p50_ms = percentile F iterations (f_lit F 50 (- 2)) ts,
        bf_p95_ms = percentile F iterations (f_lit F 95 (- 2)) ts,
        bf_p99_ms = percentile F iterations (f_lit F 99 (- 2)) ts,
        bf_throughput = f_div F (f_lit F 1000 0) mean_ms\<rparr>)"

section \<open>Sorting\<close>

lemma set_insert_time [simp]: "set (insert_time F x ys) = insert x (set ys)"
  by (induction ys) auto

lemma length_insert_time [simp]: "length (insert_time F x ys) = Suc (length ys)"
  by (induction ys) auto

lemma set_sort_times [simp]: "set (sort_times F ts) = set ts"
  by (induction ts) (auto simp: sort_times_def)

lemma length_sort_times [simp]: "length (sort_times F ts) = length ts"
  by (induction ts) (auto simp: sort_times_def)

definition in_order :: "'f floats \<Rightarrow> 'f list \<Rightarrow> bool" where
  "in_order F ts \<longleftrightarrow> sorted_wrt (\<lambda>x y. \<not> f_less F y x) ts"

lemma insert_time_in_order:
  assumes "order_on F A" "x \<in> A" "set ys \<subseteq> A" "in_order F ys"
  shows "in_order F (insert_time F x ys)"
  using assms(3,4)
proof (induction ys)
  case Nil
  then show ?case by (simp add: in_order_def)
next
  case (Cons y ys)
  have y: "y \<in> A" and ys: "set ys \<subseteq> A" and o: "in_order F ys" and le: "\<forall>z \<in> set ys. \<not> f_less F z y"
    using Cons.prems by (auto simp: in_order_def)
  show ?case
  proof (cases "f_less F y x")
    case True
    then have "\<not> f_less F x y" using assms(1,2) y unfolding order_on_def by blast
    then show ?thesis using True Cons.IH [OF ys o] le by (simp add: in_order_def)
  next
    case False
    have "\<not> f_less F z x" if "z \<in> set ys" for z
    proof -
      have "z \<in> A" "\<not> f_less F z y" using that ys le by auto
      then show ?thesis using False assms(1,2) y unfolding order_on_def by metis
    qed
    then show ?thesis using False o le by (simp add: in_order_def)
  qed
qed

lemma sort_times_in_order: "order_on F (set ts) \<Longrightarrow> in_order F (sort_times F ts)"
proof (induction ts)
  case Nil
  then show ?case by (simp add: sort_times_def in_order_def)
next
  case (Cons t ts)
  have "order_on F (set ts)" using Cons.prems unfolding order_on_def by (meson list.set_intros(2))
  then have "in_order F (sort_times F ts)" by (rule Cons.IH)
  moreover have "set (sort_times F ts) \<subseteq> set (t # ts)" by auto
  ultimately have "in_order F (insert_time F t (sort_times F ts))"
    by (intro insert_time_in_order [OF Cons.prems]) simp_all
  then show ?case by (simp add: sort_times_def)
qed

text \<open>
  the figures are defined exactly when something was measured, since without iterations the least
  time is read from an empty list, and the program panics; then every figure is one of the measured times, none is
  below the least and none above the greatest.
\<close>
theorem bench_figures_bounds:
  assumes "order_on F (set measured)"
  shows "case bench_operation F name measured of
      Inl e \<Rightarrow> e = Panic \<and> measured = []
    | Inr b \<Rightarrow> measured \<noteq> [] \<and> {bf_min_ms b, bf_p50_ms b, bf_p95_ms b, bf_p99_ms b, bf_max_ms b} \<subseteq> set measured
        \<and> (\<forall>t \<in> set measured. \<not> f_less F t (bf_min_ms b) \<and> \<not> f_less F (bf_max_ms b) t)"
proof (cases "measured = []")
  case True
  then show ?thesis by (simp add: bench_operation_def sort_times_def)
next
  case False
  let ?ts = "sort_times F measured"
  have "?ts \<noteq> []" using False by (metis length_0_conv length_sort_times)
  then have ne: "?ts \<noteq> []" "length ?ts = length measured" "set ?ts = set measured" by simp_all
  have o: "in_order F ?ts" using sort_times_in_order [OF assms] .
  have irr: "\<not> f_less F t t" if "t \<in> set measured" for t
    using assms that unfolding order_on_def by blast
  have mem: "?ts ! min k (length measured - 1) \<in> set measured" for k
  proof -
    have "0 < length measured" using False by simp
    then have "min k (length measured - 1) < length ?ts" using ne(2) by linarith
    from nth_mem [OF this] show ?thesis using ne(3) by simp
  qed
  have first: "\<not> f_less F t (?ts ! 0)" and final: "\<not> f_less F (?ts ! (length measured - 1)) t" if "t \<in> set measured" for t
  proof -
    have "t \<in> set ?ts" using that ne(3) by simp
    then obtain i where "i < length ?ts" "?ts ! i = t" unfolding in_set_conv_nth by blast
    then have i: "i < length measured" "?ts ! i = t" using ne(2) by simp_all
    have le: "\<not> f_less F (?ts ! k) (?ts ! j)" if "j < k" "k < length measured" for j k
      using sorted_wrt_nth_less [OF o [unfolded in_order_def] that(1)] that(2) ne(2) by simp
    show "\<not> f_less F t (?ts ! 0)"
    proof (cases "i = 0")
      case True
      then show ?thesis using i irr [OF that] by simp
    next
      case False
      then show ?thesis using le [of 0 i] i by simp
    qed
    show "\<not> f_less F (?ts ! (length measured - 1)) t"
    proof (cases "i = length measured - 1")
      case True
      then show ?thesis using i irr [OF that] by simp
    next
      case False
      then have "i < length measured - 1" "length measured - 1 < length measured" using i by linarith+
      from le [OF this] show ?thesis using i by simp
    qed
  qed
  show ?thesis
    using False ne mem [of 0] mem [of "length measured"] mem first final
    by (simp add: bench_operation_def Let_def percentile_def)
qed

theorem bench_figures_bounds_witness:
  "bench_operation int_floats ''x'' [] = Inl Panic
   \<and> (case bench_operation int_floats ''x'' [3, 1, 2] of Inr b \<Rightarrow> bf_min_ms b \<in> {3, 1, 2} | Inl _ \<Rightarrow> False)"
proof -
  have o: "order_on int_floats A" for A by (auto simp: order_on_def comparable_def int_floats_def)
  show ?thesis
    using bench_figures_bounds [OF o, where name = "''x''" and measured = "[]"]
      bench_figures_bounds [OF o, where name = "''x''" and measured = "[3, 1, 2]"]
    by (auto split: sum.splits)
qed

end
