(* ===== verification/Cli_Report.thy ===== *)
theory Cli_Report
  imports Cli_Bench Ledger Decimal
begin

text \<open>
  The benchmarks of the command line program and their report (cli/src/bench.rs). The random
  wallets, the clock and what each iteration took are arguments: \<open>measured name n\<close> are the
  times, in milliseconds, of the \<open>n\<close> iterations of the benchmark of that name. The three
  unmeasured iterations before them do the same work. How a
  number with a fraction is printed is left out; a row of the table has the numbers and the unit.
\<close>

section \<open>The benchmarks\<close>

definition bench_wallet_tx :: "crypto \<Rightarrow> u64 \<Rightarrow> wallet \<Rightarrow> wallet \<Rightarrow> u64 \<Rightarrow> transaction result" where
  "bench_wallet_tx C now w recipient sequence =
     (let b = tb_new w;
          b = tb_set_recipient (public_key C recipient) b;
          b = tb_set_amount 1000000 b;
          b = tb_set_sequence sequence b
      in build_and_prove C now b)"

definition bench_posc_proof ::
    "crypto \<Rightarrow> 'f floats \<Rightarrow> (nat \<Rightarrow> u64) \<Rightarrow> wallet \<Rightarrow> wallet \<Rightarrow> (nat \<Rightarrow> 'f list) \<Rightarrow> nat \<Rightarrow> 'f bench_figures partial" where
  "bench_posc_proof C F clock w recipient measured n =
     (if list_all (\<lambda>i. is_ok (bench_wallet_tx C (clock i) w recipient 1)) [0..<3 + n]
      then bench_operation F ''posc_proof'' (measured n) else Inl Panic)"

definition bench_sequal256_full :: "crypto \<Rightarrow> 'f floats \<Rightarrow> (nat \<Rightarrow> 'f list) \<Rightarrow> nat \<Rightarrow> 'f bench_figures partial" where
  "bench_sequal256_full C F measured n =
     (case sequal_hash C (string_bytes ''benchmark_seed_for_sequal256_testing'') POSC_STEPS of
        None \<Rightarrow> Inl Panic
      | Some _ \<Rightarrow> bench_operation F ''sequal256_full'' (measured n))"

text \<open>The scratchpad of the thread is the second argument; it is reused by every iteration.\<close>

fun hash_fast_times :: "crypto \<Rightarrow> bytes \<Rightarrow> nat \<Rightarrow> u64 list \<Rightarrow> u64 list option" where
  "hash_fast_times C seed 0 pad = Some pad"
| "hash_fast_times C seed (Suc n) pad =
     (case hash_fast C seed MINING_STEPS pad of
        None \<Rightarrow> None | Some (_, pad) \<Rightarrow> hash_fast_times C seed n pad)"

definition bench_sequal256_fast ::
    "crypto \<Rightarrow> 'f floats \<Rightarrow> u64 list \<Rightarrow> (nat \<Rightarrow> 'f list) \<Rightarrow> nat \<Rightarrow> 'f bench_figures partial" where
  "bench_sequal256_fast C F pad measured n =
     (case hash_fast_times C (string_bytes ''benchmark_seed_for_sequal256_fast_testing'') (3 + n) pad of
        None \<Rightarrow> Inl Panic
      | Some _ \<Rightarrow> bench_operation F ''sequal256_fast'' (measured n))"

text \<open>
  Hashing in rounds of a thousand for as long as the clock, read before each round in whole seconds,
  is below the duration; \<open>None\<close> is a clock that stays below it. The hashes themselves are thrown away.
\<close>

fun hashrate_rounds :: "u64 \<Rightarrow> u64 list \<Rightarrow> u64 \<Rightarrow> u64 option" where
  "hashrate_rounds duration_secs [] count = None"
| "hashrate_rounds duration_secs (e # es) count =
     (if e < duration_secs then hashrate_rounds duration_secs es (count + 1) else Some count)"

definition bench_mining_hashrate ::
    "'f floats \<Rightarrow> u64 \<Rightarrow> u64 list \<Rightarrow> 'f \<Rightarrow> 'f bench_figures option" where
  "bench_mining_hashrate F duration_secs clock elapsed_ms =
     (case hashrate_rounds duration_secs clock 0 of
        None \<Rightarrow> None
      | Some count \<Rightarrow>
          let total_hashes = count * 1000;
              hashrate = f_div F (f_u64 F total_hashes) (f_div F elapsed_ms (f_lit F 1000 0));
              mean = f_div F elapsed_ms (f_u64 F total_hashes)
          in Some \<lparr>bf_operation = ''mining_hashrate'', bf_iterations = ucast total_hashes,
               bf_total_ms = elapsed_ms, bf_mean_ms = mean, bf_min_ms = mean, bf_max_ms = mean,
               bf_p50_ms = mean, bf_p95_ms = mean, bf_p99_ms = mean, bf_throughput = hashrate\<rparr>)"

text \<open>The transactions are made first; without any, the first index is a remainder by zero.\<close>

definition bench_tx_validation ::
    "crypto \<Rightarrow> 'f floats \<Rightarrow> (nat \<Rightarrow> u64) \<Rightarrow> wallet \<Rightarrow> wallet \<Rightarrow> (nat \<Rightarrow> 'f list) \<Rightarrow> nat \<Rightarrow> 'f bench_figures partial" where
  "bench_tx_validation C F clock w recipient measured n =
     (if \<not> list_all (\<lambda>i. is_ok (bench_wallet_tx C (clock i) w recipient (of_nat i + 1))) [0..<n] then Inl Panic
      else if n = 0 then Inl Panic
      else bench_operation F ''tx_validation'' (measured n))"

section \<open>The report\<close>

record 'f bench_report =
  rt_timestamp :: bytes
  rt_hostname :: bytes
  rt_cpu_info :: bytes
  rt_rust_version :: bytes
  rt_taron_version :: bytes
  rt_results :: "'f bench_figures list"

definition cli_cpu_info :: "bytes option \<Rightarrow> bytes" where
  "cli_cpu_info cpuinfo = (case cpuinfo of
     None \<Rightarrow> string_bytes ''Unknown CPU''
   | Some content \<Rightarrow>
       (case first_value (string_bytes ''model name'') (text_lines content) of
          Some value \<Rightarrow> value | None \<Rightarrow> string_bytes ''Unknown CPU''))"

record bench_host =
  bh_now :: bytes
  bh_hostname :: "bytes option"
  bh_cpuinfo :: "bytes option"
  bh_rust_version :: bytes
  bh_taron_version :: bytes

definition bench_report_new :: "bench_host \<Rightarrow> 'f bench_report" where
  "bench_report_new h =
     \<lparr>rt_timestamp = bh_now h,
      rt_hostname = (case bh_hostname h of Some s \<Rightarrow> s | None \<Rightarrow> string_bytes ''unknown''),
      rt_cpu_info = cli_cpu_info (bh_cpuinfo h), rt_rust_version = bh_rust_version h,
      rt_taron_version = bh_taron_version h, rt_results = []\<rparr>"

definition bench_report_add :: "'f bench_figures \<Rightarrow> 'f bench_report \<Rightarrow> 'f bench_report" where
  "bench_report_add r rep = rep\<lparr>rt_results := rt_results rep @ [r]\<rparr>"

text \<open>The text of the report, if it can be printed, and whether its directory and file can be written.\<close>

definition bench_report_save ::
    "('f bench_report \<Rightarrow> string option) \<Rightarrow> bool \<Rightarrow> bool \<Rightarrow> 'f bench_report \<Rightarrow> string option \<Rightarrow> bool \<times> string option" where
  "bench_report_save to_json mkdir_ok write_ok rep file =
     (if \<not> mkdir_ok then (False, file)
      else case to_json rep of
        None \<Rightarrow> (False, file)
      | Some json \<Rightarrow> if write_ok then (True, Some json) else (False, file))"

text \<open>
  Everything a run of all benchmarks meets. The run of the hashrate benchmark ends when its clock
  does (\<open>None\<close>: it is still running).
\<close>

record 'f bench_world =
  bw_host :: bench_host
  bw_clock :: "nat \<Rightarrow> u64"
  bw_wallet :: wallet
  bw_recipient :: wallet
  bw_pad :: "u64 list"
  bw_measured :: "string \<Rightarrow> nat \<Rightarrow> 'f list"
  bw_seconds :: "u64 list"
  bw_elapsed :: 'f

definition run_all_benchmarks :: "crypto \<Rightarrow> 'f floats \<Rightarrow> 'f bench_world \<Rightarrow> u32 \<Rightarrow> 'f bench_report partial option" where
  "run_all_benchmarks C F W iterations =
     (let n = unat iterations; few = unat (min iterations 50); rep = bench_report_new (bw_host W) in
      case bench_posc_proof C F (bw_clock W) (bw_wallet W) (bw_recipient W) (bw_measured W ''posc_proof'') few of
        Inl e \<Rightarrow> Some (Inl e)
      | Inr r1 \<Rightarrow>
     (case bench_sequal256_full C F (bw_measured W ''sequal256_full'') few of
        Inl e \<Rightarrow> Some (Inl e)
      | Inr r2 \<Rightarrow>
     (case bench_sequal256_fast C F (bw_pad W) (bw_measured W ''sequal256_fast'') n of
        Inl e \<Rightarrow> Some (Inl e)
      | Inr r3 \<Rightarrow>
     (case bench_mining_hashrate F 5 (bw_seconds W) (bw_elapsed W) of
        None \<Rightarrow> None
      | Some r4 \<Rightarrow>
     (case bench_tx_validation C F (bw_clock W) (bw_wallet W) (bw_recipient W) (bw_measured W ''tx_validation'') n of
        Inl e \<Rightarrow> Some (Inl e)
      | Inr r5 \<Rightarrow>
          Some (Inr (bench_report_add r5 (bench_report_add r4 (bench_report_add r3
            (bench_report_add r2 (bench_report_add r1 rep)))))))))))"

section \<open>Printing the report\<close>

text \<open>A text is cut at a byte; cutting a character in two panics.\<close>

definition is_char_boundary :: "bytes \<Rightarrow> nat \<Rightarrow> bool" where
  "is_char_boundary s n \<longleftrightarrow> n = 0 \<or> n = length s \<or> n < length s \<and> and (s ! n) 0xC0 \<noteq> 0x80"

definition slice_to :: "nat \<Rightarrow> bytes \<Rightarrow> bytes partial" where
  "slice_to n s = (if n \<le> length s \<and> is_char_boundary s n then Inr (take n s) else Inl Panic)"

datatype rate_unit = Mega | Kilo | Single

definition scaled_rate :: "'f floats \<Rightarrow> 'f \<Rightarrow> 'f \<times> rate_unit" where
  "scaled_rate F x =
     (let at_least = (\<lambda>y. f_less F y x \<or> f_eq F y x) in
      if at_least (f_lit F 1000000 0) then (f_div F x (f_lit F 1000000 0), Mega)
      else if at_least (f_lit F 1000 0) then (f_div F x (f_lit F 1000 0), Kilo)
      else (x, Single))"

record 'f report_row =
  rw_name :: string
  rw_mean :: 'f
  rw_p50 :: 'f
  rw_p99 :: 'f
  rw_throughput :: "'f \<times> rate_unit"

definition report_row_of :: "'f floats \<Rightarrow> 'f bench_figures \<Rightarrow> 'f report_row" where
  "report_row_of F b =
     \<lparr>rw_name = take 20 (bf_operation b), rw_mean = bf_mean_ms b, rw_p50 = bf_p50_ms b,
      rw_p99 = bf_p99_ms b, rw_throughput = scaled_rate F (bf_throughput b)\<rparr>"

text \<open>The mean of the proofs, the hashrate if it was measured, and whether the claim of the project holds.\<close>

record 'f report_summary =
  sm_posc_mean :: 'f
  sm_hashrate :: "('f \<times> rate_unit) option"
  sm_validated :: bool

definition report_summary_of :: "'f floats \<Rightarrow> 'f bench_figures list \<Rightarrow> 'f report_summary option" where
  "report_summary_of F results =
     (case find (\<lambda>r. bf_operation r = ''posc_proof'') results of
        None \<Rightarrow> None
      | Some posc \<Rightarrow> Some
          \<lparr>sm_posc_mean = bf_mean_ms posc,
           sm_hashrate = (case find (\<lambda>r. bf_operation r = ''mining_hashrate'') results of
              None \<Rightarrow> None
            | Some mining \<Rightarrow>
                if f_less F (f_lit F 1000 0) (bf_throughput mining) \<or> f_eq F (f_lit F 1000 0) (bf_throughput mining)
                then Some (f_div F (bf_throughput mining) (f_lit F 1000 0), Kilo)
                else Some (bf_throughput mining, Single)),
           sm_validated = f_less F (bf_p99_ms posc) (f_lit F 100 0)\<rparr>)"

record 'f printed_report =
  pp_date :: bytes
  pp_host :: bytes
  pp_cpu :: bytes
  pp_rows :: "'f report_row list"
  pp_summary :: "'f report_summary option"

definition print_results :: "'f floats \<Rightarrow> 'f bench_report \<Rightarrow> 'f printed_report partial" where
  "print_results F rep =
     (case slice_to 19 (rt_timestamp rep) of Inl e \<Rightarrow> Inl e | Inr date \<Rightarrow>
     (case slice_to (min (length (rt_hostname rep)) 55) (rt_hostname rep) of Inl e \<Rightarrow> Inl e | Inr host \<Rightarrow>
     (case slice_to (min (length (rt_cpu_info rep)) 55) (rt_cpu_info rep) of Inl e \<Rightarrow> Inl e | Inr cpu \<Rightarrow>
        Inr \<lparr>pp_date = date, pp_host = host, pp_cpu = cpu,
          pp_rows = map (report_row_of F) (rt_results rep),
          pp_summary = report_summary_of F (rt_results rep)\<rparr>)))"

section \<open>What the command shows\<close>

lemma build_always: "\<exists>t. bench_wallet_tx C now w r s = Inr t"
  by (simp add: bench_wallet_tx_def build_and_prove_def Let_def tb_new_def tb_set_recipient_def
      tb_set_amount_def tb_set_sequence_def)

lemma bench_operation_Inr:
  "ts \<noteq> [] \<Longrightarrow> \<exists>b. bench_operation F name ts = Inr b \<and> bf_operation b = name"
  using length_sort_times [of F ts] by (auto simp: bench_operation_def Let_def simp del: length_sort_times)

lemma hash_fast_times_total: "length pad = MINING_SCRATCHPAD_U64S \<Longrightarrow> hash_fast_times C seed n pad \<noteq> None"
proof (induction n arbitrary: pad)
  case (Suc n)
  from hash_fast_form [OF Suc.prems, of C seed MINING_STEPS] obtain s pad'
    where "hash_fast C seed MINING_STEPS pad = Some (finalize_state C seed s, pad')"
      "length pad' = MINING_SCRATCHPAD_U64S" by (auto simp del: split_paired_Ex)
  then show ?case using Suc.IH by simp
qed simp

lemma hashrate_rounds_ends: "\<exists>e \<in> set es. duration_secs \<le> e \<Longrightarrow> hashrate_rounds duration_secs es n \<noteq> None"
  by (induction es arbitrary: n) (auto simp: not_less)

text \<open>
  with a count of 0 the benchmarks panic; with any other count, on a clock that goes on, they
  give the five results in their order.
\<close>
theorem benchmarks_complete:
  assumes "length (bw_pad W) = MINING_SCRATCHPAD_U64S" "\<exists>e \<in> set (bw_seconds W). 5 \<le> e"
    "\<And>name n. length (bw_measured W name n) = n"
  shows "if iterations = 0 then run_all_benchmarks C F W iterations = Some (Inl Panic)
    else \<exists>rep. run_all_benchmarks C F W iterations = Some (Inr rep)
      \<and> map bf_operation (rt_results rep)
          = [''posc_proof'', ''sequal256_full'', ''sequal256_fast'', ''mining_hashrate'', ''tx_validation'']"
proof (cases "iterations = 0")
  case True
  then have "bw_measured W ''posc_proof'' 0 = []" using assms(3) [of _ 0] by simp
  then show ?thesis using True
    by (simp add: run_all_benchmarks_def bench_posc_proof_def bench_operation_def sort_times_def Let_def min_def)
next
  case False
  let ?n = "unat iterations" and ?few = "unat (min iterations 50)"
  have "0 < ?n" "0 < ?few" using False by (auto simp: min_def unat_gt_0)
  then have ne: "bw_measured W name ?n \<noteq> []" "bw_measured W name ?few \<noteq> []" for name
    using assms(3) [of name ?n] assms(3) [of name ?few] by auto
  have ok: "list_all (\<lambda>i. is_ok (bench_wallet_tx C (f i) w r (g i))) xs" for f w r g and xs :: "nat list"
    using build_always by (auto simp: list_all_iff is_ok_iff)
  obtain s where s: "sequal_hash C (string_bytes ''benchmark_seed_for_sequal256_testing'') POSC_STEPS = Some s"
    using sequal_hash_form [of C "string_bytes ''benchmark_seed_for_sequal256_testing''" POSC_STEPS]
    by (auto simp del: split_paired_Ex)
  obtain p where p: "hash_fast_times C (string_bytes ''benchmark_seed_for_sequal256_fast_testing'') (3 + ?n) (bw_pad W) = Some p"
    using hash_fast_times_total [OF assms(1)] by blast
  obtain c where c: "hashrate_rounds 5 (bw_seconds W) 0 = Some c"
    using hashrate_rounds_ends [OF assms(2)] by blast
  note op = bench_operation_Inr [OF ne(1)] bench_operation_Inr [OF ne(2)]
  obtain r1 where r1: "bench_operation F ''posc_proof'' (bw_measured W ''posc_proof'' ?few) = Inr r1"
    "bf_operation r1 = ''posc_proof''" using op(2) by blast
  obtain r2 where r2: "bench_operation F ''sequal256_full'' (bw_measured W ''sequal256_full'' ?few) = Inr r2"
    "bf_operation r2 = ''sequal256_full''" using op(2) by blast
  obtain r3 where r3: "bench_operation F ''sequal256_fast'' (bw_measured W ''sequal256_fast'' ?n) = Inr r3"
    "bf_operation r3 = ''sequal256_fast''" using op(1) by blast
  obtain r4 where r4: "bench_mining_hashrate F 5 (bw_seconds W) (bw_elapsed W) = Some r4" "bf_operation r4 = ''mining_hashrate''"
    by (simp add: bench_mining_hashrate_def c Let_def)
  obtain r5 where r5: "bench_operation F ''tx_validation'' (bw_measured W ''tx_validation'' ?n) = Inr r5"
    "bf_operation r5 = ''tx_validation''" using op(1) by blast
  have "bench_posc_proof C F (bw_clock W) (bw_wallet W) (bw_recipient W) (bw_measured W ''posc_proof'') ?few = Inr r1"
    by (simp add: bench_posc_proof_def ok r1(1) del: upt_Suc)
  moreover have "bench_sequal256_full C F (bw_measured W ''sequal256_full'') ?few = Inr r2"
    by (simp add: bench_sequal256_full_def s r2(1))
  moreover have "bench_sequal256_fast C F (bw_pad W) (bw_measured W ''sequal256_fast'') ?n = Inr r3"
    by (simp only: bench_sequal256_fast_def p option.case r3(1))
  moreover have "bench_tx_validation C F (bw_clock W) (bw_wallet W) (bw_recipient W) (bw_measured W ''tx_validation'') ?n = Inr r5"
    using \<open>0 < ?n\<close> by (simp add: bench_tx_validation_def ok r5(1))
  ultimately show ?thesis
    using False r1(2) r2(2) r3(2) r4 r5(2)
    by (simp add: run_all_benchmarks_def Let_def bench_report_add_def bench_report_new_def)
qed

definition toy_host :: bench_host where
  "toy_host = \<lparr>bh_now = replicate 25 48, bh_hostname = None, bh_cpuinfo = None, bh_rust_version = [], bh_taron_version = []\<rparr>"

definition toy_world :: "int bench_world" where
  "toy_world = \<lparr>bw_host = toy_host, bw_clock = (\<lambda>_. 0), bw_wallet = \<lparr>wl_signing_key = 1\<rparr>,
     bw_recipient = \<lparr>wl_signing_key = 2\<rparr>, bw_pad = scratchpad_init, bw_measured = (\<lambda>_ n. replicate n 1),
     bw_seconds = [0, 3, 5], bw_elapsed = 5000\<rparr>"

theorem benchmarks_complete_witness:
  "run_all_benchmarks toy_crypto int_floats toy_world 0 = Some (Inl Panic)
   \<and> (\<exists>rep. run_all_benchmarks toy_crypto int_floats toy_world 100 = Some (Inr rep) \<and> length (rt_results rep) = 5)"
proof -
  have h: "length (bw_pad toy_world) = MINING_SCRATCHPAD_U64S" "\<exists>e \<in> set (bw_seconds toy_world). 5 \<le> e"
    "\<And>name n. length (bw_measured toy_world name n) = n"
    by (simp_all add: toy_world_def scratchpad_init_length)
  obtain rep where "run_all_benchmarks toy_crypto int_floats toy_world 100 = Some (Inr rep)"
    "map bf_operation (rt_results rep)
        = [''posc_proof'', ''sequal256_full'', ''sequal256_fast'', ''mining_hashrate'', ''tx_validation'']"
    using benchmarks_complete [OF h, where iterations = 100 and C = toy_crypto and F = int_floats] by auto
  moreover from this(2) have "length (rt_results rep) = 5" using length_map [of bf_operation "rt_results rep"] by simp
  ultimately show ?thesis
    using benchmarks_complete [OF h, where iterations = 0 and C = toy_crypto and F = int_floats] by auto
qed

lemma slice_ascii:
  assumes "list_all (\<lambda>c. c < 0x80) s" "n \<le> length s"
  shows "slice_to n s = Inr (take n s)"
proof -
  have "and c 0xC0 \<noteq> 0x80" if "c < 0x80" for c :: u8
  proof
    assume "and c 0xC0 = 0x80"
    moreover have "and c 0xC0 \<le> c" by (rule word_and_le2)
    ultimately show False using that by simp
  qed
  then have "is_char_boundary s n"
    using assms by (auto simp: is_char_boundary_def list_all_length)
  then show ?thesis using assms(2) by (simp add: slice_to_def)
qed

lemma slice_min_ascii: "list_all (\<lambda>c. c < 0x80) s \<Longrightarrow> slice_to (min (length s) n) s = Inr (take n s)"
  using slice_ascii [of s "min (length s) n"] by (simp add: min_def)

text \<open>
  a report whose texts are ASCII is printed, with a row for every result and the texts cut to their
  columns.
\<close>
theorem report_printed:
  assumes "list_all (\<lambda>c. c < 0x80) (rt_timestamp rep @ rt_hostname rep @ rt_cpu_info rep)"
    "19 \<le> length (rt_timestamp rep)"
  shows "print_results F rep = Inr \<lparr>pp_date = take 19 (rt_timestamp rep), pp_host = take 55 (rt_hostname rep),
        pp_cpu = take 55 (rt_cpu_info rep), pp_rows = map (report_row_of F) (rt_results rep),
        pp_summary = report_summary_of F (rt_results rep)\<rparr>"
  using assms by (simp add: print_results_def slice_ascii [of "rt_timestamp rep" 19] slice_min_ascii)

theorem report_printed_witness:
  "is_ok (print_results int_floats (bench_report_new toy_host))"
  using report_printed [of "bench_report_new toy_host" int_floats]
  by (simp add: bench_report_new_def toy_host_def cli_cpu_info_def string_bytes_def list_all_iff)

text \<open>
  a machine whose name has a character across its 55th byte makes the program panic after all
  benchmarks have run.
\<close>
theorem long_hostname_panics:
  assumes "55 < length (rt_hostname rep)" "and (rt_hostname rep ! 55) 0xC0 = 0x80"
  shows "print_results F rep = Inl Panic"
proof -
  have "slice_to (min (length (rt_hostname rep)) 55) (rt_hostname rep) = Inl Panic"
    using assms by (simp add: slice_to_def is_char_boundary_def)
  then show ?thesis by (simp add: print_results_def slice_to_def)
qed

theorem long_hostname_panics_witness:
  "print_results int_floats ((bench_report_new toy_host)\<lparr>rt_hostname := replicate 54 97 @ [0xC3, 0xA9]\<rparr>) = Inl Panic"
  by (rule long_hostname_panics) (simp_all add: nth_append)

end
