(* ===== verification/Cli_Commands.thy ===== *)
theory Cli_Commands
  imports Cli_Send Pool_Node
begin

text \<open>
  The other commands of the command line program (cli/src/main.rs): the start without a command
  and its wizard, the wallet commands, the wallet part of the status command, the configuration a node is
  started with and the thread that hands shares to a pool; and the client with which the pool asks
  its node (pool/src/main.rs). The file system is a map from paths to texts; which of its calls
  succeed, what the user answers, the random generator and the answers of the network are
  arguments. A call that fails changes no file.
\<close>

section \<open>Paths\<close>

type_synonym files = "string \<Rightarrow> string option"

definition path_join :: "string \<Rightarrow> string \<Rightarrow> string" where
  "path_join p q = (if p = [] \<or> hd (rev p) = CHR ''/'' then p @ q else p @ CHR ''/'' # q)"

text \<open>\<open>home\<close> is the home directory, if the system knows one.\<close>

definition get_data_dir :: "string option \<Rightarrow> bool \<Rightarrow> string" where
  "get_data_dir home testnet =
     path_join (or_else home ''.'') (if testnet then ''.taron-testnet'' else ''.taron'')"

definition wallet_path :: "string option \<Rightarrow> bool \<Rightarrow> string" where
  "wallet_path home testnet = path_join (get_data_dir home testnet) ''wallet.key''"

definition pool_dirs_home :: "string option \<Rightarrow> string" where
  "pool_dirs_home home = or_else home ''/root''"

definition pool_wallet_path :: "string option \<Rightarrow> string" where
  "pool_wallet_path home = path_join (path_join (pool_dirs_home home) ''.taron-testnet'') ''pool-wallet.key''"

section \<open>The wallet file\<close>

record io_calls =
  io_mkdir :: bool
  io_write :: bool
  io_chmod :: bool

definition write_wallet ::
    "crypto \<Rightarrow> wallet_json \<Rightarrow> io_calls \<Rightarrow> string \<Rightarrow> wallet \<Rightarrow> files \<Rightarrow> bool \<times> files" where
  "write_wallet C J io path w fs =
     (if \<not> io_mkdir io \<or> \<not> io_write io then (False, fs)
      else (io_chmod io, fs(path \<mapsto> wj_print J (wallet_to_file C w))))"

definition read_wallet :: "crypto \<Rightarrow> wallet_json \<Rightarrow> string option \<Rightarrow> wallet option" where
  "read_wallet C J file = (case file of
     None \<Rightarrow> None
   | Some content \<Rightarrow>
       (case wj_parse J content of
          None \<Rightarrow> None
        | Some f \<Rightarrow> (case wallet_from_hex C (wf_private_key_hex f) of Inl _ \<Rightarrow> None | Inr w \<Rightarrow> Some w)))"

text \<open>The address that is printed, when the command succeeds.\<close>

definition wallet_generate ::
    "crypto \<Rightarrow> wallet_json \<Rightarrow> io_calls \<Rightarrow> wallet \<Rightarrow> string option \<Rightarrow> bool \<Rightarrow> files \<Rightarrow> string option \<times> files" where
  "wallet_generate C J io fresh home testnet fs =
     (case write_wallet C J io (wallet_path home testnet) fresh fs of
        (ok, fs) \<Rightarrow> (if ok then Some (wallet_address C fresh) else None, fs))"

datatype wallet_info = No_Wallet_Found string | Wallet_Details string string | Wallet_Error

definition wallet_info_command ::
    "crypto \<Rightarrow> wallet_json \<Rightarrow> string option \<Rightarrow> string option \<Rightarrow> bool \<Rightarrow> files \<Rightarrow> wallet_info" where
  "wallet_info_command C J key home testnet fs =
     (let path = or_else key (wallet_path home testnet) in
      if fs path = None then No_Wallet_Found path
      else case read_wallet C J (fs path) of
        None \<Rightarrow> Wallet_Error
      | Some w \<Rightarrow> Wallet_Details (wallet_address C w) (hex_encode C (bytes32 (public_key C w))))"

section \<open>The wizard\<close>

text \<open>An answer is \<open>None\<close> when the prompt fails, for instance at the end of the input.\<close>

record wizard_answers =
  wz_generate :: "bool option"
  wz_key :: "string option"
  wz_mine :: "bool option"
  wz_peer :: "string option"

definition config_text :: "string list \<Rightarrow> string" where
  "config_text ls = concat (map (\<lambda>l. l @ [CHR 0x0A]) ls)"

definition quoted :: "string \<Rightarrow> string" where
  "quoted s = CHR 0x22 # s @ [CHR 0x22]"

definition wizard_config :: "bool \<Rightarrow> string \<Rightarrow> string" where
  "wizard_config start_mining peer_input = config_text
     [''# TARON node configuration'', ''[node]'', ''network = '' @ quoted ''testnet'', ''listen_port = 9333'',
      ''enable_discovery = true'', ''auto_mine = '' @ (if start_mining then ''true'' else ''false''), [],
      ''[mining]'', ''threads = 1'', ''thermal_target = 55'', [], ''[peers]'',
      ''seeds = ['' @ (if peer_input = [] then [] else quoted peer_input) @ '']'']"

definition wizard_wallet :: "crypto \<Rightarrow> wallet \<Rightarrow> wizard_answers \<Rightarrow> wallet option" where
  "wizard_wallet C fresh a = (case wz_generate a of
     None \<Rightarrow> None
   | Some True \<Rightarrow> Some fresh
   | Some False \<Rightarrow>
       (case wz_key a of
          None \<Rightarrow> None
        | Some key_hex \<Rightarrow> (case wallet_from_hex C key_hex of Inl _ \<Rightarrow> None | Inr w \<Rightarrow> Some w)))"

definition run_wizard ::
    "crypto \<Rightarrow> wallet_json \<Rightarrow> io_calls \<Rightarrow> bool \<Rightarrow> wallet \<Rightarrow> wizard_answers \<Rightarrow> string \<Rightarrow> string \<Rightarrow> files \<Rightarrow> bool \<times> files" where
  "run_wizard C J io config_ok fresh a data_dir wp fs =
     (case wizard_wallet C fresh a of
        None \<Rightarrow> (False, fs)
      | Some w \<Rightarrow>
          (case write_wallet C J io wp w fs of
             (False, fs) \<Rightarrow> (False, fs)
           | (True, fs) \<Rightarrow>
               (case (wz_mine a, wz_peer a) of
                  (Some start_mining, Some peer_input) \<Rightarrow>
                    if config_ok
                    then (True, fs(path_join data_dir ''config.toml'' \<mapsto> wizard_config start_mining peer_input))
                    else (False, fs)
                | _ \<Rightarrow> (False, fs))))"

text \<open>What the start without a command shows.\<close>

datatype start_screen = Wizard_Finished | Dashboard string | Start_Failed

definition start_command ::
    "crypto \<Rightarrow> wallet_json \<Rightarrow> io_calls \<Rightarrow> bool \<Rightarrow> wallet \<Rightarrow> wizard_answers \<Rightarrow> string option \<Rightarrow> bool \<Rightarrow> files
       \<Rightarrow> start_screen \<times> files" where
  "start_command C J io config_ok fresh a home testnet fs =
     (let data_dir = get_data_dir home testnet; wp = wallet_path home testnet in
      if fs wp = None
      then (case run_wizard C J io config_ok fresh a data_dir wp fs of
              (ok, fs) \<Rightarrow> (if ok then Wizard_Finished else Start_Failed, fs))
      else (case read_wallet C J (fs wp) of
              None \<Rightarrow> Start_Failed
            | Some w \<Rightarrow> Dashboard (take 20 (wallet_address C w)), fs))"

section \<open>The status command\<close>

text \<open>The first ten digits of the hash and an ellipsis; a node whose chain is empty has none.\<close>

definition short_hash :: "string \<Rightarrow> string \<times> bool" where
  "short_hash best_hash = (if length best_hash \<ge> 10 then (take 10 best_hash, True) else (best_hash, False))"

text \<open>
  What the command finds beside the wallet: whether the files of the chain and of the ledger exist, the database as
  it was opened, which fails while another process has it open (\<open>None\<close>), and the files that are read
  when there is no ledger in it.
\<close>

record 'd node_files =
  nf_chain_exists :: bool
  nf_ledger_exists :: bool
  nf_db :: "'d option"
  nf_legacy_chain :: "legacy_chain option"
  nf_ledger :: "ledger option"
  nf_legacy_ledger :: "(string \<times> account_state) list option"

record ledger_figures =
  lf_balance :: u64
  lf_supply :: u64
  lf_accounts :: nat

text \<open>Balance and supply are the numbers before they are divided for printing.\<close>

datatype wallet_status =
    Not_Created
  | Not_Readable
  | Address_Only string
  | Address_Balance string ledger_figures

definition status_wallet ::
    "crypto \<Rightarrow> wallet_json \<Rightarrow> ('d, 'v) storage \<Rightarrow> 'd node_files \<Rightarrow> string option \<Rightarrow> wallet_status partial" where
  "status_wallet C J S nf file = (case file of
     None \<Rightarrow> Inr Not_Created
   | Some content \<Rightarrow>
       (case read_wallet C J (Some content) of
          None \<Rightarrow> Inr Not_Readable
        | Some w \<Rightarrow>
            if nf_ledger_exists nf \<or> nf_chain_exists nf then
              (case nf_db nf of
                 None \<Rightarrow> Inl Panic
               | Some db \<Rightarrow>
                   let chain_w = load_or_create C S db (nf_legacy_chain nf) TESTNET_DIFFICULTY;
                       L = fst (load_or_create_testnet C S (nf_ledger nf) (nf_legacy_ledger nf) chain_w)
                   in Inr (Address_Balance (wallet_address C w)
                        \<lparr>lf_balance = ledger_balance L (public_key C w), lf_supply = total_supply L,
                         lf_accounts = account_count L\<rparr>))
            else Inr (Address_Only (wallet_address C w))))"

section \<open>Starting a node\<close>

text \<open>Seeds that are no addresses are dropped.\<close>

definition start_config ::
    "(string \<Rightarrow> socket_addr option) \<Rightarrow> u16 \<Rightarrow> string list \<Rightarrow> bool \<Rightarrow> string option \<Rightarrow> bool \<Rightarrow> node_config" where
  "start_config parse_addr port seed no_discovery home testnet =
     \<lparr>nc_listen_port = port, nc_seed_nodes = List.map_filter parse_addr seed,
      nc_enable_discovery = \<not> no_discovery, nc_data_dir = Some (get_data_dir home testnet)\<rparr>"

section \<open>Handing in shares\<close>

text \<open>What comes back over the network: nothing, a body that cannot be read, or the answer.\<close>

datatype 'a reply = Unreachable | Unreadable | Answer 'a

record share_reply =
  rp_accepted :: bool
  rp_is_block :: bool

datatype share_line = Block_Found u64 u64 | Share_Accepted u64 u64 | Share_Error

text \<open>The number of accepted shares is shared by all threads; the second component is what is printed.\<close>

definition upload_share ::
    "share_request \<Rightarrow> share_reply reply \<Rightarrow> u64 \<Rightarrow> u64 \<times> share_line list" where
  "upload_share msg r total_shares = (case r of
     Unreachable \<Rightarrow> (total_shares, [Share_Error])
   | Unreadable \<Rightarrow> (total_shares, [])
   | Answer r \<Rightarrow>
       if rp_accepted r then
         let count = total_shares + 1 in
         (count, [if rp_is_block r then Block_Found (sq_block_index msg) count
                  else Share_Accepted count (sq_block_index msg)])
       else (total_shares, []))"

fun upload_shares ::
    "(share_request \<times> share_reply reply) list \<Rightarrow> u64 \<Rightarrow> u64 \<times> share_line list" where
  "upload_shares [] n = (n, [])"
| "upload_shares ((msg, r) # rs) n =
     (case upload_share msg r n of (n, out) \<Rightarrow>
        (case upload_shares rs n of (n, outs) \<Rightarrow> (n, out @ outs)))"

section \<open>The client of the pool\<close>

fun json_of :: "'a reply \<Rightarrow> 'a option" where
  "json_of (Answer x) = Some x"
| "json_of _ = None"

definition fetch_node_status :: "node_status_reply reply \<Rightarrow> node_status_reply option" where
  "fetch_node_status r = json_of r"

definition fetch_pool_account :: "node_account_reply reply \<Rightarrow> node_account_reply option" where
  "fetch_pool_account r = json_of r"

definition fetch_mempool_txs :: "transaction list reply \<Rightarrow> transaction list" where
  "fetch_mempool_txs r = or_else (json_of r) []"

text \<open>The answer to a submitted block is read for its field \<open>accepted\<close>.\<close>

definition submit_block_to_node :: "bool reply \<Rightarrow> bool" where
  "submit_block_to_node r = or_else (json_of r) False"

text \<open>The wallet of the pool; unlike the other commands it leaves the permissions of the file as they are.\<close>

definition pool_load_or_create_wallet ::
    "crypto \<Rightarrow> wallet_json \<Rightarrow> wallet \<Rightarrow> bool \<Rightarrow> string option \<Rightarrow> files \<Rightarrow> wallet option \<times> files" where
  "pool_load_or_create_wallet C J fresh write_ok home fs =
     (let path = pool_wallet_path home in
      if fs path \<noteq> None then (read_wallet C J (fs path), fs)
      else if write_ok then (Some fresh, fs(path \<mapsto> wj_print J (wallet_to_file C fresh)))
      else (None, fs))"

section \<open>Wallets on disk\<close>

lemma read_written:
  "hex_ok C \<Longrightarrow> wallet_json_ok J \<Longrightarrow> read_wallet C J (Some (wj_print J (wallet_to_file C w))) = Some w"
  using wallet_file_roundtrip [of C w] by (simp add: read_wallet_def wallet_json_ok_def)

lemma load_is_read:
  "load_or_create_wallet C J fresh ok (Some content) = (read_wallet C J (Some content), Some content)"
  by (auto simp: load_or_create_wallet_def read_wallet_def split: option.splits sum.splits)

lemma path_join_suffix: "p \<noteq> [] \<Longrightarrow> hd (rev p) \<noteq> CHR ''/'' \<Longrightarrow> path_join p q = p @ CHR ''/'' # q"
  by (simp add: path_join_def)

lemma rev_path_join: "q \<noteq> [] \<Longrightarrow> \<exists>x. rev (path_join p q) = rev q @ x"
  by (simp add: path_join_def)

lemma path_join_not_empty: "q \<noteq> [] \<Longrightarrow> path_join p q \<noteq> [] \<and> hd (rev (path_join p q)) = hd (rev q)"
  by (auto simp: path_join_def hd_append)

lemma wallet_path_form: "wallet_path home testnet = get_data_dir home testnet @ ''/wallet.key''"
  unfolding wallet_path_def get_data_dir_def
  using path_join_not_empty [of "if testnet then ''.taron-testnet'' else ''.taron''" "or_else home ''.''"]
  by (subst path_join_suffix) (auto split: if_splits)

lemma config_path_form: "path_join (get_data_dir home testnet) ''config.toml'' = get_data_dir home testnet @ ''/config.toml''"
  unfolding get_data_dir_def
  using path_join_not_empty [of "if testnet then ''.taron-testnet'' else ''.taron''" "or_else home ''.''"]
  by (subst path_join_suffix) (auto split: if_splits)

lemma pool_wallet_path_form:
  "pool_wallet_path home = path_join (pool_dirs_home home) ''.taron-testnet'' @ ''/pool-wallet.key''"
  unfolding pool_wallet_path_def
  using path_join_not_empty [of "''.taron-testnet''" "pool_dirs_home home"]
  by (subst path_join_suffix) auto

lemma suffixes_differ:
  assumes "length s = length t" "s \<noteq> t"
  shows "p @ s \<noteq> q @ t"
  using assms by simp

lemma config_path_other: "path_join (get_data_dir home testnet) ''config.toml'' \<noteq> wallet_path home testnet"
  by (simp add: wallet_path_form config_path_form)

text \<open>
  the pool and the command line program never use the same wallet file, not even in one home directory.
\<close>
lemma pool_wallet_separate: "pool_wallet_path h \<noteq> wallet_path home testnet"
proof -
  have "pool_wallet_path h = (path_join (pool_dirs_home h) ''.taron-testnet'' @ ''/pool'') @ ''-wallet.key''"
    by (simp add: pool_wallet_path_form)
  moreover have "wallet_path home testnet = get_data_dir home testnet @ ''/wallet.key''"
    by (rule wallet_path_form)
  ultimately show ?thesis using suffixes_differ [of "''-wallet.key''" "''/wallet.key''"] by simp
qed

text \<open>
  generating a wallet replaces the one that is there without a question: afterwards the program uses
  the new key, and no file that was changed gives the old one back.
\<close>
theorem generate_replaces_wallet:
  assumes "hex_ok C" "wallet_json_ok J" "wallet_generate C J io fresh home testnet fs = (Some a, fs')"
  shows "a = wallet_address C fresh
    \<and> fst (load_or_create_wallet C J other ok (fs' (wallet_path home testnet))) = Some fresh
    \<and> (\<forall>old p. old \<noteq> fresh \<longrightarrow> read_wallet C J (fs' p) = Some old \<longrightarrow> fs' p = fs p \<and> p \<noteq> wallet_path home testnet)"
proof -
  let ?wp = "wallet_path home testnet"
  have f: "a = wallet_address C fresh" "fs' = fs(?wp \<mapsto> wj_print J (wallet_to_file C fresh))"
    using assms(3) by (auto simp: wallet_generate_def write_wallet_def split: if_splits)
  have r: "read_wallet C J (fs' ?wp) = Some fresh" using read_written [OF assms(1,2)] f(2) by simp
  have "fst (load_or_create_wallet C J other ok (fs' ?wp)) = Some fresh"
    using r f(2) by (simp add: load_is_read)
  moreover have "fs' p = fs p \<and> p \<noteq> ?wp" if "old \<noteq> fresh" "read_wallet C J (fs' p) = Some old" for old p
    using that r f(2) by (cases "p = ?wp") auto
  ultimately show ?thesis using f(1) by blast
qed

definition good_io :: io_calls where
  "good_io = \<lparr>io_mkdir = True, io_write = True, io_chmod = True\<rparr>"

theorem generate_replaces_wallet_witness:
  "fst (load_or_create_wallet toy_crypto toy_wallet_json \<lparr>wl_signing_key = 7\<rparr> True
      (snd (wallet_generate toy_crypto toy_wallet_json good_io \<lparr>wl_signing_key = 9\<rparr> None True
        (Map.empty(wallet_path None True \<mapsto> ''x''))) (wallet_path None True))) = Some \<lparr>wl_signing_key = 9\<rparr>"
proof -
  let ?g = "wallet_generate toy_crypto toy_wallet_json good_io \<lparr>wl_signing_key = 9\<rparr> None True
        (Map.empty(wallet_path None True \<mapsto> ''x''))"
  have "?g = (Some (wallet_address toy_crypto \<lparr>wl_signing_key = 9\<rparr>), snd ?g)"
    by (simp add: wallet_generate_def write_wallet_def good_io_def)
  from generate_replaces_wallet [OF toy_hex_ok toy_wallet_json_ok this] show ?thesis by blast
qed

section \<open>The first start\<close>

lemma run_wizard_True:
  "run_wizard C J io config_ok fresh a d wp fs = (True, fs') \<Longrightarrow> \<exists>w m q. wizard_wallet C fresh a = Some w
     \<and> fs' = fs(wp \<mapsto> wj_print J (wallet_to_file C w), path_join d ''config.toml'' \<mapsto> wizard_config m q)"
  by (auto simp: run_wizard_def write_wallet_def split: option.splits prod.splits bool.splits if_splits)

lemma run_wizard_False:
  "run_wizard C J io config_ok fresh a d wp fs = (False, fs') \<Longrightarrow> p \<noteq> wp \<Longrightarrow> fs' p = fs p"
  by (auto simp: run_wizard_def write_wallet_def split: option.splits prod.splits bool.splits if_splits)

text \<open>
  a first start that finishes leaves the wallet that was asked for: a later start shows its address
  and changes nothing, and the wallet commands and the commands that use the wallet read that one.
  A start that fails leaves every file but the wallet as it was.
\<close>
theorem first_start_wallet:
  assumes "hex_ok C" "wallet_json_ok J" "fs (wallet_path home testnet) = None"
    and run: "start_command C J io config_ok fresh a home testnet fs = (scr, fs')"
  shows "if scr = Wizard_Finished
    then \<exists>w. wizard_wallet C fresh a = Some w
        \<and> start_command C J io' config_ok' fresh' a' home testnet fs'
            = (Dashboard (take 20 (wallet_address C w)), fs')
        \<and> wallet_info_command C J None home testnet fs'
            = Wallet_Details (wallet_address C w) (hex_encode C (bytes32 (public_key C w)))
        \<and> fst (load_or_create_wallet C J fresh' ok (fs' (wallet_path home testnet))) = Some w
    else \<forall>p. p \<noteq> wallet_path home testnet \<longrightarrow> fs' p = fs p"
proof -
  let ?wp = "wallet_path home testnet"
  have z: "run_wizard C J io config_ok fresh a (get_data_dir home testnet) ?wp fs = (scr = Wizard_Finished, fs')"
    using run assms(3) by (auto simp: start_command_def Let_def split: prod.splits if_splits)
  show ?thesis
  proof (cases "scr = Wizard_Finished")
    case True
    then have "run_wizard C J io config_ok fresh a (get_data_dir home testnet) ?wp fs = (True, fs')" using z by simp
    from run_wizard_True [OF this] obtain w m q where w: "wizard_wallet C fresh a = Some w"
      and "fs' = fs(?wp \<mapsto> wj_print J (wallet_to_file C w),
                 path_join (get_data_dir home testnet) ''config.toml'' \<mapsto> wizard_config m q)"
      by blast
    then have f: "fs' ?wp = Some (wj_print J (wallet_to_file C w))"
      using config_path_other [of home testnet] by simp
    then have "read_wallet C J (fs' ?wp) = Some w" using read_written [OF assms(1,2)] by simp
    then show ?thesis
      using True w f by (simp add: start_command_def wallet_info_command_def or_else_def load_is_read)
  next
    case False
    then have "run_wizard C J io config_ok fresh a (get_data_dir home testnet) ?wp fs = (False, fs')"
      using z by simp
    from run_wizard_False [OF this] show ?thesis using False by simp
  qed
qed

definition toy_answers :: wizard_answers where
  "toy_answers = \<lparr>wz_generate = Some True, wz_key = None, wz_mine = Some True, wz_peer = Some []\<rparr>"

theorem first_start_wallet_witness:
  "fst (start_command toy_crypto toy_wallet_json good_io True \<lparr>wl_signing_key = 7\<rparr> toy_answers None True
      (snd (start_command toy_crypto toy_wallet_json good_io True \<lparr>wl_signing_key = 9\<rparr> toy_answers None True Map.empty)))
    = Dashboard (take 20 (wallet_address toy_crypto \<lparr>wl_signing_key = 9\<rparr>))"
proof -
  let ?s = "start_command toy_crypto toy_wallet_json good_io True \<lparr>wl_signing_key = 9\<rparr> toy_answers None True Map.empty"
  have "?s = (Wizard_Finished, snd ?s)"
    by (simp add: start_command_def run_wizard_def wizard_wallet_def write_wallet_def toy_answers_def good_io_def)
  from first_start_wallet [OF toy_hex_ok toy_wallet_json_ok _ this, of good_io True "\<lparr>wl_signing_key = 7\<rparr>" toy_answers True]
  show ?thesis by (auto simp: wizard_wallet_def toy_answers_def)
qed

section \<open>Counting shares\<close>

text \<open>
  the number that is printed with the last accepted share is the number of shares the pool
  accepted, and every accepted share and every failed request prints one line.
\<close>
theorem upload_shares_count:
  "fst (upload_shares rs n) = n + of_nat (length (filter (\<lambda>(_, r). \<exists>x. r = Answer x \<and> rp_accepted x) rs))
   \<and> length (snd (upload_shares rs n))
      = length (filter (\<lambda>(_, r). r = Unreachable \<or> (\<exists>x. r = Answer x \<and> rp_accepted x)) rs)"
proof (induction rs n rule: upload_shares.induct)
  case (1 n)
  then show ?case by simp
next
  case (2 msg r rs n)
  obtain n' out where u: "upload_share msg r n = (n', out)" by (cases "upload_share msg r n")
  obtain m outs where us: "upload_shares rs n' = (m, outs)" by (cases "upload_shares rs n'")
  show ?case
    using "2.IH" [OF u [symmetric]] u us
    by (cases r) (auto simp: upload_share_def Let_def split: if_splits)
qed

section \<open>The status of the wallet\<close>

text \<open>
  the command reports the balance that the saved ledger gives the key of the wallet, when the
  database can be opened; while a running node has it open, the command panics after it has shown the figures of that
  node.
\<close>
theorem status_reports_balance:
  assumes "hex_ok C" "wallet_json_ok J" "nf_ledger_exists nf" "nf_ledger nf = Some L"
  shows "status_wallet C J S nf (Some (wj_print J (wallet_to_file C w))) = (case nf_db nf of
      None \<Rightarrow> Inl Panic
    | Some db \<Rightarrow> Inr (Address_Balance (wallet_address C w)
        \<lparr>lf_balance = ledger_balance L (public_key C w), lf_supply = total_supply L, lf_accounts = account_count L\<rparr>))"
  using assms(3,4) read_written [OF assms(1,2), of w]
  by (simp add: status_wallet_def Let_def load_or_create_testnet_def split: option.split)

theorem status_reports_balance_witness:
  "status_wallet toy_crypto toy_wallet_json toy_storage
      \<lparr>nf_chain_exists = True, nf_ledger_exists = True, nf_db = None, nf_legacy_chain = None,
       nf_ledger = Some Map.empty, nf_legacy_ledger = None\<rparr>
      (Some (wj_print toy_wallet_json (wallet_to_file toy_crypto \<lparr>wl_signing_key = 9\<rparr>))) = Inl Panic"
  using status_reports_balance [OF toy_hex_ok toy_wallet_json_ok, of
      "\<lparr>nf_chain_exists = True, nf_ledger_exists = True, nf_db = None, nf_legacy_chain = None,
       nf_ledger = Some Map.empty, nf_legacy_ledger = None\<rparr>" Map.empty toy_storage "\<lparr>wl_signing_key = 9\<rparr>"]
  by simp

end
