(* ===== verification/Cli_Main.thy ===== *)
theory Cli_Main
  imports Cli_Commands Cli_Report
begin

text \<open>
  The command line program as a whole (cli/src/main.rs): its commands and their defaults, the tasks
  that starting a node leads to, the loops in which threads wait for work or for the node to be
  synchronised, the lines the running program prints, and \<open>main\<close>, which leads each command to its
  definition. Parsing of the command line is left to the library the source uses.
\<close>

section \<open>Commands\<close>

record start_args =
  go_port :: u16
  go_seed :: "string list"
  go_no_discovery :: bool
  go_mine :: bool
  go_threads :: u32
  go_rpc_port :: "u16 option"
  go_pool :: "string option"
  go_address :: "string option"
  go_pubkey :: "string option"
  go_worker :: string

text \<open>\<open>node start\<close> without an option.\<close>

definition start_args_default :: start_args where
  "start_args_default = \<lparr>go_port = 8333, go_seed = [], go_no_discovery = False, go_mine = False,
     go_threads = 1, go_rpc_port = None, go_pool = None, go_address = None, go_pubkey = None,
     go_worker = ''default''\<rparr>"

datatype wallet_action = Do_Generate | Do_Info "string option"

datatype 'f commands =
    Cmd_Node start_args
  | Cmd_Wallet wallet_action
  | Cmd_Send string 'f
  | Cmd_Status
  | Cmd_Bench u32 bool

record 'f cli =
  cl_testnet :: bool
  cl_command :: "'f commands option"

section \<open>Waiting\<close>

text \<open>
  The number of pauses before a condition is first seen to hold; \<open>None\<close> when it never was, so that
  what comes after the loop has not happened.
\<close>

fun wait_until :: "bool list \<Rightarrow> nat option" where
  "wait_until [] = None"
| "wait_until (c # cs) = (if c then Some 0 else map_option Suc (wait_until cs))"

definition wait_for_work :: "work_response option list \<Rightarrow> nat option" where
  "wait_for_work shared_work = wait_until (map (\<lambda>w. w \<noteq> None) shared_work)"

definition wait_sync :: "bool list \<Rightarrow> nat option" where
  "wait_sync sync_ready = wait_until sync_ready"

section \<open>Starting a node\<close>

datatype start_task =
    Work_Fetcher string string
  | Share_Sender string
  | Pool_Miner u32 pool_thread
  | Pool_Display
  | Solo_Miner u32
  | Solo_Display
  | Block_Relay
  | Status_Task
  | Rpc_Server u16
  | Node_Run

definition thread_ids :: "u32 \<Rightarrow> u32 list" where
  "thread_ids threads = map of_nat [0..<unat threads]"

text \<open>With a pool: the main thread itself waits for the first work before it goes on.\<close>

definition pool_tasks :: "string \<Rightarrow> string \<Rightarrow> u32 \<Rightarrow> work_response option list \<Rightarrow> start_task list" where
  "pool_tasks pool_url miner_address threads shared_work =
     [Work_Fetcher pool_url miner_address, Share_Sender pool_url]
     @ (case wait_for_work shared_work of
          None \<Rightarrow> []
        | Some _ \<Rightarrow> map (\<lambda>i. Pool_Miner i (pool_thread_start i threads)) (thread_ids threads)
            @ [Pool_Display, Node_Run])"

definition solo_tasks :: "u32 \<Rightarrow> start_task list" where
  "solo_tasks threads = map Solo_Miner (thread_ids threads) @ [Solo_Display, Block_Relay]"

definition service_tasks :: "u16 option \<Rightarrow> start_task list" where
  "service_tasks rpc_port =
     Status_Task # (case rpc_port of None \<Rightarrow> [] | Some p \<Rightarrow> [Rpc_Server p]) @ [Node_Run]"

text \<open>
  The tasks in the order they are started, \<open>None\<close> when the program panics: the node cannot be
  opened (\<open>node\<close> is \<open>None\<close>), or the wallet cannot be read or made.
\<close>

definition node_start ::
    "crypto \<Rightarrow> wallet_json \<Rightarrow> wallet \<Rightarrow> bool \<Rightarrow> 'd node option \<Rightarrow> work_response option list
       \<Rightarrow> string option \<Rightarrow> bool \<Rightarrow> start_args \<Rightarrow> files \<Rightarrow> start_task list option \<times> files" where
  "node_start C J fresh write_ok node shared_work home testnet a fs =
     (case node of
        None \<Rightarrow> (None, fs)
      | Some _ \<Rightarrow>
          let wp = wallet_path home testnet;
              (wallet, file) = load_or_create_wallet C J fresh write_ok (fs wp)
          in case go_pool a of
               Some pool_url \<Rightarrow>
                 (map_option (\<lambda>w. pool_tasks pool_url
                    (fst (pool_identity C w (go_pubkey a) (go_address a))) (go_threads a) shared_work) wallet,
                  fs(wp := file))
             | None \<Rightarrow>
                 if go_mine a
                 then (map_option (\<lambda>_. solo_tasks (go_threads a) @ service_tasks (go_rpc_port a)) wallet,
                       fs(wp := file))
                 else (Some (service_tasks (go_rpc_port a)), fs))"

section \<open>What the running program prints\<close>

text \<open>Hours, minutes and seconds.\<close>

definition clock_of :: "u64 \<Rightarrow> u64 \<times> u64 \<times> u64" where
  "clock_of elapsed = (elapsed div 3600, elapsed mod 3600 div 60, elapsed mod 60)"

definition mean_hashrate :: "'f floats \<Rightarrow> u64 \<Rightarrow> 'f \<Rightarrow> 'f" where
  "mean_hashrate F h elapsed = (if f_less F (f_zero F) elapsed then f_div F (f_u64 F h) elapsed else f_zero F)"

definition shown_rate :: "'f floats \<Rightarrow> 'f \<Rightarrow> 'f \<times> string" where
  "shown_rate F hr =
     (if f_less F (f_lit F 1000000 0) hr \<or> f_eq F hr (f_lit F 1000000 0)
      then (f_div F hr (f_lit F 1000000 0), ''MH/s'')
      else if f_less F (f_lit F 1000 0) hr \<or> f_eq F hr (f_lit F 1000 0)
      then (f_div F hr (f_lit F 1000 0), ''kH/s'') else (hr, '' H/s''))"

record 'f mining_line =
  ml_rate :: "'f \<times> string"
  ml_hashes :: u64
  ml_found :: u64

definition pool_line :: "'f floats \<Rightarrow> u64 \<Rightarrow> u64 \<Rightarrow> 'f \<Rightarrow> 'f mining_line" where
  "pool_line F h s elapsed =
     \<lparr>ml_rate = shown_rate F (mean_hashrate F h elapsed), ml_hashes = h, ml_found = s\<rparr>"

record 'f solo_line = "'f mining_line" +
  ml_difficulty :: u32
  ml_clock :: "u64 \<times> u64 \<times> u64"

definition solo_display_line :: "'f floats \<Rightarrow> u64 \<Rightarrow> u64 \<Rightarrow> 'f \<Rightarrow> 'd node \<Rightarrow> 'f solo_line" where
  "solo_display_line F h s elapsed st =
     \<lparr>ml_rate = shown_rate F (mean_hashrate F h elapsed), ml_hashes = h, ml_found = s,
      ml_difficulty = bc_difficulty (nd_chain st), ml_clock = clock_of (f_to_u64 F elapsed)\<rparr>"

record 'f node_line =
  nl_height :: u64
  nl_hash :: "string \<times> bool"
  nl_peers :: "nat \<times> nat \<times> nat"
  nl_mempool :: nat
  nl_mined :: 'f
  nl_clock :: "u64 \<times> u64 \<times> u64"

definition node_display_line :: "'f floats \<Rightarrow> u16 \<Rightarrow> u64 \<Rightarrow> 'd node \<Rightarrow> 'f node_line" where
  "node_display_line F listen_port elapsed st = (let s = nd_status listen_port st in
     \<lparr>nl_height = ns_chain_height s, nl_hash = short_hash (ns_best_hash s),
      nl_peers = (ns_peer_count s, ns_inbound_count s, ns_outbound_count s),
      nl_mempool = ns_mempool_size s,
      nl_mined = f_div F (f_u64 F (ns_total_supply s)) (f_lit F 1000000 0),
      nl_clock = clock_of elapsed\<rparr>)"

text \<open>One turn of the status task: the line, and the file for the status command.\<close>

definition status_turn ::
    "'f floats \<Rightarrow> state_json \<Rightarrow> bool \<Rightarrow> u16 \<Rightarrow> u64 \<Rightarrow> u64 \<Rightarrow> 'd node \<Rightarrow> string option \<Rightarrow> 'f node_line \<times> string option" where
  "status_turn F J write_ok listen_port elapsed now st file =
     (node_display_line F listen_port elapsed st,
      state_file_save J write_ok (status_snapshot listen_port elapsed now st) file)"

section \<open>The program\<close>

text \<open>Everything a run meets.\<close>

record ('f, 'd) cli_world =
  cw_home :: "string option"
  cw_fresh :: wallet
  cw_write_ok :: bool
  cw_io :: io_calls
  cw_config_ok :: bool
  cw_answers :: wizard_answers
  cw_node :: "'d node option"
  cw_work :: "work_response option list"
  cw_account :: "account_response option option"
  cw_now_ms :: u64
  cw_now_secs :: u64
  cw_live :: "node_state_file option"
  cw_node_files :: "'d node_files"
  cw_bench :: "'f bench_world"
  cw_bench_name :: string

text \<open>A command ends with a value; \<open>Panicked\<close> and \<open>Never_Ends\<close> are the other outcomes.\<close>

datatype 'f command_end =
    Started start_screen
  | Node_Tasks "start_task list"
  | Generated "string option"
  | Informed wallet_info
  | Sent send_outcome
  | Status_Shown liveness wallet_status
  | Benched "'f printed_report" bool
  | Panicked
  | Never_Ends

definition send_coins ::
    "crypto \<Rightarrow> wallet_json \<Rightarrow> 'f floats \<Rightarrow> ('f, 'd) cli_world \<Rightarrow> bool \<Rightarrow> string \<Rightarrow> 'f \<Rightarrow> files \<Rightarrow> 'f command_end \<times> files" where
  "send_coins C J F W testnet dest amount fs =
     (let wp = wallet_path (cw_home W) testnet in
      case load_or_create_wallet C J (cw_fresh W) (cw_write_ok W) (fs wp) of
        (None, file) \<Rightarrow> (Panicked, fs(wp := file))
      | (Some w, file) \<Rightarrow> (Sent (cli_send C F (cw_now_ms W) w dest amount (cw_account W)), fs(wp := file)))"

definition bench_command ::
    "crypto \<Rightarrow> 'f floats \<Rightarrow> ('f bench_report \<Rightarrow> string option) \<Rightarrow> ('f, 'd) cli_world \<Rightarrow> bool \<Rightarrow> u32 \<Rightarrow> bool
       \<Rightarrow> files \<Rightarrow> 'f command_end \<times> files" where
  "bench_command C F to_json W testnet count save fs =
     (case run_all_benchmarks C F (cw_bench W) count of
        None \<Rightarrow> (Never_Ends, fs)
      | Some (Inl _) \<Rightarrow> (Panicked, fs)
      | Some (Inr report) \<Rightarrow>
          (case print_results F report of
             Inl _ \<Rightarrow> (Panicked, fs)
           | Inr printed \<Rightarrow>
               if \<not> save then (Benched printed False, fs)
               else
                 let path = path_join (path_join (get_data_dir (cw_home W) testnet) ''benchmarks'') (cw_bench_name W);
                     (ok, file) = bench_report_save to_json (io_mkdir (cw_io W)) (io_write (cw_io W)) report (fs path)
                 in (Benched printed ok, fs(path := file))))"

definition cli_main ::
    "crypto \<Rightarrow> wallet_json \<Rightarrow> ('d, 'v) storage \<Rightarrow> 'f floats \<Rightarrow> ('f bench_report \<Rightarrow> string option)
       \<Rightarrow> ('f, 'd) cli_world \<Rightarrow> 'f cli \<Rightarrow> files \<Rightarrow> 'f command_end \<times> files" where
  "cli_main C J S F to_json W cli fs =
     (let testnet = cl_testnet cli; home = cw_home W in
      case cl_command cli of
        None \<Rightarrow> (case start_command C J (cw_io W) (cw_config_ok W) (cw_fresh W) (cw_answers W) home testnet fs of
                   (screen, fs) \<Rightarrow> (Started screen, fs))
      | Some (Cmd_Node a) \<Rightarrow>
          (case node_start C J (cw_fresh W) (cw_write_ok W) (cw_node W) (cw_work W) home testnet a fs of
             (None, fs) \<Rightarrow> (Panicked, fs) | (Some tasks, fs) \<Rightarrow> (Node_Tasks tasks, fs))
      | Some (Cmd_Wallet Do_Generate) \<Rightarrow>
          (case wallet_generate C J (cw_io W) (cw_fresh W) home testnet fs of (r, fs) \<Rightarrow> (Generated r, fs))
      | Some (Cmd_Wallet (Do_Info key)) \<Rightarrow> (Informed (wallet_info_command C J key home testnet fs), fs)
      | Some (Cmd_Send dest amount) \<Rightarrow> send_coins C J F W testnet dest amount fs
      | Some (Cmd_Bench count save) \<Rightarrow> bench_command C F to_json W testnet count save fs
      | Some Cmd_Status \<Rightarrow>
          (case status_wallet C J S (cw_node_files W) (fs (wallet_path home testnet)) of
             Inl _ \<Rightarrow> (Panicked, fs)
           | Inr s \<Rightarrow> (Status_Shown (status_liveness (cw_now_secs W) (cw_live W)) s, fs)))"

section \<open>Starting a node, and what is left out\<close>

lemma wait_until_None: "wait_until cs = None \<longleftrightarrow> (\<forall>c \<in> set cs. \<not> c)"
  by (induction cs) auto

lemma wait_for_work_None: "wait_for_work ws = None \<longleftrightarrow> (\<forall>w \<in> set ws. w = None)"
  by (auto simp: wait_for_work_def wait_until_None)

lemma thread_ids_set: "set (thread_ids n) = {i. i < n}"
proof
  show "set (thread_ids n) \<subseteq> {i. i < n}"
    using unat_less_32 [of n] by (auto simp: thread_ids_def word_less_nat_alt unat_of_nat_small)
  show "{i. i < n} \<subseteq> set (thread_ids n)"
  proof
    fix i assume "i \<in> {i. i < n}"
    then have "i = of_nat (unat i)" "unat i \<in> {0..<unat n}" by (simp_all add: word_less_nat_alt)
    then show "i \<in> set (thread_ids n)" unfolding thread_ids_def by (metis image_eqI list.set_map set_upt)
  qed
qed

lemma thread_ids_length [simp]: "length (thread_ids n) = unat n"
  by (simp add: thread_ids_def)

text \<open>
  a node that mines for a pool serves nobody: whatever other options are given, neither the HTTP
  interface nor the status file is started, and nothing mines in the node; and as long as the pool has not
  answered, the node itself does not run.
\<close>
theorem pool_mode_serves_nobody:
  assumes "go_pool a = Some url"
    and "node_start C J fresh write_ok node shared_work home testnet a fs = (Some tasks, fs')"
  shows "(\<forall>p. Rpc_Server p \<notin> set tasks) \<and> Status_Task \<notin> set tasks \<and> (\<forall>i. Solo_Miner i \<notin> set tasks)
    \<and> (Node_Run \<in> set tasks \<longleftrightarrow> (\<exists>w \<in> set shared_work. w \<noteq> None))"
proof -
  obtain address where "tasks = pool_tasks url address (go_threads a) shared_work"
    using assms by (auto simp: node_start_def Let_def split: option.splits prod.splits)
  then show ?thesis
    using wait_for_work_None [of shared_work] by (auto simp: pool_tasks_def split: option.split)
qed

lemma service_tasks_set:
  "set (service_tasks r) = {Status_Task, Node_Run} \<union> Rpc_Server ` set_option r" "last (service_tasks r) = Node_Run"
  "service_tasks r \<noteq> []"
  by (auto simp: service_tasks_def split: option.split)

lemma solo_tasks_set: "set (solo_tasks n) = Solo_Miner ` {i. i < n} \<union> {Solo_Display, Block_Relay}"
  by (auto simp: solo_tasks_def thread_ids_set)

text \<open>
  without a pool the node runs in any case once its wallet is at hand, the interface is served exactly on the
  port that was asked for, and there are as many miners as threads, but none without the option to
  mine.
\<close>
theorem node_start_serves:
  assumes "go_pool a = None"
    and "node_start C J fresh write_ok node shared_work home testnet a fs = (Some tasks, fs')"
  shows "last tasks = Node_Run \<and> Status_Task \<in> set tasks
    \<and> {p. Rpc_Server p \<in> set tasks} = set_option (go_rpc_port a)
    \<and> {i. Solo_Miner i \<in> set tasks} = (if go_mine a then {i. i < go_threads a} else {})"
proof -
  have "tasks = (if go_mine a then solo_tasks (go_threads a) else []) @ service_tasks (go_rpc_port a)"
    using assms by (auto simp: node_start_def Let_def split: option.splits prod.splits if_splits)
  then show ?thesis by (auto simp: service_tasks_set solo_tasks_set)
qed

section \<open>Only one command loses a key\<close>

lemma load_keeps: "fs wp = Some c \<Longrightarrow> snd (load_or_create_wallet C J fresh ok (fs wp)) = Some c"
  by (auto simp: load_or_create_wallet_def split: option.split sum.split)

lemma node_start_keeps:
  assumes "fs (wallet_path home testnet) = Some c"
  shows "snd (node_start C J fresh write_ok node shared_work home testnet a fs) = fs"
  using load_keeps [where fs = fs and C = C and J = J and fresh = fresh and ok = write_ok, OF assms] assms
  by (auto simp: node_start_def Let_def split_def fun_eq_iff split: option.split)

lemma bench_path_other:
  "path_join (path_join (get_data_dir home testnet) ''benchmarks'') name \<noteq> wallet_path home testnet"
  by (simp add: wallet_path_def path_join_def)

text \<open>
  no command but \<open>wallet generate\<close> changes a wallet file that is there, readable or not: not the
  start, not a node with or without a pool, not sending, and not a report under any name.
\<close>
theorem wallet_file_kept:
  assumes "fs (wallet_path (cw_home W) (cl_testnet cli)) = Some c"
    and "cl_command cli \<noteq> Some (Cmd_Wallet Do_Generate)"
    and "cli_main C J S F to_json W cli fs = (r, fs')"
  shows "fs' (wallet_path (cw_home W) (cl_testnet cli)) = Some c"
proof (cases "cl_command cli")
  case None
  then show ?thesis using assms(1,3) by (auto simp: cli_main_def start_command_def Let_def)
next
  case (Some cmd)
  show ?thesis
  proof (cases cmd)
    case (Cmd_Node a)
    then show ?thesis
      using Some assms(1,3) node_start_keeps [where fs = fs and C = C and J = J and fresh = "cw_fresh W" and write_ok = "cw_write_ok W"
        and node = "cw_node W" and shared_work = "cw_work W" and a = a, OF assms(1)]
      by (auto simp: cli_main_def Let_def split: prod.splits option.splits)
  next
    case (Cmd_Wallet act)
    then show ?thesis using Some assms by (cases act) (auto simp: cli_main_def Let_def)
  next
    case (Cmd_Send dest amount)
    then show ?thesis
      using Some assms(1,3) load_keeps [where fs = fs and C = C and J = J and fresh = "cw_fresh W" and ok = "cw_write_ok W", OF assms(1)]
      by (auto simp: cli_main_def send_coins_def Let_def split: prod.splits option.splits)
  next
    case Cmd_Status
    then show ?thesis using Some assms(1,3) by (auto simp: cli_main_def Let_def split: sum.splits)
  next
    case (Cmd_Bench count save)
    then show ?thesis
      using Some assms(1,3) bench_path_other [of "cw_home W" "cl_testnet cli" "cw_bench_name W"]
      by (auto simp: cli_main_def bench_command_def Let_def split: prod.splits option.splits sum.splits if_splits)
  qed
qed

section \<open>The clock of the status line\<close>

text \<open>
  hours, minutes and seconds give the time that has passed back, with less than sixty of the
  latter two.
\<close>
theorem clock_of_bounds:
  "(case clock_of elapsed of (h, m, s) \<Rightarrow>
     unat h * 3600 + unat m * 60 + unat s = unat elapsed \<and> m < 60 \<and> s < 60)"
proof -
  have "unat elapsed mod 3600 mod 60 = unat elapsed mod 60" by (rule mod_mod_cancel) simp
  then have "unat elapsed div 3600 * 3600 + (unat elapsed mod 3600 div 60 * 60 + unat elapsed mod 60) = unat elapsed"
    by (metis div_mult_mod_eq)
  moreover have "unat elapsed mod 3600 div 60 < 60" "unat elapsed mod 60 < 60"
    by (simp_all add: less_mult_imp_div_less)
  ultimately show ?thesis
    by (simp add: clock_of_def unat_div unat_mod word_less_nat_alt)
qed

section \<open>Waiting for the node to be synchronised\<close>

text \<open>What happens to a node that gets no connection.\<close>

fun unconnected :: "sys_event \<Rightarrow> bool" where
  "unconnected (Accept E addr) = False"
| "unconnected (Connect E connected same_ip addr) = (\<not> connected)"
| "unconnected e = True"

definition not_ready :: "'d system \<Rightarrow> bool" where
  "not_ready s \<longleftrightarrow> sy_conns s = Map.empty \<and> \<not> nd_sync_ready (sy_node s)"

lemma submit_sync_ready: "submit_mined_block C S E b st = (r, st', out) \<Longrightarrow> nd_sync_ready st' = nd_sync_ready st"
  by (auto simp: submit_mined_block_def store_caches_def purge_def Let_def
      split: if_splits prod.splits sum.splits fault.splits)

lemma unconnected_step:
  assumes "not_ready s" "unconnected e"
  shows "not_ready (sys_step C S port dns s e)"
proof (cases e)
  case (Connect E connected same_ip addr)
  then show ?thesis using assms
    by (auto simp: not_ready_def opened_def open_outbound_def split: prod.splits bool.splits)
next
  case (Submit E b)
  obtain r st out where s: "submit_mined_block C S E b (sy_node s) = (r, st, out)" by (metis prod_cases3)
  show ?thesis using assms submit_sync_ready [OF s] by (simp add: Submit s not_ready_def)
next
  case (Reconnect E seeds own_ips)
  then show ?thesis using assms
    by (auto simp: not_ready_def reconnect_round_def Let_def split: option.split)
qed (use assms in \<open>auto simp: not_ready_def reap_stale_def\<close>)

lemma unconnected_run:
  "not_ready s \<Longrightarrow> list_all unconnected es \<Longrightarrow> not_ready (foldl (sys_step C S port dns) s es)"
  by (induction es arbitrary: s) (auto simp: unconnected_step)

text \<open>What a miner thread in the node sees of its flag during a run.\<close>

definition seen_ready ::
    "crypto \<Rightarrow> ('d, 'v) storage \<Rightarrow> u16 \<Rightarrow> (string \<Rightarrow> socket_addr list) \<Rightarrow> 'd system \<Rightarrow> sys_event list \<Rightarrow> bool list" where
  "seen_ready C S port dns s es =
     map (\<lambda>k. nd_sync_ready (sy_node (foldl (sys_step C S port dns) s (take k es)))) [0..<Suc (length es)]"

text \<open>
  a node alone never mines: its threads wait for the end of a synchronisation that only the message of a peer
  can start, so before the first connection no thread gets past its wait, however
  long the node runs and whatever blocks are submitted to it.
\<close>
theorem lone_node_never_mines:
  assumes "node_new C S w db legacy data_dir bin_file json_file = Some st" "list_all unconnected es"
  shows "wait_sync (seen_ready C S port dns (fresh_system st) es) = None"
proof -
  have fresh: "not_ready (fresh_system st)"
    using assms(1) by (auto simp: node_new_def node_with_def not_ready_def fresh_system_def Let_def
        split: if_splits option.splits)
  have "not_ready (foldl (sys_step C S port dns) (fresh_system st) (take k es))" for k
  proof (rule unconnected_run [OF fresh])
    show "list_all unconnected (take k es)" using assms(2) by (auto simp: list_all_iff dest: in_set_takeD)
  qed
  then show ?thesis
    by (auto simp: wait_sync_def wait_until_None seen_ready_def not_ready_def)
qed

text \<open>
  one answer is enough: when a peer names a height that the node has reached, and no download is
  going on and no higher block is known, the node is ready afterwards and the threads stop waiting.
\<close>
theorem height_ends_waiting:
  assumes "peer_h \<le> bc_height (nd_chain st)" "nd_max_seen st \<le> bc_height (nd_chain st)" "nd_ibd_peer st = None"
  shows "\<exists>st' cn'. handle_chain_height E peer_h st cn = (Continue, st', cn', [])
    \<and> wait_sync [nd_sync_ready st'] = Some 0"
  using assms by (simp add: handle_chain_height_def Let_def quietly_def wait_sync_def not_less [symmetric] max_def)

section \<open>The commands on a small world\<close>

definition toy_args :: start_args where
  "toy_args = start_args_default\<lparr>go_pool := Some ''http://pool'', go_rpc_port := Some 8082, go_mine := True\<rparr>"

lemma toy_args_tasks:
  "node_start toy_crypto toy_wallet_json \<lparr>wl_signing_key = 9\<rparr> True (Some toy_node) [None, None] None True toy_args Map.empty
    = (Some [Work_Fetcher ''http://pool'' (wallet_address toy_crypto \<lparr>wl_signing_key = 9\<rparr>), Share_Sender ''http://pool''],
       [wallet_path None True \<mapsto> wj_print toy_wallet_json (wallet_to_file toy_crypto \<lparr>wl_signing_key = 9\<rparr>)])"
  using hex_decode_encode [OF toy_hex_ok, of "bytes32 (public_key toy_crypto \<lparr>wl_signing_key = 9\<rparr>)"]
  by (simp add: node_start_def toy_args_def start_args_default_def load_or_create_wallet_def pool_tasks_def
      wait_for_work_def pool_identity_def or_else_def wallet_address_def)

theorem pool_mode_serves_nobody_witness:
  "\<exists>tasks. node_start toy_crypto toy_wallet_json \<lparr>wl_signing_key = 9\<rparr> True (Some toy_node) [None, None] None True
      toy_args Map.empty = (Some tasks, [wallet_path None True \<mapsto>
        wj_print toy_wallet_json (wallet_to_file toy_crypto \<lparr>wl_signing_key = 9\<rparr>)])
    \<and> Rpc_Server 8082 \<notin> set tasks \<and> Node_Run \<notin> set tasks"
  using pool_mode_serves_nobody [OF _ toy_args_tasks, of "''http://pool''"] toy_args_tasks
  by (simp add: toy_args_def)

theorem node_start_serves_witness:
  "\<exists>tasks. fst (node_start toy_crypto toy_wallet_json \<lparr>wl_signing_key = 9\<rparr> True (Some toy_node) [] None True
      (start_args_default\<lparr>go_rpc_port := Some 8082\<rparr>) Map.empty) = Some tasks
    \<and> last tasks = Node_Run \<and> {p. Rpc_Server p \<in> set tasks} = {8082}"
proof -
  let ?a = "start_args_default\<lparr>go_rpc_port := Some 8082\<rparr>"
  have run: "node_start toy_crypto toy_wallet_json \<lparr>wl_signing_key = 9\<rparr> True (Some toy_node) [] None True ?a Map.empty
      = (Some (service_tasks (Some 8082)), Map.empty)"
    by (simp add: node_start_def start_args_default_def Let_def split_def)
  have "go_pool ?a = None" by (simp add: start_args_default_def)
  from node_start_serves [OF this run] show ?thesis unfolding run by (simp add: start_args_default_def)
qed

theorem height_ends_waiting_witness:
  "wait_sync [nd_sync_ready (fst (snd (handle_chain_height toy_env 0 toy_node toy_conn)))] = Some 0"
proof -
  have "\<exists>st' cn'. handle_chain_height toy_env 0 toy_node toy_conn = (Continue, st', cn', [])
    \<and> wait_sync [nd_sync_ready st'] = Some 0"
    by (rule height_ends_waiting) simp_all
  then show ?thesis by auto
qed

theorem lone_node_never_mines_witness:
  "wait_sync (seen_ready toy_crypto toy_storage 8333 (\<lambda>_. [])
     (fresh_system (the (node_new toy_crypto toy_storage \<lparr>wl_signing_key = 3\<rparr> Map.empty None False None None)))
     [Submit toy_env (genesis_block toy_crypto), Reap toy_env]) = None"
  by (rule lone_node_never_mines [OF toy_start]) simp

definition toy_cli_world :: "(int, bytes \<rightharpoonup> stored) cli_world" where
  "toy_cli_world = \<lparr>cw_home = None, cw_fresh = \<lparr>wl_signing_key = 9\<rparr>, cw_write_ok = True, cw_io = good_io,
     cw_config_ok = True, cw_answers = toy_answers, cw_node = Some toy_node, cw_work = [],
     cw_account = None, cw_now_ms = 0, cw_now_secs = 0, cw_live = None,
     cw_node_files = \<lparr>nf_chain_exists = False, nf_ledger_exists = False, nf_db = None, nf_legacy_chain = None,
       nf_ledger = None, nf_legacy_ledger = None\<rparr>,
     cw_bench = toy_world, cw_bench_name = ''results.json''\<rparr>"

theorem wallet_file_kept_witness:
  "snd (cli_main toy_crypto toy_wallet_json toy_storage int_floats (\<lambda>_. None) toy_cli_world
      \<lparr>cl_testnet = True, cl_command = Some (Cmd_Send ''tar1'' 5)\<rparr> [wallet_path None True \<mapsto> ''broken''])
     (wallet_path None True) = Some ''broken''"
  using wallet_file_kept [of "[wallet_path None True \<mapsto> ''broken'']" toy_cli_world
      "\<lparr>cl_testnet = True, cl_command = Some (Cmd_Send ''tar1'' (5 :: int))\<rparr>" "''broken''",
      OF _ _ prod.collapse [symmetric]]
  by (simp add: toy_cli_world_def)

end
