(* ===== verification/Node_Start.thy ===== *)
theory Node_Start
  imports Cli_Commands Decimal
begin

text \<open>
  What a node does before its first message and when it is stopped: the addresses it takes for its
  own and the peers it dials (node/src/node.rs, \<open>run\<close>), and how the ledger gets into its file
  (core/src/ledger.rs, \<open>save\<close>), with a crash at any moment of it. A disk is a map from paths to contents.
\<close>

section \<open>Dialling\<close>

text \<open>
  The output of \<open>hostname -I\<close> is \<open>None\<close> when the command fails or prints no text; reading an address
  is a parameter. The loopback addresses are always the node's own.
\<close>

definition own_ips :: "(bytes \<Rightarrow> ip_addr option) \<Rightarrow> bytes option \<Rightarrow> ip_addr set" where
  "own_ips parse_ip hostname_output =
     {IPv4 0x7F000001, IPv6 1}
     \<union> (case hostname_output of None \<Rightarrow> {}
        | Some s \<Rightarrow> set (List.map_filter parse_ip (split_whitespace s)))"

text \<open>One task for each seed.\<close>

definition dial_seeds ::
    "(bytes \<Rightarrow> ip_addr option) \<Rightarrow> bytes option \<Rightarrow> (string \<Rightarrow> socket_addr list) \<Rightarrow> node_config \<Rightarrow> socket_addr list" where
  "dial_seeds parse_ip hostname_output dns cfg =
     startup_seeds dns (nc_seed_nodes cfg) (own_ips parse_ip hostname_output) (nc_listen_port cfg)"

text \<open>
  A round of the reconnection task starts one task for each candidate, as long as there is room: the tables are those
  it finds before each of them, since the tasks already started fill it.
\<close>

fun try_candidates :: "(socket_addr \<times> peer_manager) list \<Rightarrow> socket_addr list" where
  "try_candidates [] = []"
| "try_candidates ((candidate, pm) # cs) =
     (if can_accept pm Outbound then candidate # try_candidates cs else [])"

lemma try_candidates_subset: "set (try_candidates cs) \<subseteq> fst ` set cs"
  by (induction cs rule: try_candidates.induct) auto

lemma round_not_own:
  "reconnect_round E dns seeds ips port st = Some (xs, st') \<Longrightarrow> a \<in> set xs \<Longrightarrow> sa_port a = port \<Longrightarrow> sa_ip a \<notin> ips"
  by (auto simp: reconnect_round_def Let_def split: if_splits)

text \<open>
  a node never dials itself: no address it tries at the start or in a later round has one of its own addresses
  and the port it listens on; the loopback addresses are among its own whatever the host
  answers, and so is every address of the answer that can be read.
\<close>
theorem never_dials_itself:
  assumes "a \<in> set (dial_seeds parse_ip out dns cfg)
      \<or> reconnect_round E dns (nc_seed_nodes cfg) (own_ips parse_ip out) (nc_listen_port cfg) st = Some (map fst cs, st')
        \<and> a \<in> set (try_candidates cs)"
    and "sa_port a = nc_listen_port cfg"
  shows "sa_ip a \<noteq> IPv4 0x7F000001 \<and> sa_ip a \<noteq> IPv6 1
    \<and> (\<forall>s w. out = Some s \<longrightarrow> w \<in> set (split_whitespace s) \<longrightarrow> parse_ip w \<noteq> Some (sa_ip a))"
proof -
  have "sa_ip a \<notin> own_ips parse_ip out"
    using assms(1)
  proof
    assume "a \<in> set (dial_seeds parse_ip out dns cfg)"
    then show ?thesis using assms(2) by (auto simp: dial_seeds_def startup_seeds_def)
  next
    assume r: "reconnect_round E dns (nc_seed_nodes cfg) (own_ips parse_ip out) (nc_listen_port cfg) st
        = Some (map fst cs, st') \<and> a \<in> set (try_candidates cs)"
    then have "a \<in> set (map fst cs)" using try_candidates_subset [of cs] by auto
    with r show ?thesis using round_not_own assms(2) by blast
  qed
  then show ?thesis by (force simp: own_ips_def map_filter_def)
qed

section \<open>The ledger file\<close>

type_synonym 'v disk = "string \<Rightarrow> 'v list option"

record 'v ledger_codec =
  lk_encode :: "ledger \<Rightarrow> 'v list"
  lk_decode :: "'v list \<Rightarrow> ledger option"

definition ledger_codec_ok :: "'v ledger_codec \<Rightarrow> bool" where
  "ledger_codec_ok K \<longleftrightarrow> (\<forall>L. lk_decode K (lk_encode K L) = Some L)"

text \<open>\<open>Path::with_extension\<close>: what follows the last dot of the file name is replaced.\<close>

definition with_extension :: "string \<Rightarrow> string \<Rightarrow> string" where
  "with_extension p ext =
     (let rest = dropWhile (\<lambda>c. c \<noteq> CHR ''.'' \<and> c \<noteq> CHR ''/'') (rev p) in
      (if rest = [] \<or> hd rest = CHR ''/'' \<or> tl rest = [] \<or> hd (tl rest) = CHR ''/''
       then p else rev (tl rest)) @ CHR ''.'' # ext)"

definition ledger_path :: "string \<Rightarrow> string" where
  "ledger_path dir = path_join dir ''ledger.bin''"

text \<open>
  The disk before the call, while the temporary file is written, and after it has been renamed. A
  crash leaves one of these.
\<close>

definition ledger_save_stages :: "'v ledger_codec \<Rightarrow> string \<Rightarrow> ledger \<Rightarrow> 'v disk \<Rightarrow> 'v disk list" where
  "ledger_save_stages K path L disk =
     (let data = lk_encode K L; tmp = with_extension path ''bin.tmp'' in
      disk # map (\<lambda>k. disk(tmp \<mapsto> take k data)) [0..<Suc (length data)]
        @ [disk(tmp := None, path \<mapsto> data)])"

definition ledger_save :: "'v ledger_codec \<Rightarrow> string \<Rightarrow> ledger \<Rightarrow> 'v disk \<Rightarrow> 'v disk" where
  "ledger_save K path L disk = last (ledger_save_stages K path L disk)"

text \<open>The file as \<open>load_or_create_testnet\<close> reads it.\<close>

definition ledger_file :: "'v ledger_codec \<Rightarrow> string \<Rightarrow> 'v disk \<Rightarrow> ledger option" where
  "ledger_file K path disk = Option.bind (disk path) (lk_decode K)"

lemma ledger_tmp: "with_extension (ledger_path dir) ''bin.tmp'' = ledger_path dir @ ''.tmp''"
  by (simp add: with_extension_def ledger_path_def path_join_def Let_def)

lemma stages_before:
  assumes "d \<in> set (butlast (ledger_save_stages K (ledger_path dir) L disk))"
  shows "ledger_file K (ledger_path dir) d = ledger_file K (ledger_path dir) disk"
  using assms
  by (auto simp: ledger_save_stages_def Let_def butlast_append ledger_file_def ledger_tmp simp del: upt_Suc)

text \<open>
  a crash never leaves half a ledger: whenever the node stops while it saves, the file holds the ledger
  that was there before, and once the call has returned the one that was saved.
\<close>
theorem ledger_save_atomic:
  assumes "ledger_codec_ok K"
  shows "(\<forall>d \<in> set (butlast (ledger_save_stages K (ledger_path dir) L disk)).
      ledger_file K (ledger_path dir) d = ledger_file K (ledger_path dir) disk)
    \<and> ledger_file K (ledger_path dir) (ledger_save K (ledger_path dir) L disk) = Some L"
proof
  show "\<forall>d \<in> set (butlast (ledger_save_stages K (ledger_path dir) L disk)).
      ledger_file K (ledger_path dir) d = ledger_file K (ledger_path dir) disk"
    using stages_before by blast
  show "ledger_file K (ledger_path dir) (ledger_save K (ledger_path dir) L disk) = Some L"
    using assms by (simp add: ledger_save_def ledger_save_stages_def Let_def ledger_file_def ledger_codec_ok_def
        del: upt_Suc)
qed

lemma submit_applies:
  assumes "submit_mined_block C S E b st = (Inr True, st', out)"
  shows "apply_block C S (ev_unix_ms E) (nd_chain st) b (nd_ledger st) = (Inr (), nd_chain st', nd_ledger st')"
proof -
  obtain r c L where ap: "apply_block C S (ev_unix_ms E) (nd_chain st) b (nd_ledger st) = (r, c, L)"
    by (metis prod_cases3)
  have i: "blk_index b = nd_chain_height st + 1"
    using assms by (auto simp: submit_mined_block_def split: if_splits)
  show ?thesis
  proof (cases r)
    case (Inr u)
    then show ?thesis using assms ap i
      by (auto simp: submit_mined_block_def store_caches_def purge_def Let_def)
  next
    case (Inl e)
    then show ?thesis using assms ap i by (cases e) (auto simp: submit_mined_block_def)
  qed
qed

text \<open>
  C14: chain and ledger are not saved together: the store has a block as soon as it is applied, the
  ledger file only after \<open>save_state\<close>. When the node stops in between, it comes back with the block
  at its tip and with the ledger from before the block; since there is a ledger file, nothing is
  rebuilt, and the reward and the transfers of the block are lost for good.
\<close>
theorem crash_loses_reward:
  assumes S: "storage_ok S" and good: "chain_good C S (Suc n) (nd_chain st)"
    and run: "submit_mined_block C S E b st = (Inr True, st', out)"
    and "ledger_file K (ledger_path dir) disk = Some (nd_ledger st)"
    and "d \<in> set (butlast (ledger_save_stages K (ledger_path dir) (nd_ledger st') disk))"
    and ch: "ch = load_or_create C S (db_put S (bc_db (nd_chain st')) KEY_DIFF v) None TESTNET_DIFFICULTY"
  shows "chain_tip S ch = Some b
    \<and> fst (load_or_create_testnet C S (ledger_file K (ledger_path dir) d) json_file ch) = nd_ledger st
    \<and> apply_txs (apply_tx C) (blk_transactions b) (apply_coinbase C (nd_ledger st) (blk_miner b) TESTNET_REWARD)
        = (Inr (), nd_ledger st')"
proof -
  note ap = submit_applies [OF run]
  obtain bs where bs: "chain_rep S (nd_chain st) bs" "length bs + Suc n < 2 ^ 64"
    using good unfolding chain_good_def by blast
  have room: "length bs + 1 < 2 ^ 64" using bs(2) by linarith
  note spec = apply_block_refines [OF S bs(1) room ap]
  then obtain bs' M where p: "chain_append C (apply_tx C) (timely (ev_unix_ms E)) (bs, nd_ledger st) b = Some (bs', M)"
    by (cases "chain_append C (apply_tx C) (timely (ev_unix_ms E)) (bs, nd_ledger st) b") auto
  have "chain_rep S (nd_chain st') (bs @ [b])"
    using spec chain_append_shape [OF p] unfolding p by simp
  then have "chain_rep S ch (bs @ [b])"
    using reload_rep [OF S, of "nd_chain st'" "bs @ [b]" C v None TESTNET_DIFFICULTY] by (simp add: ch)
  from chain_rep_tip [OF this] have "chain_tip S ch = Some b" by simp
  moreover have "ledger_file K (ledger_path dir) d = Some (nd_ledger st)"
    using stages_before [OF assms(5)] assms(4) by simp
  moreover have "apply_txs (apply_tx C) (blk_transactions b)
      (apply_coinbase C (nd_ledger st) (blk_miner b) TESTNET_REWARD) = (Inr (), nd_ledger st')"
    using ap by (auto simp: apply_block_def Let_def split: if_splits option.splits prod.splits sum.splits)
  ultimately show ?thesis by (simp add: load_or_create_testnet_def)
qed

section \<open>On a small node\<close>

text \<open>A file of one entry that holds the ledger.\<close>

definition toy_ledger_codec :: "ledger ledger_codec" where
  "toy_ledger_codec = \<lparr>lk_encode = (\<lambda>L. [L]), lk_decode = (\<lambda>c. if length c = 1 then Some (hd c) else None)\<rparr>"

lemma toy_ledger_codec_ok: "ledger_codec_ok toy_ledger_codec"
  by (simp add: ledger_codec_ok_def toy_ledger_codec_def)

theorem never_dials_itself_witness:
  "toy_peer \<in> set (dial_seeds (\<lambda>_. None) (Some [49]) (\<lambda>_. [])
       \<lparr>nc_listen_port = 8333, nc_seed_nodes = [\<lparr>sa_ip = IPv4 0x7F000001, sa_port = 8333\<rparr>, toy_peer],
        nc_enable_discovery = False, nc_data_dir = None\<rparr>)
   \<and> sa_ip toy_peer \<noteq> IPv4 0x7F000001"
proof -
  let ?cfg = "\<lparr>nc_listen_port = 8333, nc_seed_nodes = [\<lparr>sa_ip = IPv4 0x7F000001, sa_port = 8333\<rparr>, toy_peer],
        nc_enable_discovery = False, nc_data_dir = None\<rparr>"
  have "toy_peer \<in> set (dial_seeds (\<lambda>_. None) (Some [49]) (\<lambda>_. []) ?cfg)"
    by (simp add: dial_seeds_def startup_seeds_def resolve_seeds_def own_ips_def toy_peer_def map_filter_def)
  then show ?thesis
    using never_dials_itself [of toy_peer "\<lambda>_. None" "Some [49]" "\<lambda>_. []" ?cfg]
    by (simp add: toy_peer_def)
qed

theorem ledger_save_atomic_witness:
  "ledger_file toy_ledger_codec (ledger_path ''d'')
     (ledger_save toy_ledger_codec (ledger_path ''d'') toy_ledger Map.empty) = Some toy_ledger"
  using ledger_save_atomic [OF toy_ledger_codec_ok] by blast

theorem crash_loses_reward_witness:
  "\<exists>st'. (\<exists>out. submit_mined_block toy_crypto toy_storage toy_env toy_b1 toy_node = (Inr True, st', out))
    \<and> fst (load_or_create_testnet toy_crypto toy_storage
        (ledger_file toy_ledger_codec (ledger_path ''d'') [ledger_path ''d'' \<mapsto> [toy_ledger]]) None
        (load_or_create toy_crypto toy_storage
          (db_put toy_storage (bc_db (nd_chain st')) KEY_DIFF (RawVal [1])) None TESTNET_DIFFICULTY)) = toy_ledger"
proof -
  obtain ch1 L1 where run: "apply_block toy_crypto toy_storage 1772975700000 toy_chain toy_b1 toy_ledger = (Inr (), ch1, L1)"
    by (rule toy_run_b1)
  have "blk_index toy_b1 = 1" by (simp add: toy_b1_def)
  then obtain st' out where sub: "submit_mined_block toy_crypto toy_storage toy_env toy_b1 toy_node = (Inr True, st', out)"
    using run by (simp add: submit_mined_block_def Let_def)
  have good: "chain_good toy_crypto toy_storage (Suc 0) (nd_chain toy_node)"
    using toy_chain_rep valid_chain_genesis unfolding chain_good_def
    by (intro exI [of _ "[genesis_block toy_crypto]"]) simp
  have kept: "ledger_file toy_ledger_codec (ledger_path ''d'') [ledger_path ''d'' \<mapsto> [toy_ledger]] = Some (nd_ledger toy_node)"
    by (simp add: ledger_file_def toy_ledger_codec_def)
  have "[ledger_path ''d'' \<mapsto> [toy_ledger]] \<in> set (butlast (ledger_save_stages toy_ledger_codec (ledger_path ''d'')
      (nd_ledger st') [ledger_path ''d'' \<mapsto> [toy_ledger]]))"
    by (simp add: ledger_save_stages_def Let_def del: upt_Suc)
  note lost = crash_loses_reward [OF toy_storage_ok good sub kept this refl, of "RawVal [1]" None]
  show ?thesis
    by (intro exI [of _ st'] conjI exI [of _ out] sub) (use conjunct1 [OF conjunct2 [OF lost]] in \<open>simp only: toy_node_simps\<close>)
qed

end
