(* ===== verification/Tui.thy ===== *)
theory Tui
  imports Burst Decimal
begin

text \<open>
  The terminal interface of the miner (cli/src/miner_tui.rs): its state, the keys, the lines it
  draws and how it measures them. Text is a list of code points. How a number with a fraction is
  printed, the parameter bytes of a style, the size of the terminal, the clock, the keyboard and the
  files of the thermal zones are arguments; the terminal library itself is left out.
\<close>

section \<open>Text\<close>

type_synonym utext = "nat list"

definition lit :: "string \<Rightarrow> utext" where "lit s = map of_char s"

definition u_dec :: "nat \<Rightarrow> utext" where "u_dec n = map unat (dec_digits n)"

definition spaces :: "nat \<Rightarrow> utext" where "spaces n = replicate n 32"

text \<open>The paddings of \<open>format!\<close>: \<open>{:<w}\<close> and \<open>{:w}\<close> of a number.\<close>

definition pad_right :: "nat \<Rightarrow> utext \<Rightarrow> utext" where "pad_right w t = t @ spaces (w - length t)"
definition pad_left :: "nat \<Rightarrow> utext \<Rightarrow> utext" where "pad_left w t = spaces (w - length t) @ t"
definition two_digits :: "nat \<Rightarrow> utext" where
  "two_digits n = (if n < 10 then 48 # u_dec n else u_dec n)"

definition shorten :: "utext \<Rightarrow> nat \<Rightarrow> utext" where
  "shorten s n = (if length s > n then take n s @ [0x2026] else s)"

definition truncate_text :: "utext \<Rightarrow> nat \<Rightarrow> utext" where
  "truncate_text s n = (if length s > n then take n s else s)"

text \<open>\<open>fm n x\<close> prints \<open>x\<close> with \<open>n\<close> digits of fraction.\<close>

type_synonym 'f formats = "nat \<Rightarrow> 'f \<Rightarrow> utext"

definition at_least :: "'f floats \<Rightarrow> 'f \<Rightarrow> 'f \<Rightarrow> bool" where
  "at_least F x y \<longleftrightarrow> f_less F y x \<or> f_eq F x y"

definition fmt_hr :: "'f floats \<Rightarrow> 'f \<Rightarrow> 'f \<times> utext" where
  "fmt_hr F h =
     (if at_least F h (f_lit F 1000000 0) then (f_div F h (f_lit F 1000000 0), lit ''MH/s'')
      else if at_least F h (f_lit F 1000 0) then (f_div F h (f_lit F 1000 0), lit ''kH/s'')
      else (h, lit '' H/s''))"

definition fmt_count :: "'f floats \<Rightarrow> 'f formats \<Rightarrow> u64 \<Rightarrow> utext" where
  "fmt_count F fm n =
     (if n \<ge> 1000000 then fm 1 (f_div F (f_u64 F n) (f_lit F 1000000 0)) @ lit ''M''
      else if n \<ge> 1000 then fm 1 (f_div F (f_u64 F n) (f_lit F 1000 0)) @ lit ''k''
      else u_dec (unat n))"

section \<open>The state\<close>

text \<open>Counters and flags are shared with the miner threads; times are nanoseconds.\<close>

record 'f miner_solution =
  sn_number :: u64
  sn_nonce :: u64
  sn_hash_prefix :: utext
  sn_reward_tar :: 'f
  sn_balance_tar :: 'f
  sn_thread_id :: u32

record 'f miner_tui =
  tu_total_hashes :: u64
  tu_solutions :: u64
  tu_running :: bool
  tu_paused :: bool
  tu_threads :: u32
  tu_difficulty :: u32
  tu_start_time :: nat
  tu_solution_log :: "'f miner_solution list"
  tu_wallet_address :: utext
  tu_testnet :: bool

definition miner_tui_new ::
    "nat \<Rightarrow> u64 \<Rightarrow> u64 \<Rightarrow> bool \<Rightarrow> u32 \<Rightarrow> u32 \<Rightarrow> utext \<Rightarrow> bool \<Rightarrow> 'f miner_solution list \<Rightarrow> 'f miner_tui" where
  "miner_tui_new now total_hashes solutions running threads difficulty wallet_address testnet solution_log =
     \<lparr>tu_total_hashes = total_hashes, tu_solutions = solutions, tu_running = running, tu_paused = False,
      tu_threads = threads, tu_difficulty = difficulty, tu_start_time = now,
      tu_solution_log = solution_log, tu_wallet_address = wallet_address, tu_testnet = testnet\<rparr>"

definition tui_uptime :: "nat \<Rightarrow> 'f miner_tui \<Rightarrow> utext" where
  "tui_uptime now s =
     (let t = (now - tu_start_time s) div 10 ^ 9; h = t div 3600; m = t mod 3600 div 60; sec = t mod 60 in
      if h > 0 then two_digits h @ lit '':'' @ two_digits m @ lit '':'' @ two_digits sec
      else two_digits m @ lit '':'' @ two_digits sec)"

definition tui_hashrate :: "'f floats \<Rightarrow> nat \<Rightarrow> 'f miner_tui \<Rightarrow> 'f" where
  "tui_hashrate F now s =
     (let h = tu_total_hashes s; e = as_secs F (now - tu_start_time s) in
      if f_less F (f_zero F) e then f_div F (f_u64 F h) e else f_zero F)"

section \<open>Keys\<close>

datatype key_code = Key_Char nat | Key_Esc | Key_Other

record key_event =
  ke_press :: bool
  ke_ctrl :: bool
  ke_code :: key_code

text \<open>A press of a key: whether it ends the loop, and the flags.\<close>

definition key_quits :: "bool \<Rightarrow> key_code \<Rightarrow> bool" where
  "key_quits ctrl code \<longleftrightarrow> (case code of
     Key_Char c \<Rightarrow> c = of_char CHR ''c'' \<and> ctrl \<or> c = of_char CHR ''q'' \<or> c = of_char CHR ''Q''
   | Key_Esc \<Rightarrow> True
   | Key_Other \<Rightarrow> False)"

definition key_pauses :: "key_code \<Rightarrow> bool" where
  "key_pauses code \<longleftrightarrow> code = Key_Char (of_char CHR ''p'') \<or> code = Key_Char (of_char CHR ''P'')"

definition tui_key :: "key_event \<Rightarrow> 'f miner_tui \<Rightarrow> bool \<times> 'f miner_tui" where
  "tui_key k s =
     (if \<not> ke_press k then (False, s)
      else if key_quits (ke_ctrl k) (ke_code k) then (True, s\<lparr>tu_running := False\<rparr>)
      else if key_pauses (ke_code k) then (False, s\<lparr>tu_paused := \<not> tu_paused s\<rparr>)
      else (False, s))"

text \<open>
  One turn of the loop: whether drawing worked, what the keyboard gave within the quarter of a
  second (\<open>Tui_Failed\<close> is an error of the terminal), and whether someone else stopped the miner
  meanwhile.
\<close>

datatype tui_poll = Tui_Nothing | Tui_Key key_event | Tui_Event | Tui_Failed

type_synonym tui_turn = "bool \<times> tui_poll \<times> bool"

datatype tui_result = Tui_Ok | Tui_Error

fun tui_loop :: "tui_turn list \<Rightarrow> 'f miner_tui \<Rightarrow> tui_result option \<times> 'f miner_tui" where
  "tui_loop [] s = (None, s)"
| "tui_loop ((drawn, poll, stopped) # turns) s =
     (if \<not> drawn \<or> poll = Tui_Failed then (Some Tui_Error, s)
      else
        let (quit, s) = (case poll of Tui_Key k \<Rightarrow> tui_key k s | _ \<Rightarrow> (False, s)) in
        if quit then (Some Tui_Ok, s)
        else let s = (if stopped then s\<lparr>tu_running := False\<rparr> else s) in
             if \<not> tu_running s then (Some Tui_Ok, s) else tui_loop turns s)"

text \<open>
  The terminal around the loop: the answers of its calls in their order, the result, and the raw
  mode it is left in.
\<close>

record terminal_calls =
  tc_enable :: bool
  tc_hide :: bool
  tc_clear :: bool
  tc_show :: bool
  tc_disable :: bool

definition run_miner_tui ::
    "terminal_calls \<Rightarrow> tui_turn list \<Rightarrow> bool \<times> 'f miner_tui \<Rightarrow> tui_result option \<times> bool \<times> 'f miner_tui" where
  "run_miner_tui t turns = (\<lambda>(raw, s).
     if \<not> tc_enable t then (Some Tui_Error, raw, s)
     else if \<not> tc_hide t \<or> \<not> tc_clear t then (Some Tui_Error, True, s)
     else case tui_loop turns s of
       (None, s) \<Rightarrow> (None, True, s)
     | (Some res, s) \<Rightarrow>
         if \<not> tc_show t \<or> \<not> tc_disable t then (Some Tui_Error, True, s) else (Some res, False, s))"

section \<open>What is drawn\<close>

text \<open>A line is a sequence of characters and changes of style; its bytes are what \<open>build_colored\<close> collects.\<close>

datatype colour = White | Grey | Dark_Grey | Red | Dark_Yellow

datatype style = Fg colour | Bold | Reset | Reset_Colour

datatype cell = Glyph nat | Style style

definition C_TITLE :: colour where "C_TITLE = White"
definition C_ACCENT :: colour where "C_ACCENT = Grey"
definition C_PLAY :: colour where "C_PLAY = White"
definition C_DIM :: colour where "C_DIM = Dark_Grey"
definition C_TEXT :: colour where "C_TEXT = Grey"
definition C_BAR :: colour where "C_BAR = Grey"
definition C_ERR :: colour where "C_ERR = Dark_Grey"

definition PAD_H :: nat where "PAD_H = 3"

definition print :: "utext \<Rightarrow> cell list" where "print t = map Glyph t"

definition utf8 :: "nat \<Rightarrow> bytes" where
  "utf8 c =
     (if c < 0x80 then [of_nat c]
      else if c < 0x800 then [of_nat (0xC0 + c div 0x40), of_nat (0x80 + c mod 0x40)]
      else if c < 0x10000 then [of_nat (0xE0 + c div 0x1000), of_nat (0x80 + c div 0x40 mod 0x40), of_nat (0x80 + c mod 0x40)]
      else [of_nat (0xF0 + c div 0x40000), of_nat (0x80 + c div 0x1000 mod 0x40),
            of_nat (0x80 + c div 0x40 mod 0x40), of_nat (0x80 + c mod 0x40)])"

fun cell_bytes :: "(style \<Rightarrow> bytes) \<Rightarrow> cell \<Rightarrow> bytes" where
  "cell_bytes sgr (Glyph c) = utf8 c"
| "cell_bytes sgr (Style st) = [0x1B, 0x5B] @ sgr st @ [0x6D]"

definition build_colored :: "(style \<Rightarrow> bytes) \<Rightarrow> cell list \<Rightarrow> bytes" where
  "build_colored sgr cells = concat (map (cell_bytes sgr) cells)"

lemma drop_until_shorter: "length (drop 1 (dropWhile p xs)) \<le> length xs"
  using length_dropWhile_le [of p xs] by simp

text \<open>The index of the loop is the suffix that is left; an index past the end is the empty one.\<close>

function strip_ansi_len :: "bytes \<Rightarrow> nat" where
  "strip_ansi_len [] = 0"
| "strip_ansi_len (b # bs) =
     (if b = 0x1B \<and> bs \<noteq> [] \<and> hd bs = 0x5B
      then strip_ansi_len (drop 1 (dropWhile (\<lambda>c. c \<noteq> 0x6D) (tl bs)))
      else if and b 0x80 = 0 then 1 + strip_ansi_len bs
      else if and b 0xE0 = 0xC0 then 1 + strip_ansi_len (drop 1 bs)
      else if and b 0xF0 = 0xE0 then 1 + strip_ansi_len (drop 2 bs)
      else 1 + strip_ansi_len (drop 3 bs))"
  by pat_completeness auto

termination
proof (relation "measure length", goal_cases)
  case (2 b bs)
  then show ?case using drop_until_shorter [of "\<lambda>c. c \<noteq> 0x6D" "tl bs"] by simp
qed simp_all

declare strip_ansi_len.simps(2) [simp del]

text \<open>The width of the frame inside a terminal, and the rows left for solutions.\<close>

definition frame_width :: "nat \<Rightarrow> nat" where "frame_width cols = max 80 (min 200 (cols - 2))"
definition inner_width :: "nat \<Rightarrow> nat" where "inner_width cols = frame_width cols - PAD_H * 2"
definition solution_rows :: "nat \<Rightarrow> nat" where "solution_rows rows = max 2 (rows - 14)"

definition wline :: "(style \<Rightarrow> bytes) \<Rightarrow> nat \<Rightarrow> cell list \<Rightarrow> cell list" where
  "wline sgr frame_w content =
     (let visible = strip_ansi_len (build_colored sgr content) in
      print (spaces PAD_H) @ content @ print (spaces (frame_w - (PAD_H + visible + PAD_H))) @ print (spaces PAD_H))"

text \<open>The temperature of the first zone that gives a plausible one.\<close>

definition parse_i64 :: "bytes \<Rightarrow> int option" where
  "parse_i64 s = (case s of
     [] \<Rightarrow> None
   | c # cs \<Rightarrow>
       if c = 45 then (if cs = [] then None
         else map_option (\<lambda>n. - int n) (parse_digits (2 ^ 63 + 1) 0 cs))
       else map_option int (parse_unsigned (2 ^ 63) s))"

definition zone_celsius :: "'f floats \<Rightarrow> bytes option \<Rightarrow> 'f option" where
  "zone_celsius F raw = (case raw of
     None \<Rightarrow> None
   | Some raw \<Rightarrow>
       (case parse_i64 (trim_ascii raw) of
          None \<Rightarrow> None
        | Some millideg \<Rightarrow>
            let celsius = f_div F (f_of_int F millideg) (f_lit F 1000 0) in
            if f_less F (f_zero F) celsius \<and> f_less F celsius (f_lit F 120 0) then Some celsius else None))"

fun first_zone :: "'f floats \<Rightarrow> (nat \<Rightarrow> bytes option) \<Rightarrow> nat list \<Rightarrow> 'f option" where
  "first_zone F files [] = None"
| "first_zone F files (i # zs) =
     (case zone_celsius F (files i) of Some c \<Rightarrow> Some c | None \<Rightarrow> first_zone F files zs)"

definition read_cpu_temp :: "'f floats \<Rightarrow> (nat \<Rightarrow> bytes option) \<Rightarrow> 'f option" where
  "read_cpu_temp F files = first_zone F files [0..<8]"

section \<open>The lines\<close>

definition title_line :: "cell list" where
  "title_line = [Style (Fg C_TITLE), Style Bold] @ print (lit ''T A R O N  M I N E R'')
     @ [Style Reset, Style Reset_Colour]"

definition address_line :: "nat \<Rightarrow> nat \<Rightarrow> 'f miner_tui \<Rightarrow> cell list" where
  "address_line inner_w now s =
     (let paused = tu_paused s;
          addr = shorten (tu_wallet_address s) 16;
          status = (if paused then 0x23F8 # lit '' Paused'' else 0x25B6 # lit '' Mining'');
          left = 0x26CF # lit ''  testnet  '' @ 0xB7 # lit ''  '' @ addr;
          right = tui_uptime now s @ lit ''  '' @ status;
          gap = inner_w - (length left + length right);
          sc = (if paused then C_ERR else C_PLAY)
      in Style (Fg C_DIM) # print left @ print (spaces gap) @ [Style (Fg sc), Style Bold] @ print right
           @ [Style Reset, Style Reset_Colour])"

definition rate_line :: "'f floats \<Rightarrow> 'f formats \<Rightarrow> 'f \<Rightarrow> cell list" where
  "rate_line F fm hashrate = (let (v, u) = fmt_hr F hashrate in
     [Style (Fg C_ACCENT), Style Bold] @ print (fm 2 v @ lit '' '' @ u) @ [Style Reset, Style Reset_Colour])"

definition stats_line :: "'f floats \<Rightarrow> 'f formats \<Rightarrow> 'f \<Rightarrow> 'f option \<Rightarrow> 'f miner_tui \<Rightarrow> cell list" where
  "stats_line F fm hashrate temp_opt s =
     (let watts = f_min F (f_mul F (f_of_int F (uint (tu_threads s))) (f_lit F 8 0)) (f_lit F 65 0);
          hpw = (if f_less F (f_zero F) watts then f_div F hashrate watts else f_zero F);
          hpw_str = (if at_least F hpw (f_lit F 1000 0)
                     then fm 1 (f_div F hpw (f_lit F 1000 0)) @ lit '' kH/W'' else fm 0 hpw @ lit '' H/W'');
          dot = lit ''  '' @ 0xB7 # lit ''  ''
      in Style (Fg C_DIM) # print (u_dec (unat (tu_threads s)) @ lit '' threads'' @ dot
             @ u_dec (unat (tu_solutions s)) @ lit '' solutions'' @ dot @ fm 0 watts @ lit '' W'' @ dot @ hpw_str)
         @ (case temp_opt of None \<Rightarrow> []
            | Some temp \<Rightarrow>
                let temp_color = (if at_least F temp (f_lit F 80 0) then Red
                      else if at_least F temp (f_lit F 65 0) then Dark_Yellow else C_DIM) in
                Style (Fg C_DIM) # print dot @ Style (Fg temp_color)
                  # print (fm 0 temp @ 0xB0 # lit ''C'') @ [Style Reset_Colour])
         @ [Style Reset_Colour])"

text \<open>The bar: the filled part, a dot, the rest and the percentage.\<close>

definition bar_percent :: "'f floats \<Rightarrow> nat \<Rightarrow> 'f miner_tui \<Rightarrow> 'f" where
  "bar_percent F now s =
     (let theoretical = f_mul F (f_of_int F (uint (tu_threads s))) (as_secs F (now - tu_start_time s)) in
      if f_less F (f_zero F) theoretical
      then f_min F (f_div F (f_u64 F (tu_total_hashes s)) theoretical) (f_lit F 1 0) else f_zero F)"

definition bar_line :: "'f floats \<Rightarrow> 'f formats \<Rightarrow> nat \<Rightarrow> nat \<Rightarrow> 'f miner_tui \<Rightarrow> cell list" where
  "bar_line F fm inner_w now s =
     (let pct = bar_percent F now s;
          bw = inner_w - 7;
          fill = unat (f_to_u64 F (f_mul F pct (f_nat F bw)));
          rest = bw - fill
      in Style (Fg C_BAR) # print (replicate fill 0x2501) @ print [0x25CF] @ Style (Fg C_DIM)
           # print (replicate rest 0x2501)
           @ print (lit ''  '' @ pad_left 3 (fm 0 (f_mul F pct (f_lit F 100 0))) @ lit ''%'') @ [Style Reset_Colour])"

definition count_line :: "'f floats \<Rightarrow> 'f formats \<Rightarrow> 'f miner_tui \<Rightarrow> cell list" where
  "count_line F fm s =
     [Style (Fg C_TEXT), Style Bold] @ print (lit ''HASHES '') @ [Style Reset, Style (Fg C_ACCENT)]
       @ print (pad_right 10 (fmt_count F fm (tu_total_hashes s))) @ [Style (Fg C_TEXT), Style Bold]
       @ print (lit ''  DIFF '') @ [Style Reset, Style (Fg C_DIM)]
       @ print (u_dec (unat (tu_difficulty s)) @ lit '' bits'') @ [Style Reset_Colour]"

definition solutions_title :: "nat \<Rightarrow> cell list" where
  "solutions_title inner_w =
     (let label = [0x2500, 0x2500] @ lit '' Solutions '' in
      Style (Fg C_DIM) # print label @ print (replicate (inner_w - length label) 0x2500) @ [Style Reset_Colour])"

definition solution_text :: "'f formats \<Rightarrow> bool \<Rightarrow> 'f miner_solution \<Rightarrow> utext" where
  "solution_text fm latest sol =
     (if latest then [0x25B6] else lit '' '') @ lit '' #'' @ pad_right 3 (u_dec (unat (sn_number sol)))
       @ lit ''   nonce: '' @ pad_right 12 (u_dec (unat (sn_nonce sol))) @ lit ''   hash: ''
       @ sn_hash_prefix sol @ 0x2026 # lit ''   +'' @ fm 2 (sn_reward_tar sol) @ lit '' TAR   t''
       @ u_dec (unat (sn_thread_id sol))"

definition solution_line :: "'f formats \<Rightarrow> nat \<Rightarrow> nat \<Rightarrow> 'f miner_solution \<Rightarrow> cell list" where
  "solution_line fm inner_w n sol =
     (let latest = sn_number sol = of_nat n;
          trimmed = truncate_text (solution_text fm latest sol) inner_w;
          clr = (if latest then C_PLAY else C_DIM)
      in (if latest then [Style Bold] else []) @ Style (Fg clr) # print trimmed @ [Style Reset, Style Reset_Colour])"

text \<open>The newest solutions first, then empty lines.\<close>

definition solution_lines :: "'f formats \<Rightarrow> nat \<Rightarrow> nat \<Rightarrow> 'f miner_solution list \<Rightarrow> cell list list" where
  "solution_lines fm inner_w sol_rows sols =
     (let lines = (if sols = []
            then [Style (Fg C_DIM) # print (lit ''  No solutions yet '' @ 0x2014 # lit '' keep hashing!'') @ [Style Reset_Colour]]
            else map (solution_line fm inner_w (length sols)) (take sol_rows (rev sols)))
      in lines @ replicate (sol_rows - length lines) [])"

definition hkey :: "utext \<Rightarrow> utext \<Rightarrow> cell list" where
  "hkey key label = Style (Fg C_DIM) # print (lit ''['') @ [Style (Fg C_ACCENT), Style Bold] @ print key
     @ [Style Reset, Style (Fg C_DIM)] @ print (lit '']'') @ Style (Fg C_DIM) # print label @ print (lit ''  '')
     @ [Style Reset_Colour]"

definition help_line :: "cell list" where
  "help_line = hkey (lit ''Ctrl+C'') (lit ''Quit  '') @ hkey (lit ''P'') (lit ''Pause/Resume'')"

text \<open>
  The whole picture: what each row shows, and the row of the screen the first one is written to.
  \<open>size\<close> is the answer of the terminal, columns and rows.
\<close>

definition pad_top :: nat where "pad_top = 1"

definition draw ::
    "'f floats \<Rightarrow> 'f formats \<Rightarrow> (style \<Rightarrow> bytes) \<Rightarrow> (nat \<times> nat) option \<Rightarrow> nat \<Rightarrow> 'f option \<Rightarrow> 'f miner_tui \<Rightarrow> cell list list" where
  "draw F fm sgr term_size now temp_opt s =
     (let (cols, rows) = (case term_size of Some cr \<Rightarrow> cr | None \<Rightarrow> (80, 24));
          hashrate = tui_hashrate F now s;
          frame_w = frame_width cols; inner_w = inner_width cols; sol_rows = solution_rows rows
      in map (wline sgr frame_w)
          ([[], title_line, address_line inner_w now s, [], rate_line F fm hashrate,
            stats_line F fm hashrate temp_opt s, [], bar_line F fm inner_w now s, [],
            count_line F fm s, [], solutions_title inner_w]
           @ solution_lines fm inner_w sol_rows (tu_solution_log s) @ [[], help_line]))"

section \<open>Measuring a line\<close>

lemma print_Nil [simp]: "print [] = []" by (simp add: print_def)

text \<open>The leading byte of a character says how many bytes it has.\<close>

lemma lead_byte:
  "n < 0x80 \<Longrightarrow> and (of_nat n :: u8) 0x80 = 0"
  "n < 0x20 \<Longrightarrow> and (of_nat (0xC0 + n) :: u8) 0x80 \<noteq> 0 \<and> and (of_nat (0xC0 + n) :: u8) 0xE0 = 0xC0"
  "n < 0x10 \<Longrightarrow> and (of_nat (0xE0 + n) :: u8) 0x80 \<noteq> 0 \<and> and (of_nat (0xE0 + n) :: u8) 0xE0 = 0xE0
     \<and> and (of_nat (0xE0 + n) :: u8) 0xF0 = 0xE0"
  "n < 0x08 \<Longrightarrow> and (of_nat (0xF0 + n) :: u8) 0x80 \<noteq> 0 \<and> and (of_nat (0xF0 + n) :: u8) 0xE0 = 0xE0
     \<and> and (of_nat (0xF0 + n) :: u8) 0xF0 = 0xF0"
proof -
  have a: "\<forall>n \<in> set [0..<0x80]. and (of_nat n :: u8) 0x80 = 0" by code_simp
  have b: "\<forall>n \<in> set [0..<0x20]. and (of_nat (0xC0 + n) :: u8) 0x80 \<noteq> 0 \<and> and (of_nat (0xC0 + n) :: u8) 0xE0 = 0xC0"
    by code_simp
  have c: "\<forall>n \<in> set [0..<0x10]. and (of_nat (0xE0 + n) :: u8) 0x80 \<noteq> 0 \<and> and (of_nat (0xE0 + n) :: u8) 0xE0 = 0xE0
     \<and> and (of_nat (0xE0 + n) :: u8) 0xF0 = 0xE0" by code_simp
  have d: "\<forall>n \<in> set [0..<0x08]. and (of_nat (0xF0 + n) :: u8) 0x80 \<noteq> 0 \<and> and (of_nat (0xF0 + n) :: u8) 0xE0 = 0xE0
     \<and> and (of_nat (0xF0 + n) :: u8) 0xF0 = 0xF0" by code_simp
  show "n < 0x80 \<Longrightarrow> and (of_nat n :: u8) 0x80 = 0" using a by simp
  show "n < 0x20 \<Longrightarrow> and (of_nat (0xC0 + n) :: u8) 0x80 \<noteq> 0 \<and> and (of_nat (0xC0 + n) :: u8) 0xE0 = 0xC0"
    using b by (metis atLeast0LessThan atLeastLessThan_upt lessThan_iff)
  show "n < 0x10 \<Longrightarrow> and (of_nat (0xE0 + n) :: u8) 0x80 \<noteq> 0 \<and> and (of_nat (0xE0 + n) :: u8) 0xE0 = 0xE0
     \<and> and (of_nat (0xE0 + n) :: u8) 0xF0 = 0xE0" using c by (metis atLeast0LessThan atLeastLessThan_upt lessThan_iff)
  show "n < 0x08 \<Longrightarrow> and (of_nat (0xF0 + n) :: u8) 0x80 \<noteq> 0 \<and> and (of_nat (0xF0 + n) :: u8) 0xE0 = 0xE0
     \<and> and (of_nat (0xF0 + n) :: u8) 0xF0 = 0xF0" using d by (metis atLeast0LessThan atLeastLessThan_upt lessThan_iff)
qed

lemma strip_plain:
  "b \<noteq> 0x1B \<Longrightarrow> strip_ansi_len (b # bs) =
     (if and b 0x80 = 0 then 1 + strip_ansi_len bs
      else if and b 0xE0 = 0xC0 then 1 + strip_ansi_len (drop 1 bs)
      else if and b 0xF0 = 0xE0 then 1 + strip_ansi_len (drop 2 bs)
      else 1 + strip_ansi_len (drop 3 bs))"
  by (simp add: strip_ansi_len.simps(2))

lemma not_escape: "and b 0x80 \<noteq> 0 \<Longrightarrow> b \<noteq> 0x1B" for b :: u8
  by auto

lemma strip_glyph:
  assumes "c < 0x110000" "c \<noteq> 0x1B"
  shows "strip_ansi_len (utf8 c @ bs) = Suc (strip_ansi_len bs)"
proof -
  consider "c < 0x80" | "0x80 \<le> c" "c < 0x800" | "0x800 \<le> c" "c < 0x10000" | "0x10000 \<le> c"
    by linarith
  then show ?thesis
  proof cases
    case 1
    have "(of_nat c :: u8) \<noteq> 0x1B"
    proof
      assume "(of_nat c :: u8) = 0x1B"
      then have "unat (of_nat c :: u8) = 0x1B" by simp
      then show False using 1 assms(2) by (simp add: unat_of_nat_small)
    qed
    then show ?thesis using 1 lead_byte(1) [OF 1] by (simp add: utf8_def strip_plain)
  next
    case 2
    then have "c div 0x40 < 0x20" by simp
    from lead_byte(2) [OF this] 2 show ?thesis by (simp add: utf8_def strip_plain not_escape)
  next
    case 3
    then have "c div 0x1000 < 0x10" by simp
    from lead_byte(3) [OF this] 3 show ?thesis by (simp add: utf8_def strip_plain not_escape)
  next
    case 4
    have "c div 0x40000 < 0x08" using assms(1) by simp
    from lead_byte(4) [OF this] 4 show ?thesis by (simp add: utf8_def strip_plain not_escape)
  qed
qed

lemma strip_style:
  assumes "0x6D \<notin> set (sgr st)"
  shows "strip_ansi_len (cell_bytes sgr (Style st) @ bs) = strip_ansi_len bs"
proof -
  have "dropWhile (\<lambda>c. c \<noteq> 0x6D) (sgr st @ 0x6D # bs) = 0x6D # bs"
    using assms by (subst dropWhile_append2) auto
  then show ?thesis by (simp add: strip_ansi_len.simps(2))
qed

text \<open>The characters a line shows, and the lines whose characters a terminal can show.\<close>

definition glyphs :: "cell list \<Rightarrow> utext" where
  "glyphs cells = List.map_filter (\<lambda>c. case c of Glyph g \<Rightarrow> Some g | Style _ \<Rightarrow> None) cells"

definition showable :: "utext \<Rightarrow> bool" where
  "showable t \<longleftrightarrow> (\<forall>c \<in> set t. c < 0x110000 \<and> c \<noteq> 0x1B)"

lemma glyphs_simps [simp]:
  "glyphs [] = []" "glyphs (Glyph g # cs) = g # glyphs cs" "glyphs (Style st # cs) = glyphs cs"
  "glyphs (xs @ ys) = glyphs xs @ glyphs ys" "glyphs (print t) = t"
proof -
  show "glyphs (print t) = t" by (induction t) (auto simp: glyphs_def print_def)
qed (simp_all add: glyphs_def map_filter_def)

lemma showable_simps [simp]:
  "showable []" "showable (c # t) \<longleftrightarrow> c < 0x110000 \<and> c \<noteq> 0x1B \<and> showable t"
  "showable (s @ t) \<longleftrightarrow> showable s \<and> showable t"
  by (auto simp: showable_def)

text \<open>
  the length that \<open>strip_ansi_len\<close> finds in the bytes of a line is the number of characters the
  line shows, whatever styles lie between them and however many bytes each character takes.
\<close>
theorem strip_ansi_len_visible:
  assumes "\<forall>st. 0x6D \<notin> set (sgr st)" "showable (glyphs cells)"
  shows "strip_ansi_len (build_colored sgr cells) = length (glyphs cells)"
  using assms(2)
proof (induction cells)
  case Nil
  then show ?case by (simp add: build_colored_def)
next
  case (Cons c cells)
  show ?case
  proof (cases c)
    case (Glyph g)
    then show ?thesis
      using Cons strip_glyph [of g "build_colored sgr cells"] by (simp add: build_colored_def)
  next
    case (Style st)
    then show ?thesis
      using Cons assms(1) strip_style [of sgr st "build_colored sgr cells"] by (simp add: build_colored_def)
  qed
qed

definition toy_sgr :: "style \<Rightarrow> bytes" where
  "toy_sgr st = (if st = Reset then [48] else [49])"

theorem strip_ansi_len_visible_witness:
  "strip_ansi_len (build_colored toy_sgr help_line) = 33"
  using strip_ansi_len_visible [of toy_sgr help_line]
  by (simp add: toy_sgr_def help_line_def hkey_def lit_def of_char_def)

text \<open>
  every row that is drawn is exactly as wide as the frame, or as its own text with the padding.
\<close>
lemma wline_width:
  assumes "\<forall>st. 0x6D \<notin> set (sgr st)" "showable (glyphs cells)"
  shows "length (glyphs (wline sgr frame_w cells)) = max frame_w (length (glyphs cells) + 2 * PAD_H)"
  by (simp add: wline_def Let_def strip_ansi_len_visible [OF assms] spaces_def PAD_H_def)

section \<open>The picture and the screen\<close>

lemma length_solution_lines: "1 \<le> n \<Longrightarrow> length (solution_lines fm w n sols) = n"
  by (simp add: solution_lines_def Let_def)

text \<open>
  the picture never fits: it has fourteen rows beside those of the solutions, which leave it no
  room for the empty row at the top, so on every screen its final row, the one that names the
  keys, is written below the screen.
\<close>
theorem draw_overflows:
  "length (draw F fm sgr (Some (cols, rows)) now temp_opt s) = 14 + solution_rows rows
   \<and> rows \<le> pad_top + (length (draw F fm sgr (Some (cols, rows)) now temp_opt s) - 1)"
proof -
  have "1 \<le> solution_rows rows" by (simp add: solution_rows_def)
  then have "length (draw F fm sgr (Some (cols, rows)) now temp_opt s) = 14 + solution_rows rows"
    by (simp add: draw_def Let_def length_solution_lines)
  then show ?thesis by (simp add: pad_top_def solution_rows_def)
qed

text \<open>
  a row of a solution fits into the frame, however long its hash prefix is.
\<close>
lemma solution_line_fits:
  "length (glyphs (solution_line fm inner_w n sol)) \<le> inner_w"
  by (simp add: solution_line_def truncate_text_def Let_def)

section \<open>What the keys do\<close>

text \<open>The turns that let the loop go on, and how often they press the key that pauses.\<close>

fun goes_on :: "tui_turn \<Rightarrow> bool" where
  "goes_on (drawn, poll, stopped) \<longleftrightarrow> drawn \<and> \<not> stopped \<and> poll \<noteq> Tui_Failed
     \<and> (\<forall>k. poll = Tui_Key k \<longrightarrow> ke_press k \<longrightarrow> \<not> key_quits (ke_ctrl k) (ke_code k))"

fun pauses :: "tui_turn \<Rightarrow> bool" where
  "pauses (drawn, Tui_Key k, stopped) \<longleftrightarrow> ke_press k \<and> key_pauses (ke_code k)"
| "pauses _ \<longleftrightarrow> False"

lemma tui_turn_goes_on:
  assumes "goes_on t" "tu_running s"
  shows "tui_loop (t # turns) s = tui_loop turns (s\<lparr>tu_paused := (tu_paused s \<noteq> pauses t)\<rparr>)"
proof -
  obtain drawn poll stopped where t: "t = (drawn, poll, stopped)" by (cases t)
  show ?thesis
    using assms by (cases poll) (auto simp: t tui_key_def)
qed

lemma tui_loop_goes_on:
  assumes "\<forall>t \<in> set ts. goes_on t" "tu_running s"
  shows "tui_loop (ts @ turns) s
    = tui_loop turns (s\<lparr>tu_paused := (tu_paused s \<noteq> odd (length (filter pauses ts)))\<rparr>)"
  using assms
proof (induction ts arbitrary: s)
  case Nil
  then show ?case by simp
next
  case (Cons t ts)
  then have t: "goes_on t" by simp
  show ?case
    using Cons.IH [of "s\<lparr>tu_paused := (tu_paused s \<noteq> pauses t)\<rparr>"] Cons.prems
      tui_turn_goes_on [OF t Cons.prems(2), of "ts @ turns"]
    by (cases "pauses t"; cases "tu_paused s") simp_all
qed

text \<open>
  the interface ends at the first press of a key that quits, with the miner stopped, paused exactly
  when the key for it was pressed an odd number of times more than before, and nothing else
  changed; without such a press it does not return on its own.
\<close>
theorem tui_ends_by_key:
  assumes "\<forall>t \<in> set ts. goes_on t" "tu_running s" "ke_press k" "key_quits (ke_ctrl k) (ke_code k)"
  shows "tui_loop (ts @ (True, Tui_Key k, stopped) # later) s
      = (Some Tui_Ok, s\<lparr>tu_running := False, tu_paused := (tu_paused s \<noteq> odd (length (filter pauses ts)))\<rparr>)
    \<and> fst (tui_loop ts s) = None"
proof -
  have "tui_loop ts s = tui_loop [] (s\<lparr>tu_paused := (tu_paused s \<noteq> odd (length (filter pauses ts)))\<rparr>)"
    using tui_loop_goes_on [OF assms(1,2), of "[]"] by simp
  then show ?thesis
    using assms by (simp add: tui_loop_goes_on tui_key_def)
qed

theorem tui_ends_by_key_witness:
  "fst (tui_loop [(True, Tui_Key \<lparr>ke_press = True, ke_ctrl = False, ke_code = Key_Char 112\<rparr>, False),
      (True, Tui_Key \<lparr>ke_press = True, ke_ctrl = True, ke_code = Key_Char 99\<rparr>, False)]
      (miner_tui_new 0 0 0 True 1 16 [] True [] :: int miner_tui)) = Some Tui_Ok"
  using tui_ends_by_key [of "[(True, Tui_Key \<lparr>ke_press = True, ke_ctrl = False, ke_code = Key_Char 112\<rparr>, False)]"
      "miner_tui_new 0 0 0 True 1 16 [] True [] :: int miner_tui"
      "\<lparr>ke_press = True, ke_ctrl = True, ke_code = Key_Char 99\<rparr>" False "[]"]
  by (simp add: miner_tui_new_def key_quits_def of_char_def)

text \<open>
  the terminal is left in raw mode only when one of its own calls failed: an error of the loop itself
  does not keep it from being restored.
\<close>
lemma terminal_restored:
  assumes "run_miner_tui t turns (False, s) = (Some res, raw, s')"
    "tc_hide t" "tc_clear t" "tc_show t" "tc_disable t"
  shows "\<not> raw"
  using assms by (auto simp: run_miner_tui_def split: if_splits prod.splits option.splits)

section \<open>The temperature\<close>

text \<open>
  the temperature that is shown was read from one of the first eight zones and lies between 0 and
  120 degrees, and the zones before it gave none.
\<close>
lemma first_zone_plausible:
  "first_zone F files zs = Some c \<Longrightarrow>
     \<exists>xs i ys. zs = xs @ i # ys \<and> zone_celsius F (files i) = Some c
       \<and> (\<forall>j \<in> set xs. zone_celsius F (files j) = None)"
proof (induction zs)
  case (Cons i zs)
  show ?case
  proof (cases "zone_celsius F (files i)")
    case None
    then obtain xs j ys where "zs = xs @ j # ys" "zone_celsius F (files j) = Some c"
      "\<forall>j \<in> set xs. zone_celsius F (files j) = None" using Cons by auto
    then show ?thesis using None by (intro exI [of _ "i # xs"]) auto
  next
    case (Some d)
    then show ?thesis using Cons.prems by (intro exI [of _ "[]"]) auto
  qed
qed simp

theorem cpu_temp_plausible:
  assumes "read_cpu_temp F files = Some c"
  shows "f_less F (f_zero F) c \<and> f_less F c (f_lit F 120 0)
    \<and> (\<exists>i < 8. zone_celsius F (files i) = Some c \<and> (\<forall>j < i. zone_celsius F (files j) = None))"
proof -
  obtain xs i ys where z: "[0..<8] = xs @ i # ys" "zone_celsius F (files i) = Some c"
    "\<forall>j \<in> set xs. zone_celsius F (files j) = None"
    using first_zone_plausible [OF assms [unfolded read_cpu_temp_def]] by blast
  have "length [0..<8::nat] = length xs + Suc (length ys)" by (simp only: z(1) length_append list.size)
  then have l: "length xs < 8" unfolding length_upt by linarith
  have "i = [0..<8] ! length xs" by (simp only: z(1) nth_append_length)
  then have i: "i = length xs" "i < 8" using l nth_upt [of 0 "length xs" 8] by simp_all
  have "xs = [0..<i]"
    using arg_cong [OF z(1), of "take (length xs)"] i by (simp add: take_upt)
  moreover have "f_less F (f_zero F) c \<and> f_less F c (f_lit F 120 0)"
    using z(2) by (auto simp: zone_celsius_def Let_def split: option.splits if_splits)
  ultimately show ?thesis using z i(2) by auto
qed

definition toy_zones :: "nat \<Rightarrow> bytes option" where
  "toy_zones i = (if i = 3 then Some [53, 53, 48, 48, 48] else None)"

theorem cpu_temp_plausible_witness:
  "\<exists>i < 8. zone_celsius int_floats (toy_zones i) = Some 55"
proof -
  have t: "trim_ascii [53, 53, 48, 48, 48] = [53, 53, 48, 48, 48]"
    by (simp add: trim_ascii_def is_space_def)
  have "zone_celsius int_floats (toy_zones 3) = Some 55"
    unfolding toy_zones_def zone_celsius_def
    by (simp add: t parse_i64_def parse_unsigned_def int_floats_def f_zero_def)
  moreover have "[0..<8] = [0, 1, 2, 3, 4, 5, 6, 7 :: nat]" by (simp add: upt_rec)
  moreover have "toy_zones 0 = None" "toy_zones 1 = None" "toy_zones 2 = None"
    by (simp_all add: toy_zones_def)
  moreover have "zone_celsius int_floats None = None" by (simp add: zone_celsius_def)
  ultimately have "read_cpu_temp int_floats toy_zones = Some 55"
    by (simp add: read_cpu_temp_def)
  from cpu_temp_plausible [OF this] show ?thesis by blast
qed

end
