(* ===== verification/Spec2Isabelle.thy ===== *)
theory Spec2Isabelle
  imports Prelude Extern Hash Wallet Transaction Ledger Block Chain Chain_Inv Chain_Props
    Finality Dedup Protocol Mempool Peers Sync
    Node_Finality Node Node_Blocks Node_Loop Node_Inv Node_Safe Node_System Node_Props Node_Effects
    Node_Forks Node_Sync
    Pool_Db Floats Vardiff Scoring Pool Pool_Share Pool_Payout Pool_System Pool_Races Pool_Node Pool_Stats
    Rpc Rpc_Reads Rpc_Props Cli Cli_Send Cli_Mine
    Decimal Discovery Burst Thermal Scratchpad Miner Miner_Props Miner_Bench System_Info Hybrid Cli_Bench
    Cli_Report Cli_Commands Cli_Main Node_Start Tui
begin

text \<open>
  A model of TARON, a proof-of-work cryptocurrency written in Rust (src/crates), and the theorems
  that say what its parts do. Paths below are relative to src/crates and leave out \<open>taron-\<close>.

  \<^bold>\<open>The program.\<close> The core crate has the hash function SEQUAL-256, wallets, transactions with their
  own small proof of work, blocks, the account ledger, the block store with its difficulty
  adjustment and reorganisations, and a tracker of acknowledgements. The node crate keeps one
  block store, one ledger, a pool of pending transactions and a table of peers, exchanges
  messages with its peers and answers HTTP requests. The pool crate takes its templates from a node,
  hands out work, counts the shares of miners, and puts into each block it finds the transactions that pay
  them. The command line program starts all of this, sends coins, and mines, in a pool or in
  its own node. The miner crate is a separate mining engine with a thermal governor; the crypto crate
  has hybrid signatures and an encrypted channel; neither is used by the node.

  \<^bold>\<open>Theories and sources.\<close>
  \<^item> \<open>Prelude\<close>: words as Rust integers, byte arrays, codecs and state machines as locales.
    \<open>Extern\<close>: the third-party functions as one record, errors and panics (core/src/error.rs).
    \<open>Floats\<close>: floating-point arithmetic as a record. \<open>Decimal\<close>: numbers, lines and words in texts.
  \<^item> In core/src: \<open>Hash\<close> is hash.rs, \<open>Wallet\<close> wallet.rs, \<open>Transaction\<close> transaction.rs and posc.rs,
    \<open>Ledger\<close> genesis.rs and ledger.rs, \<open>Block\<close> block.rs.
  \<^item> \<open>Chain\<close>: core/src/blockchain.rs. \<open>Chain_Inv\<close>: its invariant, that the store represents a list
    of blocks. \<open>Chain_Props\<close>: refinement of the list, reverting, reorganising, difficulty, loading.
  \<^item> \<open>Finality\<close>, \<open>Node_Finality\<close>: core/src/finality.rs and node/src/finality.rs.
  \<^item> \<open>Protocol\<close>, \<open>Mempool\<close>, \<open>Peers\<close>, \<open>Sync\<close>, \<open>Discovery\<close>: the files of these names in node/src.
  \<^item> \<open>Node\<close>, \<open>Node_Blocks\<close>, \<open>Node_Loop\<close>: node/src/node.rs and seeds.rs, one definition per handler, and the
    node with all its connections as one machine (\<open>sys_step\<close>). \<open>Node_Inv\<close>, \<open>Node_Safe\<close> and
    \<open>Node_System\<close>: the invariant of that machine. \<open>Node_Props\<close>, \<open>Node_Effects\<close>, \<open>Node_Forks\<close>, \<open>Node_Sync\<close>:
    its properties, of all runs, of single handlers and of two nodes.
  \<^item> \<open>Rpc\<close>: node/src/rpc.rs. \<open>Rpc_Reads\<close>, \<open>Rpc_Props\<close>: its answers, and what gets in through it.
  \<^item> \<open>Dedup\<close>, \<open>Vardiff\<close>, \<open>Scoring\<close>, \<open>Pool_Db\<close>: the files dedup.rs, vardiff.rs, scoring.rs and db.rs in pool/src. \<open>Pool\<close>,
    \<open>Pool_Payout\<close>, \<open>Pool_Stats\<close>: pool/src/main.rs. \<open>Pool_Share\<close>, \<open>Pool_System\<close>: shares and whole rounds.
    \<open>Pool_Races\<close>: the share handler and the watcher cut at their locks (\<open>threads_step\<close>). \<open>Pool_Node\<close>: the pool
    and a node together.
  \<^item> \<open>Cli\<close>: cli/src/main.rs and node/src/state_file.rs. \<open>Cli_Send\<close>, \<open>Cli_Mine\<close>: sending and mining against
    the models of node and pool. \<open>Cli_Commands\<close>: the wizard, the wallet and status commands, and
    how the pool asks its node. \<open>Cli_Main\<close>: all commands, and the tasks a node is started with.
    \<open>Cli_Bench\<close>, \<open>Cli_Report\<close>: cli/src/bench.rs. \<open>Tui\<close>: cli/src/miner_tui.rs.
  \<^item> \<open>Node_Start\<close>: whom a node dials (node/src/node.rs), and the file of the ledger (core/src/ledger.rs)
    when the node is stopped while it saves.
  \<^item> \<open>Burst\<close>, \<open>Thermal\<close>, \<open>Scratchpad\<close>, \<open>Miner\<close>: the files burst.rs, thermal.rs, aligned.rs, and engine.rs with
    lib.rs, in miner/src. \<open>Miner_Props\<close>: the engine with several loops as an inductive step relation.
    \<open>Miner_Bench\<close>, \<open>System_Info\<close>: bench.rs and the check of the system in lib.rs.
  \<^item> \<open>Hybrid\<close>: crypto/src/hybrid.rs, noise_transport.rs, error.rs.

  \<^bold>\<open>How the code is read.\<close> A struct is a record, an enum a datatype; \<open>u8\<close>, \<open>u32\<close>, \<open>u64\<close> are words whose
  arithmetic wraps, as in the release build; a hash map is a map, and where the code depends on
  its order, the order is an argument. An operation takes the state and returns its result and
  the state, since a call that fails may have changed the state before. \<open>Result\<close> is a sum; a panic
  is the value \<open>Panic\<close> of \<open>fault\<close>, or \<open>None\<close> where nothing else can go wrong. A handler that holds its locks
  from its first to its last access is one atomic step; where the pool takes its locks one after the
  other, \<open>Pool_Races\<close> has the steps between. Clocks, randomness, open channels and answers of other
  processes are arguments (\<open>env\<close>, \<open>pool_env\<close>, \<open>round_env\<close>).

  \<^bold>\<open>Parameters.\<close> SHA3, Ed25519 and hex (\<open>crypto\<close>), RocksDB and bincode (\<open>storage\<close>), JSON
  (\<open>json_codec\<close>, \<open>wallet_json\<close>, \<open>state_json\<close>), floating point (\<open>floats\<close>), Dilithium (\<open>dilithium\<close>), Noise (\<open>noise\<close>) and the
  allocator are records of functions or functions. What the code relies on is stated of them as a
  predicate (\<open>hex_ok\<close>, \<open>ed_ok\<close>, \<open>storage_ok\<close>, \<open>codec_ok\<close>, \<open>dil_ok\<close>, \<open>noise_ok\<close>, \<open>less_ok\<close>) and assumed only where it is
  needed; the instances \<open>toy_crypto\<close>, \<open>toy_storage\<close>, \<open>int_floats\<close> and so on show that the predicates can hold,
  and every property with a hypothesis is applied to them in its witness.

  \<^bold>\<open>What is shown.\<close>
  \<^item> The chain. Applying a block to the store refines appending to a list of blocks, under an
    exact condition; reverting undoes it; a reorganisation keeps the checkpoints; every block mints its
    reward and burns its fees; the store survives a restart; the difficulty is always the one its blocks
    give; the tip refuses a transaction it has accepted before. A block that fails leaves its
    reward and its first transactions in the ledger.
  \<^item> The node. After any history of messages, timers and connections the chain in the store is
    valid and no handler panics; a node downloads the chain of an honest peer, if its chunks of 25
    blocks fit in a message, and stops at the first that does not.
    Not everything holds: a peer can make a node that downloads repeat old transfers, a refused block mints its reward, a batch without work makes a node give
    up blocks, a transaction received by gossip cannot be mined any more, no transaction
    is ever confirmed, a node without a peer never mines, and a crash between applying and saving
    loses the reward of a block. These are theorems, and they are listed among the findings.
  \<^item> The pool. A round pays every miner its part, the payouts apply on the node, and a share at the
    difficulty of the chain becomes the tip, when the block with the payouts fits in a request. A nonce counts for as many miners as send it; payouts of a refused block
    stay recorded; conflicting transactions stop a pool. The accounts hold under every schedule of the handlers and
    the watcher, but a share between two sections of the watcher is lost or not paid, and the first
    poll after a start forgets the shares before it.
  \<^item> The command line. What is sent is taken by the node, a share found is taken by the
    pool, a block mined in the node extends its chain; two sends in a row conflict, work that is not
    renewed goes stale, and a block mined in the node shuts pools out. A finished first start leaves a
    usable wallet; no command but the one that generates a wallet replaces it, and that one does so without
    asking; the status cannot be read while the node runs, and a node that mines for a pool serves nobody.
  \<^item> The miner crate. Every hash the engine reports is real work and no nonce is reported twice, but its loop does not
    get to mine, because the branch for commands is always ready; presets are forgotten, and a sensor that reads 120 degrees lifts the throttle.
  \<^item> The crypto crate. Signatures and the channel round-trip; the Dilithium part accepts the
    tail of a signed message.

  \<^bold>\<open>Bounds and fuel.\<close> Loops are structural recursion, recursion on a measure, or recursion over the
  list of what the surroundings deliver. The hash runs for its number of steps, which is at most
  32 bits wide. Invariants of the node carry a budget: the number of blocks the chain may still grow by before
  64-bit heights run out; nonces of the engine are distinct for 2 to the power of 64 rounds.

  \<^bold>\<open>Not modelled.\<close> Argument parsing, banners and fixed texts (cli/src/main.rs), the printing of the report of the
  miner crate, the benches directories, the build script, accessors and derived trait instances, the
  spawning of tasks with the cloning of what they share, log lines (those at the debug level are not even
  evaluated by default), and routing and CORS of the HTTP servers: they print, measure or configure
  libraries. The limit on request bodies is modelled where a block is submitted (\<open>Pool_Node\<close>), the limit on
  messages in \<open>Protocol\<close> and \<open>Node_Sync\<close>. The SQL engine is not modelled beyond the
  statements the pool issues, nor are interleavings inside the handlers of the node and inside the block submitter.
\<close>

end
